(* ===== verification/Prelude.thy ===== *)
theory Prelude
  imports Main "HOL-Library.Word"
begin

text \<open>
  Shared vocabulary of the VKey development.

  A \<open>wchar_t\<close> of the Windows build is a UTF-16 code unit; the model carries it as a natural
  number (\<open>wchar\<close>) and compares it with literals, exactly as the sources do.  The letters of
  the sources (\<open>L'a'\<close>, \<open>L'['\<close>, ...) are the abbreviations \<open>L_a\<close>, \<open>L_lbracket\<close>, ... below.

  The C library calls \<open>towlower\<close>, \<open>towupper\<close> and \<open>iswupper\<close> are modelled in the "C" locale,
  the only locale the program runs in (no file of the Windows build calls \<open>setlocale\<close>): they act
  on the ASCII letters and leave every other code unit alone.
\<close>

type_synonym wchar = nat
type_synonym wstring = "wchar list"

named_theorems cs_defs \<open>definitions of the character-state predicates\<close>
named_theorems inv_intros \<open>preservation of the engine invariant by one operation\<close>

abbreviation L_a :: wchar where "L_a \<equiv> 0x61"
abbreviation L_b :: wchar where "L_b \<equiv> 0x62"
abbreviation L_c :: wchar where "L_c \<equiv> 0x63"
abbreviation L_d :: wchar where "L_d \<equiv> 0x64"
abbreviation L_e :: wchar where "L_e \<equiv> 0x65"
abbreviation L_f :: wchar where "L_f \<equiv> 0x66"
abbreviation L_g :: wchar where "L_g \<equiv> 0x67"
abbreviation L_h :: wchar where "L_h \<equiv> 0x68"
abbreviation L_i :: wchar where "L_i \<equiv> 0x69"
abbreviation L_j :: wchar where "L_j \<equiv> 0x6A"
abbreviation L_k :: wchar where "L_k \<equiv> 0x6B"
abbreviation L_l :: wchar where "L_l \<equiv> 0x6C"
abbreviation L_m :: wchar where "L_m \<equiv> 0x6D"
abbreviation L_n :: wchar where "L_n \<equiv> 0x6E"
abbreviation L_o :: wchar where "L_o \<equiv> 0x6F"
abbreviation L_p :: wchar where "L_p \<equiv> 0x70"
abbreviation L_q :: wchar where "L_q \<equiv> 0x71"
abbreviation L_r :: wchar where "L_r \<equiv> 0x72"
abbreviation L_s :: wchar where "L_s \<equiv> 0x73"
abbreviation L_t :: wchar where "L_t \<equiv> 0x74"
abbreviation L_u :: wchar where "L_u \<equiv> 0x75"
abbreviation L_v :: wchar where "L_v \<equiv> 0x76"
abbreviation L_w :: wchar where "L_w \<equiv> 0x77"
abbreviation L_x :: wchar where "L_x \<equiv> 0x78"
abbreviation L_y :: wchar where "L_y \<equiv> 0x79"
abbreviation L_z :: wchar where "L_z \<equiv> 0x7A"
abbreviation L_lbracket :: wchar where "L_lbracket \<equiv> 0x5B"
abbreviation L_rbracket :: wchar where "L_rbracket \<equiv> 0x5D"
abbreviation L_lbrace :: wchar where "L_lbrace \<equiv> 0x7B"
abbreviation L_rbrace :: wchar where "L_rbrace \<equiv> 0x7D"
abbreviation L_0 :: wchar where "L_0 \<equiv> 0x30"
abbreviation L_9 :: wchar where "L_9 \<equiv> 0x39"
abbreviation dd_lower :: wchar where "dd_lower \<equiv> 0x111"
abbreviation dd_upper :: wchar where "dd_upper \<equiv> 0x110"

subsection \<open>The C locale\<close>

definition towlower :: "wchar \<Rightarrow> wchar" where
  "towlower c = (if 0x41 \<le> c \<and> c \<le> 0x5A then c + 0x20 else c)"

definition towupper :: "wchar \<Rightarrow> wchar" where
  "towupper c = (if 0x61 \<le> c \<and> c \<le> 0x7A then c - 0x20 else c)"

definition iswupper :: "wchar \<Rightarrow> bool" where
  "iswupper c \<longleftrightarrow> 0x41 \<le> c \<and> c \<le> 0x5A"

lemma towlower_idem [simp]: "towlower (towlower c) = towlower c"
  by (simp add: towlower_def)

lemma towlower_eq_0 [simp]: "towlower c = 0 \<longleftrightarrow> c = 0"
  by (simp add: towlower_def)

lemma towupper_towlower [simp]: "towupper (towlower c) = towupper c"
  by (auto simp: towlower_def towupper_def)

subsection \<open>Lists scanned by index\<close>

text \<open>The first index at or after \<open>k\<close> whose element satisfies \<open>P\<close>: the forward scans
  \<open>for (i = 0; i < n; ++i) if (P(a[i])) return i;\<close> of the sources, \<open>SIZE_MAX\<close> being \<open>None\<close>.\<close>

fun first_index :: "('a \<Rightarrow> bool) \<Rightarrow> 'a list \<Rightarrow> nat option" where
  "first_index P [] = None"
| "first_index P (x # xs) = (if P x then Some 0 else map_option Suc (first_index P xs))"

text \<open>The backward scan \<open>for (i = n; i-- > 0;) if (P(i)) return i;\<close> over indices.\<close>

fun last_idx :: "(nat \<Rightarrow> bool) \<Rightarrow> nat \<Rightarrow> nat option" where
  "last_idx P 0 = None"
| "last_idx P (Suc n) = (if P n then Some n else last_idx P n)"

text \<open>The forward scan over indices \<open>for (i = k; i < n; ++i) if (P(i)) return i;\<close>.\<close>

definition first_idx :: "(nat \<Rightarrow> bool) \<Rightarrow> nat \<Rightarrow> nat option" where
  "first_idx P n = find P [0..<n]"

lemma first_index_Some:
  "first_index P xs = Some i \<longleftrightarrow> i < length xs \<and> P (xs ! i) \<and> (\<forall>j<i. \<not> P (xs ! j))"
proof (induction xs arbitrary: i)
  case (Cons x xs)
  then show ?case
    by (cases i) (auto simp: less_Suc_eq_0_disj nth_Cons')
qed simp

lemma first_index_None: "first_index P xs = None \<longleftrightarrow> (\<forall>x\<in>set xs. \<not> P x)"
  by (induction xs) auto

lemma last_idx_Some:
  "last_idx P n = Some i \<longleftrightarrow> i < n \<and> P i \<and> (\<forall>j. i < j \<and> j < n \<longrightarrow> \<not> P j)"
  by (induction n) (auto simp: less_Suc_eq)

lemma last_idx_SomeD: "last_idx P n = Some i \<Longrightarrow> i < n \<and> P i"
  by (simp add: last_idx_Some)

lemma last_idx_None: "last_idx P n = None \<longleftrightarrow> (\<forall>i<n. \<not> P i)"
  by (induction n) (auto simp: less_Suc_eq)

lemma first_idx_SomeD: "first_idx P n = Some i \<Longrightarrow> i < n \<and> P i"
  by (auto simp: first_idx_def find_Some_iff)

lemma first_idx_None: "first_idx P n = None \<longleftrightarrow> (\<forall>i<n. \<not> P i)"
  by (auto simp: first_idx_def find_None_iff)

subsection \<open>Elementwise predicates under list updates\<close>

lemma list_all_update: "list_all P xs \<Longrightarrow> (i < length xs \<Longrightarrow> P x) \<Longrightarrow> list_all P (xs[i := x])"
  unfolding list_all_length by (metis length_list_update nth_list_update_eq nth_list_update_neq)

lemma list_all_take: "list_all P xs \<Longrightarrow> list_all P (take n xs)"
  by (simp add: list_all_length)

lemma list_all_drop: "list_all P xs \<Longrightarrow> list_all P (drop n xs)"
  by (simp add: list_all_length)

lemma list_all_butlast: "list_all P xs \<Longrightarrow> list_all P (butlast xs)"
  by (simp add: butlast_conv_take list_all_take)

lemma list_all_nth: "list_all P xs \<Longrightarrow> i < length xs \<Longrightarrow> P (xs ! i)"
  by (simp add: list_all_length)

lemma list_all_last: "list_all P xs \<Longrightarrow> xs \<noteq> [] \<Longrightarrow> P (last xs)"
  by (simp add: last_conv_nth list_all_nth)

text \<open>\<open>std::vector::erase(begin() + i)\<close>.\<close>

definition erase_at :: "nat \<Rightarrow> 'a list \<Rightarrow> 'a list" where
  "erase_at i xs = take i xs @ drop (Suc i) xs"

lemma length_erase_at: "i < length xs \<Longrightarrow> length (erase_at i xs) = length xs - 1"
  by (simp add: erase_at_def)

lemma list_all_erase_at: "list_all P xs \<Longrightarrow> list_all P (erase_at i xs)"
  by (simp add: erase_at_def list_all_take list_all_drop)

end
