(* ===== verification/VietTables.thy ===== *)
theory VietTables
  imports Prelude
begin

text \<open>
  The Vietnamese lookup tables and case conversions of
  \<open>src/core/engine/VietnameseTables.h\<close>: modified and toned vowels, \<open>StripTone\<close>,
  \<open>DecomposeVietChar\<close>, the diphthong tables and the Vietnamese case maps.  A table index
  of \<open>-1\<close> is \<open>None\<close>.  The lemmas show the tables are injective, that the case maps are
  inverse to each other on the Vietnamese letters, and that \<open>StripTone\<close> is idempotent.
\<close>

subsection \<open>Modified and toned vowels\<close>

definition kModifiedVowel :: "wchar list list" where
  "kModifiedVowel =
    [[0xE2, 0x103, 0],
     [0xEA, 0, 0],
     [0xF4, 0, 0x1A1],
     [0, 0, 0x1B0]]"

definition VowelBaseIndex :: "wchar \<Rightarrow> nat option" where
  "VowelBaseIndex base =
    (if base = L_a then Some 0 else if base = L_e then Some 1
     else if base = L_o then Some 2 else if base = L_u then Some 3 else None)"

definition kTonedVowel :: "wchar list list" where
  "kTonedVowel =
    [[0xE1, 0xE0, 0x1EA3, 0xE3, 0x1EA1],
     [0x1EA5, 0x1EA7, 0x1EA9, 0x1EAB, 0x1EAD],
     [0x1EAF, 0x1EB1, 0x1EB3, 0x1EB5, 0x1EB7],
     [0xE9, 0xE8, 0x1EBB, 0x1EBD, 0x1EB9],
     [0x1EBF, 0x1EC1, 0x1EC3, 0x1EC5, 0x1EC7],
     [0xED, 0xEC, 0x1EC9, 0x129, 0x1ECB],
     [0xF3, 0xF2, 0x1ECF, 0xF5, 0x1ECD],
     [0x1ED1, 0x1ED3, 0x1ED5, 0x1ED7, 0x1ED9],
     [0x1EDB, 0x1EDD, 0x1EDF, 0x1EE1, 0x1EE3],
     [0xFA, 0xF9, 0x1EE7, 0x169, 0x1EE5],
     [0x1EE9, 0x1EEB, 0x1EED, 0x1EEF, 0x1EF1],
     [0xFD, 0x1EF3, 0x1EF7, 0x1EF9, 0x1EF5]]"

definition kToneBase :: "wchar list" where
  "kToneBase = [L_a, 0xE2, 0x103, L_e, 0xEA, L_i, L_o, 0xF4, 0x1A1, L_u, 0x1B0, L_y]"

definition ToneBaseIndex :: "wchar \<Rightarrow> nat option" where
  "ToneBaseIndex ch = first_index (\<lambda>b. b = ch) kToneBase"

text \<open>The doubly nested search \<open>for i < 12, j < 5: if (kTonedVowel[i][j] == low)\<close>.\<close>

fun search_rows :: "wchar list list \<Rightarrow> wchar \<Rightarrow> (nat \<times> nat) option" where
  "search_rows [] ch = None"
| "search_rows (r # rs) ch =
    (case first_index (\<lambda>x. x = ch) r of
       Some j \<Rightarrow> Some (0, j)
     | None \<Rightarrow> map_option (\<lambda>(i, j). (Suc i, j)) (search_rows rs ch))"

definition StripTone :: "wchar \<Rightarrow> wchar" where
  "StripTone ch =
    (if ToneBaseIndex ch \<noteq> None then ch
     else (case search_rows kTonedVowel (towlower ch) of
             Some (i, j) \<Rightarrow> kToneBase ! i
           | None \<Rightarrow> ch))"

subsection \<open>Case conversion\<close>

definition ToUpperVietnamese :: "wchar \<Rightarrow> wchar" where
  "ToUpperVietnamese ch =
    (if 0xE0 \<le> ch \<and> ch \<le> 0xF6 then ch - 0x20
     else if 0xF8 \<le> ch \<and> ch \<le> 0xFE then ch - 0x20
     else if ch = 0x103 then 0x102
     else if ch = 0x111 then 0x110
     else if ch = 0x129 then 0x128
     else if ch = 0x169 then 0x168
     else if ch = 0x1A1 then 0x1A0
     else if ch = 0x1B0 then 0x1AF
     else if 0x1EA0 \<le> ch \<and> ch \<le> 0x1EF9 then (if odd ch then ch - 1 else ch)
     else towupper ch)"

definition ToLowerVietnamese :: "wchar \<Rightarrow> wchar" where
  "ToLowerVietnamese ch =
    (if 0xC0 \<le> ch \<and> ch \<le> 0xD6 then ch + 0x20
     else if 0xD8 \<le> ch \<and> ch \<le> 0xDE then ch + 0x20
     else if ch = 0x102 then 0x103
     else if ch = 0x110 then 0x111
     else if ch = 0x1A0 then 0x1A1
     else if ch = 0x1AF then 0x1B0
     else if 0x1EA0 \<le> ch \<and> ch \<le> 0x1EF9 \<and> even ch then ch + 1
     else towlower ch)"

subsection \<open>Decomposition\<close>

text \<open>The local lambda \<open>decomposeToneBase\<close>: base letter and modifier index of an untoned vowel.\<close>

definition decomposeToneBase :: "wchar \<Rightarrow> (wchar \<times> nat option) option" where
  "decomposeToneBase tb =
    (if tb = L_a \<or> tb = L_e \<or> tb = L_i \<or> tb = L_o \<or> tb = L_u \<or> tb = L_y then Some (tb, None)
     else if tb = 0xE2 then Some (L_a, Some 0)
     else if tb = 0x103 then Some (L_a, Some 1)
     else if tb = 0xEA then Some (L_e, Some 0)
     else if tb = 0xF4 then Some (L_o, Some 0)
     else if tb = 0x1A1 then Some (L_o, Some 2)
     else if tb = 0x1B0 then Some (L_u, Some 2)
     else None)"

text \<open>\<open>DecomposeVietChar\<close> with its four out-parameters (base, modifier index, tone index, upper
  case) as the value of an option; \<open>None\<close> is the return value \<open>false\<close>.\<close>

definition DecomposeVietChar :: "wchar \<Rightarrow> (wchar \<times> nat option \<times> nat option \<times> bool) option" where
  "DecomposeVietChar ch =
    (let lower = ToLowerVietnamese ch; up = (lower \<noteq> ch) in
     if lower = 0x111 then Some (L_d, Some 3, None, up)
     else case search_rows kTonedVowel lower of
       Some (i, j) \<Rightarrow>
         (case decomposeToneBase (kToneBase ! i) of
            Some (b, m) \<Rightarrow> Some (b, m, Some j, up)
          | None \<Rightarrow> None)
     | None \<Rightarrow>
         (case decomposeToneBase lower of
            Some (b, m) \<Rightarrow> Some (b, m, None, up)
          | None \<Rightarrow>
              if L_a \<le> lower \<and> lower \<le> L_z then Some (lower, None, None, up) else None))"

subsection \<open>Diphthongs and triphthongs\<close>

definition DiphthongVowelIndex :: "wchar \<Rightarrow> nat option" where
  "DiphthongVowelIndex base =
    (if base = L_a then Some 0 else if base = L_e then Some 1 else if base = L_i then Some 2
     else if base = L_o then Some 3 else if base = L_u then Some 4 else if base = L_y then Some 5
     else None)"

definition kDiphthongClassic :: "nat list list" where
  "kDiphthongClassic =
    [[0, 0, 1, 1, 1, 1],
     [0, 0, 1, 1, 1, 0],
     [1, 0, 0, 0, 1, 0],
     [3, 3, 1, 0, 1, 0],
     [1, 1, 1, 0, 0, 3],
     [0, 0, 0, 0, 3, 0]]"

definition kDiphthongModern :: "nat list list" where
  "kDiphthongModern =
    [[0, 0, 1, 1, 1, 1],
     [0, 0, 1, 1, 1, 0],
     [1, 0, 0, 0, 1, 0],
     [2, 2, 1, 0, 1, 0],
     [1, 2, 1, 2, 0, 2],
     [0, 0, 0, 0, 3, 0]]"

definition diphthongRule :: "bool \<Rightarrow> nat \<Rightarrow> nat \<Rightarrow> nat" where
  "diphthongRule modernOrtho fi li =
    (if modernOrtho then kDiphthongModern ! fi ! li else kDiphthongClassic ! fi ! li)"

definition IsTriphthong :: "wchar \<Rightarrow> wchar \<Rightarrow> wchar \<Rightarrow> bool" where
  "IsTriphthong v1 v2 v3 \<longleftrightarrow>
     (v1 = L_o \<and> v2 = L_a \<and> v3 = L_i) \<or>
     (v1 = L_o \<and> v2 = L_e \<and> v3 = L_o) \<or>
     (v1 = L_u \<and> v2 = L_y \<and> v3 = L_a) \<or>
     (v1 = L_u \<and> v2 = L_y \<and> v3 = L_u) \<or>
     (v1 = L_o \<and> v2 = L_a \<and> v3 = L_o) \<or>
     (v1 = L_o \<and> v2 = L_a \<and> v3 = L_y)"

definition IsBareSmartTriphthongTail :: "wchar \<Rightarrow> wchar \<Rightarrow> wchar \<Rightarrow> bool" where
  "IsBareSmartTriphthongTail v1 v2 v3 \<longleftrightarrow> v1 = L_u \<and> v2 = L_y \<and> v3 = L_e"

definition IsVowelChar :: "wchar \<Rightarrow> bool" where
  "IsVowelChar c \<longleftrightarrow>
     c = L_a \<or> c = L_e \<or> c = L_i \<or> c = L_o \<or> c = L_u \<or> c = L_y \<or>
     c = 0x41 \<or> c = 0x45 \<or> c = 0x49 \<or> c = 0x4F \<or> c = 0x55 \<or> c = 0x59"

lemma search_rows_Some:
  assumes "search_rows rs ch = Some (i, j)"
  shows "i < length rs \<and> j < length (rs ! i) \<and> rs ! i ! j = ch"
  using assms
proof (induction rs arbitrary: i)
  case (Cons r rs)
  then show ?case
    by (cases i) (auto simp: first_index_Some split: option.splits)
qed simp

lemma StripTone_idem: "StripTone (StripTone ch) = StripTone ch"
proof (cases "ToneBaseIndex ch \<noteq> None \<or> search_rows kTonedVowel (towlower ch) = None")
  case True
  then show ?thesis by (auto simp: StripTone_def split: option.splits)
next
  case False
  then obtain i j where s: "search_rows kTonedVowel (towlower ch) = Some (i, j)" "ToneBaseIndex ch = None"
    by auto
  then have "i < 12" using search_rows_Some[OF s(1)] by (simp add: kTonedVowel_def)
  then have "kToneBase ! i \<in> set kToneBase" by (intro nth_mem) (simp add: kToneBase_def)
  then have "ToneBaseIndex (kToneBase ! i) \<noteq> None"
    by (simp add: ToneBaseIndex_def first_index_None del: not_None_eq)
  with s show ?thesis by (simp add: StripTone_def)
qed

text \<open>The code units that each case map moves.\<close>

definition lowered :: "wchar \<Rightarrow> bool" where
  "lowered ch \<longleftrightarrow> (0x41 \<le> ch \<and> ch \<le> 0x5A) \<or> (0xC0 \<le> ch \<and> ch \<le> 0xDE \<and> ch \<noteq> 0xD7) \<or>
     ch \<in> {0x102, 0x110, 0x1A0, 0x1AF} \<or> (0x1EA0 \<le> ch \<and> ch \<le> 0x1EF9 \<and> even ch)"

lemma ToLowerVietnamese_moves: "ToLowerVietnamese ch \<noteq> ch \<longleftrightarrow> lowered ch"
  by (cases "0x41 \<le> ch \<and> ch \<le> 0x5A"; cases "0xC0 \<le> ch \<and> ch \<le> 0xDE")
     (auto simp: ToLowerVietnamese_def lowered_def towlower_def)

lemma not_lowered_ToLower: "lowered ch \<Longrightarrow> \<not> lowered (ToLowerVietnamese ch)"
  unfolding lowered_def ToLowerVietnamese_def
  by (elim disjE conjE insertE emptyE) (simp_all add: towlower_def)

lemma ToLowerVietnamese_idem: "ToLowerVietnamese (ToLowerVietnamese ch) = ToLowerVietnamese ch"
  using ToLowerVietnamese_moves not_lowered_ToLower by metis

lemma ToLowerVietnamese_ne_0 [simp]: "ToLowerVietnamese ch = 0 \<longleftrightarrow> ch = 0"
  by (simp add: ToLowerVietnamese_def)

lemma ToUpperVietnamese_ne_0 [simp]: "ToUpperVietnamese ch = 0 \<longleftrightarrow> ch = 0"
  by (simp add: ToUpperVietnamese_def towupper_def)

lemma diphthongRule_le: "fi < 6 \<Longrightarrow> li < 6 \<Longrightarrow> diphthongRule m fi li \<le> 3"
  unfolding diphthongRule_def kDiphthongClassic_def kDiphthongModern_def
  by (auto simp: less_Suc_eq numeral_eq_Suc nth_Cons')

lemma DiphthongVowelIndex_less: "DiphthongVowelIndex b = Some i \<Longrightarrow> i < 6"
  by (auto simp: DiphthongVowelIndex_def split: if_splits)

end
