(* ===== verification/TypingAction.thy ===== *)
theory TypingAction
  imports Prelude
begin

text \<open>
  The action vocabulary of \<open>src/core/engine/TypingAction.h\<close>: the enumeration with its
  ordinals, the range predicates over them, bracket canonicalisation, the pure classifier
  \<open>ClassifyKey\<close> and the two string conversions used by the configuration file.
  \<open>TypingAction::None\<close> is the constructor \<open>NoAction\<close>.
\<close>

datatype TypingAction =
    NoAction
  | ClearTone
  | ToneAcute
  | ToneGrave
  | ToneHook
  | ToneTilde
  | ToneDot
  | CircumflexA
  | CircumflexE
  | CircumflexO
  | HornW
  | HornInsertO
  | HornInsertU
  | StrokeD
  | VniCircumflex
  | VniHorn
  | VniBreve
  | VniStroke
  | HornOrInsertU
  | HornOrInsertUNoStart
  | UndoAllMarks
  | InsertABreve
  | InsertABreveUpper
  | InsertACircumflex
  | InsertACircumflexUpper
  | InsertDStroke
  | InsertDStrokeUpper
  | InsertECircumflex
  | InsertECircumflexUpper
  | InsertOCircumflex
  | InsertOCircumflexUpper
  | InsertOHorn
  | InsertOHornUpper
  | InsertUHorn
  | InsertUHornUpper

text \<open>The underlying \<open>uint8_t\<close> value of an enumerator.\<close>

primrec action_ord :: "TypingAction \<Rightarrow> nat" where
  "action_ord NoAction = 0"
| "action_ord ClearTone = 1"
| "action_ord ToneAcute = 2"
| "action_ord ToneGrave = 3"
| "action_ord ToneHook = 4"
| "action_ord ToneTilde = 5"
| "action_ord ToneDot = 6"
| "action_ord CircumflexA = 7"
| "action_ord CircumflexE = 8"
| "action_ord CircumflexO = 9"
| "action_ord HornW = 10"
| "action_ord HornInsertO = 11"
| "action_ord HornInsertU = 12"
| "action_ord StrokeD = 13"
| "action_ord VniCircumflex = 14"
| "action_ord VniHorn = 15"
| "action_ord VniBreve = 16"
| "action_ord VniStroke = 17"
| "action_ord HornOrInsertU = 18"
| "action_ord HornOrInsertUNoStart = 19"
| "action_ord UndoAllMarks = 20"
| "action_ord InsertABreve = 21"
| "action_ord InsertABreveUpper = 22"
| "action_ord InsertACircumflex = 23"
| "action_ord InsertACircumflexUpper = 24"
| "action_ord InsertDStroke = 25"
| "action_ord InsertDStrokeUpper = 26"
| "action_ord InsertECircumflex = 27"
| "action_ord InsertECircumflexUpper = 28"
| "action_ord InsertOCircumflex = 29"
| "action_ord InsertOCircumflexUpper = 30"
| "action_ord InsertOHorn = 31"
| "action_ord InsertOHornUpper = 32"
| "action_ord InsertUHorn = 33"
| "action_ord InsertUHornUpper = 34"

lemma action_ord_inj: "action_ord a = action_ord b \<Longrightarrow> a = b"
  by (cases a; cases b; simp)

text \<open>The enumerators are compared by their underlying value, so \<open>TypingAction\<close> is a linear
  order and the range tests below read as in the source.\<close>

instantiation TypingAction :: linorder
begin

definition less_eq_TypingAction :: "TypingAction \<Rightarrow> TypingAction \<Rightarrow> bool" where
  "less_eq_TypingAction a b \<longleftrightarrow> action_ord a \<le> action_ord b"

definition less_TypingAction :: "TypingAction \<Rightarrow> TypingAction \<Rightarrow> bool" where
  "less_TypingAction a b \<longleftrightarrow> action_ord a < action_ord b"

instance
  by standard (auto simp: less_eq_TypingAction_def less_TypingAction_def intro: action_ord_inj)

end

definition IsToneAction :: "TypingAction \<Rightarrow> bool" where
  "IsToneAction action \<longleftrightarrow> ClearTone \<le> action \<and> action \<le> ToneDot"

definition IsTelexModifierAction :: "TypingAction \<Rightarrow> bool" where
  "IsTelexModifierAction action \<longleftrightarrow> CircumflexA \<le> action \<and> action \<le> StrokeD"

definition IsVniModifierAction :: "TypingAction \<Rightarrow> bool" where
  "IsVniModifierAction action \<longleftrightarrow> VniCircumflex \<le> action \<and> action \<le> VniStroke"

definition IsUserDefinedOnlyAction :: "TypingAction \<Rightarrow> bool" where
  "IsUserDefinedOnlyAction action \<longleftrightarrow> HornOrInsertU \<le> action \<and> action \<le> InsertUHornUpper"

definition IsInsertTypeAction :: "TypingAction \<Rightarrow> bool" where
  "IsInsertTypeAction action \<longleftrightarrow>
    (if action = HornInsertO \<or> action = HornInsertU then True
     else if action = HornOrInsertU then True
     else if action = HornW then True
     else if InsertABreve \<le> action \<and> action \<le> InsertUHornUpper then True
     else False)"

lemmas action_class_defs =
  IsToneAction_def IsTelexModifierAction_def IsVniModifierAction_def IsUserDefinedOnlyAction_def
  IsInsertTypeAction_def less_eq_TypingAction_def

subsection \<open>Brackets\<close>

definition CanonicalBracketKey :: "wchar \<Rightarrow> wchar" where
  "CanonicalBracketKey key =
    (if key = L_lbrace then L_lbracket else if key = L_rbrace then L_rbracket else key)"

record BracketKey =
  character :: wchar
  uppercase :: bool

definition ResolveBracketKey :: "wchar \<Rightarrow> bool \<Rightarrow> bool \<Rightarrow> BracketKey" where
  "ResolveBracketKey base shift capsLock =
    (let canonical = CanonicalBracketKey base;
         physical = canonical;
         physical = (if shift \<and> canonical = L_lbracket then L_lbrace else physical);
         physical = (if shift \<and> canonical = L_rbracket then L_rbrace else physical)
     in \<lparr>character = physical, uppercase = (shift \<noteq> capsLock)\<rparr>)"

subsection \<open>Classification\<close>

definition telexAction :: "wchar \<Rightarrow> TypingAction" where
  "telexAction lower =
    (if lower = L_z then ClearTone
     else if lower = L_s then ToneAcute
     else if lower = L_f then ToneGrave
     else if lower = L_r then ToneHook
     else if lower = L_x then ToneTilde
     else if lower = L_j then ToneDot
     else if lower = L_a then CircumflexA
     else if lower = L_e then CircumflexE
     else if lower = L_o then CircumflexO
     else if lower = L_w then HornW
     else if lower = L_lbracket then HornInsertO
     else if lower = L_rbracket then HornInsertU
     else if lower = L_d then StrokeD
     else NoAction)"

definition vniAction :: "wchar \<Rightarrow> TypingAction" where
  "vniAction lower =
    (if lower = 0x30 then ClearTone
     else if lower = 0x31 then ToneAcute
     else if lower = 0x32 then ToneGrave
     else if lower = 0x33 then ToneHook
     else if lower = 0x34 then ToneTilde
     else if lower = 0x35 then ToneDot
     else if lower = 0x36 then VniCircumflex
     else if lower = 0x37 then VniHorn
     else if lower = 0x38 then VniBreve
     else if lower = 0x39 then VniStroke
     else NoAction)"

definition ClassifyKey :: "wchar \<Rightarrow> bool \<Rightarrow> bool \<Rightarrow> TypingAction" where
  "ClassifyKey lower isTelex isVni =
    (let lower = CanonicalBracketKey lower in
     if isTelex \<and> telexAction lower \<noteq> NoAction then telexAction lower
     else if isVni \<and> vniAction lower \<noteq> NoAction then vniAction lower
     else NoAction)"

subsection \<open>Names in the configuration file\<close>

primrec TypingActionToString :: "TypingAction \<Rightarrow> string" where
  "TypingActionToString NoAction = ''None''"
| "TypingActionToString ClearTone = ''ClearTone''"
| "TypingActionToString ToneAcute = ''ToneAcute''"
| "TypingActionToString ToneGrave = ''ToneGrave''"
| "TypingActionToString ToneHook = ''ToneHook''"
| "TypingActionToString ToneTilde = ''ToneTilde''"
| "TypingActionToString ToneDot = ''ToneDot''"
| "TypingActionToString CircumflexA = ''CircumflexA''"
| "TypingActionToString CircumflexE = ''CircumflexE''"
| "TypingActionToString CircumflexO = ''CircumflexO''"
| "TypingActionToString HornW = ''HornW''"
| "TypingActionToString HornInsertO = ''HornInsertO''"
| "TypingActionToString HornInsertU = ''HornInsertU''"
| "TypingActionToString StrokeD = ''StrokeD''"
| "TypingActionToString VniCircumflex = ''VniCircumflex''"
| "TypingActionToString VniHorn = ''VniHorn''"
| "TypingActionToString VniBreve = ''VniBreve''"
| "TypingActionToString VniStroke = ''VniStroke''"
| "TypingActionToString HornOrInsertU = ''HornOrInsertU''"
| "TypingActionToString HornOrInsertUNoStart = ''HornOrInsertUNoStart''"
| "TypingActionToString UndoAllMarks = ''UndoAllMarks''"
| "TypingActionToString InsertABreve = ''InsertABreve''"
| "TypingActionToString InsertABreveUpper = ''InsertABreveUpper''"
| "TypingActionToString InsertACircumflex = ''InsertACircumflex''"
| "TypingActionToString InsertACircumflexUpper = ''InsertACircumflexUpper''"
| "TypingActionToString InsertDStroke = ''InsertDStroke''"
| "TypingActionToString InsertDStrokeUpper = ''InsertDStrokeUpper''"
| "TypingActionToString InsertECircumflex = ''InsertECircumflex''"
| "TypingActionToString InsertECircumflexUpper = ''InsertECircumflexUpper''"
| "TypingActionToString InsertOCircumflex = ''InsertOCircumflex''"
| "TypingActionToString InsertOCircumflexUpper = ''InsertOCircumflexUpper''"
| "TypingActionToString InsertOHorn = ''InsertOHorn''"
| "TypingActionToString InsertOHornUpper = ''InsertOHornUpper''"
| "TypingActionToString InsertUHorn = ''InsertUHorn''"
| "TypingActionToString InsertUHornUpper = ''InsertUHornUpper''"

definition StringToTypingAction :: "string \<Rightarrow> TypingAction" where
  "StringToTypingAction s =
    (if s = ''ClearTone'' then ClearTone
     else if s = ''ToneAcute'' then ToneAcute
     else if s = ''ToneGrave'' then ToneGrave
     else if s = ''ToneHook'' then ToneHook
     else if s = ''ToneTilde'' then ToneTilde
     else if s = ''ToneDot'' then ToneDot
     else if s = ''CircumflexA'' then CircumflexA
     else if s = ''CircumflexE'' then CircumflexE
     else if s = ''CircumflexO'' then CircumflexO
     else if s = ''HornW'' then HornW
     else if s = ''HornInsertO'' then HornInsertO
     else if s = ''HornInsertU'' then HornInsertU
     else if s = ''StrokeD'' then StrokeD
     else if s = ''VniCircumflex'' then VniCircumflex
     else if s = ''VniHorn'' then VniHorn
     else if s = ''VniBreve'' then VniBreve
     else if s = ''VniStroke'' then VniStroke
     else if s = ''HornOrInsertU'' then HornOrInsertU
     else if s = ''HornOrInsertUNoStart'' then HornOrInsertUNoStart
     else if s = ''UndoAllMarks'' then UndoAllMarks
     else if s = ''InsertABreve'' then InsertABreve
     else if s = ''InsertABreveUpper'' then InsertABreveUpper
     else if s = ''InsertACircumflex'' then InsertACircumflex
     else if s = ''InsertACircumflexUpper'' then InsertACircumflexUpper
     else if s = ''InsertDStroke'' then InsertDStroke
     else if s = ''InsertDStrokeUpper'' then InsertDStrokeUpper
     else if s = ''InsertECircumflex'' then InsertECircumflex
     else if s = ''InsertECircumflexUpper'' then InsertECircumflexUpper
     else if s = ''InsertOCircumflex'' then InsertOCircumflex
     else if s = ''InsertOCircumflexUpper'' then InsertOCircumflexUpper
     else if s = ''InsertOHorn'' then InsertOHorn
     else if s = ''InsertOHornUpper'' then InsertOHornUpper
     else if s = ''InsertUHorn'' then InsertUHorn
     else if s = ''InsertUHornUpper'' then InsertUHornUpper
     else NoAction)"

lemma ClassifyKey_not_user_only: "\<not> IsUserDefinedOnlyAction (ClassifyKey c t v)"
proof -
  have "\<not> IsUserDefinedOnlyAction (telexAction l)" "\<not> IsUserDefinedOnlyAction (vniAction l)" for l
    by (simp_all add: telexAction_def vniAction_def action_class_defs)
  moreover have "\<not> IsUserDefinedOnlyAction NoAction" by (simp add: action_class_defs)
  ultimately show ?thesis by (simp add: ClassifyKey_def Let_def)
qed

text \<open>Every action belongs to exactly one dispatch class: none, tone, Telex modifier, VNI
  modifier, user-defined.\<close>

lemma action_classes_partition:
  "length (filter id [a = NoAction, IsToneAction a, IsTelexModifierAction a,
                      IsVniModifierAction a, IsUserDefinedOnlyAction a]) = 1"
  by (cases a) (simp_all add: action_class_defs)

end
