(* ===== verification/TypingConfig.thy ===== *)
theory TypingConfig
  imports TypingAction
begin

text \<open>
  The configuration types of \<open>src/core/config/TypingConfig.h\<close>: the enumerations, the hotkey
  and quick-convert records, the typing configuration with its compiled defaults and the
  two conversions it offers (modifier masks, spell-check levels).
\<close>

datatype InputMethod = Telex | VNI | SimpleTelex | Combined | UserDefined

datatype CodeTable = Unicode | TCVN3 | VNIWindows | UnicodeCompound | VietnameseLocale

datatype SpellCheckLevel = SpellOff | SpellStandard | SpellAdvanced

record HotkeyConfig =
  ctrl :: bool
  shift :: bool
  alt :: bool
  win :: bool
  vk :: "32 word"

definition HasAny :: "HotkeyConfig \<Rightarrow> bool" where
  "HasAny h \<longleftrightarrow> ctrl h \<or> shift h \<or> alt h \<or> win h \<or> vk h \<noteq> 0"

definition ModifiersMatch :: "HotkeyConfig \<Rightarrow> bool \<Rightarrow> bool \<Rightarrow> bool \<Rightarrow> bool \<Rightarrow> bool" where
  "ModifiersMatch h c s a w \<longleftrightarrow> ctrl h = c \<and> shift h = s \<and> alt h = a \<and> win h = w"

unbundle bit_operations_syntax

definition ToMods :: "HotkeyConfig \<Rightarrow> 32 word" where
  "ToMods h =
    (let m = 0;
         m = (if ctrl h then m OR 0x01 else m);
         m = (if shift h then m OR 0x02 else m);
         m = (if alt h then m OR 0x04 else m);
         m = (if win h then m OR 0x08 else m)
     in m)"

definition SetModsFromMask :: "HotkeyConfig \<Rightarrow> 32 word \<Rightarrow> HotkeyConfig" where
  "SetModsFromMask h mods =
    h\<lparr>ctrl := (mods AND 0x01 \<noteq> 0), shift := (mods AND 0x02 \<noteq> 0),
      alt := (mods AND 0x04 \<noteq> 0), win := (mods AND 0x08 \<noteq> 0)\<rparr>"

record TypingConfig =
  inputMethod :: InputMethod
  codeTable :: CodeTable
  spellCheckEnabled :: bool
  spellSuggestEnabled :: bool
  beepOnSwitch :: bool
  smartSwitch :: bool
  excludeApps :: bool
  tsfApps :: bool
  hidePreeditUnderline :: bool
  optimizeLevel :: "8 word"
  modernOrtho :: bool
  autoCaps :: bool
  allowZwjf :: bool
  autoRestoreEnabled :: bool
  cjkAutoSwitch :: bool
  macroEnabled :: bool
  macroInEnglish :: bool
  quickConsonant :: bool
  quickStartConsonant :: bool
  quickEndConsonant :: bool
  escRestoreRawEnabled :: bool
  autoCapsMacro :: bool
  macroUndoOnBackspace :: bool
  macroTitleCase :: bool
  allowEnglishBypass :: bool
  suggestKeepChars :: bool
  debugLogEnabled :: bool
  enableToast :: bool
  perfHistogramEnabled :: bool
  macroTriggerSpace :: bool
  macroTriggerEnter :: bool
  macroTriggerTab :: bool
  macroTriggerDir :: bool
  spellExclusions :: "wstring list"
  customKeyMap :: "TypingAction list"

definition defaultTypingConfig :: TypingConfig where
  "defaultTypingConfig =
    \<lparr>inputMethod = Telex, codeTable = Unicode, spellCheckEnabled = True,
     spellSuggestEnabled = False, beepOnSwitch = False, smartSwitch = False,
     excludeApps = False, tsfApps = False, hidePreeditUnderline = False, optimizeLevel = 0,
     modernOrtho = True, autoCaps = False, allowZwjf = False, autoRestoreEnabled = True,
     cjkAutoSwitch = False, macroEnabled = False, macroInEnglish = False,
     quickConsonant = False, quickStartConsonant = False, quickEndConsonant = False,
     escRestoreRawEnabled = False, autoCapsMacro = False, macroUndoOnBackspace = False,
     macroTitleCase = False, allowEnglishBypass = False, suggestKeepChars = False,
     debugLogEnabled = False, enableToast = True, perfHistogramEnabled = False,
     macroTriggerSpace = True, macroTriggerEnter = True, macroTriggerTab = True,
     macroTriggerDir = True, spellExclusions = [], customKeyMap = replicate 128 NoAction\<rparr>"

definition GetSpellCheckLevel :: "TypingConfig \<Rightarrow> SpellCheckLevel" where
  "GetSpellCheckLevel c =
    (if \<not> spellCheckEnabled c then SpellOff
     else if spellSuggestEnabled c then SpellAdvanced else SpellStandard)"

definition SetSpellCheckLevel :: "TypingConfig \<Rightarrow> SpellCheckLevel \<Rightarrow> TypingConfig" where
  "SetSpellCheckLevel c level =
    c\<lparr>spellCheckEnabled := (level \<noteq> SpellOff), spellSuggestEnabled := (level = SpellAdvanced)\<rparr>"

record ConvertConfig =
  allCaps :: bool
  allLower :: bool
  capsFirst :: bool
  capsEach :: bool
  removeMark :: bool
  alertDone :: bool
  autoPaste :: bool
  sequential :: bool
  enableLog :: bool
  sourceEncoding :: "8 word"
  destEncoding :: "8 word"
  hotkey :: HotkeyConfig

lemma SpellCheckLevel_set_get: "GetSpellCheckLevel (SetSpellCheckLevel c level) = level"
  by (cases level) (simp_all add: GetSpellCheckLevel_def SetSpellCheckLevel_def)

lemma SetModsFromMask_ToMods: "SetModsFromMask h (ToMods h') = h'\<lparr>vk := vk h\<rparr>"
  by (cases "ctrl h'"; cases "shift h'"; cases "alt h'"; cases "win h'")
     (simp_all add: SetModsFromMask_def ToMods_def)

lemma ToMods_le: "ToMods h \<le> 0x0F"
  by (cases "ctrl h"; cases "shift h"; cases "alt h"; cases "win h") (simp_all add: ToMods_def)

end
