(* ===== verification/CharState.thy ===== *)
theory CharState
  imports VietTables TypingConfig
begin

text \<open>
  The per-character state of the engine (\<open>src/core/engine/TypingEngine.h\<close>) and the functions
  of \<open>TypingEngine.cpp\<close> that look at one character only: the action decoders and \<open>Compose\<close>.
  \<open>Modifier::None\<close> and \<open>Tone::None\<close> are \<open>ModNone\<close> and \<open>ToneNone\<close>; the \<open>SIZE_MAX\<close> sentinel of
  \<open>toneRawIdx\<close> is \<open>None\<close>.

  \<open>wf_cs\<close> is the representation invariant of a character: a lower-case non-zero base, a
  modifier only where the orthography has one, a tone only on a vowel.  For such states
  \<open>Compose\<close> never yields the null character and \<open>DecomposeVietChar\<close> inverts it.
\<close>

datatype Modifier = ModNone | Circumflex | Breve | Horn | Stroke

datatype Tone = ToneNone | Acute | Grave | Hook | Tilde | Dot

record CharState =
  base :: wchar
  modifier :: Modifier
  tone :: Tone
  isUpper :: bool
  synthetic :: bool
  rawIdx :: nat
  toneRawIdx :: "nat option"

definition initCharState :: CharState where
  "initCharState =
    \<lparr>base = 0, modifier = ModNone, tone = ToneNone, isUpper = False, synthetic = False,
     rawIdx = 0, toneRawIdx = None\<rparr>"

definition isVowelBase :: "wchar \<Rightarrow> bool" where
  "isVowelBase b \<longleftrightarrow> b = L_a \<or> b = L_e \<or> b = L_i \<or> b = L_o \<or> b = L_u \<or> b = L_y"

definition IsVowel :: "CharState \<Rightarrow> bool" where
  "IsVowel s \<longleftrightarrow> isVowelBase (base s)"

definition CanHaveMod :: "CharState \<Rightarrow> bool" where
  "CanHaveMod s \<longleftrightarrow> base s = L_a \<or> base s = L_e \<or> base s = L_o \<or> base s = L_u"

definition IsD :: "CharState \<Rightarrow> bool" where
  "IsD s \<longleftrightarrow> base s = L_d"

definition IsHorn :: "CharState \<Rightarrow> bool" where
  "IsHorn s \<longleftrightarrow> modifier s = Horn"

definition HasModifier :: "CharState \<Rightarrow> bool" where
  "HasModifier s \<longleftrightarrow> modifier s \<noteq> ModNone"

definition HasTone :: "CharState \<Rightarrow> bool" where
  "HasTone s \<longleftrightarrow> tone s \<noteq> ToneNone"

definition IsEmpty :: "CharState \<Rightarrow> bool" where
  "IsEmpty s \<longleftrightarrow> base s = 0"

lemmas [cs_defs] = IsVowel_def isVowelBase_def CanHaveMod_def IsD_def IsHorn_def HasModifier_def
  HasTone_def IsEmpty_def

subsection \<open>Decoding actions\<close>

definition ActionToTone :: "TypingAction \<Rightarrow> Tone" where
  "ActionToTone a = (case a of
     ToneAcute \<Rightarrow> Acute | ToneGrave \<Rightarrow> Grave | ToneHook \<Rightarrow> Hook | ToneTilde \<Rightarrow> Tilde
   | ToneDot \<Rightarrow> Dot | _ \<Rightarrow> ToneNone)"

definition ActionToVowel :: "TypingAction \<Rightarrow> wchar" where
  "ActionToVowel a = (case a of
     CircumflexA \<Rightarrow> L_a | CircumflexE \<Rightarrow> L_e | CircumflexO \<Rightarrow> L_o | _ \<Rightarrow> 0)"

definition ActionToVniModifier :: "TypingAction \<Rightarrow> Modifier" where
  "ActionToVniModifier a = (case a of
     VniCircumflex \<Rightarrow> Circumflex | VniHorn \<Rightarrow> Horn | VniBreve \<Rightarrow> Breve | VniStroke \<Rightarrow> Stroke
   | _ \<Rightarrow> ModNone)"

primrec ModifierIndex :: "Modifier \<Rightarrow> nat option" where
  "ModifierIndex ModNone = None"
| "ModifierIndex Circumflex = Some 0"
| "ModifierIndex Breve = Some 1"
| "ModifierIndex Horn = Some 2"
| "ModifierIndex Stroke = None"

primrec ToneIndex :: "Tone \<Rightarrow> nat option" where
  "ToneIndex ToneNone = None"
| "ToneIndex Acute = Some 0"
| "ToneIndex Grave = Some 1"
| "ToneIndex Hook = Some 2"
| "ToneIndex Tilde = Some 3"
| "ToneIndex Dot = Some 4"

subsection \<open>Composition\<close>

definition applyMod :: "wchar \<Rightarrow> Modifier \<Rightarrow> wchar" where
  "applyMod b m =
    (if m \<noteq> ModNone \<and> isVowelBase b then
       (case (VowelBaseIndex b, ModifierIndex m) of
          (Some bi, Some mi) \<Rightarrow>
            (let modified = kModifiedVowel ! bi ! mi in if modified \<noteq> 0 then modified else b)
        | _ \<Rightarrow> b)
     else b)"

definition applyTone :: "wchar \<Rightarrow> Tone \<Rightarrow> wchar" where
  "applyTone ch t =
    (if t \<noteq> ToneNone then
       (case (ToneBaseIndex ch, ToneIndex t) of
          (Some ti, Some si) \<Rightarrow> kTonedVowel ! ti ! si
        | _ \<Rightarrow> ch)
     else ch)"

definition Compose :: "CharState \<Rightarrow> wchar" where
  "Compose s =
    (if IsEmpty s then 0
     else if IsD s \<and> modifier s = Stroke then (if isUpper s then dd_upper else dd_lower)
     else
       let ch = applyTone (applyMod (base s) (modifier s)) (tone s)
       in if isUpper s then ToUpperVietnamese ch else ch)"

subsection \<open>The representation invariant of a character\<close>

fun modFits :: "wchar \<Rightarrow> Modifier \<Rightarrow> bool" where
  "modFits b ModNone = True"
| "modFits b Circumflex = (b = L_a \<or> b = L_e \<or> b = L_o)"
| "modFits b Breve = (b = L_a)"
| "modFits b Horn = (b = L_o \<or> b = L_u)"
| "modFits b Stroke = (b = L_d)"

definition wf_cs :: "CharState \<Rightarrow> bool" where
  "wf_cs s \<longleftrightarrow> base s \<noteq> 0 \<and> towlower (base s) = base s \<and> modFits (base s) (modifier s) \<and>
     (tone s \<noteq> ToneNone \<longrightarrow> IsVowel s)"

lemma wf_csI:
  "base s \<noteq> 0 \<Longrightarrow> towlower (base s) = base s \<Longrightarrow> modFits (base s) (modifier s) \<Longrightarrow>
   (tone s \<noteq> ToneNone \<Longrightarrow> IsVowel s) \<Longrightarrow> wf_cs s"
  by (simp add: wf_cs_def)

lemma wf_cs_mod_None [simp]: "wf_cs s \<Longrightarrow> wf_cs (s\<lparr>modifier := ModNone\<rparr>)"
  by (simp add: wf_cs_def cs_defs)

lemma wf_cs_mod: "wf_cs s \<Longrightarrow> modFits (base s) m \<Longrightarrow> wf_cs (s\<lparr>modifier := m\<rparr>)"
  by (simp add: wf_cs_def cs_defs)

lemma wf_cs_tone: "wf_cs s \<Longrightarrow> IsVowel s \<Longrightarrow> wf_cs (s\<lparr>tone := t\<rparr>)"
  by (simp add: wf_cs_def cs_defs)

lemma wf_cs_tone_None [simp]: "wf_cs s \<Longrightarrow> wf_cs (s\<lparr>tone := ToneNone\<rparr>)"
  by (simp add: wf_cs_def cs_defs)

lemma wf_cs_indices [simp]:
  "wf_cs (s\<lparr>rawIdx := r\<rparr>) = wf_cs s" "wf_cs (s\<lparr>toneRawIdx := t\<rparr>) = wf_cs s"
  "wf_cs (s\<lparr>synthetic := b\<rparr>) = wf_cs s" "wf_cs (s\<lparr>isUpper := u\<rparr>) = wf_cs s"
  by (simp_all add: wf_cs_def cs_defs)

lemma IsVowel_update [simp]:
  "IsVowel (s\<lparr>modifier := m\<rparr>) = IsVowel s" "IsVowel (s\<lparr>tone := t\<rparr>) = IsVowel s"
  "IsVowel (s\<lparr>rawIdx := r\<rparr>) = IsVowel s" "IsVowel (s\<lparr>toneRawIdx := ti\<rparr>) = IsVowel s"
  "IsVowel (s\<lparr>synthetic := b\<rparr>) = IsVowel s" "IsVowel (s\<lparr>isUpper := u\<rparr>) = IsVowel s"
  by (simp_all add: cs_defs)

text \<open>The untoned letters a well-formed base and modifier can render, and what a tone does to them.\<close>

lemma applyMod_vowel:
  assumes "isVowelBase b" "modFits b m"
  shows "applyMod b m \<in> set kToneBase"
  using assms
  by (cases m) (auto simp: applyMod_def isVowelBase_def VowelBaseIndex_def kModifiedVowel_def
    kToneBase_def)

lemma applyMod_consonant: "\<not> isVowelBase b \<Longrightarrow> applyMod b m = b"
  by (simp add: applyMod_def)

lemma kTonedVowel_shape: "length kTonedVowel = 12" "list_all (\<lambda>r. length r = 5) kTonedVowel"
  "list_all (list_all (\<lambda>x. 0 < x)) kTonedVowel"
  by (simp_all add: kTonedVowel_def)

lemma kTonedVowel_nonzero: "i < 12 \<Longrightarrow> j < 5 \<Longrightarrow> 0 < kTonedVowel ! i ! j"
  using kTonedVowel_shape by (simp add: list_all_length)

lemma ToneBaseIndex_less: "ToneBaseIndex ch = Some i \<Longrightarrow> i < 12"
  unfolding ToneBaseIndex_def first_index_Some by (simp add: kToneBase_def)

lemma ToneIndex_less: "ToneIndex t = Some j \<Longrightarrow> j < 5"
  by (cases t) auto

lemma applyTone_nonzero: "0 < ch \<Longrightarrow> 0 < applyTone ch t"
  using kTonedVowel_nonzero ToneBaseIndex_less ToneIndex_less
  by (auto simp: applyTone_def split: option.splits)

lemma ToUpperVietnamese_pos [simp]: "0 < ToUpperVietnamese ch \<longleftrightarrow> 0 < ch"
  using ToUpperVietnamese_ne_0[of ch] by linarith

lemma Compose_nonzero:
  assumes "wf_cs s" shows "0 < Compose s"
proof -
  have "0 < applyMod (base s) (modifier s)"
  proof (cases "isVowelBase (base s)")
    case True
    then have "applyMod (base s) (modifier s) \<in> set kToneBase"
      using assms by (simp add: applyMod_vowel wf_cs_def)
    then show ?thesis by (auto simp: kToneBase_def)
  qed (use assms in \<open>simp add: applyMod_consonant wf_cs_def\<close>)
  with assms show ?thesis
    by (simp add: Compose_def wf_cs_def IsEmpty_def Let_def applyTone_nonzero)
qed

end
