(* ===== verification/Phonology.thy ===== *)
theory Phonology
  imports CharState
begin

text \<open>
  Vietnamese phonotactics: the packed-key data of \<open>VietnamesePhonologyData.h\<close>, the syllable
  validator of \<open>PhonotacticsValidator.cpp\<close> and the tone-placement rule of \<open>Phonotactics.cpp\<close>.

  Slots are \<open>uint8_t\<close>, keys \<open>uint32_t\<close> and coda masks \<open>uint16_t\<close>, modelled as words of these widths.
  The validator works on an array and a count; here it works on a list.  The template
  predicate of \<open>TryModifiedVowels\<close> is a function argument.
\<close>

unbundle bit_operations_syntax

subsection \<open>Packed keys\<close>

definition IsFrontBaseVowel :: "wchar \<Rightarrow> bool" where
  "IsFrontBaseVowel b \<longleftrightarrow> b = L_e \<or> b = L_i \<or> b = L_y"

abbreviation kA :: "8 word" where "kA \<equiv> 0"
abbreviation kE :: "8 word" where "kE \<equiv> 1"
abbreviation kI :: "8 word" where "kI \<equiv> 2"
abbreviation kO :: "8 word" where "kO \<equiv> 3"
abbreviation kU :: "8 word" where "kU \<equiv> 4"
abbreviation kY :: "8 word" where "kY \<equiv> 5"
abbreviation kNone :: "8 word" where "kNone \<equiv> 0"
abbreviation kCirc :: "8 word" where "kCirc \<equiv> 1"
abbreviation kBrev :: "8 word" where "kBrev \<equiv> 2"
abbreviation kHorn :: "8 word" where "kHorn \<equiv> 3"

definition VowelSlot :: "8 word \<Rightarrow> 8 word \<Rightarrow> 8 word" where
  "VowelSlot b m = push_bit 2 b OR m"

text \<open>\<open>BaseIndex\<close>; the sentinel \<open>kInvalidBaseIndex\<close> (0xFF) is kept as a value.\<close>

definition BaseIndex :: "wchar \<Rightarrow> 8 word" where
  "BaseIndex b =
    (if b = L_a then kA else if b = L_e then kE else if b = L_i then kI
     else if b = L_o then kO else if b = L_u then kU else if b = L_y then kY else 0xFF)"

definition Key1 :: "8 word \<Rightarrow> 32 word" where
  "Key1 s0 = push_bit 24 1 OR ucast s0"

definition Key2 :: "8 word \<Rightarrow> 8 word \<Rightarrow> 32 word" where
  "Key2 s0 s1 = push_bit 24 2 OR push_bit 8 (ucast s0) OR ucast s1"

definition Key3 :: "8 word \<Rightarrow> 8 word \<Rightarrow> 8 word \<Rightarrow> 32 word" where
  "Key3 s0 s1 s2 = push_bit 24 3 OR push_bit 16 (ucast s0) OR push_bit 8 (ucast s1) OR ucast s2"

subsection \<open>Codas\<close>

abbreviation F_c :: "16 word" where "F_c \<equiv> 0x001"
abbreviation F_ch :: "16 word" where "F_ch \<equiv> 0x002"
abbreviation F_k :: "16 word" where "F_k \<equiv> 0x004"
abbreviation F_m :: "16 word" where "F_m \<equiv> 0x008"
abbreviation F_n :: "16 word" where "F_n \<equiv> 0x010"
abbreviation F_ng :: "16 word" where "F_ng \<equiv> 0x020"
abbreviation F_nh :: "16 word" where "F_nh \<equiv> 0x040"
abbreviation F_p :: "16 word" where "F_p \<equiv> 0x080"
abbreviation F_t :: "16 word" where "F_t \<equiv> 0x100"

definition F_ALL :: "16 word" where
  "F_ALL = F_c OR F_ch OR F_k OR F_m OR F_n OR F_ng OR F_nh OR F_p OR F_t"

definition F_NO_CH_NH :: "16 word" where
  "F_NO_CH_NH = F_ALL AND NOT (F_ch OR F_nh)"

definition kVCPairRules :: "(32 word \<times> 16 word) list" where
  "kVCPairRules =
    [(Key1 (VowelSlot kA kNone), F_ALL),
     (Key1 (VowelSlot kA kCirc), F_NO_CH_NH),
     (Key1 (VowelSlot kA kBrev), F_NO_CH_NH),
     (Key1 (VowelSlot kE kNone), F_ALL),
     (Key1 (VowelSlot kE kCirc), F_c OR F_ch OR F_m OR F_n OR F_nh OR F_p OR F_t),
     (Key1 (VowelSlot kI kNone), F_ALL AND NOT F_ng),
     (Key1 (VowelSlot kO kNone), F_NO_CH_NH),
     (Key1 (VowelSlot kO kCirc), F_NO_CH_NH),
     (Key1 (VowelSlot kO kHorn), F_m OR F_n OR F_p OR F_t),
     (Key1 (VowelSlot kU kNone), F_NO_CH_NH),
     (Key1 (VowelSlot kU kHorn), F_NO_CH_NH),
     (Key1 (VowelSlot kY kNone), F_t),
     (Key2 (VowelSlot kI kNone) (VowelSlot kE kCirc), F_c OR F_m OR F_n OR F_ng OR F_p OR F_t),
     (Key2 (VowelSlot kO kNone) (VowelSlot kA kNone), F_ALL),
     (Key2 (VowelSlot kO kNone) (VowelSlot kA kBrev), F_c OR F_m OR F_n OR F_ng OR F_p OR F_t),
     (Key2 (VowelSlot kO kNone) (VowelSlot kE kNone), F_m OR F_n OR F_ng OR F_t),
     (Key2 (VowelSlot kO kNone) (VowelSlot kO kNone), F_c OR F_ng),
     (Key2 (VowelSlot kU kNone) (VowelSlot kA kCirc), F_n OR F_ng OR F_t),
     (Key2 (VowelSlot kU kNone) (VowelSlot kE kCirc), F_ch OR F_n OR F_nh),
     (Key2 (VowelSlot kU kNone) (VowelSlot kO kCirc), F_c OR F_m OR F_n OR F_ng OR F_p OR F_t),
     (Key2 (VowelSlot kU kNone) (VowelSlot kO kHorn), F_c OR F_m OR F_n OR F_ng OR F_p OR F_t),
     (Key2 (VowelSlot kU kNone) (VowelSlot kY kNone), F_ch OR F_n OR F_nh OR F_p OR F_t),
     (Key2 (VowelSlot kU kHorn) (VowelSlot kO kHorn), F_c OR F_m OR F_n OR F_ng OR F_p OR F_t),
     (Key2 (VowelSlot kY kNone) (VowelSlot kE kCirc), F_c OR F_m OR F_n OR F_ng OR F_p OR F_t),
     (Key3 (VowelSlot kU kNone) (VowelSlot kY kNone) (VowelSlot kE kCirc), F_n OR F_t)]"

definition GetAllowedFinals :: "32 word \<Rightarrow> 16 word" where
  "GetAllowedFinals vowelKey =
    (case find (\<lambda>r. fst r = vowelKey) kVCPairRules of Some r \<Rightarrow> snd r | None \<Rightarrow> 0)"

subsection \<open>The nucleus table\<close>

datatype VowelEntry = VE (key: "32 word") (canEnd: bool) (requiresEnd: bool)

definition kVowelTable :: "VowelEntry list" where
  "kVowelTable =
    [VE (Key1 (VowelSlot kA kNone)) True False,
     VE (Key1 (VowelSlot kA kCirc)) True True,
     VE (Key1 (VowelSlot kA kBrev)) True False,
     VE (Key1 (VowelSlot kE kNone)) True False,
     VE (Key1 (VowelSlot kE kCirc)) True False,
     VE (Key1 (VowelSlot kI kNone)) True False,
     VE (Key1 (VowelSlot kO kNone)) True False,
     VE (Key1 (VowelSlot kO kCirc)) True False,
     VE (Key1 (VowelSlot kO kHorn)) True False,
     VE (Key1 (VowelSlot kU kNone)) True False,
     VE (Key1 (VowelSlot kU kHorn)) True False,
     VE (Key1 (VowelSlot kY kNone)) True False,
     VE (Key2 (VowelSlot kA kNone) (VowelSlot kI kNone)) False False,
     VE (Key2 (VowelSlot kA kNone) (VowelSlot kO kNone)) False False,
     VE (Key2 (VowelSlot kA kNone) (VowelSlot kU kNone)) False False,
     VE (Key2 (VowelSlot kA kNone) (VowelSlot kY kNone)) False False,
     VE (Key2 (VowelSlot kA kCirc) (VowelSlot kU kNone)) False False,
     VE (Key2 (VowelSlot kA kCirc) (VowelSlot kY kNone)) False False,
     VE (Key2 (VowelSlot kE kNone) (VowelSlot kO kNone)) False False,
     VE (Key2 (VowelSlot kE kCirc) (VowelSlot kU kNone)) False False,
     VE (Key2 (VowelSlot kI kNone) (VowelSlot kA kNone)) False False,
     VE (Key2 (VowelSlot kI kNone) (VowelSlot kU kNone)) False False,
     VE (Key2 (VowelSlot kO kNone) (VowelSlot kA kNone)) True False,
     VE (Key2 (VowelSlot kO kNone) (VowelSlot kI kNone)) False False,
     VE (Key2 (VowelSlot kO kCirc) (VowelSlot kI kNone)) False False,
     VE (Key2 (VowelSlot kO kHorn) (VowelSlot kI kNone)) False False,
     VE (Key2 (VowelSlot kU kNone) (VowelSlot kA kNone)) False False,
     VE (Key2 (VowelSlot kU kNone) (VowelSlot kI kNone)) False False,
     VE (Key2 (VowelSlot kU kHorn) (VowelSlot kA kNone)) False False,
     VE (Key2 (VowelSlot kU kHorn) (VowelSlot kI kNone)) False False,
     VE (Key2 (VowelSlot kU kHorn) (VowelSlot kU kNone)) False False,
     VE (Key2 (VowelSlot kI kNone) (VowelSlot kE kCirc)) True False,
     VE (Key2 (VowelSlot kO kNone) (VowelSlot kA kBrev)) True False,
     VE (Key2 (VowelSlot kO kNone) (VowelSlot kE kNone)) True False,
     VE (Key2 (VowelSlot kO kNone) (VowelSlot kO kNone)) True False,
     VE (Key2 (VowelSlot kU kNone) (VowelSlot kA kCirc)) True False,
     VE (Key2 (VowelSlot kU kNone) (VowelSlot kE kCirc)) True False,
     VE (Key2 (VowelSlot kU kNone) (VowelSlot kO kCirc)) True False,
     VE (Key2 (VowelSlot kU kNone) (VowelSlot kO kHorn)) True False,
     VE (Key2 (VowelSlot kU kNone) (VowelSlot kY kNone)) True False,
     VE (Key2 (VowelSlot kU kHorn) (VowelSlot kO kHorn)) True False,
     VE (Key2 (VowelSlot kY kNone) (VowelSlot kE kCirc)) True False,
     VE (Key3 (VowelSlot kI kNone) (VowelSlot kE kCirc) (VowelSlot kU kNone)) False False,
     VE (Key3 (VowelSlot kO kNone) (VowelSlot kA kNone) (VowelSlot kI kNone)) False False,
     VE (Key3 (VowelSlot kO kNone) (VowelSlot kA kNone) (VowelSlot kY kNone)) False False,
     VE (Key3 (VowelSlot kO kNone) (VowelSlot kE kNone) (VowelSlot kO kNone)) False False,
     VE (Key3 (VowelSlot kU kNone) (VowelSlot kA kCirc) (VowelSlot kY kNone)) False False,
     VE (Key3 (VowelSlot kU kNone) (VowelSlot kO kCirc) (VowelSlot kI kNone)) False False,
     VE (Key3 (VowelSlot kU kNone) (VowelSlot kY kNone) (VowelSlot kA kNone)) False False,
     VE (Key3 (VowelSlot kU kNone) (VowelSlot kY kNone) (VowelSlot kU kNone)) False False,
     VE (Key3 (VowelSlot kU kHorn) (VowelSlot kO kHorn) (VowelSlot kI kNone)) False False,
     VE (Key3 (VowelSlot kU kHorn) (VowelSlot kO kHorn) (VowelSlot kU kNone)) False False,
     VE (Key3 (VowelSlot kU kNone) (VowelSlot kY kNone) (VowelSlot kE kCirc)) True False,
     VE (Key3 (VowelSlot kY kNone) (VowelSlot kE kCirc) (VowelSlot kU kNone)) False False]"

definition FinalConsonantBit :: "CharState list \<Rightarrow> nat \<Rightarrow> 16 word" where
  "FinalConsonantBit ss finalLen =
    (if finalLen = 0 then 0
     else let c0 = base (ss ! 0) in
       if finalLen = 2 then
         (let c1 = base (ss ! 1) in
          if c0 = L_c \<and> c1 = L_h then F_ch
          else if c0 = L_n \<and> c1 = L_g then F_ng
          else if c0 = L_n \<and> c1 = L_h then F_nh
          else 0)
       else if c0 = L_c then F_c else if c0 = L_k then F_k else if c0 = L_m then F_m
       else if c0 = L_n then F_n else if c0 = L_p then F_p else if c0 = L_t then F_t else 0)"

definition FindVowel :: "32 word \<Rightarrow> VowelEntry option" where
  "FindVowel k = find (\<lambda>e. key e = k) kVowelTable"

definition IsVowelPrefix :: "32 word \<Rightarrow> nat \<Rightarrow> bool" where
  "IsVowelPrefix k numSlots \<longleftrightarrow>
    (let keySlot0 = (if numSlots = 2 then drop_bit 8 k AND 0xFF else k AND 0xFF) in
     list_ex (\<lambda>e.
       let entryKey = key e; entryLen = drop_bit 24 entryKey in
       if numSlots = 1 \<and> entryLen \<ge> 2 then
         (if entryLen = 2 then drop_bit 8 entryKey AND 0xFF else drop_bit 16 entryKey AND 0xFF)
           = keySlot0
       else if numSlots = 2 \<and> entryLen = 3 then
         drop_bit 8 entryKey AND 0xFFFF = k AND 0xFFFF
       else False) kVowelTable)"

subsection \<open>Onsets and codas\<close>

definition isOnsetLetter :: "wchar \<Rightarrow> bool \<Rightarrow> bool" where
  "isOnsetLetter c0 zwjf \<longleftrightarrow>
     c0 \<in> set [L_b, L_c, L_d, L_g, L_h, L_k, L_l, L_m, L_n, L_p, L_q, L_r, L_s, L_t, L_v, L_x] \<or>
     (zwjf \<and> (c0 = L_z \<or> c0 = L_j \<or> c0 = L_w \<or> c0 = L_f))"

definition ParseInitialConsonant :: "CharState list \<Rightarrow> bool \<Rightarrow> nat" where
  "ParseInitialConsonant ss zwjf =
    (let count = length ss in
     if count = 0 then 0
     else if IsD (ss ! 0) \<and> modifier (ss ! 0) \<noteq> ModNone then 1
     else let c0 = base (ss ! 0) in
       if IsVowel (ss ! 0) then 0
       else if count \<ge> 3 \<and> c0 = L_n \<and> base (ss ! 1) = L_g \<and> base (ss ! 2) = L_h \<and>
               \<not> IsVowel (ss ! 1) \<and> \<not> IsVowel (ss ! 2) then 3
       else if count \<ge> 2 \<and> \<not> IsVowel (ss ! 1) \<and> \<not> IsD (ss ! 1) \<and>
               (c0, base (ss ! 1)) \<in> set [(L_c, L_h), (L_g, L_h), (L_g, L_i), (L_k, L_h), (L_n, L_g),
                 (L_n, L_h), (L_p, L_h), (L_q, L_u), (L_t, L_h), (L_t, L_r)] then 2
       else if isOnsetLetter c0 zwjf then 1
       else 0)"

definition ParseFinalConsonant :: "CharState list \<Rightarrow> nat" where
  "ParseFinalConsonant ss =
    (let count = length ss in
     if count = 0 then 0
     else let c0 = base (ss ! 0) in
       if IsVowel (ss ! 0) then 0
       else if count \<ge> 2 \<and> \<not> IsVowel (ss ! 1) \<and>
               (c0, base (ss ! 1)) \<in> set [(L_c, L_h), (L_n, L_g), (L_n, L_h)] then 2
       else if c0 \<in> set [L_c, L_k, L_m, L_n, L_p, L_t] then 1
       else 0)"

definition IsStopFinal :: "CharState list \<Rightarrow> nat \<Rightarrow> bool" where
  "IsStopFinal ss finalLen \<longleftrightarrow>
    (if finalLen = 0 then False
     else let c0 = base (ss ! 0) in
       if c0 = L_p \<or> c0 = L_t then True
       else if c0 = L_c \<or> c0 = L_k then True
       else False)"

definition GetTone :: "CharState list \<Rightarrow> Tone" where
  "GetTone ss = (case find (\<lambda>s. tone s \<noteq> ToneNone) ss of Some s \<Rightarrow> tone s | None \<Rightarrow> ToneNone)"

primrec ModOrdinal :: "Modifier \<Rightarrow> 8 word" where
  "ModOrdinal ModNone = 0"
| "ModOrdinal Circumflex = 1"
| "ModOrdinal Breve = 2"
| "ModOrdinal Horn = 3"
| "ModOrdinal Stroke = 0"

definition BuildModifiedKey ::
  "8 word list \<Rightarrow> 8 word list \<Rightarrow> nat \<Rightarrow> nat \<Rightarrow> 8 word \<Rightarrow> 32 word" where
  "BuildModifiedKey bases mods vowelLen vi tryMod =
    (let slot = (\<lambda>i. VowelSlot (bases ! i) (if i = vi then tryMod else mods ! i)) in
     if vowelLen = 1 then Key1 (slot 0)
     else if vowelLen = 2 then Key2 (slot 0) (slot 1)
     else Key3 (slot 0) (slot 1) (slot 2))"

definition TryModifiedVowels :: "CharState list \<Rightarrow> (VowelEntry \<Rightarrow> bool) \<Rightarrow> bool" where
  "TryModifiedVowels vs pred =
    (let vowelLen = length vs in
     if vowelLen < 1 \<or> vowelLen > 3 then False
     else let bases = map (\<lambda>s. BaseIndex (base s)) vs; mods = map (\<lambda>s. ModOrdinal (modifier s)) vs;
              hit = (\<lambda>k. case FindVowel k of Some e \<Rightarrow> pred e | None \<Rightarrow> False) in
       if list_ex (\<lambda>b. b = 0xFF) bases then False
       else if list_ex (\<lambda>vi. mods ! vi = kNone \<and>
                 list_ex (\<lambda>tryMod. hit (BuildModifiedKey bases mods vowelLen vi tryMod)) [1, 2, 3])
               [0..<vowelLen] then True
       else vowelLen = 3 \<and> bases ! 0 = kU \<and> bases ! 1 = kO \<and> mods ! 0 = kNone \<and> mods ! 1 = kNone \<and>
            hit (Key3 (VowelSlot (bases ! 0) kHorn) (VowelSlot (bases ! 1) kHorn)
                      (VowelSlot (bases ! 2) (mods ! 2))))"

subsection \<open>Validation\<close>

datatype SyllableState = Valid | ValidPrefix | Invalid

definition nucleusKey :: "CharState list \<Rightarrow> 32 word option" where
  "nucleusKey vs =
    (let bs = map (\<lambda>s. BaseIndex (base s)) vs;
         sl = map (\<lambda>s. VowelSlot (BaseIndex (base s)) (ModOrdinal (modifier s))) vs in
     if list_ex (\<lambda>b. b = 0xFF) bs then None
     else case sl of
       [s0] \<Rightarrow> Some (Key1 s0)
     | [s0, s1] \<Rightarrow> Some (Key2 s0 s1)
     | [s0, s1, s2] \<Rightarrow> Some (Key3 s0 s1 s2)
     | _ \<Rightarrow> None)"

text \<open>The part of \<open>ValidateDecomposition\<close> after a nucleus that is in the table and is followed by
  letters (lines 442 to 511): \<open>vs\<close> is the nucleus, \<open>rest\<close> the states from \<open>pos\<close> on.\<close>

definition validateCoda ::
  "CharState list \<Rightarrow> CharState list \<Rightarrow> CharState list \<Rightarrow> 32 word \<Rightarrow> VowelEntry \<Rightarrow> SyllableState" where
  "validateCoda ss vs rest vowelKey entry =
    (if \<not> canEnd entry then
       (if TryModifiedVowels vs (\<lambda>e. canEnd e \<and> ParseFinalConsonant rest = length rest)
        then ValidPrefix else Invalid)
     else let finalLen = ParseFinalConsonant rest in
       if finalLen = 0 then Invalid
       else if finalLen < length rest then Invalid
       else if finalLen = 1 \<and> base (rest ! 0) = L_k \<and>
               \<not> (length vs = 1 \<and> base (vs ! 0) = L_a \<and> ModOrdinal (modifier (vs ! 0)) = kBrev)
         then Invalid
       else let allowed = GetAllowedFinals vowelKey; finalBit = FinalConsonantBit rest finalLen in
         if allowed \<noteq> 0 \<and> finalBit \<noteq> 0 \<and> allowed AND finalBit = 0 then
           (let grown = (if finalLen = 1 then
                           (if base (rest ! 0) = L_c then F_ch
                            else if base (rest ! 0) = L_n then F_ng OR F_nh else 0)
                         else 0) in
            if grown = 0 \<or> allowed AND grown = 0 then Invalid else ValidPrefix)
         else if IsStopFinal rest finalLen \<and> GetTone ss \<noteq> ToneNone \<and>
                 GetTone ss \<noteq> Acute \<and> GetTone ss \<noteq> Dot then Invalid
         else Valid)"

definition ValidateDecomposition :: "CharState list \<Rightarrow> nat \<Rightarrow> SyllableState" where
  "ValidateDecomposition ss initialLen =
    (let after = drop initialLen ss in
     if after = [] then ValidPrefix
     else let vs = takeWhile IsVowel after; rest = dropWhile IsVowel after in
       if vs = [] then Invalid
       else case nucleusKey vs of
         None \<Rightarrow> Invalid
       | Some vowelKey \<Rightarrow>
           (case FindVowel vowelKey of
              None \<Rightarrow>
                if length vs \<le> 2 \<and> IsVowelPrefix vowelKey (length vs) \<and> rest = [] then ValidPrefix
                else if TryModifiedVowels vs (\<lambda>e. if rest = [] then True
                          else if canEnd e then ParseFinalConsonant rest = length rest else False)
                     then ValidPrefix
                else Invalid
            | Some entry \<Rightarrow>
                if rest = [] then (if requiresEnd entry then ValidPrefix else Valid)
                else validateCoda ss vs rest vowelKey entry))"

definition IsValidConsonantPrefix :: "CharState list \<Rightarrow> bool \<Rightarrow> bool" where
  "IsValidConsonantPrefix ss zwjf =
    (let count = length ss in
     if count = 0 then True
     else if count = 1 \<and> \<not> IsVowel (ss ! 0) then
       (if isOnsetLetter (base (ss ! 0)) zwjf then True
        else IsD (ss ! 0) \<and> modifier (ss ! 0) \<noteq> ModNone)
     else if count = 2 \<and> \<not> IsVowel (ss ! 0) \<and> \<not> IsVowel (ss ! 1) then
       (base (ss ! 0), base (ss ! 1)) \<in> set [(L_c, L_h), (L_g, L_h), (L_k, L_h), (L_n, L_g), (L_n, L_h),
         (L_p, L_h), (L_t, L_h), (L_t, L_r)]
     else count = 3 \<and> base (ss ! 0) = L_n \<and> base (ss ! 1) = L_g \<and> base (ss ! 2) = L_h \<and>
          \<not> IsVowel (ss ! 0) \<and> \<not> IsVowel (ss ! 1) \<and> \<not> IsVowel (ss ! 2))"

text \<open>The onset/vowel agreement block of \<open>ValidateImpl\<close> (lines 612 to 672): \<open>True\<close> when it
  returns \<open>Invalid\<close>.\<close>

definition onsetVowelMismatch :: "CharState list \<Rightarrow> nat \<Rightarrow> bool" where
  "onsetVowelMismatch ss initialLen \<longleftrightarrow>
    (if initialLen < length ss \<and> IsVowel (ss ! initialLen) then
       (let firstVowel = base (ss ! initialLen); isFrontVowel = IsFrontBaseVowel firstVowel;
            c0 = base (ss ! 0) in
        if initialLen = 1 \<and> c0 = L_k \<and> \<not> isFrontVowel then True
        else if initialLen = 1 \<and> c0 = L_c \<and> isFrontVowel then True
        else if initialLen = 1 \<and> c0 = L_q \<and> firstVowel \<noteq> L_u then True
        else if initialLen = 2 \<and> c0 = L_g \<and> base (ss ! 1) = L_h \<and> \<not> isFrontVowel then True
        else if initialLen = 3 \<and> c0 = L_n \<and> base (ss ! 1) = L_g \<and> base (ss ! 2) = L_h \<and> \<not> isFrontVowel then True
        else if initialLen + 1 < length ss \<and> base (ss ! initialLen) = L_o \<and>
                modifier (ss ! initialLen) = ModNone then
          (let v2 = ss ! (initialLen + 1);
               isOeOrOa = (base v2 = L_e \<and> modifier v2 = ModNone) \<or> (base v2 = L_a \<and> modifier v2 = Breve);
               allowed = (if initialLen = 0 then True
                          else if initialLen = 1 then c0 = L_h \<or> c0 = L_l \<or> c0 = L_t \<or> c0 = L_x
                          else if initialLen = 2 then
                            (c0, base (ss ! 1)) \<in> set [(L_c, L_h), (L_k, L_h), (L_n, L_g), (L_n, L_h), (L_t, L_r)]
                          else False)
           in isOeOrOa \<and> \<not> allowed)
        else False)
     else False)"

definition ValidateImpl :: "CharState list \<Rightarrow> bool \<Rightarrow> SyllableState" where
  "ValidateImpl ss zwjf =
    (let count = length ss in
     if count = 0 then ValidPrefix
     else let len0 = ParseInitialConsonant ss zwjf in
       if len0 = 0 \<and> \<not> IsVowel (ss ! 0) \<and> \<not> (IsD (ss ! 0) \<and> modifier (ss ! 0) = ModNone) then Invalid
       else let initialLen = (if len0 = 0 \<and> \<not> IsVowel (ss ! 0) then 1 else len0) in
         if initialLen > 0 \<and> initialLen = count then
           (if IsValidConsonantPrefix ss zwjf then ValidPrefix else Invalid)
         else if initialLen > 0 \<and> initialLen < count \<and> \<not> IsVowel (ss ! initialLen) then
           (if IsValidConsonantPrefix ss zwjf then ValidPrefix else Invalid)
         else if onsetVowelMismatch ss initialLen then Invalid
         else let result = ValidateDecomposition ss initialLen in
           if count \<ge> 2 \<and> base (ss ! 0) = L_g \<and> base (ss ! 1) = L_i \<and> IsVowel (ss ! 1) then
             (let r1 = ValidateDecomposition ss 1 in
              if count > 2 \<and> IsVowel (ss ! 2) then
                (let r2 = ValidateDecomposition ss 2 in
                 if r2 = Valid \<or> r1 = Valid then Valid
                 else if r2 = ValidPrefix \<or> r1 = ValidPrefix then ValidPrefix
                 else result)
              else if r1 = Valid then Valid
              else if r1 = ValidPrefix \<and> result \<noteq> Valid then ValidPrefix
              else result)
           else if count \<ge> 2 \<and> base (ss ! 0) = L_q \<and> base (ss ! 1) = L_u then
             (if count > 2 \<and> IsVowel (ss ! 2) then
                (let r2 = ValidateDecomposition ss 2 in
                 if r2 = Valid then Valid
                 else if r2 = ValidPrefix \<and> result \<noteq> Valid then ValidPrefix
                 else result)
              else if count = 2 then ValidPrefix
              else result)
           else result)"

text \<open>\<open>CheckToneModInvariant\<close>: at most one toned vowel, and a toned vowel is modified as soon as
  some vowel is.\<close>

definition CheckToneModInvariant :: "CharState list \<Rightarrow> bool" where
  "CheckToneModInvariant ss \<longleftrightarrow>
    (let vs = filter IsVowel ss; anyMod = list_ex HasModifier vs in
     case filter HasTone vs of
       [] \<Rightarrow> True
     | [t] \<Rightarrow> \<not> (anyMod \<and> \<not> HasModifier t)
     | _ \<Rightarrow> False)"

definition ValidateSyllableState :: "CharState list \<Rightarrow> bool \<Rightarrow> SyllableState" where
  "ValidateSyllableState ss zwjf =
    (let r = ValidateImpl ss zwjf in
     if r \<noteq> Invalid \<and> \<not> CheckToneModInvariant ss then Invalid else r)"

end
