(* ===== verification/EnglishProtection.thy ===== *)
theory EnglishProtection
  imports CharState
begin

text \<open>
  The three-tier English protection of \<open>src/core/engine/EnglishProtection.h\<close>.  The template
  functions over a pointer and a count are functions on the list of the first \<open>count\<close> states.
\<close>

datatype LanguageBias = UnknownBias | HardEnglish | SoftEnglish | VietnameseBias

record EnglishProtectionState =
  bias :: LanguageBias
  lastToneKey :: wchar
  sameToneKeyCount :: int

definition EnglishProtectionState_Reset :: EnglishProtectionState where
  "EnglishProtectionState_Reset = \<lparr>bias = UnknownBias, lastToneKey = 0, sameToneKeyCount = 0\<rparr>"

subsection \<open>Tier 1: hard patterns\<close>

definition hardStartClusters :: "(wchar \<times> wchar) list" where
  "hardStartClusters =
    [(L_c, L_l), (L_c, L_r), (L_b, L_r), (L_b, L_l), (L_d, L_r), (L_f, L_r), (L_f, L_l), (L_g, L_r),
     (L_g, L_l), (L_p, L_r), (L_p, L_l), (L_s, L_m), (L_s, L_n), (L_s, L_p), (L_s, L_w), (L_s, L_t),
     (L_s, L_c), (L_s, L_k), (L_s, L_l), (L_w, L_h), (L_w, L_r), (L_k, L_n), (L_p, L_n), (L_p, L_s)]"

definition IsHardEnglishStart :: "wchar \<Rightarrow> wchar \<Rightarrow> bool" where
  "IsHardEnglishStart c0 c1 \<longleftrightarrow> (towlower c0, towlower c1) \<in> set hardStartClusters"

definition IsHardEnglishRawStart :: "wstring \<Rightarrow> bool" where
  "IsHardEnglishRawStart raw \<longleftrightarrow> (if length raw < 2 then False else IsHardEnglishStart (raw ! 0) (raw ! 1))"

definition IsHardEnglishEnd :: "wchar \<Rightarrow> bool" where
  "IsHardEnglishEnd c \<longleftrightarrow> towlower c \<in> set [L_x, L_r, L_z, L_f, L_s, L_j]"

definition IsQWithoutU :: "wchar \<Rightarrow> wchar \<Rightarrow> bool" where
  "IsQWithoutU c0 c1 \<longleftrightarrow> towlower c0 = L_q \<and> towlower c1 \<noteq> L_u"

subsection \<open>Tier 2: soft bias\<close>

definition IsValidVietnameseYSequence :: "CharState list \<Rightarrow> bool" where
  "IsValidVietnameseYSequence ss \<longleftrightarrow>
    (if length ss < 2 then False
     else if towlower (base (ss ! 0)) \<noteq> L_y then False
     else if base (ss ! 1) = L_e \<and> HasModifier (ss ! 1) then
       (if length ss = 2 then True
        else towlower (base (ss ! 2)) \<in> set [L_u, L_n, L_m, L_t])
     else False)"

definition CheckSoftEnglishBias :: "CharState list \<Rightarrow> bool" where
  "CheckSoftEnglishBias ss \<longleftrightarrow>
    (if length ss < 2 then False
     else if towlower (base (ss ! 0)) \<noteq> L_y then False
     else let c1 = towlower (base (ss ! 1)) in
       IsVowel (ss ! 1) \<and> (c1 = L_a \<or> c1 = L_o \<or> c1 = L_e) \<and> \<not> IsValidVietnameseYSequence ss)"

subsection \<open>Tier 3: insistence\<close>

definition UpdateToneInsistence ::
  "wchar \<Rightarrow> EnglishProtectionState \<Rightarrow> EnglishProtectionState \<times> bool" where
  "UpdateToneInsistence toneKey st =
    (let st' = (if toneKey = lastToneKey st then st\<lparr>sameToneKeyCount := sameToneKeyCount st + 1\<rparr>
                else st\<lparr>lastToneKey := toneKey, sameToneKeyCount := 1\<rparr>)
     in (st', sameToneKeyCount st' \<ge> 2))"

subsection \<open>Structural checks\<close>

definition isCodaLetter :: "wchar \<Rightarrow> bool" where
  "isCodaLetter c \<longleftrightarrow> c \<in> set [L_c, L_k, L_m, L_n, L_p, L_t]"

text \<open>The outer \<open>while\<close> loop of \<open>HasStructuralVCVPattern\<close> on the states from index \<open>i\<close> on.\<close>

function vcvScan :: "CharState list \<Rightarrow> bool" where
  "vcvScan [] = False"
| "vcvScan (s # ss) =
    (if \<not> IsVowel s then vcvScan ss
     else
       let group = takeWhile IsVowel (s # ss); after = dropWhile IsVowel (s # ss);
           cons = takeWhile (\<lambda>x. \<not> IsVowel x) after; rest = dropWhile (\<lambda>x. \<not> IsVowel x) after
       in if length cons \<ge> 1 \<and> rest \<noteq> [] \<and>
             \<not> (length cons = 1 \<and> list_ex HasModifier group \<and> isCodaLetter (base (hd cons)))
          then True else vcvScan rest)"
  by pat_completeness auto
termination
proof (relation "measure length", goal_cases)
  case (3 s ss x xa xb xc)
  then have "length xc \<le> length (dropWhile IsVowel ss)"
    by (simp add: length_dropWhile_le)
  also have "\<dots> \<le> length ss" by (rule length_dropWhile_le)
  finally show ?case by simp
qed simp_all

definition HasStructuralVCVPattern :: "CharState list \<Rightarrow> bool" where
  "HasStructuralVCVPattern ss \<longleftrightarrow> (if length ss < 4 then False else vcvScan ss)"

definition IsHardEnglishToneContext :: "CharState list \<Rightarrow> wchar \<Rightarrow> bool" where
  "IsHardEnglishToneContext ss toneKey \<longleftrightarrow>
    (if \<not> IsHardEnglishEnd toneKey then False else HasStructuralVCVPattern ss)"

definition IsClusterConsonant :: "CharState list \<Rightarrow> nat \<Rightarrow> bool" where
  "IsClusterConsonant ss i \<longleftrightarrow>
    (if i = 0 then False
     else if base (ss ! i) = L_i \<and> base (ss ! (i - 1)) = L_g \<and> i + 1 < length ss \<and>
             IsVowel (ss ! (i + 1)) then True
     else base (ss ! i) = L_u \<and> base (ss ! (i - 1)) = L_q)"

definition invalidPairAt :: "CharState list \<Rightarrow> nat \<Rightarrow> bool" where
  "invalidPairAt ss i \<longleftrightarrow>
    (if \<not> IsVowel (ss ! i) \<or> \<not> IsVowel (ss ! (i + 1)) then False
     else if HasModifier (ss ! i) \<or> HasModifier (ss ! (i + 1)) then False
     else if IsClusterConsonant ss i then False
     else case (DiphthongVowelIndex (base (ss ! i)), DiphthongVowelIndex (base (ss ! (i + 1)))) of
       (Some v0, Some v1) \<Rightarrow>
         (if (v0, v1) \<in> set [(2, 1), (5, 0), (5, 1), (3, 3)] then False
          else kDiphthongClassic ! v0 ! v1 = 0 \<and> kDiphthongModern ! v0 ! v1 = 0)
     | _ \<Rightarrow> False)"

definition HasInvalidAdjacentVowelPair :: "CharState list \<Rightarrow> bool" where
  "HasInvalidAdjacentVowelPair ss \<longleftrightarrow> list_ex (invalidPairAt ss) [0..<length ss - 1]"

definition IsInvalidVietnameseCoda :: "CharState list \<Rightarrow> bool" where
  "IsInvalidVietnameseCoda ss \<longleftrightarrow>
    (let count = length ss in
     if count < 3 then False
     else case last_idx (\<lambda>i. IsVowel (ss ! i) \<or> (IsD (ss ! i) \<and> i = 0)) count of
       None \<Rightarrow> False
     | Some v \<Rightarrow>
         (let codaLen = count - 1 - v in
          if codaLen < 2 then False
          else if codaLen \<ge> 3 then True
          else \<not> (towlower (base (ss ! (count - 2))), towlower (base (ss ! (count - 1))))
                   \<in> set [(L_c, L_h), (L_n, L_g), (L_n, L_h)]))"

definition hardEnglishBias :: "CharState list \<Rightarrow> bool" where
  "hardEnglishBias ss \<longleftrightarrow>
    (let count = length ss in
     (count \<ge> 2 \<and> \<not> IsVowel (ss ! 0) \<and> \<not> IsVowel (ss ! 1) \<and> \<not> IsD (ss ! 0) \<and>
      (IsHardEnglishStart (base (ss ! 0)) (base (ss ! 1)) \<or>
       IsQWithoutU (base (ss ! 0)) (base (ss ! 1)))) \<or>
     (count \<ge> 3 \<and> \<not> IsVowel (ss ! (count - 1)) \<and> \<not> IsD (ss ! (count - 1)) \<and>
      IsVowel (ss ! (count - 2)) \<and> IsHardEnglishEnd (base (ss ! (count - 1)))) \<or>
     IsInvalidVietnameseCoda ss)"

definition CheckEnglishBias :: "CharState list \<Rightarrow> EnglishProtectionState \<Rightarrow> EnglishProtectionState" where
  "CheckEnglishBias ss prot =
    (if bias prot = VietnameseBias then prot
     else if hardEnglishBias ss then prot\<lparr>bias := HardEnglish\<rparr>
     else if bias prot = UnknownBias \<and> CheckSoftEnglishBias ss then prot\<lparr>bias := SoftEnglish\<rparr>
     else prot)"

subsection \<open>Raw prefixes\<close>

definition kBlockedTonePrefixes :: "wstring list" where
  "kBlockedTonePrefixes = [[L_p, L_a, L_s], [L_g, L_u, L_e, L_s], [L_p, L_e, L_r]]"

definition kBlockedModifierPrefixes :: "wstring list" where
  "kBlockedModifierPrefixes = [[L_p, L_o, L_w], [L_u, L_p, L_w]]"

definition MatchesRawPrefix :: "wstring \<Rightarrow> wstring list \<Rightarrow> bool" where
  "MatchesRawPrefix raw rules \<longleftrightarrow>
     list_ex (\<lambda>pat. length raw \<ge> length pat \<and> map towlower (take (length pat) raw) = pat) rules"

definition IsBlockedEnglishTone :: "wstring \<Rightarrow> bool" where
  "IsBlockedEnglishTone raw \<longleftrightarrow> MatchesRawPrefix raw kBlockedTonePrefixes"

definition IsBlockedEnglishModifier :: "wstring \<Rightarrow> bool" where
  "IsBlockedEnglishModifier raw \<longleftrightarrow> MatchesRawPrefix raw kBlockedModifierPrefixes"

end
