(* ===== verification/EngineHelpers.thy ===== *)
theory EngineHelpers
  imports Phonology EnglishProtection
begin

text \<open>
  The helper functions of \<open>src/core/engine/EngineHelpers.h\<close>.  Every call site of the templates
  passes \<open>Compose\<close> as the composition function, so \<open>Compose\<close> appears directly; index results
  use \<open>None\<close> for \<open>SIZE_MAX\<close>.
\<close>

subsection \<open>Escape and quick-consonant states\<close>

datatype EscapeKind = EscNone | EscTone | EscCircumflex | EscHorn | EscBreve | EscStroke | EscModifier

record QuickConsonantState =
  resultIndex :: "nat option"
  lastKey :: wchar
  onlyQC :: bool
  escaped :: bool

definition qc_Reset :: QuickConsonantState where
  "qc_Reset = \<lparr>resultIndex = None, lastKey = 0, onlyQC = False, escaped = False\<rparr>"

definition clearActive :: "QuickConsonantState \<Rightarrow> QuickConsonantState" where
  "clearActive q = q\<lparr>resultIndex := None, lastKey := 0\<rparr>"

definition markEscaped :: "QuickConsonantState \<Rightarrow> QuickConsonantState" where
  "markEscaped q = clearActive (q\<lparr>escaped := True\<rparr>)"

definition hasActive :: "QuickConsonantState \<Rightarrow> bool" where
  "hasActive q \<longleftrightarrow> resultIndex q \<noteq> None"

subsection \<open>Spell exclusions and spell check\<close>

definition IsSpellExcluded :: "CharState list \<Rightarrow> wstring list \<Rightarrow> bool" where
  "IsSpellExcluded ss exclusions \<longleftrightarrow>
    (if exclusions = [] \<or> ss = [] then False
     else let buf = map towlower (take 16 (filter (\<lambda>ch. ch \<noteq> 0) (map Compose ss))) in
       list_ex (\<lambda>pat. \<not> (length pat < 2 \<or> length buf < length pat) \<and> take (length pat) buf = pat)
         exclusions)"

definition UpdateSpellCheck :: "CharState list \<Rightarrow> TypingConfig \<Rightarrow> bool" where
  "UpdateSpellCheck ss cfg =
    (if \<not> spellCheckEnabled cfg \<or> ss = [] then False
     else if IsSpellExcluded ss (spellExclusions cfg) then False
     else ValidateSyllableState ss (allowZwjf cfg) = Invalid)"

definition ShouldAutoRestore :: "wstring \<Rightarrow> wstring \<Rightarrow> bool" where
  "ShouldAutoRestore raw composed \<longleftrightarrow>
    (if raw = composed then False
     else if list_ex (\<lambda>ch. ch > 0x7F) composed then True
     else length raw \<le> length composed)"

fun hasRawDD :: "wstring \<Rightarrow> bool" where
  "hasRawDD (ch # nxt # rest) =
    (if (ch = L_d \<or> ch = 0x44) \<and> (nxt = L_d \<or> nxt = 0x44 \<or> nxt = L_9) then True
     else hasRawDD (nxt # rest))"
| "hasRawDD _ = False"

definition HasIntentionalStrokeD :: "wstring \<Rightarrow> wstring \<Rightarrow> bool" where
  "HasIntentionalStrokeD rawInput composed \<longleftrightarrow>
    (if \<not> hasRawDD rawInput then False
     else case last_idx (\<lambda>i. composed ! i = dd_lower \<or> composed ! i = dd_upper) (length composed) of
       None \<Rightarrow> False
     | Some lastStrokeD \<Rightarrow>
         list_all (\<lambda>ch. \<not> isVowelBase (towlower ch)) (drop (lastStrokeD + 1) composed))"

subsection \<open>Horn and stroke helpers\<close>

definition IsUOEdgeCasePrefix :: "CharState list \<Rightarrow> nat \<Rightarrow> bool" where
  "IsUOEdgeCasePrefix ss uIdx \<longleftrightarrow>
    (if uIdx = 1 \<and> towlower (base (ss ! 0)) = L_h then True
     else if uIdx = 2 then
       towlower (base (ss ! 1)) = L_h \<and>
       (towlower (base (ss ! 0)) = L_t \<or> towlower (base (ss ! 0)) = L_k)
     else False)"

definition UndoHornU :: "CharState list \<Rightarrow> nat \<Rightarrow> CharState list" where
  "UndoHornU ss oIndex =
    (if oIndex > 0 \<and> base (ss ! oIndex) = L_o \<and> HasModifier (ss ! oIndex) \<and>
        base (ss ! (oIndex - 1)) = L_u \<and> HasModifier (ss ! (oIndex - 1))
     then ss[oIndex - 1 := (ss ! (oIndex - 1))\<lparr>modifier := ModNone\<rparr>] else ss)"

definition RecalcEnglishBias :: "CharState list \<Rightarrow> EnglishProtectionState" where
  "RecalcEnglishBias ss =
    fold (\<lambda>len. CheckEnglishBias (take len ss)) [2..<length ss + 1] EnglishProtectionState_Reset"

definition CheckZwjfInitialBias ::
  "CharState list \<Rightarrow> TypingConfig \<Rightarrow> EnglishProtectionState \<Rightarrow> EnglishProtectionState" where
  "CheckZwjfInitialBias ss cfg prot =
    (if allowZwjf cfg \<or> \<not> spellCheckEnabled cfg \<or> ss = [] then prot
     else if bias prot = VietnameseBias then prot
     else if IsVowel (ss ! 0) then prot
     else if base (ss ! 0) = L_w \<or> base (ss ! 0) = L_z \<or> base (ss ! 0) = L_j \<or> base (ss ! 0) = L_f
       then prot\<lparr>bias := HardEnglish\<rparr>
     else prot)"

text \<open>The inner loop of \<open>FindStrokeDTarget\<close>: back over the contiguous run of d.\<close>

fun dClusterStart :: "CharState list \<Rightarrow> nat \<Rightarrow> nat" where
  "dClusterStart ss 0 = 0"
| "dClusterStart ss (Suc i) = (if IsD (ss ! i) then dClusterStart ss i else Suc i)"

definition FindStrokeDTarget :: "CharState list \<Rightarrow> nat option" where
  "FindStrokeDTarget ss =
    (case last_idx (\<lambda>i. IsD (ss ! i)) (length ss) of
       None \<Rightarrow> None
     | Some dIdx \<Rightarrow>
         (let checkIdx = dClusterStart ss dIdx in
          if dIdx > 0 \<and> checkIdx > 0 \<and> IsVowel (ss ! (checkIdx - 1)) then None else Some dIdx))"

definition HasVowelState :: "CharState list \<Rightarrow> bool" where
  "HasVowelState ss \<longleftrightarrow> list_ex IsVowel ss"

definition IsStrokeDBlockedByCoda :: "CharState list \<Rightarrow> nat \<Rightarrow> bool" where
  "IsStrokeDBlockedByCoda ss dTarget \<longleftrightarrow>
    (if dTarget = 0 \<and> length ss > 1 \<and> IsVowel (ss ! 1) then False
     else length (takeWhile (\<lambda>s. \<not> (IsVowel s \<or> IsD s)) (rev ss)) \<ge> 1)"

definition ShouldBlockStrokeDAsEnglish :: "CharState list \<Rightarrow> nat \<Rightarrow> bool" where
  "ShouldBlockStrokeDAsEnglish ss dTarget \<longleftrightarrow>
    (if IsStrokeDBlockedByCoda ss dTarget then True
     else if dTarget = 0 \<and> HasStructuralVCVPattern ss then True
     else False)"

definition IsStrokeDEscapeAllowed :: "nat \<Rightarrow> nat \<Rightarrow> bool" where
  "IsStrokeDEscapeAllowed count dIdx \<longleftrightarrow>
    (if count > 0 \<and> dIdx = count - 1 then True
     else if dIdx = 0 \<and> count \<ge> 2 then True
     else False)"

subsection \<open>Exclusion matching while typing\<close>

definition MatchExclusionBuf :: "(wchar \<Rightarrow> wchar \<Rightarrow> bool) \<Rightarrow> wstring \<Rightarrow> wstring list \<Rightarrow> bool" where
  "MatchExclusionBuf cmp buf exclusions \<longleftrightarrow>
     list_ex (\<lambda>pat.
       if length pat < 2 then False
       else let cmpLen = min (length buf) (length pat) in
         if cmpLen = 0 then False
         else list_all (\<lambda>i. cmp (pat ! i) (buf ! i)) [0..<cmpLen]) exclusions"

definition MatchExclusionBufIgnoreTone :: "wstring \<Rightarrow> wstring list \<Rightarrow> bool" where
  "MatchExclusionBufIgnoreTone = MatchExclusionBuf (\<lambda>a b. StripTone a = StripTone b)"

definition BuildExclusionBuf :: "CharState list \<Rightarrow> nat \<Rightarrow> wchar \<Rightarrow> wstring" where
  "BuildExclusionBuf ss overrideIdx overrideChar =
     map towlower (take 16 (filter (\<lambda>ch. ch \<noteq> 0) ((map Compose ss)[overrideIdx := overrideChar])))"

definition WouldStrokeDMatchExclusion :: "CharState list \<Rightarrow> wstring list \<Rightarrow> bool" where
  "WouldStrokeDMatchExclusion ss exclusions \<longleftrightarrow>
    (if exclusions = [] \<or> ss = [] then False
     else case FindStrokeDTarget ss of
       None \<Rightarrow> False
     | Some dIdx \<Rightarrow> MatchExclusionBuf (=) (BuildExclusionBuf ss dIdx dd_lower) exclusions)"

definition WouldToneMatchExclusion :: "CharState list \<Rightarrow> wstring list \<Rightarrow> nat \<Rightarrow> wchar \<Rightarrow> bool" where
  "WouldToneMatchExclusion ss exclusions toneIdx tonedChar \<longleftrightarrow>
    (if exclusions = [] \<or> ss = [] \<or> toneIdx \<ge> length ss then False
     else MatchExclusionBuf (=) (BuildExclusionBuf ss toneIdx tonedChar) exclusions)"

definition WouldModifierMatchExclusion ::
  "CharState list \<Rightarrow> wstring list \<Rightarrow> nat \<Rightarrow> Modifier \<Rightarrow> bool" where
  "WouldModifierMatchExclusion ss exclusions targetIdx m \<longleftrightarrow>
    (if exclusions = [] \<or> ss = [] \<or> targetIdx \<ge> length ss then False
     else let modChar = Compose ((ss ! targetIdx)\<lparr>modifier := m\<rparr>) in
       MatchExclusionBufIgnoreTone (BuildExclusionBuf ss targetIdx modChar) exclusions)"

definition WouldAnyModifierMatchExclusion ::
  "CharState list \<Rightarrow> wstring list \<Rightarrow> Modifier \<Rightarrow> wstring \<Rightarrow> bool" where
  "WouldAnyModifierMatchExclusion ss exclusions m eligibleBases \<longleftrightarrow>
    (if exclusions = [] \<or> ss = [] then False
     else list_ex (\<lambda>i. IsVowel (ss ! i) \<and> modifier (ss ! i) = ModNone \<and>
            base (ss ! i) \<in> set eligibleBases \<and> WouldModifierMatchExclusion ss exclusions i m)
          [0..<length ss])"

subsection \<open>Codas, tones and relocation\<close>

definition HasStopFinalCoda :: "CharState list \<Rightarrow> bool" where
  "HasStopFinalCoda ss \<longleftrightarrow>
    (if length ss < 2 then False
     else case last_idx (\<lambda>i. IsVowel (ss ! i)) (length ss) of
       None \<Rightarrow> False
     | Some v \<Rightarrow>
         (let codaStart = v + 1; codaLen = length ss - codaStart in
          if codaLen = 1 then towlower (base (ss ! codaStart)) \<in> set [L_c, L_k, L_p, L_t]
          else if codaLen = 2 then
            towlower (base (ss ! codaStart)) = L_c \<and> towlower (base (ss ! (codaStart + 1))) = L_h
          else False))"

definition HasEscapableModifier :: "CharState list \<Rightarrow> Modifier \<Rightarrow> bool \<Rightarrow> bool" where
  "HasEscapableModifier ss m isStroke \<longleftrightarrow>
     list_ex (\<lambda>s. (if isStroke then IsD s else IsVowel s) \<and> modifier s = m) ss"

definition FindTonedVowelIndex :: "CharState list \<Rightarrow> nat option" where
  "FindTonedVowelIndex ss = first_index (\<lambda>s. IsVowel s \<and> HasTone s) ss"

definition HasConsonantBetween :: "CharState list \<Rightarrow> nat \<Rightarrow> nat \<Rightarrow> bool" where
  "HasConsonantBetween ss fromIdx toIdx \<longleftrightarrow>
    (let lo = min fromIdx toIdx; hi = max fromIdx toIdx in
     list_ex (\<lambda>i. \<not> IsVowel (ss ! i)) [lo + 1..<hi])"

definition IsToneRelocBlockedByP4 :: "CharState list \<Rightarrow> nat \<Rightarrow> bool \<Rightarrow> bool" where
  "IsToneRelocBlockedByP4 ss targetIdx modern \<longleftrightarrow>
    (if HasModifier (ss ! targetIdx) then False
     else let nuclear = (\<lambda>i. IsVowel (ss ! i) \<and> \<not> IsClusterConsonant ss i) in
       case last_idx nuclear (length ss) of
         None \<Rightarrow> False
       | Some vLast \<Rightarrow>
         (case last_idx nuclear vLast of
            None \<Rightarrow> False
          | Some v2nd \<Rightarrow>
              if targetIdx \<noteq> vLast \<or> vLast \<noteq> v2nd + 1 then False
              else case (DiphthongVowelIndex (base (ss ! v2nd)), DiphthongVowelIndex (base (ss ! vLast))) of
                (Some fi, Some li) \<Rightarrow> diphthongRule modern fi li = 0
              | _ \<Rightarrow> False))"

lemma FindStrokeDTarget_SomeD: "FindStrokeDTarget ss = Some i \<Longrightarrow> i < length ss \<and> IsD (ss ! i)"
  by (auto simp: FindStrokeDTarget_def Let_def last_idx_Some split: option.splits if_splits)

lemma length_UndoHornU [simp]: "length (UndoHornU ss i) = length ss"
  by (simp add: UndoHornU_def)

lemma UndoHornU_wf: "list_all wf_cs ss \<Longrightarrow> i < length ss \<Longrightarrow> list_all wf_cs (UndoHornU ss i)"
  by (simp add: UndoHornU_def list_all_update list_all_nth)

lemma FindTonedVowelIndex_SomeD:
  "FindTonedVowelIndex ss = Some i \<Longrightarrow> i < length ss \<and> IsVowel (ss ! i) \<and> HasTone (ss ! i)"
  by (simp add: FindTonedVowelIndex_def first_index_Some)

end
