(* ===== verification/TonePlacement.thy ===== *)
theory TonePlacement
  imports CharState
begin

text \<open>
  Tone placement in a rendered vowel nucleus: \<open>src/core/engine/Phonotactics.cpp\<close>.
  \<open>SIZE_MAX\<close> is \<open>None\<close>; a \<open>VowelInfo\<close> is a base letter with a modifier of \<open>VowelMod\<close>.
\<close>

datatype VowelMod = VNone | VCircumflex | VBreve | VHorn

text \<open>\<open>Decompose\<close>; \<open>None\<close> stands for the result \<open>{0, None}\<close> of the default branch.\<close>

definition Decompose :: "wchar \<Rightarrow> (wchar \<times> VowelMod) option" where
  "Decompose c =
    (if c = L_a then Some (L_a, VNone)
     else if c = 0x103 then Some (L_a, VBreve)
     else if c = 0xE2 then Some (L_a, VCircumflex)
     else if c = L_e then Some (L_e, VNone)
     else if c = 0xEA then Some (L_e, VCircumflex)
     else if c = L_i then Some (L_i, VNone)
     else if c = L_o then Some (L_o, VNone)
     else if c = 0xF4 then Some (L_o, VCircumflex)
     else if c = 0x1A1 then Some (L_o, VHorn)
     else if c = L_u then Some (L_u, VNone)
     else if c = 0x1B0 then Some (L_u, VHorn)
     else if c = L_y then Some (L_y, VNone)
     else None)"

text \<open>The collecting loop: at most 16 vowels, everything else is skipped.\<close>

definition collectVowels :: "wstring \<Rightarrow> (wchar \<times> VowelMod) list" where
  "collectVowels vowelSeq = take 16 (List.map_filter Decompose vowelSeq)"

text \<open>The diphthong rule for the plain nuclei of two or more vowels (lines 90 to 129): whether the
  examined pair shifts one vowel to the left, and the position its rule selects.\<close>

definition diphthongShift :: "(wchar \<times> VowelMod) list \<Rightarrow> bool \<Rightarrow> bool" where
  "diphthongShift vs modern \<longleftrightarrow>
    (let count = length vs in
     count \<ge> 3 \<and>
     (case (DiphthongVowelIndex (fst (vs ! (count - 3))), DiphthongVowelIndex (fst (vs ! (count - 2)))) of
        (Some sf, Some f) \<Rightarrow> diphthongRule modern sf f \<noteq> 0
      | _ \<Rightarrow> False))"

definition pairPosition ::
  "nat option \<Rightarrow> nat option \<Rightarrow> bool \<Rightarrow> bool \<Rightarrow> nat \<Rightarrow> nat \<Rightarrow> nat \<Rightarrow> bool \<Rightarrow> nat" where
  "pairPosition fd ld modern repeated firstPos lastPos count codaEmpty =
    (case (fd, ld) of
       (Some f, Some l) \<Rightarrow>
         (let r0 = diphthongRule modern f l;
              r = (if r0 = 3 then
                     (if repeated then 1
                      else if lastPos + 1 < count \<or> \<not> codaEmpty then 2 else 1)
                   else r0)
          in if r = 1 then firstPos else if r = 2 then lastPos else count - 1)
     | _ \<Rightarrow> count - 1)"

definition diphthongPosition :: "(wchar \<times> VowelMod) list \<Rightarrow> bool \<Rightarrow> bool \<Rightarrow> nat" where
  "diphthongPosition vs codaEmpty modern =
    (let count = length vs;
         b = (\<lambda>i. fst (vs ! i));
         shifted = diphthongShift vs modern;
         firstPos = (if shifted then count - 3 else count - 2);
         lastPos = (if shifted then count - 2 else count - 1)
     in pairPosition (DiphthongVowelIndex (b firstPos)) (DiphthongVowelIndex (b lastPos)) modern
          (shifted \<and> b (count - 1) = b (count - 2)) firstPos lastPos count codaEmpty)"

definition FindTonePosition :: "wstring \<Rightarrow> wstring \<Rightarrow> bool \<Rightarrow> nat option" where
  "FindTonePosition vowelSeq coda modern =
    (let vs = collectVowels vowelSeq; count = length vs in
     if count = 0 then None
     else case last_idx (\<lambda>i. snd (vs ! i) = VHorn) count of
       Some i \<Rightarrow> Some i
     | None \<Rightarrow>
       (case first_idx (\<lambda>i. snd (vs ! i) = VCircumflex \<or> snd (vs ! i) = VBreve) count of
          Some i \<Rightarrow> Some i
        | None \<Rightarrow>
            if count \<ge> 2 then
              (if modern \<and> count \<ge> 3 \<and>
                  IsTriphthong (fst (vs ! (count - 3))) (fst (vs ! (count - 2))) (fst (vs ! (count - 1)))
               then Some (count - 2)
               else if count = 3 \<and> snd (vs ! 0) = VNone \<and> snd (vs ! 1) = VNone \<and> snd (vs ! 2) = VNone \<and>
                       IsBareSmartTriphthongTail (fst (vs ! 0)) (fst (vs ! 1)) (fst (vs ! 2))
               then Some (count - 1)
               else Some (diphthongPosition vs (coda = []) modern))
            else Some (count - 1)))"

lemma pairPosition_less: "a < n \<Longrightarrow> b < n \<Longrightarrow> pairPosition fd ld m r a b n c < n"
  by (auto simp: pairPosition_def Let_def split: option.split)

lemma diphthongPosition_less: "2 \<le> length vs \<Longrightarrow> diphthongPosition vs c m < length vs"
  unfolding diphthongPosition_def Let_def by (rule pairPosition_less) auto

lemma FindTonePosition_None: "FindTonePosition vs c m = None \<longleftrightarrow> collectVowels vs = []"
  by (auto simp: FindTonePosition_def Let_def split: option.splits)

lemma FindTonePosition_less:
  assumes "FindTonePosition w c m = Some i"
  shows "i < length (collectVowels w)"
  using assms diphthongPosition_less[of "collectVowels w" "c = []" m]
  by (auto simp: FindTonePosition_def Let_def last_idx_Some dest: first_idx_SomeD
      split: option.splits if_splits)

end
