(* ===== verification/EngineCore.thy ===== *)
theory EngineCore
  imports EngineHelpers TonePlacement
begin

text \<open>
  The state of \<open>TypingEngine\<close> and the primitives its handlers are built from
  (\<open>src/core/engine/TypingEngine.{h,cpp}\<close>): literal characters, the raw-input bookkeeping, tone
  targets and relocation, auto-completion of the uo pair, spell state and the speculative
  validity checks.

  A method that mutates the engine returns the new engine; one that also returns \<open>bool\<close> returns
  a pair.  Methods that read or write \<open>states_\<close> only are functions on the list of states.
  \<open>oobWrite\<close> is a ghost field: it is set when the C++ code would store through
  \<open>std::vector::operator[]\<close> past the end, where the model leaves the vector unchanged.
\<close>

record TypingEngine =
  states :: "CharState list"
  rawInput :: wstring
  escRawHistory :: wstring
  config :: TypingConfig
  spellCheckDisabled :: bool
  qc :: QuickConsonantState
  escape :: EscapeKind
  activeKeyUppercase :: bool
  quickStartKey :: wchar
  engProt :: EnglishProtectionState
  oobWrite :: bool

abbreviation isEscaped :: "TypingEngine \<Rightarrow> bool" where
  "isEscaped e \<equiv> escape e \<noteq> EscNone"

definition IsTelexMode :: "TypingEngine \<Rightarrow> bool" where
  "IsTelexMode e \<longleftrightarrow> inputMethod (config e) \<noteq> VNI \<and> inputMethod (config e) \<noteq> UserDefined"

definition IsVniMode :: "TypingEngine \<Rightarrow> bool" where
  "IsVniMode e \<longleftrightarrow> inputMethod (config e) = VNI \<or> inputMethod (config e) = Combined"

definition setBias :: "LanguageBias \<Rightarrow> TypingEngine \<Rightarrow> TypingEngine" where
  "setBias b e = e\<lparr>engProt := (engProt e)\<lparr>bias := b\<rparr>\<rparr>"

subsection \<open>Literal characters and the raw buffer\<close>

definition newRawIdx :: "TypingEngine \<Rightarrow> nat" where
  "newRawIdx e = (if rawInput e = [] then 0 else length (rawInput e) - 1)"

definition ProcessChar3 :: "wchar \<Rightarrow> bool \<Rightarrow> TypingEngine \<Rightarrow> TypingEngine" where
  "ProcessChar3 lower up e =
    e\<lparr>states := states e @ [initCharState\<lparr>base := lower, isUpper := up, rawIdx := newRawIdx e\<rparr>]\<rparr>"

definition ProcessChar :: "wchar \<Rightarrow> TypingEngine \<Rightarrow> TypingEngine" where
  "ProcessChar keyChar e = ProcessChar3 (towlower keyChar) (iswupper keyChar) e"

definition shiftRaw :: "nat \<Rightarrow> CharState \<Rightarrow> CharState" where
  "shiftRaw idx s =
    s\<lparr>rawIdx := (if rawIdx s > idx then rawIdx s - 1 else rawIdx s),
      toneRawIdx := (case toneRawIdx s of
         Some t \<Rightarrow> Some (if t > idx then t - 1 else t) | None \<Rightarrow> None)\<rparr>"

definition EraseConsumedRaw :: "nat \<Rightarrow> TypingEngine \<Rightarrow> TypingEngine" where
  "EraseConsumedRaw idx e =
    (if idx \<ge> length (rawInput e) then e
     else e\<lparr>rawInput := erase_at idx (rawInput e), states := map (shiftRaw idx) (states e)\<rparr>)"

definition insertAt :: "nat \<Rightarrow> 'a \<Rightarrow> 'a list \<Rightarrow> 'a list" where
  "insertAt i x xs = take i xs @ x # drop i xs"

definition RestoreConsumedKeyInPlace :: "nat option \<Rightarrow> wchar \<Rightarrow> TypingEngine \<Rightarrow> TypingEngine" where
  "RestoreConsumedKeyInPlace consumedRawIdx escapeKey e =
    (case consumedRawIdx of
       None \<Rightarrow> ProcessChar escapeKey e
     | Some ci \<Rightarrow>
         if ci \<ge> length (rawInput e) \<or> rawInput e = [] \<or>
            towlower (last (rawInput e)) \<noteq> towlower escapeKey
         then ProcessChar escapeKey (if ci < length (rawInput e) then EraseConsumedRaw ci e else e)
         else
           let e1 = EraseConsumedRaw (length (rawInput e) - 1) e;
               e2 = (if ci < length (rawInput e1) then e1\<lparr>rawInput := (rawInput e1)[ci := escapeKey]\<rparr>
                     else e1\<lparr>oobWrite := True\<rparr>);
               s = initCharState\<lparr>base := towlower escapeKey, isUpper := iswupper escapeKey, rawIdx := ci\<rparr>;
               at = (case first_index (\<lambda>x. rawIdx x > ci) (states e2) of
                       Some i \<Rightarrow> i | None \<Rightarrow> length (states e2))
           in e2\<lparr>states := insertAt at s (states e2)\<rparr>)"

definition RevertProvisionalOoTone :: "wchar \<Rightarrow> TypingEngine \<Rightarrow> TypingEngine \<times> bool" where
  "RevertProvisionalOoTone lower e =
    (let count = length (states e) in
     if count < 2 then (e, False)
     else let firstO = states e ! (count - 2); secondO = states e ! (count - 1) in
       if base firstO \<noteq> L_o \<or> base secondO \<noteq> L_o then (e, False)
       else if modifier firstO \<noteq> ModNone \<or> modifier secondO \<noteq> ModNone then (e, False)
       else if \<not> HasTone secondO \<or> HasTone firstO then (e, False)
       else if lower = L_c \<or> lower = L_n then (e, False)
       else
         let toneKey = (case toneRawIdx secondO of
               Some ci \<Rightarrow> if ci < length (rawInput e) then rawInput e ! ci else 0 | None \<Rightarrow> 0);
             ci = (case toneRawIdx secondO of Some ci \<Rightarrow> ci | None \<Rightarrow> 0);
             e1 = e\<lparr>states := (states e)[count - 1 := secondO\<lparr>tone := ToneNone, toneRawIdx := None\<rparr>]\<rparr>;
             e2 = (if toneKey \<noteq> 0 then
                     e1\<lparr>states := states e1 @
                        [initCharState\<lparr>base := towlower toneKey, isUpper := iswupper toneKey, rawIdx := ci\<rparr>]\<rparr>
                   else e1)
         in if toneKey \<noteq> 0 \<and> towlower toneKey = lower then (e2\<lparr>escape := EscTone\<rparr>, True)
            else (e2, False))"

subsection \<open>Tone targets\<close>

definition renderedVowels :: "CharState list \<Rightarrow> (nat \<times> wchar) list" where
  "renderedVowels ss =
     take 16 (filter (\<lambda>(i, ch). IsVowel (ss ! i) \<and> \<not> IsClusterConsonant ss i \<and> ch \<noteq> 0)
       (map (\<lambda>i. (i, Compose ((ss ! i)\<lparr>tone := ToneNone, isUpper := False\<rparr>))) [0..<length ss]))"

definition FindToneTarget :: "bool \<Rightarrow> CharState list \<Rightarrow> nat option" where
  "FindToneTarget modern ss =
    (let kept = renderedVowels ss in
     if kept = [] then None
     else
       let coda = take 16 (filter (\<lambda>ch. ch \<noteq> 0)
                    (map (\<lambda>s. Compose (s\<lparr>isUpper := False\<rparr>)) (drop (fst (last kept) + 1) ss)))
       in case FindTonePosition (map snd kept) coda modern of
            None \<Rightarrow> None
          | Some vowelIdx \<Rightarrow> if vowelIdx \<ge> length kept then None else Some (fst (kept ! vowelIdx)))"

definition IsToneStopCodaMismatch :: "CharState list \<Rightarrow> bool" where
  "IsToneStopCodaMismatch ss \<longleftrightarrow>
    (if \<not> HasStopFinalCoda ss then False
     else case find HasTone ss of
       Some s \<Rightarrow> tone s = Grave \<or> tone s = Hook \<or> tone s = Tilde
     | None \<Rightarrow> False)"

definition RelocateToneToHornVowel :: "CharState list \<Rightarrow> CharState list" where
  "RelocateToneToHornVowel ss =
    (case (last_idx (\<lambda>i. IsVowel (ss ! i) \<and> modifier (ss ! i) = Horn) (length ss),
           last_idx (\<lambda>i. IsVowel (ss ! i) \<and> tone (ss ! i) \<noteq> ToneNone) (length ss)) of
       (Some hornIdx, Some tonedIdx) \<Rightarrow>
         if hornIdx \<noteq> tonedIdx \<and>
            (modifier (ss ! tonedIdx) = ModNone \<or> modifier (ss ! tonedIdx) = Horn) \<and>
            \<not> HasConsonantBetween ss tonedIdx hornIdx
         then ss[hornIdx := (ss ! hornIdx)\<lparr>tone := tone (ss ! tonedIdx)\<rparr>,
                 tonedIdx := (ss ! tonedIdx)\<lparr>tone := ToneNone\<rparr>]
         else ss
     | _ \<Rightarrow> ss)"

definition RelocateToneToTarget :: "bool \<Rightarrow> CharState list \<Rightarrow> CharState list" where
  "RelocateToneToTarget modern ss =
    (case FindTonedVowelIndex ss of
       None \<Rightarrow> ss
     | Some tonedIdx \<Rightarrow>
       (case FindToneTarget modern ss of
          None \<Rightarrow> ss
        | Some targetIdx \<Rightarrow>
            if targetIdx = tonedIdx then ss
            else if HasConsonantBetween ss tonedIdx targetIdx then ss
            else if IsToneRelocBlockedByP4 ss targetIdx modern then ss
            else ss[targetIdx := (ss ! targetIdx)\<lparr>tone := tone (ss ! tonedIdx),
                                                   toneRawIdx := toneRawIdx (ss ! tonedIdx)\<rparr>,
                    tonedIdx := (ss ! tonedIdx)\<lparr>tone := ToneNone, toneRawIdx := None\<rparr>]))"

definition autoUOAt :: "bool \<Rightarrow> nat \<Rightarrow> CharState list \<Rightarrow> CharState list" where
  "autoUOAt modern i ss =
    (if i > 0 \<and> base (ss ! i) = L_u \<and> base (ss ! (i - 1)) = L_q then ss
     else
       let ss1 = (if base (ss ! i) = L_u \<and> modifier (ss ! i) = ModNone \<and>
                     base (ss ! (i + 1)) = L_o \<and> modifier (ss ! (i + 1)) = Horn
                  then ss[i := (ss ! i)\<lparr>modifier := Horn\<rparr>] else ss)
       in if base (ss1 ! i) = L_u \<and> modifier (ss1 ! i) = Horn \<and>
             base (ss1 ! (i + 1)) = L_o \<and> modifier (ss1 ! (i + 1)) = ModNone
          then RelocateToneToTarget modern (ss1[i + 1 := (ss1 ! (i + 1))\<lparr>modifier := Horn\<rparr>])
          else ss1)"

definition ApplyAutoUO :: "bool \<Rightarrow> CharState list \<Rightarrow> CharState list" where
  "ApplyAutoUO modern ss =
    (let n = length ss in
     if n < 3 then ss
     else fold (autoUOAt modern) [(if n > 4 then n - 4 else 0)..<n - 2] ss)"

subsection \<open>Modifiers and speculation\<close>

definition SetVowelMod :: "nat \<Rightarrow> Modifier \<Rightarrow> CharState list \<Rightarrow> CharState list" where
  "SetVowelMod idx m ss =
    (let ss' = ss[idx := (ss ! idx)\<lparr>modifier := m\<rparr>] in
     if m = Circumflex then UndoHornU ss' idx else ss')"

definition WouldModifierKeyMatchExclusion :: "CharState list \<Rightarrow> wstring list \<Rightarrow> wchar \<Rightarrow> bool" where
  "WouldModifierKeyMatchExclusion ss ex lower \<longleftrightarrow>
    (if lower = L_d then WouldStrokeDMatchExclusion ss ex
     else if lower = L_w then
       WouldAnyModifierMatchExclusion ss ex Horn [L_u, L_o] \<or>
       WouldAnyModifierMatchExclusion ss ex Breve [L_a]
     else if lower = L_a \<or> lower = L_e \<or> lower = L_o then
       WouldAnyModifierMatchExclusion ss ex Circumflex [L_a, L_e, L_o]
     else if lower = 0x36 then WouldAnyModifierMatchExclusion ss ex Circumflex [L_a, L_e, L_o]
     else if lower = 0x37 then WouldAnyModifierMatchExclusion ss ex Horn [L_u, L_o]
     else if lower = 0x38 then WouldAnyModifierMatchExclusion ss ex Breve [L_a]
     else if lower = 0x39 then WouldStrokeDMatchExclusion ss ex
     else False)"

text \<open>\<open>WouldBeValidSyllable\<close> mutates \<open>states_\<close> and restores them before it returns; the model
  evaluates the speculative list and leaves the engine alone.\<close>

definition clearCircumflexAt :: "nat option \<Rightarrow> CharState list \<Rightarrow> CharState list \<Rightarrow> CharState list" where
  "clearCircumflexAt clearIdx look ss =
    (case clearIdx of
       Some k \<Rightarrow> if k < length ss \<and> modifier (look ! k) = Circumflex
                 then ss[k := (ss ! k)\<lparr>modifier := ModNone\<rparr>] else ss
     | None \<Rightarrow> ss)"

definition WouldBeValidSyllable ::
  "TypingConfig \<Rightarrow> CharState list \<Rightarrow> nat \<Rightarrow> Modifier \<Rightarrow> nat option \<Rightarrow> bool \<Rightarrow> bool" where
  "WouldBeValidSyllable cfg ss targetIdx newMod clearIdx speculateRelocateTone \<longleftrightarrow>
    (if \<not> spellCheckEnabled cfg then True
     else if targetIdx \<ge> length ss then True
     else if speculateRelocateTone then
       (if length ss > 16 then True
        else
          let ss1 = SetVowelMod targetIdx newMod ss;
              ss2 = clearCircumflexAt clearIdx ss ss1;
              ss3 = RelocateToneToTarget (modernOrtho cfg) ss2;
              result = ValidateSyllableState ss3 (allowZwjf cfg)
          in result \<noteq> Invalid \<or> (result = Invalid \<and> IsToneStopCodaMismatch ss3))
     else
       let ss1 = SetVowelMod targetIdx newMod ss;
           ss2 = clearCircumflexAt clearIdx ss1 ss1;
           result = ValidateSyllableState ss2 (allowZwjf cfg)
       in result \<noteq> Invalid \<or> (result = Invalid \<and> IsToneStopCodaMismatch ss2))"

definition ShouldRejectModifier ::
  "TypingConfig \<Rightarrow> CharState list \<Rightarrow> nat \<Rightarrow> Modifier \<Rightarrow> wchar \<Rightarrow> bool" where
  "ShouldRejectModifier cfg ss targetIdx newMod k \<longleftrightarrow>
    (if \<not> spellCheckEnabled cfg then False
     else \<not> WouldBeValidSyllable cfg ss targetIdx newMod None False \<and>
          \<not> WouldModifierKeyMatchExclusion ss (spellExclusions cfg) k)"

definition ToneMatchesExclusion :: "TypingConfig \<Rightarrow> CharState list \<Rightarrow> nat option \<Rightarrow> Tone \<Rightarrow> bool" where
  "ToneMatchesExclusion cfg ss targetIdx requestedTone \<longleftrightarrow>
    (case targetIdx of
       None \<Rightarrow> False
     | Some t \<Rightarrow>
         if spellExclusions cfg = [] then False
         else WouldToneMatchExclusion ss (spellExclusions cfg) t
                (Compose ((ss ! t)\<lparr>tone := requestedTone\<rparr>)))"

definition HasNonClusterVowel :: "CharState list \<Rightarrow> bool" where
  "HasNonClusterVowel ss \<longleftrightarrow>
     list_ex (\<lambda>i. IsVowel (ss ! i) \<and> \<not> (base (ss ! i) = L_i \<and> i > 0 \<and> base (ss ! (i - 1)) = L_g))
       [0..<length ss]"

definition IsInQUCluster :: "CharState list \<Rightarrow> bool" where
  "IsInQUCluster ss \<longleftrightarrow>
    (if length ss < 2 then False
     else list_ex (\<lambda>i. base (ss ! i) = L_q \<and> base (ss ! (i + 1)) = L_u \<and>
            modifier (ss ! (i + 1)) = ModNone) [0..<length ss - 1])"

definition UpdateSpellState :: "TypingEngine \<Rightarrow> TypingEngine" where
  "UpdateSpellState e = e\<lparr>spellCheckDisabled := UpdateSpellCheck (states e) (config e)\<rparr>"

definition onStates :: "(CharState list \<Rightarrow> CharState list) \<Rightarrow> TypingEngine \<Rightarrow> TypingEngine" where
  "onStates f e = e\<lparr>states := f (states e)\<rparr>"

definition relocate :: "TypingEngine \<Rightarrow> TypingEngine" where
  "relocate e = onStates (RelocateToneToTarget (modernOrtho (config e))) e"

definition autoUO :: "TypingEngine \<Rightarrow> TypingEngine" where
  "autoUO e = onStates (ApplyAutoUO (modernOrtho (config e))) e"

end
