(* ===== verification/EngineModifiers.thy ===== *)
theory EngineModifiers
  imports EngineCore
begin

text \<open>
  The modifier handlers of \<open>TypingEngine.cpp\<close>: brackets, adjacent and free-marking circumflex,
  the Telex \<open>w\<close> cascade P1 to P8, stroke-d, the VNI modifiers and the user-defined actions, and
  the dispatcher \<open>ProcessModifier\<close>.  A forward scan that keeps the last hit is \<open>last_idx\<close>.

  The seven \<open>ModifierProposal\<close> classes of \<open>src/core/engine/rule\<close> only forward \<open>tryApply\<close> to the
  handler of the same name, so \<open>ProcessModifier\<close> calls the handlers.
\<close>

subsection \<open>Brackets and direct insertion\<close>

definition pushState :: "CharState \<Rightarrow> TypingEngine \<Rightarrow> TypingEngine" where
  "pushState s e = e\<lparr>states := states e @ [s]\<rparr>"

text \<open>The common "doubled key" condition: the previous raw key is the same key.\<close>

definition doubledKey :: "wchar \<Rightarrow> TypingEngine \<Rightarrow> bool" where
  "doubledKey c e \<longleftrightarrow> states e \<noteq> [] \<and> length (rawInput e) \<ge> 2 \<and>
     towlower (rawInput e ! (length (rawInput e) - 2)) = towlower c"

definition popAndRestore :: "wchar \<Rightarrow> TypingEngine \<Rightarrow> TypingEngine" where
  "popAndRestore c e =
    ProcessChar c (EraseConsumedRaw (rawIdx (last (states e))) (e\<lparr>states := butlast (states e)\<rparr>))"

definition HandleHornInsert :: "TypingAction \<Rightarrow> wchar \<Rightarrow> TypingEngine \<Rightarrow> TypingEngine \<times> bool" where
  "HandleHornInsert action c e =
    (if inputMethod (config e) = SimpleTelex then (e, False)
     else
       let baseVowel = (if action = HornInsertO then L_o else L_u) in
       if doubledKey c e \<and> base (last (states e)) = baseVowel \<and> modifier (last (states e)) = Horn
       then ((popAndRestore c e)\<lparr>escape := EscHorn\<rparr>, True)
       else (pushState (initCharState\<lparr>base := baseVowel, modifier := Horn,
               isUpper := activeKeyUppercase e, rawIdx := newRawIdx e\<rparr>) e, True))"

definition insertSpec :: "TypingAction \<Rightarrow> (wchar \<times> Modifier \<times> bool) option" where
  "insertSpec action = (case action of
     InsertABreve \<Rightarrow> Some (L_a, Breve, False)
   | InsertABreveUpper \<Rightarrow> Some (L_a, Breve, True)
   | InsertACircumflex \<Rightarrow> Some (L_a, Circumflex, False)
   | InsertACircumflexUpper \<Rightarrow> Some (L_a, Circumflex, True)
   | InsertDStroke \<Rightarrow> Some (L_d, Stroke, False)
   | InsertDStrokeUpper \<Rightarrow> Some (L_d, Stroke, True)
   | InsertECircumflex \<Rightarrow> Some (L_e, Circumflex, False)
   | InsertECircumflexUpper \<Rightarrow> Some (L_e, Circumflex, True)
   | InsertOCircumflex \<Rightarrow> Some (L_o, Circumflex, False)
   | InsertOCircumflexUpper \<Rightarrow> Some (L_o, Circumflex, True)
   | InsertOHorn \<Rightarrow> Some (L_o, Horn, False)
   | InsertOHornUpper \<Rightarrow> Some (L_o, Horn, True)
   | InsertUHorn \<Rightarrow> Some (L_u, Horn, False)
   | InsertUHornUpper \<Rightarrow> Some (L_u, Horn, True)
   | _ \<Rightarrow> None)"

primrec escapeKindOf :: "Modifier \<Rightarrow> EscapeKind" where
  "escapeKindOf ModNone = EscModifier"
| "escapeKindOf Circumflex = EscCircumflex"
| "escapeKindOf Breve = EscBreve"
| "escapeKindOf Horn = EscHorn"
| "escapeKindOf Stroke = EscStroke"

definition HandleInsertChar :: "TypingAction \<Rightarrow> wchar \<Rightarrow> TypingEngine \<Rightarrow> TypingEngine \<times> bool" where
  "HandleInsertChar action keyChar e =
    (case insertSpec action of
       None \<Rightarrow> (e, False)
     | Some (b, m, up) \<Rightarrow>
         if doubledKey keyChar e \<and> base (last (states e)) = b \<and> modifier (last (states e)) = m
         then ((popAndRestore keyChar e)\<lparr>escape := escapeKindOf m\<rparr>, True)
         else (pushState (initCharState\<lparr>base := b, modifier := m, isUpper := up,
                 rawIdx := newRawIdx e\<rparr>) e, True))"

definition HandleUndoAllMarks :: "TypingEngine \<Rightarrow> TypingEngine \<times> bool" where
  "HandleUndoAllMarks e =
    (if states e = [] then (e, False)
     else if list_ex (\<lambda>s. modifier s \<noteq> ModNone \<or> tone s \<noteq> ToneNone) (states e) then
       (e\<lparr>states := map (\<lambda>s. if modifier s \<noteq> ModNone \<or> tone s \<noteq> ToneNone
                             then s\<lparr>modifier := ModNone, tone := ToneNone, toneRawIdx := None\<rparr> else s)
                        (states e),
         escape := EscTone\<rparr>, True)
     else (e, False))"

subsection \<open>Circumflex\<close>

definition setModAt :: "nat \<Rightarrow> Modifier \<Rightarrow> TypingEngine \<Rightarrow> TypingEngine" where
  "setModAt i m e = onStates (\<lambda>ss. ss[i := (ss ! i)\<lparr>modifier := m\<rparr>]) e"

text \<open>The body of the free-marking loop once the scan has reached a vowel with the target base
  (lines 1120 to 1193).\<close>

definition freeMarkHit ::
  "wchar \<Rightarrow> wchar \<Rightarrow> nat \<Rightarrow> bool \<Rightarrow> nat \<Rightarrow> wchar \<Rightarrow> TypingEngine \<Rightarrow> TypingEngine \<times> bool" where
  "freeMarkHit tb c i needsValidation consonantsCrossed singleCoda e =
    (let m = modifier (states e ! i); sc = spellCheckEnabled (config e);
         apply = (relocate (setModAt i Circumflex e), True) in
     if needsValidation \<and> m \<noteq> Horn \<and> m \<noteq> ModNone \<and> m \<noteq> Circumflex then (e, False)
     else if m = Circumflex then
       ((ProcessChar c (setModAt i ModNone e))\<lparr>escape := EscCircumflex\<rparr>, True)
     else if m = Breve \<and> tb = L_a then apply
     else if m = Horn \<and> tb = L_o then (relocate (onStates (SetVowelMod i Circumflex) e), True)
     else if m = ModNone then
       (if needsValidation then
          (if sc then
             (if ShouldRejectModifier (config e) (states e) i Circumflex tb then (e, False) else apply)
           else if consonantsCrossed \<ge> 1 then (setBias HardEnglish e, False)
           else apply)
        else if \<not> sc \<and> consonantsCrossed = 1 then
          (if isCodaLetter singleCoda then apply else (setBias HardEnglish e, False))
        else if sc \<and> consonantsCrossed \<ge> 1 then
          (if \<not> WouldBeValidSyllable (config e) (states e) i Circumflex None True then (e, False)
           else apply)
        else apply)
     else (e, False))"

fun freeMarkScan ::
  "wchar \<Rightarrow> wchar \<Rightarrow> nat \<Rightarrow> bool \<Rightarrow> nat \<Rightarrow> wchar \<Rightarrow> TypingEngine \<Rightarrow> TypingEngine \<times> bool" where
  "freeMarkScan tb c 0 nv cc sc e = (e, False)"
| "freeMarkScan tb c (Suc i) nv cc sc e =
    (let s = states e ! i in
     if IsVowel s \<and> base s \<noteq> tb then freeMarkScan tb c i True cc sc e
     else if \<not> IsVowel s then
       freeMarkScan tb c i nv (cc + 1) (if cc = 0 then base s else sc) e
     else freeMarkHit tb c i nv cc sc e)"

definition isUseUnrevert :: "TypingAction \<Rightarrow> TypingEngine \<Rightarrow> bool" where
  "isUseUnrevert action e \<longleftrightarrow>
    (let ss = states e; raw = rawInput e in
     action = CircumflexE \<and> length ss = 3 \<and>
     towlower (base (ss ! 0)) = L_u \<and> modifier (ss ! 0) = ModNone \<and>
     towlower (base (ss ! 1)) = L_s \<and>
     towlower (base (ss ! 2)) = L_e \<and> modifier (ss ! 2) = ModNone \<and>
     length raw \<ge> 4 \<and> towlower (raw ! 0) = L_u \<and> towlower (raw ! 1) = L_s \<and> towlower (raw ! 2) = L_e)"

definition adjacentCircumflex :: "wchar \<Rightarrow> wchar \<Rightarrow> TypingEngine \<Rightarrow> TypingEngine \<times> bool" where
  "adjacentCircumflex tb c e =
    (let ss = states e; n = length ss; lst = last ss; cfg = config e in
     if n \<ge> 3 \<and> IsVowel (ss ! (n - 3)) \<and> IsVowel (ss ! (n - 2)) \<and>
        IsTriphthong (base (ss ! (n - 3))) (base (ss ! (n - 2))) (base lst) then (e, True)
     else if modifier lst = Circumflex then
       (let e1 = ProcessChar c (setModAt (n - 1) ModNone e) in
        ((if spellCheckEnabled cfg then e1\<lparr>escape := EscCircumflex\<rparr> else e1), True))
     else
       let needsRelocate = (ValidateSyllableState ss (allowZwjf cfg) = ValidPrefix) in
       if needsRelocate \<and> \<not> WouldBeValidSyllable cfg ss (n - 1) Circumflex None True \<and>
          \<not> WouldModifierKeyMatchExclusion ss (spellExclusions cfg) c then (e, False)
       else if \<not> needsRelocate \<and> ShouldRejectModifier cfg ss (n - 1) Circumflex tb then (e, False)
       else (relocate (onStates (SetVowelMod (n - 1) Circumflex) e), True))"

definition HandleAdjacentCircumflex :: "TypingAction \<Rightarrow> wchar \<Rightarrow> TypingEngine \<Rightarrow> TypingEngine \<times> bool" where
  "HandleAdjacentCircumflex action c e =
    (if states e = [] then (e, False)
     else if isUseUnrevert action e then
       (let e1 = onStates (\<lambda>ss. SetVowelMod 1 Circumflex (erase_at 1 ss)) e;
            e2 = onStates (\<lambda>ss. ss[1 := (ss ! 1)\<lparr>tone := Acute, toneRawIdx := Some 1\<rparr>]) e1
        in (setBias VietnameseBias (relocate e2), True))
     else
       let ss = states e; n = length ss; lst = last ss;
           tb = (if inputMethod (config e) = UserDefined then ActionToVowel action else towlower c) in
       if IsVowel lst \<and> base lst = tb then adjacentCircumflex tb c e
       else if n \<ge> 2 \<and> IsVowel (ss ! (n - 1)) \<and> IsVowel (ss ! (n - 2)) \<and>
               IsTriphthong (base (ss ! (n - 2))) (base (ss ! (n - 1))) tb then (e, False)
       else freeMarkScan tb c n False 0 0 e)"

subsection \<open>The Telex w cascade\<close>

definition isQUClusterU :: "CharState list \<Rightarrow> nat \<Rightarrow> bool" where
  "isQUClusterU ss i \<longleftrightarrow> i > 0 \<and> base (ss ! i) = L_u \<and> modifier (ss ! i) = ModNone \<and> base (ss ! (i - 1)) = L_q"

definition nuclearIs :: "CharState list \<Rightarrow> wchar \<Rightarrow> Modifier set \<Rightarrow> nat \<Rightarrow> bool" where
  "nuclearIs ss b ms i \<longleftrightarrow> IsVowel (ss ! i) \<and> \<not> isQUClusterU ss i \<and> base (ss ! i) = b \<and> modifier (ss ! i) \<in> ms"

definition vowelPairAt :: "CharState list \<Rightarrow> wchar \<Rightarrow> wchar \<Rightarrow> nat \<Rightarrow> bool" where
  "vowelPairAt ss x y i \<longleftrightarrow> IsVowel (ss ! i) \<and> IsVowel (ss ! (i + 1)) \<and> \<not> isQUClusterU ss i \<and>
     base (ss ! i) = x \<and> base (ss ! (i + 1)) = y"

definition hasVowelPair :: "CharState list \<Rightarrow> wchar \<Rightarrow> wchar \<Rightarrow> bool" where
  "hasVowelPair ss x y \<longleftrightarrow> list_ex (vowelPairAt ss x y) [0..<length ss - 1]"

definition hasNonVowelAfter :: "CharState list \<Rightarrow> nat \<Rightarrow> bool" where
  "hasNonVowelAfter ss idx \<longleftrightarrow> list_ex (\<lambda>s. \<not> IsVowel s) (drop (idx + 1) ss)"

definition relocateHorn :: "TypingEngine \<Rightarrow> TypingEngine" where
  "relocateHorn = onStates RelocateToneToHornVowel"

definition stripCircumflex :: "nat option \<Rightarrow> TypingEngine \<Rightarrow> TypingEngine" where
  "stripCircumflex aIdx e =
    (case aIdx of
       Some a \<Rightarrow> if modifier (states e ! a) = Circumflex then setModAt a ModNone e else e
     | None \<Rightarrow> e)"

text \<open>P2, the horn cycle on a uo pair; \<open>None\<close> when no case of it fires.\<close>

definition hornCycleUO :: "wchar \<Rightarrow> nat \<Rightarrow> TypingEngine \<Rightarrow> TypingEngine option" where
  "hornCycleUO c pairU e =
    (let ss = states e; pairO = pairU + 1; uMod = modifier (ss ! pairU); oMod = modifier (ss ! pairO);
         isEdge = IsUOEdgeCasePrefix ss pairU in
     if uMod \<noteq> Horn \<and> (oMod = ModNone \<or> oMod = Circumflex) then
       Some (relocateHorn (if isEdge then setModAt pairO Horn e
                           else setModAt pairO Horn (setModAt pairU Horn e)))
     else if uMod = Horn \<and> oMod = ModNone then Some (relocateHorn (setModAt pairO Horn e))
     else if uMod = ModNone \<and> oMod = Horn \<and> isEdge then Some (relocateHorn (setModAt pairU Horn e))
     else if uMod = Horn \<and> oMod = Horn then
       Some ((ProcessChar c (setModAt pairO ModNone (setModAt pairU ModNone e)))\<lparr>escape := EscHorn\<rparr>)
     else if uMod = ModNone \<and> oMod = Horn then
       Some ((ProcessChar c (setModAt pairO ModNone e))\<lparr>escape := EscHorn\<rparr>)
     else None)"

definition hornEscape :: "wchar \<Rightarrow> nat \<Rightarrow> TypingEngine \<Rightarrow> TypingEngine" where
  "hornEscape c h e =
    (let s = states e ! h in
     if synthetic s \<and> h = length (states e) - 1 then
       (ProcessChar (if isUpper s then towupper c else towlower c)
          (onStates (erase_at h) e))\<lparr>escape := EscHorn\<rparr>
     else
       (ProcessChar c (setModAt h ModNone (onStates (\<lambda>ss. UndoHornU ss h) e)))\<lparr>escape := EscHorn\<rparr>)"

text \<open>P5 to P8: the standalone applications.\<close>

definition hornOnU :: "nat option \<Rightarrow> nat \<Rightarrow> TypingEngine \<Rightarrow> TypingEngine \<times> bool" where
  "hornOnU aIdx targetU e =
    (if hasNonVowelAfter (states e) targetU \<and>
        \<not> WouldBeValidSyllable (config e) (states e) targetU Horn aIdx False then (e, False)
     else (relocateHorn (stripCircumflex aIdx (setModAt targetU Horn e)), True))"

definition hornOnO :: "nat \<Rightarrow> TypingEngine \<Rightarrow> TypingEngine \<times> bool" where
  "hornOnO i e =
    (if hasNonVowelAfter (states e) i \<and>
        \<not> WouldBeValidSyllable (config e) (states e) i Horn None False then (e, False)
     else (relocateHorn (setModAt i Horn e), True))"

definition breveOnA :: "nat \<Rightarrow> TypingEngine \<Rightarrow> TypingEngine \<times> bool" where
  "breveOnA a e =
    (if hasNonVowelAfter (states e) a \<and>
        \<not> WouldBeValidSyllable (config e) (states e) a Breve None False then (e, False)
     else (setModAt a Breve e, True))"

definition insertSyntheticU :: "wchar \<Rightarrow> TypingEngine \<Rightarrow> TypingEngine \<times> bool" where
  "insertSyntheticU c e =
    (if inputMethod (config e) \<noteq> SimpleTelex \<and> inputMethod (config e) \<noteq> UserDefined \<and>
        \<not> IsInQUCluster (states e) \<and> \<not> HasNonClusterVowel (states e)
     then (pushState (initCharState\<lparr>base := L_u, modifier := Horn, isUpper := iswupper c,
             synthetic := True, rawIdx := newRawIdx e\<rparr>) e, True)
     else (e, False))"

definition hornStandalone :: "wchar \<Rightarrow> TypingEngine \<Rightarrow> TypingEngine \<times> bool" where
  "hornStandalone c e =
    (let ss = states e; n = length ss;
         firstUIdx = first_idx (nuclearIs ss L_u {ModNone}) n;
         aIdx = last_idx (nuclearIs ss L_a {ModNone, Circumflex}) n in
     case (if hasVowelPair ss L_u L_u \<and> firstUIdx \<noteq> None then firstUIdx
           else last_idx (nuclearIs ss L_u {ModNone}) n) of
       Some targetU \<Rightarrow> hornOnU aIdx targetU e
     | None \<Rightarrow>
       (case (if hasVowelPair ss L_o L_a then None
              else last_idx (nuclearIs ss L_o {ModNone, Circumflex}) n) of
          Some i \<Rightarrow> hornOnO i e
        | None \<Rightarrow>
          (case aIdx of Some a \<Rightarrow> breveOnA a e | None \<Rightarrow> insertSyntheticU c e)))"

text \<open>P1 to P4 in their order; \<open>None\<close> lets the next priority try.\<close>

definition hornP1 :: "TypingEngine \<Rightarrow> TypingEngine option" where
  "hornP1 e =
    (let ss = states e; n = length ss in
     if hasVowelPair ss L_u L_a then
       map_option (\<lambda>u. relocateHorn (stripCircumflex
           (last_idx (nuclearIs ss L_a {ModNone, Circumflex}) n) (setModAt u Horn e)))
         (last_idx (nuclearIs ss L_u {ModNone}) n)
     else None)"

definition hornP2 :: "wchar \<Rightarrow> TypingEngine \<Rightarrow> TypingEngine option" where
  "hornP2 c e =
    (case last_idx (vowelPairAt (states e) L_u L_o) (length (states e) - 1) of
       Some p \<Rightarrow> hornCycleUO c p e | None \<Rightarrow> None)"

definition hornP3 :: "TypingEngine \<Rightarrow> TypingEngine option" where
  "hornP3 e =
    (let ss = states e; n = length ss in
     if hasVowelPair ss L_o L_a then
       map_option (\<lambda>a. setModAt a Breve e) (last_idx (nuclearIs ss L_a {ModNone, Circumflex}) n)
     else None)"

definition hornP4 :: "wchar \<Rightarrow> TypingEngine \<Rightarrow> TypingEngine option" where
  "hornP4 c e =
    (let ss = states e; n = length ss in
     case last_idx (\<lambda>i. nuclearIs ss L_u {Horn} i \<or> nuclearIs ss L_o {Horn} i) n of
       Some h \<Rightarrow> Some (hornEscape c h e)
     | None \<Rightarrow>
         map_option (\<lambda>b. (ProcessChar c (setModAt b ModNone e))\<lparr>escape := EscBreve\<rparr>)
           (last_idx (nuclearIs ss L_a {Breve}) n))"

definition HandleHornW :: "wchar \<Rightarrow> TypingEngine \<Rightarrow> TypingEngine \<times> bool" where
  "HandleHornW c e =
    (if inputMethod (config e) = SimpleTelex \<and>
        \<not> list_ex (\<lambda>s. IsVowel s \<and> (base s = L_a \<or> base s = L_o \<or> base s = L_u)) (states e)
     then (e, False)
     else case hornP1 e of Some e' \<Rightarrow> (e', True)
     | None \<Rightarrow> (case hornP2 c e of Some e' \<Rightarrow> (e', True)
     | None \<Rightarrow> (case hornP3 e of Some e' \<Rightarrow> (e', True)
     | None \<Rightarrow> (case hornP4 c e of Some e' \<Rightarrow> (e', True)
     | None \<Rightarrow> hornStandalone c e))))"

subsection \<open>Stroke-d\<close>

definition HandleStrokeD :: "wchar \<Rightarrow> TypingEngine \<Rightarrow> TypingEngine \<times> bool" where
  "HandleStrokeD c e =
    (if escape e = EscStroke then (e, False)
     else case FindStrokeDTarget (states e) of
       None \<Rightarrow> (e, False)
     | Some dIdx \<Rightarrow>
         (let target = states e ! dIdx; cfg = config e in
          if modifier target = ModNone then (setModAt dIdx Stroke e, True)
          else if modifier target = Stroke then
            (if \<not> IsStrokeDEscapeAllowed (length (states e)) dIdx then (e, False)
             else if dIdx = 0 \<and> spellExclusions cfg \<noteq> [] \<and>
                     WouldModifierKeyMatchExclusion (states e) (spellExclusions cfg) (towlower c)
             then (e, False)
             else (ProcessChar c ((setModAt dIdx ModNone e)\<lparr>escape := EscStroke\<rparr>), True))
          else (e, False)))"

subsection \<open>VNI modifiers\<close>

definition isEligible :: "Modifier \<Rightarrow> wchar \<Rightarrow> bool" where
  "isEligible targetMod b = (case targetMod of
     Circumflex \<Rightarrow> b = L_a \<or> b = L_e \<or> b = L_o
   | Horn \<Rightarrow> b = L_o \<or> b = L_u
   | Breve \<Rightarrow> b = L_a
   | _ \<Rightarrow> False)"

definition canSwitch :: "wchar \<Rightarrow> Modifier \<Rightarrow> Modifier \<Rightarrow> bool" where
  "canSwitch b curMod targetMod \<longleftrightarrow>
     (b = L_a \<and> ((curMod = Circumflex \<and> targetMod = Breve) \<or> (curMod = Breve \<and> targetMod = Circumflex))) \<or>
     (b = L_o \<and> ((curMod = Circumflex \<and> targetMod = Horn) \<or> (curMod = Horn \<and> targetMod = Circumflex)))"

definition ProcessVniVowelModifier :: "Modifier \<Rightarrow> wchar \<Rightarrow> TypingEngine \<Rightarrow> TypingEngine \<times> bool" where
  "ProcessVniVowelModifier targetMod k e =
    (let ss = states e; n = length ss; cfg = config e;
         nuclear = (\<lambda>i. IsVowel (ss ! i) \<and> \<not> IsClusterConsonant ss i);
         needsRelocate = (ValidateSyllableState ss (allowZwjf cfg) = ValidPrefix) in
     if ss = [] then (e, False)
     else case last_idx (\<lambda>i. nuclear i \<and> isEligible targetMod (base (ss ! i)) \<and>
                           modifier (ss ! i) = ModNone) n of
       Some i \<Rightarrow>
         if needsRelocate \<and> \<not> WouldBeValidSyllable cfg ss i targetMod None True \<and>
            \<not> WouldModifierKeyMatchExclusion ss (spellExclusions cfg) k then (e, False)
         else if \<not> needsRelocate \<and> ShouldRejectModifier cfg ss i targetMod k then (e, False)
         else
           let e1 = onStates (SetVowelMod i targetMod) e
           in ((if needsRelocate then relocate e1 else e1), True)
     | None \<Rightarrow>
       (case last_idx (\<lambda>i. nuclear i \<and> HasModifier (ss ! i) \<and>
                          canSwitch (base (ss ! i)) (modifier (ss ! i)) targetMod) n of
          Some i \<Rightarrow> (relocate (onStates (SetVowelMod i targetMod) e), True)
        | None \<Rightarrow>
          (case last_idx (\<lambda>i. nuclear i \<and> modifier (ss ! i) = targetMod) n of
             Some i \<Rightarrow>
               ((ProcessChar k (setModAt i ModNone (onStates (\<lambda>ss. UndoHornU ss i) e)))
                  \<lparr>escape := EscModifier\<rparr>, True)
           | None \<Rightarrow> (e, False))))"

text \<open>The uo and uu cycles of \<open>HandleVniHorn\<close>; \<open>None\<close> when neither fires.\<close>

definition vniHornCycle :: "wchar \<Rightarrow> nat \<Rightarrow> TypingEngine \<Rightarrow> TypingEngine option" where
  "vniHornCycle c u e =
    (let ss = states e; o' = u + 1; isEdge = IsUOEdgeCasePrefix ss u;
         uHorn = IsHorn (ss ! u); oHorn = IsHorn (ss ! o') in
     if \<not> uHorn \<and> \<not> oHorn then
       Some (relocate (if isEdge then setModAt o' Horn e else setModAt o' Horn (setModAt u Horn e)))
     else if uHorn \<and> \<not> oHorn then Some (relocate (setModAt o' Horn e))
     else if isEdge \<and> \<not> uHorn \<and> oHorn then Some (relocate (setModAt u Horn e))
     else if uHorn \<and> oHorn then
       Some ((ProcessChar c (setModAt o' ModNone (setModAt u ModNone e)))\<lparr>escape := EscHorn\<rparr>)
     else None)"

definition vniHornUU :: "wchar \<Rightarrow> nat \<Rightarrow> nat \<Rightarrow> TypingEngine \<Rightarrow> TypingEngine option" where
  "vniHornUU c firstU lastU e =
    (if firstU \<noteq> lastU then
       (if modifier (states e ! firstU) = ModNone \<and> modifier (states e ! lastU) = ModNone then
          Some (relocate (setModAt firstU Horn e))
        else if modifier (states e ! firstU) = Horn then
          Some ((ProcessChar c (setModAt firstU ModNone e))\<lparr>escape := EscHorn\<rparr>)
        else None)
     else None)"

definition vniNuclear :: "CharState list \<Rightarrow> wchar \<Rightarrow> nat \<Rightarrow> bool" where
  "vniNuclear ss b i \<longleftrightarrow> IsVowel (ss ! i) \<and> \<not> IsClusterConsonant ss i \<and> base (ss ! i) = b"

definition vniUO :: "wchar \<Rightarrow> TypingEngine \<Rightarrow> TypingEngine option" where
  "vniUO c e =
    (case (last_idx (vniNuclear (states e) L_u) (length (states e)),
           last_idx (vniNuclear (states e) L_o) (length (states e))) of
       (Some u, Some o') \<Rightarrow> if o' = u + 1 then vniHornCycle c u e else None
     | _ \<Rightarrow> None)"

definition vniUU :: "wchar \<Rightarrow> TypingEngine \<Rightarrow> TypingEngine option" where
  "vniUU c e =
    (case (first_idx (vniNuclear (states e) L_u) (length (states e)),
           last_idx (vniNuclear (states e) L_u) (length (states e))) of
       (Some firstU, Some lastU) \<Rightarrow> vniHornUU c firstU lastU e
     | _ \<Rightarrow> None)"

definition HandleVniHorn :: "wchar \<Rightarrow> TypingEngine \<Rightarrow> TypingEngine \<times> bool" where
  "HandleVniHorn c e =
    (if states e = [] then (e, False)
     else case vniUO c e of Some e' \<Rightarrow> (e', True)
     | None \<Rightarrow> (case vniUU c e of Some e' \<Rightarrow> (e', True)
     | None \<Rightarrow> ProcessVniVowelModifier Horn c e))"

subsection \<open>Dispatch\<close>

definition HandleHornOrInsertU :: "TypingAction \<Rightarrow> wchar \<Rightarrow> TypingEngine \<Rightarrow> TypingEngine \<times> bool" where
  "HandleHornOrInsertU action keyChar e =
    (if action = HornOrInsertUNoStart \<and> states e = [] then (e, False)
     else case HandleHornW keyChar e of
       (e1, True) \<Rightarrow> (e1, True)
     | (e1, False) \<Rightarrow>
         if HasNonClusterVowel (states e1) then (e1, False)
         else case HandleHornInsert HornInsertU keyChar e1 of
           (e2, True) \<Rightarrow>
             ((if length (states e2) > length (states e1) then
                 onStates (\<lambda>ss. ss[length ss - 1 := (last ss)\<lparr>synthetic := True,
                                     isUpper := iswupper keyChar\<rparr>]) e2
               else e2), True)
         | (e2, False) \<Rightarrow> (e2, False))"

definition ProcessModifier :: "TypingAction \<Rightarrow> wchar \<Rightarrow> TypingEngine \<Rightarrow> TypingEngine \<times> bool" where
  "ProcessModifier action c e =
    (if action = HornInsertO \<or> action = HornInsertU then HandleHornInsert action c e
     else if action = HornW then HandleHornW c e
     else if action = CircumflexA \<or> action = CircumflexE \<or> action = CircumflexO
       then HandleAdjacentCircumflex action c e
     else if action = StrokeD then HandleStrokeD c e
     else if action = VniCircumflex then ProcessVniVowelModifier Circumflex c e
     else if action = VniHorn then HandleVniHorn c e
     else if action = VniBreve then ProcessVniVowelModifier Breve c e
     else if action = VniStroke then HandleStrokeD c e
     else if action = HornOrInsertU \<or> action = HornOrInsertUNoStart then HandleHornOrInsertU action c e
     else if action = UndoAllMarks then HandleUndoAllMarks e
     else if insertSpec action \<noteq> None then HandleInsertChar action c e
     else (e, False))"

end
