(* ===== verification/Dispatch.thy ===== *)
theory Dispatch
  imports Prelude "HOL-Library.Multiset"
begin

text \<open>
  Priority dispatch, the mechanism shared by \<open>EngineRuleRegistry\<close> (\<open>src/core/engine/rule\<close>) and
  the feature \<open>Coordinator\<close> (\<open>src/core/pipeline\<close>): handlers are registered into buckets that are
  kept sorted with \<open>std::stable_sort\<close>, gates raise bits of a mask, and a bucket is run until a
  handler reports \<open>Handled\<close> or \<open>Veto\<close>.

  \<open>sort_key\<close> of the HOL library is stable, as \<open>std::stable_sort\<close> is.  The locale
  \<open>priority_table\<close> states what a registry promises; its lemmas give the order in which the
  handlers of a bucket run.
\<close>

unbundle bit_operations_syntax

datatype RuleResult = Pass | Handled | Veto

datatype GateId = EnglishBias | SpellCheck | ToneEscape

primrec gateIndex :: "GateId \<Rightarrow> nat" where
  "gateIndex EnglishBias = 0"
| "gateIndex SpellCheck = 1"
| "gateIndex ToneEscape = 2"

type_synonym GateMask = "32 word"

definition GateMaskFor :: "GateId \<Rightarrow> GateMask" where
  "GateMaskFor i = push_bit (gateIndex i) 1"

definition GateMaskHas :: "GateMask \<Rightarrow> GateId \<Rightarrow> bool" where
  "GateMaskHas gm i \<longleftrightarrow> gm AND GateMaskFor i \<noteq> 0"

record ('p, 'c, 's) handler =
  hSlot :: 'p
  hPriority :: int
  hRequires :: GateMask
  hApply :: "'c \<Rightarrow> 's \<Rightarrow> 's \<times> RuleResult"

type_synonym ('p, 'c, 's) buckets = "'p \<Rightarrow> ('p, 'c, 's) handler list"

definition registerHandler ::
  "('p, 'c, 's) handler \<Rightarrow> ('p, 'c, 's) buckets \<Rightarrow> ('p, 'c, 's) buckets" where
  "registerHandler h b = b(hSlot h := sort_key hPriority (b (hSlot h) @ [h]))"

fun runBucket :: "GateMask \<Rightarrow> 'c \<Rightarrow> ('p, 'c, 's) handler list \<Rightarrow> 's \<Rightarrow> 's \<times> RuleResult" where
  "runBucket raised ctx [] s = (s, Pass)"
| "runBucket raised ctx (h # hs) s =
    (if hRequires h AND raised \<noteq> 0 then runBucket raised ctx hs s
     else case hApply h ctx s of
       (s', Pass) \<Rightarrow> runBucket raised ctx hs s'
     | (s', r) \<Rightarrow> (s', r))"

subsection \<open>The contract of a registry\<close>

locale priority_table =
  fixes slot :: "'h \<Rightarrow> 'p" and prio :: "'h \<Rightarrow> int" and empty :: 't
    and add :: "'h \<Rightarrow> 't \<Rightarrow> 't" and bucket :: "'t \<Rightarrow> 'p \<Rightarrow> 'h list"
  assumes bucket_empty: "bucket empty p = []"
    and bucket_add:
      "bucket (add h t) p = (if p = slot h then sort_key prio (bucket t p @ [h]) else bucket t p)"
begin

lemma sort_key_snoc_sort: "sort_key prio (sort_key prio xs @ [h]) = sort_key prio (xs @ [h])"
proof (rule properties_for_sort_key)
  show "mset (sort_key prio (xs @ [h])) = mset (sort_key prio xs @ [h])" by simp
  show "filter (\<lambda>x. prio k = prio x) (sort_key prio (xs @ [h])) =
        filter (\<lambda>x. prio k = prio x) (sort_key prio xs @ [h])" for k
    using sort_key_stable[of prio "prio k"] by (simp add: eq_commute[of "prio k"])
  show "sorted (map prio (sort_key prio (xs @ [h])))" by simp
qed

text \<open>Registering one by one amounts to one stable sort of everything registered for the slot.\<close>

lemma bucket_fold:
  "bucket (fold add hs empty) p = sort_key prio (filter (\<lambda>h. slot h = p) hs)"
proof (induction hs rule: rev_induct)
  case (snoc h hs)
  then show ?case by (auto simp: bucket_add sort_key_snoc_sort)
qed (simp add: bucket_empty)

lemma bucket_sorted: "sorted (map prio (bucket (fold add hs empty) p))"
  by (simp add: bucket_fold)

lemma bucket_stable:
  "filter (\<lambda>x. prio x = k) (bucket (fold add hs empty) p) =
   filter (\<lambda>x. prio x = k) (filter (\<lambda>h. slot h = p) hs)"
  by (simp add: bucket_fold sort_key_stable)

end

interpretation registry: priority_table hSlot hPriority "\<lambda>_. []" registerHandler "\<lambda>b. b"
  by unfold_locales (auto simp: registerHandler_def)

subsection \<open>Running a bucket\<close>

text \<open>Handlers whose gate is raised do not run: they may be dropped from the bucket.\<close>

lemma runBucket_filter:
  "runBucket raised ctx hs s = runBucket raised ctx (filter (\<lambda>h. hRequires h AND raised = 0) hs) s"
  by (induction hs arbitrary: s) (auto split: prod.splits RuleResult.splits)

lemma runBucket_Pass_append:
  "runBucket raised ctx (hs @ ks) s =
    (case runBucket raised ctx hs s of
       (s', Pass) \<Rightarrow> runBucket raised ctx ks s' | (s', r) \<Rightarrow> (s', r))"
  by (induction hs arbitrary: s) (auto split: prod.splits RuleResult.splits)

text \<open>A state predicate kept by every handler of the bucket is kept by the run.\<close>

lemma runBucket_invariant:
  assumes "\<And>h s. h \<in> set hs \<Longrightarrow> I s \<Longrightarrow> I (fst (hApply h ctx s))" "I s"
  shows "I (fst (runBucket raised ctx hs s))"
  using assms
proof (induction hs arbitrary: s)
  case (Cons h hs)
  have step: "I (fst (hApply h ctx s))" using Cons.prems by simp
  show ?case
  proof (cases "hRequires h AND raised \<noteq> 0")
    case True
    then show ?thesis using Cons by simp
  next
    case False
    obtain s' r where a: "hApply h ctx s = (s', r)" by fastforce
    then show ?thesis using False step Cons by (cases r) auto
  qed
qed simp

end
