(* ===== verification/EngineTone.thy ===== *)
theory EngineTone
  imports EngineModifiers Dispatch
begin

text \<open>
  The tone subsystem, the modifier gate and the quick consonants of \<open>TypingEngine.cpp\<close>:
  \<open>ProcessTone\<close>, \<open>ProcessClearTone\<close>, \<open>HandleToneFsm\<close>, \<open>WouldModifierRecoverOrEscape\<close>,
  \<open>HandleModifierAction\<close>, \<open>FinalizeRegularChar\<close>, \<open>HandleQuickStartConsonant\<close> and
  \<open>HandleQuickEndConsonant\<close>.

  \<open>HandleToneFsm\<close> caches \<open>FindToneTarget()\<close> in a local; the states do not change between the
  fill and the uses of that cache, so the model names the value once.
\<close>

subsection \<open>Tones\<close>

definition ProcessTone :: "Tone \<Rightarrow> wchar \<Rightarrow> nat option \<Rightarrow> TypingEngine \<Rightarrow> TypingEngine \<times> bool" where
  "ProcessTone newTone keyChar cachedTarget e =
    (if newTone = ToneNone then (e, False)
     else
       case (case cachedTarget of Some t \<Rightarrow> Some t
             | None \<Rightarrow> FindToneTarget (modernOrtho (config e)) (states e)) of
         None \<Rightarrow> (e, False)
       | Some t \<Rightarrow>
           let target = states e ! t in
           if tone target = newTone then
             (let e1 = e\<lparr>states := (states e)[t := target\<lparr>tone := ToneNone, toneRawIdx := None\<rparr>]\<rparr>
              in ((RestoreConsumedKeyInPlace (toneRawIdx target) keyChar e1)\<lparr>escape := EscTone\<rparr>, True))
           else
             (e\<lparr>states := (states e)[t := target\<lparr>tone := newTone,
                  toneRawIdx := (if rawInput e = [] then None else Some (length (rawInput e) - 1))\<rparr>],
                escape := EscNone\<rparr>, True))"

definition ProcessClearTone :: "TypingEngine \<Rightarrow> TypingEngine \<times> bool" where
  "ProcessClearTone e =
    (case FindToneTarget (modernOrtho (config e)) (states e) of
       None \<Rightarrow> (e, False)
     | Some t \<Rightarrow>
         let target = states e ! t in
         if tone target = ToneNone then (e, False)
         else (e\<lparr>states := (states e)[t := target\<lparr>tone := ToneNone, toneRawIdx := None\<rparr>]\<rparr>, True))"

definition asLiteral :: "wchar \<Rightarrow> bool \<Rightarrow> TypingEngine \<Rightarrow> TypingEngine \<times> bool" where
  "asLiteral lower up e = (UpdateSpellState (ProcessChar3 lower up e), True)"

definition effectiveSpellCheck :: "TypingEngine \<Rightarrow> bool" where
  "effectiveSpellCheck e \<longleftrightarrow> spellCheckEnabled (config e) \<and> \<not> allowEnglishBypass (config e)"

text \<open>Would the buffer be a valid syllable with the requested tone on vowel \<open>t\<close>?\<close>

definition toneValidates :: "TypingEngine \<Rightarrow> nat \<Rightarrow> Tone \<Rightarrow> bool" where
  "toneValidates e t requestedTone \<longleftrightarrow>
     ValidateSyllableState ((states e)[t := (states e ! t)\<lparr>tone := requestedTone\<rparr>])
       (allowZwjf (config e)) = Valid"

text \<open>The gate for a buffer that spell check has rejected (lines 259 to 277): \<open>True\<close> when the key
  stays literal.\<close>

definition spellDisabledLiteral :: "TypingEngine \<Rightarrow> nat option \<Rightarrow> Tone \<Rightarrow> bool" where
  "spellDisabledLiteral e tgt requestedTone \<longleftrightarrow>
    (let isEsc = (case tgt of Some t \<Rightarrow> tone (states e ! t) = requestedTone | None \<Rightarrow> False);
         matches = (\<not> isEsc \<and> ToneMatchesExclusion (config e) (states e) tgt requestedTone);
         wouldRecover = (case tgt of
            Some t \<Rightarrow> \<not> isEsc \<and> \<not> matches \<and> HasTone (states e ! t) \<and> toneValidates e t requestedTone
          | None \<Rightarrow> False)
     in \<not> isEsc \<and> \<not> matches \<and> \<not> wouldRecover)"

definition toneWouldValidate :: "TypingEngine \<Rightarrow> nat option \<Rightarrow> Tone \<Rightarrow> bool" where
  "toneWouldValidate e tgt requestedTone \<longleftrightarrow>
    (case tgt of
       None \<Rightarrow> False
     | Some t \<Rightarrow>
         if t \<ge> length (states e) then False
         else if tone (states e ! t) = requestedTone then False
         else toneValidates e t requestedTone)"

text \<open>The English-protection gate (lines 298 to 358): the engine after its bias updates, and
  \<open>True\<close> when the key stays literal.\<close>

definition englishToneGate ::
  "wchar \<Rightarrow> bool \<Rightarrow> nat option \<Rightarrow> Tone \<Rightarrow> TypingEngine \<Rightarrow> TypingEngine \<times> bool" where
  "englishToneGate keyChar isTelexTone tgt requestedTone e =
    (if allowEnglishBypass (config e) then (e, False)
     else if toneWouldValidate e tgt requestedTone then (setBias VietnameseBias e, False)
     else if bias (engProt e) = HardEnglish then (e, True)
     else
       let (prot, insisted) = (if bias (engProt e) = SoftEnglish
                               then UpdateToneInsistence keyChar (engProt e) else (engProt e, True));
           e1 = e\<lparr>engProt := prot\<rparr>; ss = states e in
       if \<not> insisted then (e1, True)
       else if isTelexTone \<and> IsHardEnglishToneContext ss keyChar then (setBias HardEnglish e1, True)
       else if \<not> isTelexTone \<and> length ss \<ge> 4 \<and> HasStructuralVCVPattern ss
         then (setBias HardEnglish e1, True)
       else if HasInvalidAdjacentVowelPair ss then (setBias HardEnglish e1, True)
       else (e1, False))"

definition afterTone :: "TypingEngine \<Rightarrow> TypingEngine" where
  "afterTone e =
    (let e1 = (if \<not> isEscaped e then setBias VietnameseBias e
               else
                 let p = RecalcEnglishBias (states e) in
                 e\<lparr>engProt := (if IsTelexMode e then CheckZwjfInitialBias (states e) (config e) p else p)\<rparr>)
     in UpdateSpellState (autoUO e1))"

definition toneKeyStep :: "Tone \<Rightarrow> wchar \<Rightarrow> wchar \<Rightarrow> bool \<Rightarrow> TypingEngine \<Rightarrow> TypingEngine \<times> bool" where
  "toneKeyStep requestedTone keyChar lower up e =
    (let isTelexTone = (lower < L_0 \<or> lower > L_9); eff = effectiveSpellCheck e;
         tgt = FindToneTarget (modernOrtho (config e)) (states e) in
     if eff \<and> spellCheckDisabled e \<and> spellDisabledLiteral e tgt requestedTone then asLiteral lower up e
     else if isEscaped e \<and> escape e \<noteq> EscCircumflex then asLiteral lower up e
     else if isTelexTone \<and> eff \<and> IsBlockedEnglishTone (rawInput e) \<and>
             \<not> (spellExclusions (config e) \<noteq> [] \<and>
                 ToneMatchesExclusion (config e) (states e) tgt requestedTone)
       then asLiteral lower up e
     else
       case englishToneGate keyChar isTelexTone tgt requestedTone e of
         (e1, True) \<Rightarrow> asLiteral lower up e1
       | (e1, False) \<Rightarrow>
           if eff \<and> \<not> spellCheckDisabled e1 \<and>
              (requestedTone = Grave \<or> requestedTone = Hook \<or> requestedTone = Tilde) \<and>
              HasStopFinalCoda (states e1)
           then asLiteral lower up e1
           else
             (case ProcessTone requestedTone keyChar tgt e1 of
                (e2, True) \<Rightarrow> (afterTone e2, True)
              | (e2, False) \<Rightarrow> (e2, False)))"

definition HandleToneFsm ::
  "TypingAction \<Rightarrow> wchar \<Rightarrow> wchar \<Rightarrow> bool \<Rightarrow> TypingEngine \<Rightarrow> TypingEngine \<times> bool" where
  "HandleToneFsm action keyChar lower up e =
    (if action = ClearTone \<and> states e \<noteq> [] \<and> effectiveSpellCheck e \<and> spellCheckDisabled e then
       (UpdateSpellState (ProcessChar keyChar e), True)
     else if action = ClearTone \<and> states e \<noteq> [] \<and> snd (ProcessClearTone e) then
       (UpdateSpellState (fst (ProcessClearTone e)), True)
     else
       let requestedTone = (if states e = [] then ToneNone else ActionToTone action) in
       if requestedTone = ToneNone then (e, False)
       else toneKeyStep requestedTone keyChar lower up e)"

subsection \<open>The modifier gate\<close>

definition WouldModifierRecoverOrEscape :: "TypingAction \<Rightarrow> wchar \<Rightarrow> wchar \<Rightarrow> TypingEngine \<Rightarrow> bool" where
  "WouldModifierRecoverOrEscape action keyChar lower e \<longleftrightarrow>
    (let ss = states e; raw = rawInput e;
         strokeEsc = (\<lambda>m. HasEscapableModifier ss m True \<or> FindStrokeDTarget ss \<noteq> None);
         canEscape =
          (if IsTelexModifierAction action then
             (if lower = L_w then HasEscapableModifier ss Horn False \<or> HasEscapableModifier ss Breve False
              else if lower = L_d then strokeEsc Stroke
              else if IsVowelChar keyChar \<and> ss \<noteq> [] then
                IsVowel (last ss) \<and> base (last ss) = lower \<and> modifier (last ss) = Circumflex
              else if (action = HornInsertO \<or> action = HornInsertU) \<and> ss \<noteq> [] \<and> length raw \<ge> 2 \<and>
                      towlower (raw ! (length raw - 2)) = lower then
                base (last ss) = (if action = HornInsertO then L_o else L_u) \<and> modifier (last ss) = Horn
              else False)
           else
             let escMod = ActionToVniModifier action in
             if escMod = Stroke then strokeEsc escMod
             else if escMod \<noteq> ModNone then HasEscapableModifier ss escMod False
             else False)
     in canEscape \<or> WouldModifierKeyMatchExclusion ss (spellExclusions (config e)) lower \<or>
        IsToneStopCodaMismatch ss)"

definition strokePreCheck :: "TypingEngine \<Rightarrow> TypingEngine" where
  "strokePreCheck e =
    (if bias (engProt e) \<noteq> HardEnglish \<and> length (states e) \<ge> 3 then
       (case FindStrokeDTarget (states e) of
          Some d \<Rightarrow> if modifier (states e ! d) = ModNone \<and> ShouldBlockStrokeDAsEnglish (states e) d
                    then setBias HardEnglish e else e
        | None \<Rightarrow> e)
     else e)"

definition afterModifier :: "TypingEngine \<Rightarrow> TypingEngine" where
  "afterModifier e = UpdateSpellState (autoUO (setBias VietnameseBias e))"

text \<open>The tail shared by the Telex and VNI branches: try the modifier unless the buffer is
  rejected and the key neither escapes nor recovers it.\<close>

definition tryModifier :: "TypingAction \<Rightarrow> wchar \<Rightarrow> wchar \<Rightarrow> TypingEngine \<Rightarrow> TypingEngine \<times> bool" where
  "tryModifier action keyChar lower e =
    (if effectiveSpellCheck e \<and> spellCheckDisabled e \<and>
        \<not> WouldModifierRecoverOrEscape action keyChar lower e then (e, False)
     else case ProcessModifier action keyChar e of
       (e1, True) \<Rightarrow> (afterModifier e1, True)
     | (e1, False) \<Rightarrow> (e1, False))"

definition exclusionUnblocks :: "wchar \<Rightarrow> TypingEngine \<Rightarrow> bool" where
  "exclusionUnblocks lower e \<longleftrightarrow> \<not> isEscaped e \<and> spellExclusions (config e) \<noteq> [] \<and>
     WouldModifierKeyMatchExclusion (states e) (spellExclusions (config e)) lower"

definition telexModifierStep :: "TypingAction \<Rightarrow> wchar \<Rightarrow> wchar \<Rightarrow> TypingEngine \<Rightarrow> TypingEngine \<times> bool" where
  "telexModifierStep action keyChar lower e =
    (let e1 = (if action = StrokeD then strokePreCheck e else e); ss = states e1; cfg = config e1;
         isUse = (action = CircumflexE \<and> length ss = 3 \<and> towlower (base (ss ! 0)) = L_u \<and>
                  towlower (base (ss ! 1)) = L_s \<and> towlower (base (ss ! 2)) = L_e);
         b0 = (isEscaped e1 \<or>
               (\<not> allowEnglishBypass cfg \<and> bias (engProt e1) = HardEnglish \<and> \<not> isUse));
         b1 = (b0 \<or> (effectiveSpellCheck e1 \<and> IsBlockedEnglishModifier (rawInput e1)));
         b2 = (b1 \<and> \<not> (\<not> isEscaped e1 \<and> action = StrokeD \<and> \<not> HasVowelState ss));
         b3 = (b2 \<and> \<not> exclusionUnblocks lower e1)
     in if b3 then (e1, False) else tryModifier action keyChar lower e1)"

definition vniModifierStep :: "TypingAction \<Rightarrow> wchar \<Rightarrow> wchar \<Rightarrow> TypingEngine \<Rightarrow> TypingEngine \<times> bool" where
  "vniModifierStep action keyChar lower e =
    (let e1 = (if action = VniStroke then strokePreCheck e else e); ss = states e1; cfg = config e1;
         b0 = (isEscaped e1 \<or> (\<not> allowEnglishBypass cfg \<and> bias (engProt e1) = HardEnglish));
         b1 = (b0 \<and> \<not> (\<not> isEscaped e1 \<and> action = VniStroke \<and> \<not> HasVowelState ss));
         b2 = (b1 \<and> \<not> exclusionUnblocks lower e1)
     in if b2 then (e1, False) else tryModifier action keyChar lower e1)"

definition userModifierStep :: "TypingAction \<Rightarrow> wchar \<Rightarrow> wchar \<Rightarrow> TypingEngine \<Rightarrow> TypingEngine \<times> bool" where
  "userModifierStep action keyChar lower e =
    (let cfg = config e;
         b0 = (isEscaped e \<or> (\<not> allowEnglishBypass cfg \<and> bias (engProt e) = HardEnglish));
         b1 = (b0 \<or> (effectiveSpellCheck e \<and> IsBlockedEnglishModifier (rawInput e)));
         b2 = (b1 \<and> \<not> exclusionUnblocks lower e)
     in if b2 then (e, False)
        else case ProcessModifier action keyChar e of
          (e1, True) \<Rightarrow> (afterModifier e1, True)
        | (e1, False) \<Rightarrow> (e1, False))"

definition HandleModifierAction :: "TypingAction \<Rightarrow> wchar \<Rightarrow> wchar \<Rightarrow> TypingEngine \<Rightarrow> TypingEngine \<times> bool" where
  "HandleModifierAction action keyChar lower e =
    (let user = (inputMethod (config e) = UserDefined) in
     if IsTelexModifierAction action then
       (if IsTelexMode e \<or> user then telexModifierStep action keyChar lower e else (e, False))
     else if IsVniModifierAction action then
       (if IsVniMode e \<or> user then vniModifierStep action keyChar lower e else (e, False))
     else if IsUserDefinedOnlyAction action then
       (if user then userModifierStep action keyChar lower e else (e, False))
     else (e, False))"

subsection \<open>Finishing a regular character\<close>

definition revertSyntheticW :: "TypingEngine \<Rightarrow> TypingEngine" where
  "revertSyntheticW e =
    (if inputMethod (config e) = Telex \<and> bias (engProt e) \<noteq> HardEnglish \<and> states e \<noteq> [] \<and>
        synthetic (states e ! 0) \<and> base (states e ! 0) = L_u \<and> modifier (states e ! 0) = Horn \<and>
        tone (states e ! 0) = ToneNone \<and> IsHardEnglishRawStart (rawInput e)
     then onStates (\<lambda>ss. ss[0 := (ss ! 0)\<lparr>base := L_w, modifier := ModNone, synthetic := False\<rparr>])
            (setBias HardEnglish e)
     else e)"

definition revertUse :: "TypingEngine \<Rightarrow> TypingEngine" where
  "revertUse e =
    (let ss = states e; raw = rawInput e in
     if spellCheckEnabled (config e) \<and> \<not> allowEnglishBypass (config e) \<and> IsTelexMode e \<and>
        bias (engProt e) \<noteq> HardEnglish \<and> length ss = 2 \<and>
        towlower (base (ss ! 0)) = L_u \<and> modifier (ss ! 0) = ModNone \<and>
        towlower (base (ss ! 1)) = L_e \<and> modifier (ss ! 1) = ModNone \<and>
        (tone (ss ! 0) = Acute \<or> tone (ss ! 1) = Acute) \<and> length raw \<ge> 3 \<and>
        towlower (raw ! 0) = L_u \<and> towlower (raw ! 1) = L_s \<and> towlower (raw ! 2) = L_e
     then
       (let clr = (\<lambda>s. s\<lparr>tone := ToneNone, toneRawIdx := None\<rparr>);
            sState = initCharState\<lparr>base := L_s, isUpper := iswupper (raw ! 1), rawIdx := 1\<rparr>
        in setBias HardEnglish (e\<lparr>states := [clr (ss ! 0), sState, clr (ss ! 1)]\<rparr>))
     else e)"

definition FinalizeRegularChar :: "TypingEngine \<Rightarrow> TypingEngine" where
  "FinalizeRegularChar e =
    (let e1 = UpdateSpellState (autoUO (relocate e));
         e2 = e1\<lparr>engProt := CheckEnglishBias (states e1) (engProt e1)\<rparr>;
         e3 = revertUse (revertSyntheticW e2)
     in if IsTelexMode e3
        then e3\<lparr>engProt := CheckZwjfInitialBias (states e3) (config e3) (engProt e3)\<rparr> else e3)"

subsection \<open>Quick consonants\<close>

definition quickStartPair :: "wchar \<Rightarrow> (wchar \<times> wchar) option" where
  "quickStartPair lower =
    (if lower = L_f then Some (L_p, L_h) else if lower = L_j then Some (L_g, L_i)
     else if lower = L_w then Some (L_q, L_u) else None)"

definition quickReplacement :: "wchar \<Rightarrow> wchar \<Rightarrow> wchar option" where
  "quickReplacement b lower =
    (if b = L_c \<and> lower = L_c then Some L_h
     else if b = L_g \<and> lower = L_g then Some L_i
     else if b = L_n \<and> lower = L_n then Some L_g
     else if b = L_k \<and> lower = L_k then Some L_h
     else if b = L_q \<and> lower = L_q then Some L_u
     else if b = L_p \<and> lower = L_p then Some L_h
     else if b = L_t \<and> lower = L_t then Some L_h
     else None)"

definition undoQuickStart :: "wchar \<Rightarrow> TypingEngine \<Rightarrow> TypingEngine" where
  "undoQuickStart keyChar e =
    (if quickStartKey e \<noteq> 0 then
       (let savedKey = quickStartKey e; e1 = e\<lparr>quickStartKey := 0\<rparr> in
        if \<not> IsVowelChar keyChar then
          (let e2 = ProcessChar savedKey (e1\<lparr>states := [], rawInput := [savedKey]\<rparr>)
           in e2\<lparr>rawInput := rawInput e2 @ [keyChar]\<rparr>)
        else e1)
     else e)"

definition quickConsonantStep :: "wchar \<Rightarrow> bool \<Rightarrow> TypingEngine \<Rightarrow> TypingEngine \<times> RuleResult" where
  "quickConsonantStep lower up e =
    (let ss = states e; n = length ss; lst = last ss in
     if \<not> IsVowel lst \<and> \<not> IsD lst then
       (case quickReplacement (base lst) lower of
          Some replacement \<Rightarrow>
            (let q = qc e; q1 = (if n = 1 then q\<lparr>onlyQC := True\<rparr> else q);
                 e1 = e\<lparr>qc := q1\<lparr>resultIndex := Some n, lastKey := lower\<rparr>\<rparr>;
                 newKey = (if up then towupper replacement else replacement)
             in (FinalizeRegularChar (ProcessChar newKey e1), Veto))
        | None \<Rightarrow> (e, Pass))
     else if IsVowel lst \<and> base lst = L_u \<and> modifier lst = ModNone \<and> lower = L_u then
       (if n \<ge> 3 \<and> IsVowel (ss ! (n - 3)) \<and> IsVowel (ss ! (n - 2)) \<and>
           IsTriphthong (base (ss ! (n - 3))) (base (ss ! (n - 2))) (base lst) then (e, Pass)
        else
          let e1 = pushState (initCharState\<lparr>base := L_o, modifier := Horn, isUpper := up,
                     rawIdx := newRawIdx e\<rparr>) (setModAt (n - 1) Horn e);
              q = (qc e1)\<lparr>resultIndex := Some (length (states e1) - 1)\<rparr>;
              q1 = (if length (states e1) = 2 then q\<lparr>onlyQC := True\<rparr> else q)
          in (UpdateSpellState (e1\<lparr>qc := q1\<lparr>lastKey := lower\<rparr>\<rparr>), Veto))
     else (e, Pass))"

definition HandleQuickStartConsonant ::
  "wchar \<Rightarrow> wchar \<Rightarrow> bool \<Rightarrow> TypingEngine \<Rightarrow> TypingEngine \<times> RuleResult" where
  "HandleQuickStartConsonant keyChar lower up e =
    (case (if quickStartConsonant (config e) \<and> states e = [] then quickStartPair lower else None) of
       Some (first, second) \<Rightarrow>
         (UpdateSpellState ((ProcessChar second (ProcessChar (if up then towupper first else first) e))
            \<lparr>quickStartKey := keyChar\<rparr>), Veto)
     | None \<Rightarrow>
         let e1 = undoQuickStart keyChar e;
             same = (lastKey (qc e1) \<noteq> 0 \<and> lower = lastKey (qc e1));
             quickEscaped = (escaped (qc e1) \<or> same);
             e2 = e1\<lparr>qc := (qc e1)\<lparr>escaped := False,
                     lastKey := (if same then lastKey (qc e1) else 0)\<rparr>\<rparr>
         in if quickConsonant (config e2) \<and> states e2 \<noteq> [] \<and> \<not> quickEscaped
            then quickConsonantStep lower up e2 else (e2, Pass))"

definition HandleQuickEndConsonant :: "wchar \<Rightarrow> TypingEngine \<Rightarrow> TypingEngine \<times> bool" where
  "HandleQuickEndConsonant lower e =
    (case (if lower = L_g then Some (L_n, L_g) else if lower = L_h then Some (L_n, L_h)
           else if lower = L_k then Some (L_c, L_h) else None) of
       Some (first, second) \<Rightarrow> (UpdateSpellState (ProcessChar second (ProcessChar first e)), True)
     | None \<Rightarrow> (e, False))"

end
