(* ===== verification/EngineApi.thy ===== *)
theory EngineApi
  imports EngineTone
begin

text \<open>
  The public interface of \<open>TypingEngine\<close> (\<open>src/core/engine/TypingEngine.cpp\<close>) and the rule
  registry its \<open>PushKey\<close> dispatches through (\<open>src/core/engine/rule\<close>).

  An \<open>EngineRuleContext\<close> carries snapshots of the gate inputs and references to the engine's
  vectors; the snapshots are the record below, the references are the engine argument of \<open>hApply\<close>.
\<close>

subsection \<open>Rules\<close>

datatype Phase = PreClassify | PostClassify

record EngineRuleContext =
  ctxKeyChar :: wchar
  ctxLower :: wchar
  ctxIsUpper :: bool
  ctxAction :: TypingAction
  ctxSpellCheckDisabled :: bool
  ctxAllowEnglishBypass :: bool
  ctxEscapeKind :: EscapeKind
  ctxBias :: LanguageBias
  ctxIsVniDigitSeq :: bool

type_synonym EngineRule = "(Phase, EngineRuleContext, TypingEngine) handler"

definition consumed :: "TypingEngine \<times> bool \<Rightarrow> TypingEngine \<times> RuleResult" where
  "consumed r = (fst r, if snd r then Veto else Pass)"

definition ToneRule_Apply :: "EngineRuleContext \<Rightarrow> TypingEngine \<Rightarrow> TypingEngine \<times> RuleResult" where
  "ToneRule_Apply ctx e =
    (if \<not> IsToneAction (ctxAction ctx) then (e, Pass)
     else consumed (HandleToneFsm (ctxAction ctx) (ctxKeyChar ctx) (ctxLower ctx) (ctxIsUpper ctx) e))"

definition ModifierRule_Apply :: "EngineRuleContext \<Rightarrow> TypingEngine \<Rightarrow> TypingEngine \<times> RuleResult" where
  "ModifierRule_Apply ctx e =
    (if \<not> IsTelexModifierAction (ctxAction ctx) \<and> \<not> IsVniModifierAction (ctxAction ctx) \<and>
        \<not> IsUserDefinedOnlyAction (ctxAction ctx) then (e, Pass)
     else consumed (HandleModifierAction (ctxAction ctx) (ctxKeyChar ctx) (ctxLower ctx) e))"

definition QuickStartConsonantRule_Apply ::
  "EngineRuleContext \<Rightarrow> TypingEngine \<Rightarrow> TypingEngine \<times> RuleResult" where
  "QuickStartConsonantRule_Apply ctx e =
     HandleQuickStartConsonant (ctxKeyChar ctx) (ctxLower ctx) (ctxIsUpper ctx) e"

definition QuickEndConsonantRule_Apply ::
  "EngineRuleContext \<Rightarrow> TypingEngine \<Rightarrow> TypingEngine \<times> RuleResult" where
  "QuickEndConsonantRule_Apply ctx e =
    (if \<not> quickEndConsonant (config e) then (e, Pass)
     else if states e = [] \<or> \<not> IsVowel (last (states e)) then (e, Pass)
     else if ctxLower ctx \<noteq> L_g \<and> ctxLower ctx \<noteq> L_h \<and> ctxLower ctx \<noteq> L_k then (e, Pass)
     else consumed (HandleQuickEndConsonant (ctxLower ctx) e))"

definition ToneRule :: EngineRule where
  "ToneRule = \<lparr>hSlot = PostClassify, hPriority = 10, hRequires = GateMaskFor ToneEscape,
               hApply = ToneRule_Apply\<rparr>"

definition ModifierRule :: EngineRule where
  "ModifierRule = \<lparr>hSlot = PostClassify, hPriority = 20, hRequires = 0, hApply = ModifierRule_Apply\<rparr>"

definition QuickStartConsonantRule :: EngineRule where
  "QuickStartConsonantRule =
    \<lparr>hSlot = PreClassify, hPriority = 5, hRequires = 0, hApply = QuickStartConsonantRule_Apply\<rparr>"

definition QuickEndConsonantRule :: EngineRule where
  "QuickEndConsonantRule =
    \<lparr>hSlot = PostClassify, hPriority = 30, hRequires = 0, hApply = QuickEndConsonantRule_Apply\<rparr>"

text \<open>The registrations of the constructor of \<open>TypingEngine\<close>, in its order.\<close>

definition ruleRegistry :: "(Phase, EngineRuleContext, TypingEngine) buckets" where
  "ruleRegistry =
     fold registerHandler [ToneRule, ModifierRule, QuickStartConsonantRule, QuickEndConsonantRule]
       (\<lambda>_. [])"

definition EvaluateGates :: "TypingConfig \<Rightarrow> EngineRuleContext \<Rightarrow> GateMask" where
  "EvaluateGates cfg ctx =
    (let r0 = 0;
         r1 = (if ctxBias ctx = HardEnglish \<and> \<not> ctxAllowEnglishBypass ctx
               then r0 OR GateMaskFor EnglishBias else r0);
         r2 = (if ctxSpellCheckDisabled ctx \<and> spellCheckEnabled cfg \<and> \<not> ctxAllowEnglishBypass ctx
               then r1 OR GateMaskFor SpellCheck else r1);
         r3 = (if ctxEscapeKind ctx \<noteq> EscNone \<and> ctxEscapeKind ctx \<noteq> EscCircumflex
               then r2 OR GateMaskFor ToneEscape else r2)
     in r3)"

definition DispatchAtPhase ::
  "Phase \<Rightarrow> EngineRuleContext \<Rightarrow> TypingEngine \<Rightarrow> TypingEngine \<times> RuleResult" where
  "DispatchAtPhase phase ctx e = runBucket (EvaluateGates (config e) ctx) ctx (ruleRegistry phase) e"

definition ruleContext :: "wchar \<Rightarrow> bool \<Rightarrow> TypingAction \<Rightarrow> bool \<Rightarrow> TypingEngine \<Rightarrow> EngineRuleContext" where
  "ruleContext keyChar up action digitSeq e =
    \<lparr>ctxKeyChar = keyChar, ctxLower = towlower keyChar, ctxIsUpper = up, ctxAction = action,
     ctxSpellCheckDisabled = spellCheckDisabled e,
     ctxAllowEnglishBypass = allowEnglishBypass (config e),
     ctxEscapeKind = escape e, ctxBias = bias (engProt e), ctxIsVniDigitSeq = digitSeq\<rparr>"

subsection \<open>Construction and reset\<close>

definition Reset :: "TypingEngine \<Rightarrow> TypingEngine" where
  "Reset e = e\<lparr>states := [], rawInput := [], escRawHistory := [], spellCheckDisabled := False,
     qc := qc_Reset, escape := EscNone, quickStartKey := 0, engProt := EnglishProtectionState_Reset\<rparr>"

definition newTypingEngine :: "TypingConfig \<Rightarrow> TypingEngine" where
  "newTypingEngine cfg =
    Reset \<lparr>states = [], rawInput = [], escRawHistory = [], config = cfg, spellCheckDisabled = False,
      qc = qc_Reset, escape = EscNone, activeKeyUppercase = False, quickStartKey = 0,
      engProt = EnglishProtectionState_Reset, oobWrite = False\<rparr>"

subsection \<open>Keys\<close>

definition isVniDigitSequence :: "wchar \<Rightarrow> TypingEngine \<Rightarrow> bool" where
  "isVniDigitSequence keyChar e \<longleftrightarrow>
     IsVniMode e \<and> L_0 \<le> keyChar \<and> keyChar \<le> L_9 \<and> states e \<noteq> [] \<and>
     L_0 \<le> base (last (states e)) \<and> base (last (states e)) \<le> L_9"

definition resolveAction :: "wchar \<Rightarrow> TypingEngine \<Rightarrow> TypingAction" where
  "resolveAction lower e =
    (let cfg = config e;
         ov = (if lower < 128 \<and> inputMethod cfg = UserDefined then
                 (let o1 = customKeyMap cfg ! lower; canonical = CanonicalBracketKey lower in
                  if o1 = NoAction \<and> canonical \<noteq> lower then customKeyMap cfg ! canonical else o1)
               else NoAction)
     in if ov \<noteq> NoAction then ov else ClassifyKey lower (IsTelexMode e) (IsVniMode e))"

definition PushKey :: "wchar \<Rightarrow> bool \<Rightarrow> TypingEngine \<Rightarrow> TypingEngine" where
  "PushKey keyChar up e =
    (let lower = towlower keyChar;
         e1 = e\<lparr>rawInput := rawInput e @ [keyChar], escRawHistory := escRawHistory e @ [keyChar],
                qc := (qc e)\<lparr>onlyQC := False\<rparr>, activeKeyUppercase := up\<rparr> in
     case RevertProvisionalOoTone lower e1 of
       (e2, True) \<Rightarrow> (UpdateSpellState e2)\<lparr>engProt := RecalcEnglishBias (states e2)\<rparr>
     | (e2, False) \<Rightarrow>
         (case DispatchAtPhase PreClassify (ruleContext keyChar up NoAction False e2) e2 of
            (e3, Veto) \<Rightarrow> e3
          | (e3, _) \<Rightarrow>
              (let digitSeq = isVniDigitSequence keyChar e3;
                   action = (if digitSeq then NoAction else resolveAction lower e3) in
               case DispatchAtPhase PostClassify (ruleContext keyChar up action digitSeq e3) e3 of
                 (e4, Veto) \<Rightarrow> e4
               | (e4, _) \<Rightarrow> FinalizeRegularChar (ProcessChar3 lower up e4))))"

definition PushChar :: "wchar \<Rightarrow> TypingEngine \<Rightarrow> TypingEngine" where
  "PushChar keyChar e =
     PushKey keyChar (iswupper keyChar \<or> keyChar = L_lbrace \<or> keyChar = L_rbrace) e"

definition recalcBias :: "TypingEngine \<Rightarrow> TypingEngine" where
  "recalcBias e =
    (let p = RecalcEnglishBias (states e) in
     e\<lparr>engProt := (if IsTelexMode e then CheckZwjfInitialBias (states e) (config e) p else p)\<rparr>)"

definition Backspace :: "TypingEngine \<Rightarrow> TypingEngine" where
  "Backspace e0 =
    (if states e0 = [] then e0
     else
       let e = e0\<lparr>escape := EscNone\<rparr>; n = length (states e) in
       if quickStartKey e \<noteq> 0 \<and> n = 2 then
         UpdateSpellState ((ProcessChar (quickStartKey e)
           (e\<lparr>states := [], rawInput := [quickStartKey e]\<rparr>))\<lparr>quickStartKey := 0\<rparr>)
       else
         let e1 = e\<lparr>quickStartKey := 0\<rparr> in
         if hasActive (qc e1) \<and> resultIndex (qc e1) = Some (n - 1) then
           (let originalKey = lastKey (qc e1);
                e2 = e1\<lparr>states := butlast (UndoHornU (states e1) (n - 1)), qc := markEscaped (qc e1)\<rparr>;
                e3 = (if originalKey \<noteq> 0 then ProcessChar originalKey e2 else e2)
            in recalcBias (UpdateSpellState e3))
         else
           let rawTarget = rawIdx (last (states e1));
               ss = butlast (states e1);
               hist = (if escRawHistory e1 \<noteq> [] then butlast (escRawHistory e1) else escRawHistory e1);
               e2 = e1\<lparr>qc := clearActive (qc e1), states := ss, rawInput := take rawTarget (rawInput e1),
                       escRawHistory := (if ss = [] then [] else hist)\<rparr>
           in recalcBias (UpdateSpellState e2))"

subsection \<open>Output\<close>

definition ComposeAll :: "TypingEngine \<Rightarrow> wstring" where
  "ComposeAll e = filter (\<lambda>ch. ch \<noteq> 0) (map Compose (states e))"

definition Peek :: "TypingEngine \<Rightarrow> wstring" where
  "Peek = ComposeAll"

definition PeekRaw :: "TypingEngine \<Rightarrow> wstring" where
  "PeekRaw = escRawHistory"

definition Count :: "TypingEngine \<Rightarrow> nat" where
  "Count e = length (states e)"

definition HasActiveQuickConsonant :: "TypingEngine \<Rightarrow> bool" where
  "HasActiveQuickConsonant e \<longleftrightarrow> hasActive (qc e)"

definition IsEnglishWord :: "TypingEngine \<Rightarrow> bool" where
  "IsEnglishWord e \<longleftrightarrow> bias (engProt e) = HardEnglish"

definition IsToneEscaped :: "TypingEngine \<Rightarrow> bool" where
  "IsToneEscaped e \<longleftrightarrow> isEscaped e"

text \<open>The auto-restore decision of \<open>Commit\<close> (lines 1947 to 2000): the text to return when the raw
  keys (or the capitalised raw keys) replace the composed word.\<close>

definition commitRestore :: "TypingEngine \<Rightarrow> wstring \<Rightarrow> wstring option" where
  "commitRestore e composed =
    (let cfg = config e; ss = states e in
     if \<not> spellCheckEnabled cfg \<or> \<not> autoRestoreEnabled cfg \<or> hasActive (qc e) then None
     else
       let bareCircumflexA = (length ss = 1 \<and> base (ss ! 0) = L_a \<and> modifier (ss ! 0) = Circumflex);
           prefixRestore = (\<not> spellCheckDisabled e \<and> ss \<noteq> [] \<and>
              ValidateSyllableState ss (allowZwjf cfg) = ValidPrefix \<and> \<not> bareCircumflexA);
           unfinishedNucleus = (prefixRestore \<and> list_ex IsVowel ss);
           keepComposed = (IsSpellExcluded ss (spellExclusions cfg) \<or>
              (\<not> unfinishedNucleus \<and> HasIntentionalStrokeD (rawInput e) composed));
           raw = (if rawInput e \<noteq> [] \<and> composed \<noteq> [] \<and> iswupper (composed ! 0)
                  then (rawInput e)[0 := towupper (rawInput e ! 0)] else rawInput e)
       in if (spellCheckDisabled e \<or> prefixRestore) \<and> \<not> keepComposed then
            (if raw = composed then Some composed
             else if ShouldAutoRestore raw composed then Some raw else None)
          else None)"

definition Commit :: "TypingEngine \<Rightarrow> TypingEngine \<times> wstring" where
  "Commit e0 =
    (let e = fst (RevertProvisionalOoTone 0x20 e0);
         composed = ComposeAll e; raw = rawInput e in
     if quickStartKey e \<noteq> 0 \<and> length raw = 1 \<and> ShouldAutoRestore raw composed then (Reset e, raw)
     else if onlyQC (qc e) \<and> ShouldAutoRestore raw composed then (Reset e, raw)
     else case commitRestore e composed of
       Some t \<Rightarrow> (Reset e, t)
     | None \<Rightarrow> (Reset e, composed))"

subsection \<open>Seeding\<close>

definition modOfIndex :: "nat option \<Rightarrow> Modifier" where
  "modOfIndex i = (if i = Some 0 then Circumflex else if i = Some 1 then Breve
     else if i = Some 2 then Horn else if i = Some 3 then Stroke else ModNone)"

definition toneOfIndex :: "nat option \<Rightarrow> Tone" where
  "toneOfIndex i = (if i = Some 0 then Acute else if i = Some 1 then Grave
     else if i = Some 2 then Hook else if i = Some 3 then Tilde else if i = Some 4 then Dot
     else ToneNone)"

fun seedLoop :: "wstring \<Rightarrow> TypingEngine \<Rightarrow> TypingEngine option" where
  "seedLoop [] e = Some e"
| "seedLoop (ch # text) e =
    (case DecomposeVietChar ch of
       None \<Rightarrow> None
     | Some (b, modIdx, toneIdx, up) \<Rightarrow>
         seedLoop text
           (e\<lparr>states := states e @ [\<lparr>base = b, modifier = modOfIndex modIdx, tone = toneOfIndex toneIdx,
                isUpper = up, synthetic = False, rawIdx = length (rawInput e), toneRawIdx = None\<rparr>],
              rawInput := rawInput e @ [if up then towupper b else b]\<rparr>))"

definition SeedFromText :: "wstring \<Rightarrow> TypingEngine \<Rightarrow> TypingEngine \<times> bool" where
  "SeedFromText text e =
    (case seedLoop text (Reset e) of
       None \<Rightarrow> (Reset e, False)
     | Some e1 \<Rightarrow>
         (let e2 = UpdateSpellState e1
          in (e2\<lparr>engProt := CheckEnglishBias (states e2) (engProt e2)\<rparr>, True)))"

end
