(* ===== verification/EngineInv.thy ===== *)
theory EngineInv
  imports EngineApi
begin

text \<open>
  The representation invariant of the engine: every character state is well formed.  Each
  primitive and each handler preserves it (collection \<open>inv_intros\<close>), hence so do the
  operations of the public interface.
\<close>

definition wf_engine :: "TypingEngine \<Rightarrow> bool" where
  "wf_engine e \<longleftrightarrow> list_all wf_cs (states e)"

lemma wf_engine_fields [simp]:
  "wf_engine (e\<lparr>escape := x1\<rparr>) = wf_engine e" "wf_engine (e\<lparr>engProt := x2\<rparr>) = wf_engine e"
  "wf_engine (e\<lparr>qc := x3\<rparr>) = wf_engine e" "wf_engine (e\<lparr>quickStartKey := x4\<rparr>) = wf_engine e"
  "wf_engine (e\<lparr>rawInput := x5\<rparr>) = wf_engine e" "wf_engine (e\<lparr>oobWrite := x6\<rparr>) = wf_engine e"
  "wf_engine (e\<lparr>spellCheckDisabled := x7\<rparr>) = wf_engine e"
  "wf_engine (e\<lparr>escRawHistory := x8\<rparr>) = wf_engine e"
  "wf_engine (e\<lparr>activeKeyUppercase := x9\<rparr>) = wf_engine e"
  "wf_engine (setBias b e) = wf_engine e" "wf_engine (UpdateSpellState e) = wf_engine e"
  by (simp_all add: wf_engine_def setBias_def UpdateSpellState_def)

lemma wf_engine_states [simp]: "wf_engine (e\<lparr>states := ss\<rparr>) = list_all wf_cs ss"
  by (simp add: wf_engine_def)

lemma wf_onStates: "wf_engine e \<Longrightarrow> (\<And>ss. list_all wf_cs ss \<Longrightarrow> list_all wf_cs (f ss)) \<Longrightarrow> wf_engine (onStates f e)"
  by (simp add: onStates_def wf_engine_def)

subsection \<open>Characters\<close>

lemma wf_new_literal [simp]: "wf_cs (initCharState\<lparr>base := b\<rparr>) \<longleftrightarrow> 0 < b \<and> towlower b = b"
  by (simp add: wf_cs_def initCharState_def)

lemma wf_new_modified [simp]:
  "wf_cs (initCharState\<lparr>base := b, modifier := m\<rparr>) \<longleftrightarrow> 0 < b \<and> towlower b = b \<and> modFits b m"
  by (simp add: wf_cs_def initCharState_def)

lemma towlower_pos [simp]: "0 < towlower c \<longleftrightarrow> 0 < c"
  by (simp add: towlower_def)

lemma wf_ProcessChar3 [inv_intros]: "wf_engine e \<Longrightarrow> 0 < k \<Longrightarrow> towlower k = k \<Longrightarrow> wf_engine (ProcessChar3 k up e)"
  by (simp add: wf_engine_def ProcessChar3_def)

lemma wf_ProcessChar [inv_intros]: "wf_engine e \<Longrightarrow> 0 < c \<Longrightarrow> wf_engine (ProcessChar c e)"
  by (simp add: ProcessChar_def wf_engine_def ProcessChar3_def)

lemma wf_shiftRaw [simp]: "wf_cs (shiftRaw i s) = wf_cs s"
  by (simp add: shiftRaw_def)

lemma wf_EraseConsumedRaw [inv_intros]: "wf_engine e \<Longrightarrow> wf_engine (EraseConsumedRaw i e)"
  by (simp add: EraseConsumedRaw_def wf_engine_def list_all_length)

lemma list_all_insertAt: "list_all P xs \<Longrightarrow> P x \<Longrightarrow> list_all P (insertAt i x xs)"
  by (simp add: insertAt_def list_all_take list_all_drop)

lemma wf_RestoreConsumedKeyInPlace [inv_intros]:
  assumes "wf_engine e" "0 < k"
  shows "wf_engine (RestoreConsumedKeyInPlace ci k e)"
proof -
  have "wf_engine (EraseConsumedRaw i e)" for i using assms by (intro inv_intros)
  moreover from this have "list_all wf_cs (states (EraseConsumedRaw i e))" for i by (simp add: wf_engine_def)
  ultimately show ?thesis using assms
    by (auto simp: RestoreConsumedKeyInPlace_def Let_def intro!: inv_intros list_all_insertAt
        split: option.split)
qed

lemma wf_RevertProvisionalOoTone [inv_intros]:
  "wf_engine e \<Longrightarrow> wf_engine (fst (RevertProvisionalOoTone l e))"
  by (auto simp: RevertProvisionalOoTone_def Let_def wf_engine_def list_all_update list_all_nth
      split: option.splits)

subsection \<open>Tone relocation\<close>

lemma wf_RelocateToneToHornVowel [inv_intros]:
  assumes "list_all wf_cs ss"
  shows "list_all wf_cs (RelocateToneToHornVowel ss)"
  using assms
  by (auto simp: RelocateToneToHornVowel_def last_idx_Some list_all_update list_all_nth
      wf_cs_tone split: option.splits)

lemma renderedVowels_nth:
  assumes "k < length (renderedVowels ss)"
  shows "fst (renderedVowels ss ! k) < length ss \<and> IsVowel (ss ! fst (renderedVowels ss ! k))"
proof -
  have "renderedVowels ss ! k \<in> set (renderedVowels ss)" using assms by (rule nth_mem)
  then show ?thesis by (auto simp: renderedVowels_def dest!: in_set_takeD)
qed

lemma FindToneTarget_SomeD:
  "FindToneTarget m ss = Some t \<Longrightarrow> t < length ss \<and> IsVowel (ss ! t)"
  using renderedVowels_nth[of _ ss]
  by (auto simp: FindToneTarget_def Let_def not_le split: if_splits option.splits)

lemma wf_RelocateToneToTarget [inv_intros]:
  assumes "list_all wf_cs ss"
  shows "list_all wf_cs (RelocateToneToTarget m ss)"
proof (cases "FindTonedVowelIndex ss")
  case (Some i)
  then have i: "i < length ss" by (auto dest: FindTonedVowelIndex_SomeD)
  show ?thesis
  proof (cases "FindToneTarget m ss")
    case t: (Some t)
    then have "t < length ss" "IsVowel (ss ! t)" by (auto dest: FindToneTarget_SomeD)
    with assms Some i t show ?thesis
      by (simp add: RelocateToneToTarget_def list_all_update list_all_nth wf_cs_tone)
  qed (use assms Some in \<open>simp add: RelocateToneToTarget_def\<close>)
qed (use assms in \<open>simp add: RelocateToneToTarget_def\<close>)

lemma length_RelocateToneToTarget [simp]: "length (RelocateToneToTarget m ss) = length ss"
  by (simp add: RelocateToneToTarget_def split: option.splits)

lemma wf_autoUOAt:
  assumes "list_all wf_cs ss" "i + 1 < length ss"
  shows "list_all wf_cs (autoUOAt m i ss)"
proof -
  have a: "list_all wf_cs (ss[i := (ss ! i)\<lparr>modifier := Horn\<rparr>])" if "base (ss ! i) = L_u"
    using assms that by (intro list_all_update) (auto intro: wf_cs_mod simp: list_all_nth)
  have b: "list_all wf_cs (RelocateToneToTarget m (ss'[i + 1 := (ss' ! (i + 1))\<lparr>modifier := Horn\<rparr>]))"
    if "list_all wf_cs ss'" "length ss' = length ss" "base (ss' ! (i + 1)) = L_o" for ss'
    using assms that
    by (intro inv_intros list_all_update) (auto intro: wf_cs_mod simp: list_all_nth)
  show ?thesis
    using assms a b[of ss] b[of "ss[i := (ss ! i)\<lparr>modifier := Horn\<rparr>]"]
    by (auto simp: autoUOAt_def Let_def)
qed

lemma length_autoUOAt [simp]: "length (autoUOAt m i ss) = length ss"
  by (simp add: autoUOAt_def Let_def)

lemma wf_fold_autoUOAt:
  assumes "list_all (\<lambda>i. i + 1 < length ss) is" "list_all wf_cs ss"
  shows "list_all wf_cs (fold (autoUOAt m) is ss)"
  using assms by (induction "is" arbitrary: ss) (auto simp: wf_autoUOAt)

lemma wf_ApplyAutoUO [inv_intros]: "list_all wf_cs ss \<Longrightarrow> list_all wf_cs (ApplyAutoUO m ss)"
proof -
  have "list_all (\<lambda>i. i + 1 < length ss) [k..<length ss - 2]" for k by (auto simp: list_all_iff)
  then show "list_all wf_cs ss \<Longrightarrow> ?thesis"
    unfolding ApplyAutoUO_def Let_def by (simp add: wf_fold_autoUOAt)
qed

lemma wf_relocate [inv_intros]: "wf_engine e \<Longrightarrow> wf_engine (relocate e)"
  by (simp add: relocate_def wf_onStates inv_intros)

lemma wf_autoUO [inv_intros]: "wf_engine e \<Longrightarrow> wf_engine (autoUO e)"
  by (simp add: autoUO_def wf_onStates inv_intros)

lemma wf_relocateHorn [inv_intros]: "wf_engine e \<Longrightarrow> wf_engine (relocateHorn e)"
  by (simp add: relocateHorn_def wf_onStates inv_intros)

subsection \<open>Modifier handlers\<close>

lemma wf_setModAt [inv_intros]:
  "wf_engine e \<Longrightarrow> i < length (states e) \<Longrightarrow> modFits (base (states e ! i)) m \<Longrightarrow> wf_engine (setModAt i m e)"
  by (simp add: setModAt_def onStates_def wf_engine_def list_all_update list_all_nth wf_cs_mod)

lemma wf_setModAt_None [inv_intros]:
  "wf_engine e \<Longrightarrow> i < length (states e) \<Longrightarrow> wf_engine (setModAt i ModNone e)"
  by (rule wf_setModAt) simp_all

lemma base_update_modifier [simp]: "base (xs[i := (xs ! i)\<lparr>modifier := m\<rparr>] ! j) = base (xs ! j)"
  by (cases "i = j"; cases "i < length xs") (auto simp: list_update_beyond)

lemma setModAt_states [simp]:
  "length (states (setModAt i m e)) = length (states e)"
  "base (states (setModAt i m e) ! j) = base (states e ! j)"
  by (simp_all add: setModAt_def onStates_def)

lemma wf_SetVowelMod:
  assumes "list_all wf_cs ss" "i < length ss" "modFits (base (ss ! i)) m"
  shows "list_all wf_cs (SetVowelMod i m ss)"
proof -
  have "list_all wf_cs (ss[i := (ss ! i)\<lparr>modifier := m\<rparr>])"
    using assms by (simp add: list_all_update list_all_nth wf_cs_mod)
  then show ?thesis using assms by (auto simp: SetVowelMod_def Let_def intro!: UndoHornU_wf)
qed

lemma wf_setVowelMod [inv_intros]:
  "wf_engine e \<Longrightarrow> i < length (states e) \<Longrightarrow> modFits (base (states e ! i)) m \<Longrightarrow>
   wf_engine (onStates (SetVowelMod i m) e)"
  by (simp add: onStates_def wf_engine_def wf_SetVowelMod)

lemma wf_pushState [inv_intros]: "wf_engine e \<Longrightarrow> wf_cs s \<Longrightarrow> wf_engine (pushState s e)"
  by (simp add: pushState_def wf_engine_def)

lemma wf_popAndRestore [inv_intros]: "wf_engine e \<Longrightarrow> 0 < c \<Longrightarrow> wf_engine (popAndRestore c e)"
  unfolding popAndRestore_def by (intro inv_intros) (simp_all add: wf_engine_def list_all_butlast)

lemma wf_HandleHornInsert [inv_intros]:
  "wf_engine e \<Longrightarrow> 0 < c \<Longrightarrow> wf_engine (fst (HandleHornInsert a c e))"
  by (auto simp: HandleHornInsert_def Let_def towlower_def intro!: inv_intros)

lemma insertSpec_fits: "insertSpec a = Some (b, m, u) \<Longrightarrow> 0 < b \<and> towlower b = b \<and> modFits b m"
  by (cases a) (auto simp: insertSpec_def towlower_def)

lemma wf_HandleInsertChar [inv_intros]:
  "wf_engine e \<Longrightarrow> 0 < c \<Longrightarrow> wf_engine (fst (HandleInsertChar a c e))"
  by (auto simp: HandleInsertChar_def intro!: inv_intros dest: insertSpec_fits split: option.split)

lemma wf_HandleUndoAllMarks [inv_intros]: "wf_engine e \<Longrightarrow> wf_engine (fst (HandleUndoAllMarks e))"
  by (auto simp: HandleUndoAllMarks_def wf_engine_def list_all_length)

lemma wf_freeMarkHit [inv_intros]:
  assumes "wf_engine e" "0 < c" "i < length (states e)" "base (states e ! i) = tb"
    "tb = L_a \<or> tb = L_e \<or> tb = L_o"
  shows "wf_engine (fst (freeMarkHit tb c i nv cc sc e))"
proof -
  have "modFits (base (states e ! i)) Circumflex" using assms by auto
  with assms show ?thesis
    by (auto simp: freeMarkHit_def Let_def intro!: inv_intros)
qed

lemma wf_freeMarkScan [inv_intros]:
  assumes "wf_engine e" "0 < c" "tb = L_a \<or> tb = L_e \<or> tb = L_o" "n \<le> length (states e)"
  shows "wf_engine (fst (freeMarkScan tb c n nv cc sc e))"
  using assms by (induction n arbitrary: nv cc sc) (auto simp: Let_def intro!: inv_intros)

lemma wf_adjacentCircumflex [inv_intros]:
  assumes "wf_engine e" "0 < c" "states e \<noteq> []" "base (last (states e)) = tb"
    "tb = L_a \<or> tb = L_e \<or> tb = L_o"
  shows "wf_engine (fst (adjacentCircumflex tb c e))"
proof -
  have "modFits (base (states e ! (length (states e) - 1))) Circumflex"
    using assms by (auto simp: last_conv_nth)
  with assms show ?thesis
    by (auto simp: adjacentCircumflex_def Let_def intro!: inv_intros)
qed

text \<open>The base vowel a circumflex action targets: fixed by the action in user-defined mode, by the
  key otherwise.\<close>

definition circumflexKeyOk :: "TypingAction \<Rightarrow> wchar \<Rightarrow> TypingEngine \<Rightarrow> bool" where
  "circumflexKeyOk action c e \<longleftrightarrow>
     (action = CircumflexA \<or> action = CircumflexE \<or> action = CircumflexO) \<and>
     (inputMethod (config e) \<noteq> UserDefined \<longrightarrow> towlower c = L_a \<or> towlower c = L_e \<or> towlower c = L_o)"

lemma wf_useUnrevert:
  assumes "wf_engine e" "isUseUnrevert a e"
  shows "wf_engine (onStates (\<lambda>ss. ss[1 := (ss ! 1)\<lparr>tone := Acute, toneRawIdx := Some 1\<rparr>])
           (onStates (\<lambda>ss. SetVowelMod 1 Circumflex (erase_at 1 ss)) e))"
proof -
  let ?ss = "erase_at 1 (states e)"
  have l: "length ?ss = 2" and n: "?ss ! 1 = states e ! 2"
    using assms(2) by (auto simp: isUseUnrevert_def Let_def erase_at_def nth_append numeral_2_eq_2)
  have "wf_cs (states e ! 2)" "towlower (base (states e ! 2)) = L_e"
    using assms by (auto simp: isUseUnrevert_def Let_def wf_engine_def list_all_nth)
  then have e: "base (?ss ! 1) = L_e" unfolding n by (simp add: wf_cs_def)
  have w: "list_all wf_cs (SetVowelMod 1 Circumflex ?ss)"
    using assms(1) l e by (intro wf_SetVowelMod) (auto simp: wf_engine_def list_all_erase_at)
  have "SetVowelMod 1 Circumflex ?ss ! 1 = (?ss ! 1)\<lparr>modifier := Circumflex\<rparr>"
    using l e by (simp add: SetVowelMod_def Let_def UndoHornU_def)
  then have "IsVowel (SetVowelMod 1 Circumflex ?ss ! 1)" using e by (simp add: cs_defs)
  moreover have "length (SetVowelMod 1 Circumflex ?ss) = 2" using l by (simp add: SetVowelMod_def Let_def)
  ultimately show ?thesis
    using w by (simp add: onStates_def list_all_update list_all_nth wf_cs_tone)
qed

lemma wf_HandleAdjacentCircumflex [inv_intros]:
  assumes "wf_engine e" "0 < c" "circumflexKeyOk a c e"
  shows "wf_engine (fst (HandleAdjacentCircumflex a c e))"
proof -
  let ?tb = "if inputMethod (config e) = UserDefined then ActionToVowel a else towlower c"
  have tb: "?tb = L_a \<or> ?tb = L_e \<or> ?tb = L_o"
    using assms(3) by (auto simp: circumflexKeyOk_def ActionToVowel_def)
  define tb where "tb = ?tb"
  have adj: "wf_engine (fst (adjacentCircumflex tb c e))"
    if "states e \<noteq> []" "base (last (states e)) = tb"
    using assms tb that by (intro wf_adjacentCircumflex) (auto simp: tb_def)
  have free: "wf_engine (fst (freeMarkScan tb c (length (states e)) False 0 0 e))"
    using assms tb by (intro wf_freeMarkScan) (auto simp: tb_def)
  show ?thesis
    using assms(1) adj free wf_relocate[OF wf_useUnrevert[OF assms(1)]]
    by (simp add: HandleAdjacentCircumflex_def Let_def flip: tb_def)
qed

lemma nuclear_fits:
  "nuclearIs ss b ms i \<Longrightarrow> base (ss ! i) = b" "vowelPairAt ss x y i \<Longrightarrow> base (ss ! i) = x \<and> base (ss ! (i + 1)) = y"
  by (simp_all add: nuclearIs_def vowelPairAt_def)

lemma wf_stripCircumflex [inv_intros]:
  "wf_engine e \<Longrightarrow> (\<And>a. x = Some a \<Longrightarrow> a < length (states e)) \<Longrightarrow> wf_engine (stripCircumflex x e)"
  by (auto simp: stripCircumflex_def intro!: inv_intros split: option.split)

lemma wf_orElse [inv_intros]:
  "pred_option wf_engine x \<Longrightarrow> wf_engine (fst r) \<Longrightarrow>
   wf_engine (fst (case x of Some e' \<Rightarrow> (e', True) | None \<Rightarrow> r))"
  by (cases x) auto

lemma wf_hornCycleUO:
  assumes "wf_engine e" "0 < c" "p + 1 < length (states e)" "base (states e ! p) = L_u"
    "base (states e ! (p + 1)) = L_o"
  shows "pred_option wf_engine (hornCycleUO c p e)"
  using assms by (auto simp: hornCycleUO_def Let_def intro!: inv_intros)

lemma wf_UndoHornU [inv_intros]:
  "wf_engine e \<Longrightarrow> h < length (states e) \<Longrightarrow> wf_engine (onStates (\<lambda>ss. UndoHornU ss h) e)"
  by (simp add: onStates_def UndoHornU_wf wf_engine_def)

lemma wf_eraseState [inv_intros]: "wf_engine e \<Longrightarrow> wf_engine (onStates (erase_at h) e)"
  by (simp add: onStates_def list_all_erase_at wf_engine_def)

lemma length_onStates_UndoHornU [simp]:
  "length (states (onStates (\<lambda>ss. UndoHornU ss h) e)) = length (states e)"
  by (simp add: onStates_def)

lemma towupper_pos [simp]: "0 < towupper c \<longleftrightarrow> 0 < c"
  by (simp add: towupper_def)

lemma wf_hornEscape [inv_intros]:
  "wf_engine e \<Longrightarrow> 0 < c \<Longrightarrow> h < length (states e) \<Longrightarrow> wf_engine (hornEscape c h e)"
  by (auto simp: hornEscape_def Let_def intro!: inv_intros)

lemma wf_hornOnU [inv_intros]:
  "wf_engine e \<Longrightarrow> u < length (states e) \<Longrightarrow> base (states e ! u) = L_u \<Longrightarrow>
   (\<And>a. x = Some a \<Longrightarrow> a < length (states e)) \<Longrightarrow> wf_engine (fst (hornOnU x u e))"
  by (auto simp: hornOnU_def intro!: inv_intros)

lemma wf_hornOnO [inv_intros]:
  "wf_engine e \<Longrightarrow> i < length (states e) \<Longrightarrow> base (states e ! i) = L_o \<Longrightarrow> wf_engine (fst (hornOnO i e))"
  by (auto simp: hornOnO_def intro!: inv_intros)

lemma wf_breveOnA [inv_intros]:
  "wf_engine e \<Longrightarrow> i < length (states e) \<Longrightarrow> base (states e ! i) = L_a \<Longrightarrow> wf_engine (fst (breveOnA i e))"
  by (auto simp: breveOnA_def intro!: inv_intros)

lemma wf_insertSyntheticU [inv_intros]: "wf_engine e \<Longrightarrow> wf_engine (fst (insertSyntheticU c e))"
  by (auto simp: insertSyntheticU_def towlower_def intro!: inv_intros)

lemma nuclear_idx:
  "last_idx (nuclearIs ss b ms) n = Some i \<Longrightarrow> i < n \<and> base (ss ! i) = b"
  "first_idx (nuclearIs ss b ms) n = Some i \<Longrightarrow> i < n \<and> base (ss ! i) = b"
  by (auto dest!: last_idx_SomeD first_idx_SomeD simp: nuclearIs_def)

lemma wf_hornStandalone [inv_intros]:
  assumes "wf_engine e" "0 < c"
  shows "wf_engine (fst (hornStandalone c e))"
  using assms
  by (auto simp: hornStandalone_def Let_def dest!: nuclear_idx intro!: inv_intros
      split: option.split if_split_asm)

lemma wf_hornP1 [inv_intros]: "wf_engine e \<Longrightarrow> pred_option wf_engine (hornP1 e)"
  by (auto simp: hornP1_def Let_def option.pred_map pred_option_def dest!: nuclear_idx
      intro!: inv_intros)

lemma wf_hornP2 [inv_intros]:
  assumes "wf_engine e" "0 < c"
  shows "pred_option wf_engine (hornP2 c e)"
proof (cases "last_idx (vowelPairAt (states e) L_u L_o) (length (states e) - 1)")
  case (Some p)
  then have "p < length (states e) - 1" "vowelPairAt (states e) L_u L_o p"
    by (auto dest: last_idx_SomeD)
  then have "pred_option wf_engine (hornCycleUO c p e)"
    using assms by (intro wf_hornCycleUO) (auto simp: vowelPairAt_def)
  with Some show ?thesis by (simp add: hornP2_def)
qed (simp add: hornP2_def)

lemma wf_hornP3 [inv_intros]: "wf_engine e \<Longrightarrow> pred_option wf_engine (hornP3 e)"
  by (auto simp: hornP3_def Let_def pred_option_def dest!: nuclear_idx intro!: inv_intros)

lemma wf_hornP4 [inv_intros]: "wf_engine e \<Longrightarrow> 0 < c \<Longrightarrow> pred_option wf_engine (hornP4 c e)"
  by (auto simp: hornP4_def Let_def pred_option_def dest!: last_idx_SomeD intro!: inv_intros
      split: option.split)

lemma wf_HandleHornW [inv_intros]:
  "wf_engine e \<Longrightarrow> 0 < c \<Longrightarrow> wf_engine (fst (HandleHornW c e))"
  unfolding HandleHornW_def by (simp add: inv_intros)

lemma wf_HandleStrokeD [inv_intros]:
  "wf_engine e \<Longrightarrow> 0 < c \<Longrightarrow> wf_engine (fst (HandleStrokeD c e))"
  by (auto simp: HandleStrokeD_def Let_def IsD_def dest!: FindStrokeDTarget_SomeD intro!: inv_intros
      split: option.split)

lemma isEligible_fits: "isEligible m b \<Longrightarrow> modFits b m"
  by (cases m) (auto simp: isEligible_def)

lemma canSwitch_fits: "canSwitch b cm m \<Longrightarrow> modFits b m"
  by (auto simp: canSwitch_def)

lemma wf_ProcessVniVowelModifier [inv_intros]:
  "wf_engine e \<Longrightarrow> 0 < c \<Longrightarrow> wf_engine (fst (ProcessVniVowelModifier m c e))"
  by (auto simp: ProcessVniVowelModifier_def Let_def
      dest!: last_idx_SomeD isEligible_fits canSwitch_fits intro!: inv_intros split: option.split)

lemma wf_vniHornCycle:
  assumes "wf_engine e" "0 < c" "u + 1 < length (states e)" "base (states e ! u) = L_u"
    "base (states e ! (u + 1)) = L_o"
  shows "pred_option wf_engine (vniHornCycle c u e)"
  using assms by (auto simp: vniHornCycle_def Let_def intro!: inv_intros)

lemma wf_vniHornUU:
  assumes "wf_engine e" "0 < c" "u < length (states e)" "base (states e ! u) = L_u"
  shows "pred_option wf_engine (vniHornUU c u v e)"
  using assms by (auto simp: vniHornUU_def intro!: inv_intros)

lemma vniNuclear_idx:
  "last_idx (vniNuclear ss b) n = Some i \<Longrightarrow> i < n \<and> base (ss ! i) = b"
  "first_idx (vniNuclear ss b) n = Some i \<Longrightarrow> i < n \<and> base (ss ! i) = b"
  by (auto dest!: last_idx_SomeD first_idx_SomeD simp: vniNuclear_def)

lemma wf_vniUO [inv_intros]: "wf_engine e \<Longrightarrow> 0 < c \<Longrightarrow> pred_option wf_engine (vniUO c e)"
  by (auto simp: vniUO_def dest!: vniNuclear_idx intro!: wf_vniHornCycle split: option.split)

lemma wf_vniUU [inv_intros]: "wf_engine e \<Longrightarrow> 0 < c \<Longrightarrow> pred_option wf_engine (vniUU c e)"
  by (auto simp: vniUU_def dest!: vniNuclear_idx intro!: wf_vniHornUU split: option.split)

lemma wf_HandleVniHorn [inv_intros]:
  "wf_engine e \<Longrightarrow> 0 < c \<Longrightarrow> wf_engine (fst (HandleVniHorn c e))"
  unfolding HandleVniHorn_def by (simp add: inv_intros)

lemma wf_HandleHornOrInsertU [inv_intros]:
  assumes "wf_engine e" "0 < c"
  shows "wf_engine (fst (HandleHornOrInsertU a c e))"
proof -
  obtain e1 b1 where h: "HandleHornW c e = (e1, b1)" by fastforce
  then have w1: "wf_engine e1" using wf_HandleHornW[OF assms] by simp
  obtain e2 b2 where i: "HandleHornInsert HornInsertU c e1 = (e2, b2)" by fastforce
  then have w2: "wf_engine e2" using wf_HandleHornInsert[OF w1 assms(2), of HornInsertU] by simp
  then have "list_all wf_cs ((states e2)[length (states e2) - 1 :=
      (last (states e2))\<lparr>synthetic := True, isUpper := iswupper c\<rparr>])"
    if "length (states e1) < length (states e2)"
    using that by (cases "states e2 = []") (auto simp: wf_engine_def list_all_update list_all_last)
  then show ?thesis using assms w1 w2 h i
    by (simp add: HandleHornOrInsertU_def onStates_def split: bool.split)
qed

lemma wf_ProcessModifier [inv_intros]:
  assumes "wf_engine e" "0 < c"
    "a = CircumflexA \<or> a = CircumflexE \<or> a = CircumflexO \<Longrightarrow> circumflexKeyOk a c e"
  shows "wf_engine (fst (ProcessModifier a c e))"
  using assms unfolding ProcessModifier_def by (simp add: inv_intros)

subsection \<open>Tones, the gates and quick consonants\<close>

lemma wf_ProcessTone [inv_intros]:
  assumes "wf_engine e" "0 < c" "t = FindToneTarget (modernOrtho (config e)) (states e)"
  shows "wf_engine (fst (ProcessTone nt c t e))"
proof (cases t)
  case None
  then show ?thesis using assms by (simp add: ProcessTone_def)
next
  case (Some i)
  then have "i < length (states e)" "IsVowel (states e ! i)"
    using assms(3) FindToneTarget_SomeD by (auto dest: sym)
  then have "list_all wf_cs ((states e)[i := (states e ! i)\<lparr>tone := x, toneRawIdx := r\<rparr>])" for x r
    using assms(1) by (simp add: wf_engine_def list_all_update list_all_nth wf_cs_tone)
  with Some show ?thesis using assms(1,2)
    by (auto simp: ProcessTone_def Let_def intro!: inv_intros)
qed

lemma wf_ProcessClearTone [inv_intros]:
  "wf_engine e \<Longrightarrow> wf_engine (fst (ProcessClearTone e))"
  by (auto simp: ProcessClearTone_def Let_def wf_engine_def list_all_update list_all_nth
      dest!: FindToneTarget_SomeD split: option.split)

lemma englishToneGate_states:
  "states (fst (englishToneGate c b t r e)) = states e"
  "config (fst (englishToneGate c b t r e)) = config e"
  by (simp_all add: englishToneGate_def setBias_def Let_def split: prod.split)

lemma wf_afterTone [inv_intros]: "wf_engine e \<Longrightarrow> wf_engine (afterTone e)"
  by (auto simp: afterTone_def Let_def intro!: inv_intros)

lemma wf_toneKeyStep [inv_intros]:
  assumes "wf_engine e" "0 < c" "0 < l" "towlower l = l"
  shows "wf_engine (fst (toneKeyStep r c l up e))"
proof -
  let ?t = "FindToneTarget (modernOrtho (config e)) (states e)"
  obtain e1 b where g: "englishToneGate c (l < L_0 \<or> l > L_9) ?t r e = (e1, b)" by fastforce
  have s: "states e1 = states e" "config e1 = config e"
    using englishToneGate_states[of c "l < L_0 \<or> l > L_9" ?t r e] by (simp_all add: g)
  then have w: "wf_engine e1" using assms(1) by (simp add: wf_engine_def)
  obtain e2 b2 where p: "ProcessTone r c ?t e1 = (e2, b2)" by fastforce
  have w2: "wf_engine e2" using wf_ProcessTone[OF w assms(2), of ?t r] by (simp add: s p)
  show ?thesis
    using assms w w2 g p
    by (auto simp: toneKeyStep_def Let_def asLiteral_def intro!: inv_intros split: bool.split)
qed

lemma wf_HandleToneFsm [inv_intros]:
  "wf_engine e \<Longrightarrow> 0 < c \<Longrightarrow> 0 < l \<Longrightarrow> towlower l = l \<Longrightarrow> wf_engine (fst (HandleToneFsm a c l up e))"
  by (auto simp: HandleToneFsm_def Let_def intro!: inv_intros)

definition keyActionOk :: "TypingAction \<Rightarrow> wchar \<Rightarrow> TypingEngine \<Rightarrow> bool" where
  "keyActionOk a c e \<longleftrightarrow>
     (a = CircumflexA \<or> a = CircumflexE \<or> a = CircumflexO \<longrightarrow> circumflexKeyOk a c e)"

lemma keyActionOk_strokePreCheck [simp]:
  "keyActionOk a c (strokePreCheck e) = keyActionOk a c e" "wf_engine (strokePreCheck e) = wf_engine e"
  by (auto simp: keyActionOk_def circumflexKeyOk_def strokePreCheck_def setBias_def wf_engine_def
      split: option.split)

lemma wf_ProcessModifier' [inv_intros]:
  "wf_engine e \<Longrightarrow> 0 < c \<Longrightarrow> keyActionOk a c e \<Longrightarrow> wf_engine (fst (ProcessModifier a c e))"
  by (rule wf_ProcessModifier) (auto simp: keyActionOk_def)

lemma wf_afterModifier [inv_intros]: "wf_engine e \<Longrightarrow> wf_engine (afterModifier e)"
  by (simp add: afterModifier_def inv_intros)

lemma wf_applyModifier [inv_intros]:
  assumes "wf_engine e" "0 < c" "keyActionOk a c e"
  shows "wf_engine (fst (case ProcessModifier a c e of
           (e1, True) \<Rightarrow> (afterModifier e1, True) | (e1, False) \<Rightarrow> (e1, False)))"
  using wf_ProcessModifier'[OF assms] by (auto split: prod.splits bool.splits intro: wf_afterModifier)

lemma wf_tryModifier [inv_intros]:
  "wf_engine e \<Longrightarrow> 0 < c \<Longrightarrow> keyActionOk a c e \<Longrightarrow> wf_engine (fst (tryModifier a c l e))"
  unfolding tryModifier_def by (simp add: inv_intros)

lemma wf_unless: "wf_engine e \<Longrightarrow> wf_engine (fst r) \<Longrightarrow> wf_engine (fst (if b then (e, False) else r))"
  by simp

lemma wf_modifierSteps:
  assumes "wf_engine e" "0 < c" "keyActionOk a c e"
  shows "wf_engine (fst (telexModifierStep a c l e))" "wf_engine (fst (vniModifierStep a c l e))"
    "wf_engine (fst (userModifierStep a c l e))"
proof -
  have w: "wf_engine (if x then strokePreCheck e else e)"
    and k: "keyActionOk a c (if x then strokePreCheck e else e)" for x
    using assms by simp_all
  show "wf_engine (fst (telexModifierStep a c l e))" "wf_engine (fst (vniModifierStep a c l e))"
    unfolding telexModifierStep_def vniModifierStep_def Let_def
    by (rule wf_unless[OF w wf_tryModifier[OF w assms(2) k]])+
  show "wf_engine (fst (userModifierStep a c l e))"
    unfolding userModifierStep_def Let_def by (rule wf_unless[OF assms(1) wf_applyModifier[OF assms]])
qed

lemma wf_HandleModifierAction [inv_intros]:
  "wf_engine e \<Longrightarrow> 0 < c \<Longrightarrow> keyActionOk a c e \<Longrightarrow> wf_engine (fst (HandleModifierAction a c l e))"
  by (simp add: HandleModifierAction_def Let_def wf_modifierSteps)

lemma wf_revertSyntheticW [inv_intros]: "wf_engine e \<Longrightarrow> wf_engine (revertSyntheticW e)"
  by (auto simp: revertSyntheticW_def onStates_def setBias_def wf_engine_def towlower_def
      intro!: list_all_update wf_csI)

lemma wf_revertUse [inv_intros]: "wf_engine e \<Longrightarrow> wf_engine (revertUse e)"
  by (auto simp: revertUse_def Let_def wf_engine_def setBias_def list_all_nth towlower_def[of L_s])

lemma wf_FinalizeRegularChar [inv_intros]: "wf_engine e \<Longrightarrow> wf_engine (FinalizeRegularChar e)"
  by (auto simp: FinalizeRegularChar_def Let_def intro!: inv_intros)

lemma wf_undoQuickStart [inv_intros]: "wf_engine e \<Longrightarrow> wf_engine (undoQuickStart c e)"
  by (auto simp: undoQuickStart_def Let_def intro!: inv_intros)

lemma wf_quickConsonantStep [inv_intros]:
  assumes "wf_engine e" "states e \<noteq> []"
  shows "wf_engine (fst (quickConsonantStep l up e))"
proof -
  have "quickReplacement b l = Some r \<Longrightarrow> 0 < r" for b r
    by (auto simp: quickReplacement_def split: if_splits)
  then show ?thesis using assms
    by (auto simp: quickConsonantStep_def Let_def last_conv_nth towlower_def
        intro!: inv_intros split: option.split)
qed

lemma wf_HandleQuickStartConsonant [inv_intros]:
  "wf_engine e \<Longrightarrow> wf_engine (fst (HandleQuickStartConsonant c l up e))"
  by (auto simp: HandleQuickStartConsonant_def Let_def quickStartPair_def intro!: inv_intros
      split: option.split if_splits)

lemma wf_HandleQuickEndConsonant [inv_intros]:
  "wf_engine e \<Longrightarrow> wf_engine (fst (HandleQuickEndConsonant l e))"
  by (auto simp: HandleQuickEndConsonant_def intro!: inv_intros split: option.split if_splits)

subsection \<open>The public interface\<close>

lemma ruleRegistry_buckets:
  "ruleRegistry PreClassify = [QuickStartConsonantRule]"
  "ruleRegistry PostClassify = [ToneRule, ModifierRule, QuickEndConsonantRule]"
  unfolding ruleRegistry_def registry.bucket_fold
  by (simp_all add: ToneRule_def ModifierRule_def QuickStartConsonantRule_def QuickEndConsonantRule_def)

lemma wf_consumed [simp]: "wf_engine (fst (consumed r)) = wf_engine (fst r)"
  by (simp add: consumed_def)

lemma wf_ToneRule: "wf_engine e \<Longrightarrow> 0 < c \<Longrightarrow> wf_engine (fst (ToneRule_Apply (ruleContext c up a d e0) e))"
  by (simp add: ToneRule_Apply_def ruleContext_def inv_intros)

lemma wf_QuickEndRule: "wf_engine e \<Longrightarrow> wf_engine (fst (QuickEndConsonantRule_Apply ctx e))"
  by (simp add: QuickEndConsonantRule_Apply_def inv_intros)

lemma wf_ModifierRule:
  "wf_engine e \<Longrightarrow> 0 < c \<Longrightarrow> keyActionOk a c e \<Longrightarrow>
   wf_engine (fst (ModifierRule_Apply (ruleContext c up a d e0) e))"
  by (simp add: ModifierRule_Apply_def ruleContext_def inv_intros)

text \<open>A tone action and a modifier action exclude each other, so one of the two rules passes.\<close>

lemma ModifierRule_tone_action: "IsToneAction a \<Longrightarrow> ModifierRule_Apply (ruleContext c up a d e0) e = (e, Pass)"
  by (cases a) (simp_all add: ModifierRule_Apply_def ruleContext_def action_class_defs)

lemma wf_PostClassify:
  assumes "wf_engine e" "0 < c" "keyActionOk a c e"
  shows "wf_engine (fst (DispatchAtPhase PostClassify (ruleContext c up a d e0) e))"
proof (cases "IsToneAction a")
  case True
  show ?thesis unfolding DispatchAtPhase_def ruleRegistry_buckets
    by (rule runBucket_invariant)
       (use assms True in \<open>auto simp: ToneRule_def ModifierRule_def QuickEndConsonantRule_def
         wf_ToneRule wf_QuickEndRule ModifierRule_tone_action\<close>)
next
  case False
  let ?ctx = "ruleContext c up a d e0"
  have t: "ToneRule_Apply ?ctx e = (e, Pass)" using False by (simp add: ToneRule_Apply_def ruleContext_def)
  obtain e1 r where m: "ModifierRule_Apply ?ctx e = (e1, r)" by fastforce
  then have w: "wf_engine e1" using wf_ModifierRule[OF assms, of up d e0] by simp
  have q: "wf_engine (fst (runBucket g ?ctx [QuickEndConsonantRule] e1))" for g
    by (rule runBucket_invariant) (use w in \<open>auto simp: QuickEndConsonantRule_def wf_QuickEndRule\<close>)
  have "runBucket g ?ctx [ToneRule, ModifierRule, QuickEndConsonantRule] e =
      (if r = Pass then runBucket g ?ctx [QuickEndConsonantRule] e1 else (e1, r))" for g
    by (cases r) (simp_all add: ToneRule_def ModifierRule_def t m)
  then show ?thesis using w q by (simp add: DispatchAtPhase_def ruleRegistry_buckets)
qed

lemma telexAction_circumflex:
  "telexAction l = CircumflexA \<longleftrightarrow> l = L_a" "telexAction l = CircumflexE \<longleftrightarrow> l = L_e"
  "telexAction l = CircumflexO \<longleftrightarrow> l = L_o"
  by (simp_all add: telexAction_def)

lemma ClassifyKey_circumflex:
  assumes "ClassifyKey l t v = CircumflexA \<or> ClassifyKey l t v = CircumflexE \<or> ClassifyKey l t v = CircumflexO"
  shows "l = L_a \<or> l = L_e \<or> l = L_o"
proof -
  have "vniAction k \<notin> {CircumflexA, CircumflexE, CircumflexO}" for k by (simp add: vniAction_def)
  then have "telexAction (CanonicalBracketKey l) \<in> {CircumflexA, CircumflexE, CircumflexO}"
    using assms by (auto simp: ClassifyKey_def Let_def split: if_splits)
  then show ?thesis
    by (auto simp: telexAction_circumflex CanonicalBracketKey_def split: if_splits)
qed

lemma keyActionOk_resolve: "keyActionOk (resolveAction (towlower c) e) c e"
  using ClassifyKey_circumflex[of "towlower c" "IsTelexMode e" "IsVniMode e"]
  by (auto simp: keyActionOk_def circumflexKeyOk_def resolveAction_def Let_def split: if_splits)

lemma wf_PushKey [inv_intros]:
  assumes "wf_engine e" "0 < c"
  shows "wf_engine (PushKey c up e)"
proof -
  let ?e1 = "e\<lparr>rawInput := rawInput e @ [c], escRawHistory := escRawHistory e @ [c],
                qc := (qc e)\<lparr>onlyQC := False\<rparr>, activeKeyUppercase := up\<rparr>"
  obtain e2 b where r: "RevertProvisionalOoTone (towlower c) ?e1 = (e2, b)" by fastforce
  have w2: "wf_engine e2" using wf_RevertProvisionalOoTone[of ?e1 "towlower c"] assms(1) by (simp add: r)
  obtain e3 r3 where p: "DispatchAtPhase PreClassify (ruleContext c up NoAction False e2) e2 = (e3, r3)"
    by fastforce
  have "wf_engine (fst (DispatchAtPhase PreClassify (ruleContext c up NoAction False e2) e2))"
    unfolding DispatchAtPhase_def
    by (rule runBucket_invariant) (use w2 in \<open>auto simp: ruleRegistry_buckets QuickStartConsonantRule_def
      QuickStartConsonantRule_Apply_def intro!: inv_intros\<close>)
  then have w3: "wf_engine e3" by (simp add: p)
  let ?d = "isVniDigitSequence c e3"
  let ?a = "if ?d then NoAction else resolveAction (towlower c) e3"
  have "keyActionOk ?a c e3" using keyActionOk_resolve[of c e3] by (simp add: keyActionOk_def)
  note post = wf_PostClassify[OF w3 assms(2) this, of up ?d e3]
  obtain e4 r4 where q: "DispatchAtPhase PostClassify (ruleContext c up ?a ?d e3) e3 = (e4, r4)"
    by fastforce
  then have w4: "wf_engine e4" using post by simp
  show ?thesis
    using w2 w3 w4 assms(2)
    by (cases b; cases r3; cases r4; simp add: PushKey_def Let_def r p q inv_intros)
qed

lemma wf_PushChar [inv_intros]: "wf_engine e \<Longrightarrow> 0 < c \<Longrightarrow> wf_engine (PushChar c e)"
  by (simp add: PushChar_def inv_intros)

lemma wf_Backspace [inv_intros]:
  assumes "wf_engine e" shows "wf_engine (Backspace e)"
proof -
  have "list_all wf_cs (butlast (UndoHornU (states e) (length (states e) - 1)))" if "states e \<noteq> []"
    using assms that by (intro list_all_butlast UndoHornU_wf) (simp_all add: wf_engine_def)
  moreover have "list_all wf_cs (butlast (states e))" using assms by (simp add: wf_engine_def list_all_butlast)
  ultimately show ?thesis using assms
    by (auto simp: Backspace_def recalcBias_def Let_def intro!: inv_intros)
qed

lemma wf_Reset [simp]: "wf_engine (Reset e)"
  by (simp add: Reset_def wf_engine_def)

lemma wf_new [simp]: "wf_engine (newTypingEngine cfg)"
  by (simp add: newTypingEngine_def)

lemma wf_Commit [simp]: "wf_engine (fst (Commit e))"
  by (simp add: Commit_def Let_def split: option.split)

end
