(* ===== verification/EngineFrame.thy ===== *)
theory EngineFrame
  imports EngineInv
begin

text \<open>
  What a key stroke may touch.  \<open>frm h c k e\<close> says that the keystroke history of \<open>e\<close> is \<open>h\<close>, that
  its configuration is \<open>c\<close> and, when \<open>k = Some j\<close>, that no store has gone past the end of a
  vector and that every recorded tone key lies at least \<open>j + 1\<close> entries before the end of
  \<open>rawInput\<close>.  While a key is handled the bound is \<open>j = 1\<close>, since the key itself has just been
  appended; the handlers that consume a raw entry hand on \<open>j = 0\<close>, which \<open>PushKey\<close> turns into
  \<open>j = 1\<close> again for the next key.
\<close>

definition below :: "nat \<Rightarrow> CharState \<Rightarrow> bool" where
  "below m s \<longleftrightarrow> (case toneRawIdx s of Some i \<Rightarrow> i < m | None \<Rightarrow> True)"

definition frm :: "wstring \<Rightarrow> TypingConfig \<Rightarrow> nat option \<Rightarrow> TypingEngine \<Rightarrow> bool" where
  "frm h c k e \<longleftrightarrow> escRawHistory e = h \<and> config e = c \<and>
     (case k of None \<Rightarrow> True
      | Some j \<Rightarrow> \<not> oobWrite e \<and> list_all (below (length (rawInput e) - j)) (states e))"

definition relax :: "nat option \<Rightarrow> nat option" where
  "relax k = map_option (\<lambda>_. 0) k"

text \<open>A handler that reports whether it consumed the key: the weaker bound if it did, the bound it
  was given if it did not.\<close>

definition frm_res :: "wstring \<Rightarrow> TypingConfig \<Rightarrow> nat option \<Rightarrow> TypingEngine \<times> bool \<Rightarrow> bool" where
  "frm_res h c k r \<longleftrightarrow> frm h c (relax k) (fst r) \<and> (\<not> snd r \<longrightarrow> frm h c k (fst r))"

named_theorems frm_intros

subsection \<open>Character states\<close>

lemma below_simps [simp]:
  "below m (s\<lparr>base := b\<rparr>) = below m s" "below m (s\<lparr>modifier := x\<rparr>) = below m s"
  "below m (s\<lparr>tone := t\<rparr>) = below m s" "below m (s\<lparr>isUpper := u\<rparr>) = below m s"
  "below m (s\<lparr>synthetic := y\<rparr>) = below m s" "below m (s\<lparr>rawIdx := r\<rparr>) = below m s"
  "below m (s\<lparr>toneRawIdx := None\<rparr>)" "below m (s\<lparr>toneRawIdx := Some i\<rparr>) \<longleftrightarrow> i < m"
  "below m initCharState"
  by (simp_all add: below_def initCharState_def)

lemma below_copy [simp]: "below m (s\<lparr>toneRawIdx := toneRawIdx s'\<rparr>) = below m s'"
  by (simp add: below_def)

lemma below_mono: "below m s \<Longrightarrow> m \<le> m' \<Longrightarrow> below m' s"
  by (auto simp: below_def split: option.splits)

lemma list_all_update_nth:
  "list_all P xs \<Longrightarrow> (\<And>x. P x \<Longrightarrow> P (f x)) \<Longrightarrow> list_all P (xs[i := f (xs ! i)])"
  by (cases "i < length xs") (auto simp: list_all_update list_all_nth list_update_beyond)

lemma below_UndoHornU [frm_intros]: "list_all (below m) ss \<Longrightarrow> list_all (below m) (UndoHornU ss i)"
  by (auto simp: UndoHornU_def intro!: list_all_update_nth)

lemma below_SetVowelMod [frm_intros]:
  "list_all (below m) ss \<Longrightarrow> list_all (below m) (SetVowelMod i x ss)"
  by (auto simp: SetVowelMod_def Let_def intro!: below_UndoHornU list_all_update_nth)

lemma below_RelocateToneToHornVowel [frm_intros]:
  assumes "list_all (below m) ss" shows "list_all (below m) (RelocateToneToHornVowel ss)"
  using assms
  by (auto simp: RelocateToneToHornVowel_def list_all_update list_all_nth
      dest!: last_idx_SomeD split: option.splits)

lemma below_RelocateToneToTarget [frm_intros]:
  assumes "list_all (below m) ss" shows "list_all (below m) (RelocateToneToTarget md ss)"
  using assms
  by (auto simp: RelocateToneToTarget_def list_all_update list_all_nth
      dest!: FindTonedVowelIndex_SomeD split: option.splits)

lemma below_autoUOAt [frm_intros]: "list_all (below m) ss \<Longrightarrow> list_all (below m) (autoUOAt md i ss)"
  by (auto simp: autoUOAt_def Let_def intro!: frm_intros list_all_update_nth)

lemma below_fold_autoUOAt [frm_intros]:
  "list_all (below m) ss \<Longrightarrow> list_all (below m) (fold (autoUOAt md) xs ss)"
  by (induction xs arbitrary: ss) (auto intro: frm_intros)

lemma below_ApplyAutoUO [frm_intros]: "list_all (below m) ss \<Longrightarrow> list_all (below m) (ApplyAutoUO md ss)"
  by (simp add: ApplyAutoUO_def Let_def frm_intros)

subsection \<open>Engine primitives\<close>

lemma frm_fields [simp]:
  "frm h c k (e\<lparr>escape := x1\<rparr>) = frm h c k e" "frm h c k (e\<lparr>engProt := x2\<rparr>) = frm h c k e"
  "frm h c k (e\<lparr>qc := x3\<rparr>) = frm h c k e" "frm h c k (e\<lparr>quickStartKey := x4\<rparr>) = frm h c k e"
  "frm h c k (e\<lparr>spellCheckDisabled := x7\<rparr>) = frm h c k e"
  "frm h c k (e\<lparr>activeKeyUppercase := x9\<rparr>) = frm h c k e"
  "frm h c k (setBias b e) = frm h c k e" "frm h c k (UpdateSpellState e) = frm h c k e"
  by (simp_all add: frm_def setBias_def UpdateSpellState_def split: option.split)

lemma frm_states:
  "frm h c k e \<Longrightarrow> (\<And>m. list_all (below m) (states e) \<Longrightarrow> list_all (below m) ss) \<Longrightarrow>
   frm h c k (e\<lparr>states := ss\<rparr>)"
  by (auto simp: frm_def split: option.splits)

lemma frm_onStates [frm_intros]:
  "frm h c k e \<Longrightarrow> (\<And>m ss. list_all (below m) ss \<Longrightarrow> list_all (below m) (f ss)) \<Longrightarrow> frm h c k (onStates f e)"
  unfolding onStates_def by (rule frm_states)

lemma frm_relax: "frm h c k e \<Longrightarrow> frm h c (relax k) e"
  by (auto simp: frm_def relax_def list_all_iff split: option.splits intro: below_mono)

lemma frm_ProcessChar3 [frm_intros]: "frm h c k e \<Longrightarrow> frm h c k (ProcessChar3 l u e)"
  unfolding ProcessChar3_def by (rule frm_states) simp_all

lemma frm_ProcessChar [frm_intros]: "frm h c k e \<Longrightarrow> frm h c k (ProcessChar x e)"
  unfolding ProcessChar_def by (rule frm_ProcessChar3)

lemma frm_pushState [frm_intros]: "frm h c k e \<Longrightarrow> toneRawIdx s = None \<Longrightarrow> frm h c k (pushState s e)"
  unfolding pushState_def by (rule frm_states) (simp_all add: below_def)

lemma frm_setModAt [frm_intros]: "frm h c k e \<Longrightarrow> frm h c k (setModAt i m e)"
  unfolding setModAt_def by (intro frm_intros list_all_update_nth) auto

lemma frm_relocate [frm_intros]: "frm h c k e \<Longrightarrow> frm h c k (relocate e)"
  unfolding relocate_def by (intro frm_intros) auto

lemma frm_relocateHorn [frm_intros]: "frm h c k e \<Longrightarrow> frm h c k (relocateHorn e)"
  unfolding relocateHorn_def by (intro frm_intros) auto

lemma frm_autoUO [frm_intros]: "frm h c k e \<Longrightarrow> frm h c k (autoUO e)"
  unfolding autoUO_def by (intro frm_intros) auto

lemma frm_EraseConsumedRaw:
  assumes "frm h c k e" "k \<noteq> Some 0"
  shows "frm h c (relax k) (EraseConsumedRaw i e)"
proof (cases k)
  case (Some j)
  have "below (length (rawInput e) - Suc 0) (shiftRaw i s)"
    if "below (length (rawInput e) - j) s" "i < length (rawInput e)" "0 < j" for s
    using that by (auto simp: below_def shiftRaw_def split: option.splits)
  then show ?thesis using assms Some
    by (auto simp: frm_def relax_def EraseConsumedRaw_def list_all_iff length_erase_at
        intro: below_mono)
qed (use assms in \<open>simp add: frm_def relax_def EraseConsumedRaw_def\<close>)

lemma frm_RestoreConsumedKeyInPlace:
  assumes "frm h c k e" "k \<noteq> Some 0" "\<And>j i. k = Some j \<Longrightarrow> x = Some i \<Longrightarrow> i < length (rawInput e) - j"
  shows "frm h c (relax k) (RestoreConsumedKeyInPlace x l e)"
proof (cases x)
  case None
  then show ?thesis using frm_relax[OF assms(1)] by (simp add: RestoreConsumedKeyInPlace_def frm_intros)
next
  case (Some i)
  let ?e1 = "EraseConsumedRaw (length (rawInput e) - 1) e"
  have e: "frm h c (relax k) (EraseConsumedRaw j e)" for j using assms(1,2) by (rule frm_EraseConsumedRaw)
  have b: "list_all (below m) (states ?e1) \<Longrightarrow> list_all (below m) (insertAt at
      (initCharState\<lparr>base := y, isUpper := up, rawIdx := i\<rparr>) (states ?e1))" for m at y up
    by (intro list_all_insertAt) simp_all
  have r: "frm h c (relax k) (?e1\<lparr>rawInput := ys, states := insertAt at
      (initCharState\<lparr>base := y, isUpper := up, rawIdx := i\<rparr>) (states ?e1)\<rparr>)"
    if "length ys = length (rawInput ?e1)" for ys at y up
    using e[of "length (rawInput e) - 1"] b[of "length (rawInput ?e1)"] that
    by (auto simp: frm_def relax_def split: option.split)
  show ?thesis
  proof (cases "i < length (rawInput ?e1) \<or> k = None")
    case True
    then show ?thesis
      using Some e frm_relax[OF assms(1)] r[of "(rawInput ?e1)[i := l]"] r[of "rawInput ?e1"]
      by (auto simp: RestoreConsumedKeyInPlace_def Let_def intro!: frm_intros)
         (auto simp: frm_def relax_def)
  next
    case False
    then obtain a where a: "k = Some a" by auto
    then have "i < length (rawInput e) - a" "0 < a" using assms(2,3) Some by simp_all
    then have "\<not> i < length (rawInput e) \<or> rawInput e = []"
      using False by (auto simp: EraseConsumedRaw_def length_erase_at split: if_splits)
    then show ?thesis
      using Some frm_relax[OF assms(1)] by (auto simp: RestoreConsumedKeyInPlace_def Let_def intro!: frm_intros)
  qed
qed

lemma frm_RevertProvisionalOoTone [frm_intros]:
  "frm h c k e \<Longrightarrow> frm h c k (fst (RevertProvisionalOoTone l e))"
  by (auto simp: RevertProvisionalOoTone_def Let_def intro!: frm_states list_all_update
      split: option.splits)

subsection \<open>Modifier handlers\<close>

lemma frm_res_keep: "frm h c k (fst r) \<Longrightarrow> frm_res h c k r"
  by (simp add: frm_res_def frm_relax)

lemma frm_res_pairs [simp]:
  "frm_res h c k (e, True) = frm h c (relax k) e" "frm_res h c k (e, False) = frm h c k e"
  by (auto simp: frm_res_def frm_relax)

lemma frm_res_fst: "frm_res h c k r \<Longrightarrow> frm h c (relax k) (fst r)"
  by (simp add: frm_res_def)

lemma frm_popAndRestore:
  assumes "frm h c k e" "k \<noteq> Some 0"
  shows "frm h c (relax k) (popAndRestore l e)"
  unfolding popAndRestore_def
  by (intro frm_intros frm_EraseConsumedRaw frm_states) (use assms in \<open>simp_all add: list_all_butlast\<close>)

lemma frm_HandleHornInsert:
  "frm h c k e \<Longrightarrow> k \<noteq> Some 0 \<Longrightarrow> frm_res h c k (HandleHornInsert a l e)"
  using frm_relax[of h c k e]
  by (auto simp: HandleHornInsert_def Let_def initCharState_def
      intro!: frm_intros frm_popAndRestore)

lemma frm_HandleInsertChar:
  "frm h c k e \<Longrightarrow> k \<noteq> Some 0 \<Longrightarrow> frm_res h c k (HandleInsertChar a l e)"
  using frm_relax[of h c k e]
  by (auto simp: HandleInsertChar_def initCharState_def
      intro!: frm_intros frm_popAndRestore split: option.split)

lemma frm_HandleUndoAllMarks [frm_intros]: "frm h c k e \<Longrightarrow> frm h c k (fst (HandleUndoAllMarks e))"
  by (auto simp: HandleUndoAllMarks_def list_all_length intro!: frm_states)

lemma frm_freeMarkHit [frm_intros]: "frm h c k e \<Longrightarrow> frm h c k (fst (freeMarkHit tb l i nv cc sc e))"
  by (auto simp: freeMarkHit_def Let_def intro!: frm_intros)

lemma frm_freeMarkScan [frm_intros]: "frm h c k e \<Longrightarrow> frm h c k (fst (freeMarkScan tb l n nv cc sc e))"
  by (induction n arbitrary: nv cc sc) (auto simp: Let_def intro!: frm_intros)

lemma frm_adjacentCircumflex [frm_intros]:
  "frm h c k e \<Longrightarrow> frm h c k (fst (adjacentCircumflex tb l e))"
  by (auto simp: adjacentCircumflex_def Let_def intro!: frm_intros)

lemma frm_useUnrevert:
  assumes "frm h c k e" "isUseUnrevert a e"
  shows "frm h c (relax k) (onStates (\<lambda>ss. ss[1 := (ss ! 1)\<lparr>tone := Acute, toneRawIdx := Some 1\<rparr>])
           (onStates (\<lambda>ss. SetVowelMod 1 Circumflex (erase_at 1 ss)) e))"
proof -
  have f: "frm h c (relax k) (onStates (\<lambda>ss. SetVowelMod 1 Circumflex (erase_at 1 ss)) e)"
    using frm_relax[OF assms(1)] by (intro frm_intros) (auto intro: list_all_erase_at)
  have l: "1 < length (rawInput e)" using assms(2) by (simp add: isUseUnrevert_def Let_def)
  show ?thesis
    using f l by (auto simp: frm_def relax_def onStates_def intro!: list_all_update split: option.splits)
qed

lemma frm_HandleAdjacentCircumflex:
  "frm h c k e \<Longrightarrow> frm_res h c k (HandleAdjacentCircumflex a l e)"
  using frm_relocate[OF frm_useUnrevert[of h c k e a]]
  by (simp add: HandleAdjacentCircumflex_def Let_def frm_res_keep frm_adjacentCircumflex frm_freeMarkScan)

lemma frm_stripCircumflex [frm_intros]: "frm h c k e \<Longrightarrow> frm h c k (stripCircumflex x e)"
  by (auto simp: stripCircumflex_def intro!: frm_intros split: option.split)

lemma frm_hornCycleUO [frm_intros]: "frm h c k e \<Longrightarrow> pred_option (frm h c k) (hornCycleUO l p e)"
  by (auto simp: hornCycleUO_def Let_def intro!: frm_intros)

lemma frm_hornEscape [frm_intros]: "frm h c k e \<Longrightarrow> frm h c k (hornEscape l i e)"
  by (auto simp: hornEscape_def Let_def intro!: frm_intros list_all_erase_at)

lemma frm_hornApply [frm_intros]:
  "frm h c k e \<Longrightarrow> frm h c k (fst (hornOnU x u e))" "frm h c k e \<Longrightarrow> frm h c k (fst (hornOnO i e))"
  "frm h c k e \<Longrightarrow> frm h c k (fst (breveOnA i e))" "frm h c k e \<Longrightarrow> frm h c k (fst (insertSyntheticU l e))"
  by (auto simp: hornOnU_def hornOnO_def breveOnA_def insertSyntheticU_def initCharState_def
      intro!: frm_intros)

lemma frm_hornStandalone [frm_intros]: "frm h c k e \<Longrightarrow> frm h c k (fst (hornStandalone l e))"
  by (auto simp: hornStandalone_def Let_def intro!: frm_intros split: option.split)

lemma frm_hornPriorities [frm_intros]:
  "frm h c k e \<Longrightarrow> pred_option (frm h c k) (hornP1 e)" "frm h c k e \<Longrightarrow> pred_option (frm h c k) (hornP2 l e)"
  "frm h c k e \<Longrightarrow> pred_option (frm h c k) (hornP3 e)" "frm h c k e \<Longrightarrow> pred_option (frm h c k) (hornP4 l e)"
  using frm_hornCycleUO[of h c k e l]
  by (auto simp: hornP1_def hornP2_def hornP3_def hornP4_def Let_def pred_option_def
      intro!: frm_intros split: option.splits)

lemma frm_orElse [frm_intros]:
  "pred_option (frm h c k) x \<Longrightarrow> frm h c k (fst r) \<Longrightarrow>
   frm h c k (fst (case x of Some e' \<Rightarrow> (e', True) | None \<Rightarrow> r))"
  by (cases x) auto

lemma frm_HandleHornW [frm_intros]: "frm h c k e \<Longrightarrow> frm h c k (fst (HandleHornW l e))"
  unfolding HandleHornW_def by (simp add: frm_intros)

lemma frm_HandleStrokeD [frm_intros]: "frm h c k e \<Longrightarrow> frm h c k (fst (HandleStrokeD l e))"
  by (auto simp: HandleStrokeD_def Let_def intro!: frm_intros split: option.split)

lemma frm_ProcessVniVowelModifier [frm_intros]:
  "frm h c k e \<Longrightarrow> frm h c k (fst (ProcessVniVowelModifier m l e))"
  unfolding ProcessVniVowelModifier_def Let_def
  by (simp add: frm_intros split: option.split)

lemma frm_vniCycles [frm_intros]:
  "frm h c k e \<Longrightarrow> pred_option (frm h c k) (vniUO l e)" "frm h c k e \<Longrightarrow> pred_option (frm h c k) (vniUU l e)"
  by (auto simp: vniUO_def vniUU_def vniHornCycle_def vniHornUU_def Let_def intro!: frm_intros
      split: option.split)

lemma frm_HandleVniHorn [frm_intros]: "frm h c k e \<Longrightarrow> frm h c k (fst (HandleVniHorn l e))"
  unfolding HandleVniHorn_def by (simp add: frm_intros)

lemma frm_markSynthetic:
  assumes "frm h c k e"
  shows "frm h c k (onStates (\<lambda>ss. ss[length ss - Suc 0 := (last ss)\<lparr>synthetic := True, isUpper := u\<rparr>]) e)"
proof (rule frm_onStates[OF assms])
  show "list_all (below m) (ss[length ss - Suc 0 := (last ss)\<lparr>synthetic := True, isUpper := u\<rparr>])"
    if "list_all (below m) ss" for m ss
    using that list_all_last[of "below m" ss] by (cases "ss = []") (simp_all add: list_all_update)
qed

lemma frm_HandleHornOrInsertU:
  assumes "frm h c k e" "k \<noteq> Some 0"
  shows "frm_res h c k (HandleHornOrInsertU a l e)"
proof -
  obtain e1 b1 where w: "HandleHornW l e = (e1, b1)" by fastforce
  then have f1: "frm h c k e1" using frm_HandleHornW[OF assms(1), of l] by simp
  obtain e2 b2 where i: "HandleHornInsert HornInsertU l e1 = (e2, b2)" by fastforce
  then have f2: "frm_res h c k (e2, b2)" using frm_HandleHornInsert[OF f1 assms(2), of HornInsertU l] by simp
  then have "frm h c (relax k) e2" by (auto dest: frm_res_fst)
  then show ?thesis using assms(1) f1 f2 frm_relax[OF f1] w i
    by (auto simp: HandleHornOrInsertU_def intro!: frm_markSynthetic split: bool.splits)
qed

lemma frm_ProcessModifier:
  "frm h c k e \<Longrightarrow> k \<noteq> Some 0 \<Longrightarrow> frm_res h c k (ProcessModifier a l e)"
  unfolding ProcessModifier_def
  by (simp add: frm_HandleHornInsert frm_HandleInsertChar frm_HandleAdjacentCircumflex
      frm_HandleHornOrInsertU frm_res_keep frm_intros)

subsection \<open>Tones, the gates and quick consonants\<close>

lemma frm_ProcessTone:
  assumes "frm h c k e" "k = None \<or> k = Some 1" "\<And>i. t = Some i \<Longrightarrow> i < length (states e)"
    "t = FindToneTarget (modernOrtho (config e)) (states e)"
  shows "frm_res h c k (ProcessTone nt l t e)"
proof (cases t)
  case None
  then show ?thesis using assms by (simp add: ProcessTone_def)
next
  case (Some i)
  let ?cleared = "e\<lparr>states := (states e)[i := (states e ! i)\<lparr>tone := ToneNone, toneRawIdx := None\<rparr>]\<rparr>"
  have i: "i < length (states e)" using assms(3) Some by simp
  have "frm h c k ?cleared" using assms(1) by (auto intro!: frm_states list_all_update)
  moreover have "k = Some j \<Longrightarrow> toneRawIdx (states e ! i) = Some r \<Longrightarrow> r < length (rawInput e) - j" for j r
    using assms(1) i by (auto simp: frm_def below_def dest: list_all_nth)
  ultimately have esc: "frm h c (relax k)
      (RestoreConsumedKeyInPlace (toneRawIdx (states e ! i)) l ?cleared)"
    using assms(2) by (intro frm_RestoreConsumedKeyInPlace) auto
  have "frm h c (relax k) (e\<lparr>states := (states e)[i := (states e ! i)\<lparr>tone := nt,
      toneRawIdx := (if rawInput e = [] then None else Some (length (rawInput e) - 1))\<rparr>]\<rparr>)"
    using frm_relax[OF assms(1)]
    by (auto simp: frm_def relax_def intro!: list_all_update split: option.splits)
  with esc show ?thesis using Some assms(1) by (simp add: ProcessTone_def Let_def)
qed

lemma frm_ProcessClearTone [frm_intros]: "frm h c k e \<Longrightarrow> frm h c k (fst (ProcessClearTone e))"
  by (auto simp: ProcessClearTone_def Let_def intro!: frm_states list_all_update split: option.split)

lemma frm_englishToneGate: "frm h c k e \<Longrightarrow> frm h c k (fst (englishToneGate l b t r e))"
  by (simp add: englishToneGate_def Let_def split: prod.split)

lemma frm_afterTone [frm_intros]: "frm h c k e \<Longrightarrow> frm h c k (afterTone e)"
  by (auto simp: afterTone_def Let_def intro!: frm_intros)

lemma frm_toneKeyStep:
  assumes "frm h c k e" "k = None \<or> k = Some 1"
  shows "frm_res h c k (toneKeyStep r l lo up e)"
proof -
  let ?t = "FindToneTarget (modernOrtho (config e)) (states e)"
  obtain e1 b where g: "englishToneGate l (lo < L_0 \<or> lo > L_9) ?t r e = (e1, b)" by fastforce
  have s: "states e1 = states e" "config e1 = config e"
    using englishToneGate_states[of l "lo < L_0 \<or> lo > L_9" ?t r e] by (simp_all add: g)
  have f1: "frm h c k e1" using frm_englishToneGate[OF assms(1)] g by (metis fst_conv)
  obtain e2 b2 where p: "ProcessTone r l ?t e1 = (e2, b2)" by fastforce
  have f2: "frm_res h c k (e2, b2)" unfolding p[symmetric]
    by (rule frm_ProcessTone[OF f1 assms(2)]) (use FindToneTarget_SomeD in \<open>auto simp: s\<close>)
  show ?thesis
    using frm_relax[OF assms(1)] frm_relax[OF f1] f2 g p
    by (auto simp: toneKeyStep_def Let_def asLiteral_def intro!: frm_intros split: bool.splits)
qed

lemma frm_HandleToneFsm:
  "frm h c k e \<Longrightarrow> k = None \<or> k = Some 1 \<Longrightarrow> frm_res h c k (HandleToneFsm a l lo up e)"
  using frm_relax[of h c k e] frm_toneKeyStep[of h c k e]
  by (auto simp: HandleToneFsm_def Let_def intro!: frm_intros)

lemma frm_strokePreCheck [simp]: "frm h c k (strokePreCheck e) = frm h c k e"
  by (simp add: strokePreCheck_def split: option.split)

lemma frm_afterModifier [frm_intros]: "frm h c k e \<Longrightarrow> frm h c k (afterModifier e)"
  by (simp add: afterModifier_def frm_intros)

lemma frm_applyModifier:
  assumes "frm h c k e" "k \<noteq> Some 0"
  shows "frm_res h c k (case ProcessModifier a l e of
           (e1, True) \<Rightarrow> (afterModifier e1, True) | (e1, False) \<Rightarrow> (e1, False))"
  using frm_ProcessModifier[OF assms, of a l] by (auto split: prod.splits bool.splits intro: frm_intros)

lemma frm_unless: "frm h c k e \<Longrightarrow> frm_res h c k r \<Longrightarrow> frm_res h c k (if b then (e, False) else r)"
  by simp

lemma frm_modifierSteps:
  assumes "frm h c k e" "k \<noteq> Some 0"
  shows "frm_res h c k (telexModifierStep a l lo e)" "frm_res h c k (vniModifierStep a l lo e)"
    "frm_res h c k (userModifierStep a l lo e)"
proof -
  have w: "frm h c k (if x then strokePreCheck e else e)" for x using assms(1) by simp
  have t: "frm_res h c k (tryModifier a l lo e')" if "frm h c k e'" for e'
    unfolding tryModifier_def using that assms(2) by (simp add: frm_applyModifier)
  show "frm_res h c k (telexModifierStep a l lo e)" "frm_res h c k (vniModifierStep a l lo e)"
    unfolding telexModifierStep_def vniModifierStep_def Let_def by (rule frm_unless[OF w t[OF w]])+
  show "frm_res h c k (userModifierStep a l lo e)"
    unfolding userModifierStep_def Let_def by (rule frm_unless[OF assms(1) frm_applyModifier[OF assms]])
qed

lemma frm_HandleModifierAction:
  "frm h c k e \<Longrightarrow> k \<noteq> Some 0 \<Longrightarrow> frm_res h c k (HandleModifierAction a l lo e)"
  by (simp add: HandleModifierAction_def Let_def frm_modifierSteps)

lemma frm_revertSyntheticW [frm_intros]: "frm h c k e \<Longrightarrow> frm h c k (revertSyntheticW e)"
  by (auto simp: revertSyntheticW_def intro!: frm_intros list_all_update_nth)

lemma frm_revertUse [frm_intros]: "frm h c k e \<Longrightarrow> frm h c k (revertUse e)"
  by (auto simp: revertUse_def Let_def intro!: frm_states)

lemma frm_FinalizeRegularChar [frm_intros]: "frm h c k e \<Longrightarrow> frm h c k (FinalizeRegularChar e)"
  by (auto simp: FinalizeRegularChar_def Let_def intro!: frm_intros)

lemma frm_quickConsonantStep [frm_intros]:
  "frm h c k e \<Longrightarrow> frm h c k (fst (quickConsonantStep l up e))"
  by (auto simp: quickConsonantStep_def Let_def initCharState_def intro!: frm_intros split: option.split)

text \<open>Undoing a quick start consonant rebuilds the raw buffer from the saved key and the new one.\<close>

lemma frm_undoQuickStart [frm_intros]: "frm h c k e \<Longrightarrow> frm h c k (undoQuickStart l e)"
  by (auto simp: undoQuickStart_def Let_def frm_def ProcessChar_def ProcessChar3_def split: option.split)

lemma frm_HandleQuickStartConsonant [frm_intros]:
  "frm h c k e \<Longrightarrow> frm h c k (fst (HandleQuickStartConsonant l lo up e))"
  by (auto simp: HandleQuickStartConsonant_def Let_def intro!: frm_intros split: option.split)

lemma frm_HandleQuickEndConsonant [frm_intros]:
  "frm h c k e \<Longrightarrow> frm h c k (fst (HandleQuickEndConsonant l e))"
  by (auto simp: HandleQuickEndConsonant_def intro!: frm_intros split: option.split)

subsection \<open>One key stroke\<close>

definition frm_rule :: "wstring \<Rightarrow> TypingConfig \<Rightarrow> nat option \<Rightarrow> TypingEngine \<times> RuleResult \<Rightarrow> bool" where
  "frm_rule h c k x \<longleftrightarrow> frm h c (relax k) (fst x) \<and> (snd x \<noteq> Veto \<longrightarrow> frm h c k (fst x))"

lemma frm_rule_consumed: "frm_res h c k r \<Longrightarrow> frm_rule h c k (consumed r)"
  by (auto simp: consumed_def frm_res_def frm_rule_def)

lemma frm_rule_pass: "frm h c k e \<Longrightarrow> frm_rule h c k (e, r)"
  by (simp add: frm_rule_def frm_relax)

lemma frm_postRules:
  assumes "R \<in> {ToneRule, ModifierRule, QuickEndConsonantRule}" "frm h c k e" "k = None \<or> k = Some 1"
  shows "frm_rule h c k (hApply R ctx e)"
proof -
  have k: "k \<noteq> Some 0" using assms(3) by auto
  note rules = frm_HandleToneFsm[OF assms(2,3)] frm_HandleModifierAction[OF assms(2) k]
    frm_res_keep[OF frm_HandleQuickEndConsonant[OF assms(2)]]
  show ?thesis using assms(1,2) rules[THEN frm_rule_consumed]
    by (auto simp: ToneRule_def ModifierRule_def QuickEndConsonantRule_def ToneRule_Apply_def
        ModifierRule_Apply_def QuickEndConsonantRule_Apply_def frm_rule_pass)
qed

lemma frm_runBucket:
  assumes "\<And>R s. R \<in> set rs \<Longrightarrow> frm h c k s \<Longrightarrow> frm_rule h c k (hApply R ctx s)" "frm h c k e"
  shows "frm_rule h c k (runBucket g ctx rs e)"
  using assms
proof (induction rs arbitrary: e)
  case (Cons R rs)
  obtain s' r' where a: "hApply R ctx e = (s', r')" by fastforce
  have R: "frm_rule h c k (s', r')" using Cons.prems by (simp flip: a)
  show ?case using R Cons a by (cases r') (simp_all add: frm_rule_def)
qed (simp add: frm_rule_pass)

lemma frm_PostClassify:
  assumes "frm h c k e" "k = None \<or> k = Some 1"
    "DispatchAtPhase PostClassify (ruleContext l up a d e0) e = (e4, r)"
  shows "frm h c (relax k) e4 \<and> (r \<noteq> Veto \<longrightarrow> frm h c k e4)"
proof -
  have "frm_rule h c k (DispatchAtPhase PostClassify (ruleContext l up a d e0) e)"
    unfolding DispatchAtPhase_def ruleRegistry_buckets
    by (rule frm_runBucket[OF frm_postRules]) (use assms in auto)
  then show ?thesis by (simp add: assms(3) frm_rule_def)
qed

lemma frm_PreClassify:
  assumes "frm h c k e" "DispatchAtPhase PreClassify ctx e = (e3, r)"
  shows "frm h c k e3"
proof -
  have "frm h c k (fst (DispatchAtPhase PreClassify ctx e))"
    unfolding DispatchAtPhase_def
    by (rule runBucket_invariant) (use assms(1) in \<open>auto simp: ruleRegistry_buckets
      QuickStartConsonantRule_def QuickStartConsonantRule_Apply_def intro!: frm_intros\<close>)
  then show ?thesis by (simp add: assms(2))
qed

lemma frm_PushKey:
  assumes "frm h c k e" "k = None \<or> k = Some 0"
  shows "frm (h @ [l]) c k (PushKey l up e)"
proof -
  let ?k1 = "map_option (\<lambda>_. 1) k"
  let ?e1 = "e\<lparr>rawInput := rawInput e @ [l], escRawHistory := escRawHistory e @ [l],
                qc := (qc e)\<lparr>onlyQC := False\<rparr>, activeKeyUppercase := up\<rparr>"
  have k1: "?k1 = None \<or> ?k1 = Some 1" "relax ?k1 = k" using assms(2) by (auto simp: relax_def)
  have "frm (h @ [l]) c ?k1 ?e1" using assms by (auto simp: frm_def)
  note f2 = frm_RevertProvisionalOoTone[OF this, of "towlower l"]
  obtain e2 b where r: "RevertProvisionalOoTone (towlower l) ?e1 = (e2, b)" by fastforce
  have f2: "frm (h @ [l]) c ?k1 e2" using f2 by (simp add: r)
  obtain e3 r3 where p: "DispatchAtPhase PreClassify (ruleContext l up NoAction False e2) e2 = (e3, r3)"
    by fastforce
  have f3: "frm (h @ [l]) c ?k1 e3" by (rule frm_PreClassify[OF f2 p])
  let ?d = "isVniDigitSequence l e3"
  let ?a = "if ?d then NoAction else resolveAction (towlower l) e3"
  obtain e4 r4 where q: "DispatchAtPhase PostClassify (ruleContext l up ?a ?d e3) e3 = (e4, r4)"
    by fastforce
  note f4 = frm_PostClassify[OF f3 k1(1) q]
  show ?thesis
    using frm_relax[OF f2] frm_relax[OF f3] f4 k1(2)
    by (cases b; cases r3; cases r4; simp add: PushKey_def Let_def r p q frm_intros)
qed

end
