(* ===== verification/EngineSeed.thy ===== *)
theory EngineSeed
  imports EngineInv
begin

text \<open>
  Round trips between rendered text and engine state: \<open>DecomposeVietChar\<close> against \<open>Compose\<close>,
  and \<open>SeedFromText\<close> against \<open>Peek\<close>.
\<close>

subsection \<open>The tables\<close>

lemma search_rows_nth:
  assumes "distinct (concat rs)" "i < length rs" "j < length (rs ! i)"
  shows "search_rows rs (rs ! i ! j) = Some (i, j)"
  using assms
proof (induction rs arbitrary: i)
  case (Cons r rs)
  show ?case
  proof (cases i)
    case 0
    then have "first_index (\<lambda>x. x = r ! j) r = Some j"
      using Cons.prems by (auto simp: first_index_Some nth_eq_iff_index_eq)
    then show ?thesis using 0 by simp
  next
    case (Suc i')
    then have "rs ! i' ! j \<in> set (concat rs)" using Cons.prems by (auto intro!: bexI[of _ "rs ! i'"])
    then have "first_index (\<lambda>x. x = rs ! i' ! j) r = None"
      using Cons.prems by (auto simp: first_index_None)
    then show ?thesis using Suc Cons by simp
  qed
qed simp

lemma search_rows_None: "search_rows rs ch = None \<longleftrightarrow> ch \<notin> set (concat rs)"
  by (induction rs) (auto simp: first_index_None first_index_Some split: option.splits)

lemma kTonedVowel_distinct: "distinct (concat kTonedVowel)"
  by (simp add: kTonedVowel_def)

lemma search_kTonedVowel:
  "i < 12 \<Longrightarrow> j < 5 \<Longrightarrow> search_rows kTonedVowel (kTonedVowel ! i ! j) = Some (i, j)"
  using kTonedVowel_shape(1,2) kTonedVowel_distinct by (intro search_rows_nth) (auto simp: list_all_length)

lemma kTonedVowel_facts:
  "list_all (\<lambda>ch. 0x7F < ch \<and> ch \<noteq> 0x111 \<and> ToLowerVietnamese ch = ch) (concat kTonedVowel)"
  by (simp add: kTonedVowel_def ToLowerVietnamese_def towlower_def)

lemma kTonedVowel_upper:
  "list_all (\<lambda>ch. (ToLowerVietnamese (ToUpperVietnamese ch) = ch) = (ch \<noteq> 0x129 \<and> ch \<noteq> 0x169) \<and>
     ToUpperVietnamese ch \<noteq> ch) (concat kTonedVowel)"
  by (simp add: kTonedVowel_def ToLowerVietnamese_def ToUpperVietnamese_def towlower_def towupper_def)

lemma kTonedVowel_mem: "i < 12 \<Longrightarrow> j < 5 \<Longrightarrow> kTonedVowel ! i ! j \<in> set (concat kTonedVowel)"
  using kTonedVowel_shape(1,2) by (auto simp: list_all_length intro!: bexI[of _ "kTonedVowel ! i"])

lemma kTonedVowel_tilde: "i < 12 \<Longrightarrow> j < 5 \<Longrightarrow>
  kTonedVowel ! i ! j = 0x129 \<longleftrightarrow> i = 5 \<and> j = 3" "i < 12 \<Longrightarrow> j < 5 \<Longrightarrow>
  kTonedVowel ! i ! j = 0x169 \<longleftrightarrow> i = 9 \<and> j = 3"
proof -
  have a: "search_rows kTonedVowel 0x129 = Some (5, 3)" "search_rows kTonedVowel 0x169 = Some (9, 3)"
    "kTonedVowel ! 5 ! 3 = 0x129" "kTonedVowel ! 9 ! 3 = 0x169"
    by (simp_all add: kTonedVowel_def)
  then show "i < 12 \<Longrightarrow> j < 5 \<Longrightarrow> kTonedVowel ! i ! j = 0x129 \<longleftrightarrow> i = 5 \<and> j = 3"
    "i < 12 \<Longrightarrow> j < 5 \<Longrightarrow> kTonedVowel ! i ! j = 0x169 \<longleftrightarrow> i = 9 \<and> j = 3"
    using search_kTonedVowel[of i j] by auto
qed

subsection \<open>Decomposing a composed character\<close>

definition modIndexOf :: "Modifier \<Rightarrow> nat option" where
  "modIndexOf m = (if m = Stroke then Some 3 else ModifierIndex m)"

text \<open>The two upper-case letters that \<open>ToLowerVietnamese\<close> does not lower.\<close>

definition upperTilde :: "CharState \<Rightarrow> bool" where
  "upperTilde s \<longleftrightarrow> isUpper s \<and> tone s = Tilde \<and> modifier s = ModNone \<and> (base s = L_i \<or> base s = L_u)"

definition letter_cs :: "CharState \<Rightarrow> bool" where
  "letter_cs s \<longleftrightarrow> wf_cs s \<and> L_a \<le> base s \<and> base s \<le> L_z"

lemma decompose_untoned:
  assumes "isVowelBase b" "modFits b m"
  shows "decomposeToneBase (applyMod b m) = Some (b, modIndexOf m)"
  using assms
  by (cases m) (auto simp: isVowelBase_def applyMod_def VowelBaseIndex_def kModifiedVowel_def
      decomposeToneBase_def modIndexOf_def)

lemma kToneBase_facts:
  "list_all (\<lambda>ch. ch \<noteq> 0x111 \<and> ToLowerVietnamese ch = ch \<and>
     ToLowerVietnamese (ToUpperVietnamese ch) = ch \<and> ToUpperVietnamese ch \<noteq> ch \<and>
     search_rows kTonedVowel ch = None) kToneBase"
  by (simp add: kToneBase_def ToLowerVietnamese_def ToUpperVietnamese_def towlower_def towupper_def
      kTonedVowel_def)

lemma Decompose_toned:
  assumes "ToLowerVietnamese x = kTonedVowel ! i ! j" "i < 12" "j < 5"
    "decomposeToneBase (kToneBase ! i) = Some (b, m)"
  shows "DecomposeVietChar x = Some (b, m, Some j, kTonedVowel ! i ! j \<noteq> x)"
proof -
  have "kTonedVowel ! i ! j \<noteq> 0x111"
    using kTonedVowel_facts kTonedVowel_mem[OF assms(2,3)] by (auto simp: list_all_iff)
  then show ?thesis using assms by (simp add: DecomposeVietChar_def Let_def search_kTonedVowel)
qed

lemma Decompose_untoned:
  assumes "ToLowerVietnamese x = ch" "ch \<noteq> 0x111" "search_rows kTonedVowel ch = None"
    "decomposeToneBase ch = Some (b, m)"
  shows "DecomposeVietChar x = Some (b, m, None, ch \<noteq> x)"
  using assms by (auto simp: DecomposeVietChar_def Let_def)

lemma Decompose_letter:
  assumes "ToLowerVietnamese x = ch" "L_a \<le> ch" "ch \<le> L_z" "search_rows kTonedVowel ch = None"
    "decomposeToneBase ch = None"
  shows "DecomposeVietChar x = Some (ch, None, None, ch \<noteq> x)"
  using assms by (auto simp: DecomposeVietChar_def Let_def)

lemma Decompose_upperTilde: "DecomposeVietChar 0x128 = None" "DecomposeVietChar 0x168 = None"
  by (simp_all add: DecomposeVietChar_def ToLowerVietnamese_def towlower_def decomposeToneBase_def
      kTonedVowel_def)

lemma ToUpper_tilde: "ToUpperVietnamese 0x129 = 0x128" "ToUpperVietnamese 0x169 = 0x168"
  by (simp_all add: ToUpperVietnamese_def)

lemma ToneBaseIndex_kToneBase:
  "ch \<in> set kToneBase \<Longrightarrow> \<exists>i. ToneBaseIndex ch = Some i \<and> i < 12 \<and> kToneBase ! i = ch"
  using ToneBaseIndex_less[of ch] unfolding ToneBaseIndex_def
  by (cases "first_index (\<lambda>b. b = ch) kToneBase") (auto simp: first_index_None first_index_Some)

lemma applyMod_iy: "isVowelBase b \<Longrightarrow> modFits b m \<Longrightarrow>
  (applyMod b m = L_i \<longleftrightarrow> b = L_i) \<and> (applyMod b m = L_u \<longleftrightarrow> b = L_u \<and> m = ModNone)"
  by (cases m) (auto simp: isVowelBase_def applyMod_def VowelBaseIndex_def kModifiedVowel_def)

lemma Compose_vowel:
  assumes "wf_cs s" "IsVowel s"
  shows "Compose s = (let ch = applyTone (applyMod (base s) (modifier s)) (tone s)
                      in if isUpper s then ToUpperVietnamese ch else ch)"
  using assms by (auto simp: Compose_def wf_cs_def cs_defs)

lemma toned_index:
  assumes "wf_cs s" "IsVowel s" "tone s \<noteq> ToneNone"
  obtains i j where "i < 12" "j < 5" "applyTone (applyMod (base s) (modifier s)) (tone s) = kTonedVowel ! i ! j"
    "kToneBase ! i = applyMod (base s) (modifier s)" "ToneIndex (tone s) = Some j"
    "upperTilde s \<longleftrightarrow> isUpper s \<and> (i = 5 \<or> i = 9) \<and> j = 3"
proof -
  let ?u = "applyMod (base s) (modifier s)"
  have vb: "isVowelBase (base s)" "modFits (base s) (modifier s)"
    using assms by (auto simp: wf_cs_def IsVowel_def)
  obtain i where i: "ToneBaseIndex ?u = Some i" "i < 12" "kToneBase ! i = ?u"
    using ToneBaseIndex_kToneBase applyMod_vowel vb by blast
  obtain j where j: "ToneIndex (tone s) = Some j" "j < 5" "j = 3 \<longleftrightarrow> tone s = Tilde"
    using assms(3) by (cases "tone s") auto
  have "ToneBaseIndex L_i = Some 5" "ToneBaseIndex L_u = Some 9" "kToneBase ! 5 = L_i" "kToneBase ! 9 = L_u"
    by (simp_all add: ToneBaseIndex_def kToneBase_def)
  then have "i = 5 \<longleftrightarrow> ?u = L_i" "i = 9 \<longleftrightarrow> ?u = L_u" using i by auto
  moreover have "modifier s = ModNone" if "base s = L_i"
    using vb that by (cases "modifier s") auto
  ultimately have "upperTilde s \<longleftrightarrow> isUpper s \<and> (i = 5 \<or> i = 9) \<and> j = 3"
    using applyMod_iy[OF vb] j(3) by (auto simp: upperTilde_def)
  with i j show ?thesis using assms(3) by (intro that) (auto simp: applyTone_def)
qed

lemma Decompose_Compose_toned:
  assumes "wf_cs s" "IsVowel s" "tone s \<noteq> ToneNone"
  shows "DecomposeVietChar (Compose s) =
    (if upperTilde s then None else Some (base s, modIndexOf (modifier s), ToneIndex (tone s), isUpper s))"
proof -
  obtain i j where ij: "i < 12" "j < 5"
    and ch: "applyTone (applyMod (base s) (modifier s)) (tone s) = kTonedVowel ! i ! j"
    and u: "kToneBase ! i = applyMod (base s) (modifier s)" "ToneIndex (tone s) = Some j"
    "upperTilde s \<longleftrightarrow> isUpper s \<and> (i = 5 \<or> i = 9) \<and> j = 3"
    using toned_index[OF assms] by blast
  let ?ch = "kTonedVowel ! i ! j"
  have d: "decomposeToneBase (kToneBase ! i) = Some (base s, modIndexOf (modifier s))"
    using assms u by (simp add: decompose_untoned wf_cs_def IsVowel_def)
  have f: "?ch \<noteq> 0x111" "ToLowerVietnamese ?ch = ?ch" "ToUpperVietnamese ?ch \<noteq> ?ch"
    "ToLowerVietnamese (ToUpperVietnamese ?ch) = ?ch \<longleftrightarrow> \<not> (i = 5 \<and> j = 3) \<and> \<not> (i = 9 \<and> j = 3)"
    using kTonedVowel_facts kTonedVowel_upper kTonedVowel_mem[OF ij] kTonedVowel_tilde[OF ij]
    by (auto simp: list_all_iff)
  have tilde: "DecomposeVietChar (ToUpperVietnamese ?ch) = None" if "(i = 5 \<or> i = 9) \<and> j = 3"
  proof -
    have "?ch = 0x129 \<or> ?ch = 0x169" using that kTonedVowel_tilde[OF ij] by blast
    then show ?thesis by (metis Decompose_upperTilde ToUpper_tilde)
  qed
  have low: "DecomposeVietChar ?ch = Some (base s, modIndexOf (modifier s), Some j, False)"
    using Decompose_toned[OF f(2) ij d] by simp
  have up: "DecomposeVietChar (ToUpperVietnamese ?ch) = Some (base s, modIndexOf (modifier s), Some j, True)"
    if "\<not> ((i = 5 \<or> i = 9) \<and> j = 3)"
  proof -
    have "ToLowerVietnamese (ToUpperVietnamese ?ch) = ?ch" using f(4) that by blast
    then show ?thesis using Decompose_toned[OF _ ij d] f(3) by auto
  qed
  show ?thesis
    using low up tilde u(2,3) by (simp add: Compose_vowel[OF assms(1,2)] ch Let_def)
qed

lemma Decompose_Compose_untoned:
  assumes "wf_cs s" "IsVowel s" "tone s = ToneNone"
  shows "DecomposeVietChar (Compose s) = Some (base s, modIndexOf (modifier s), None, isUpper s)"
proof -
  let ?u = "applyMod (base s) (modifier s)"
  have vb: "isVowelBase (base s)" "modFits (base s) (modifier s)"
    using assms by (auto simp: wf_cs_def IsVowel_def)
  have "?u \<in> set kToneBase" using vb by (rule applyMod_vowel)
  then have f: "?u \<noteq> 0x111" "ToLowerVietnamese ?u = ?u" "ToUpperVietnamese ?u \<noteq> ?u"
    "ToLowerVietnamese (ToUpperVietnamese ?u) = ?u" "search_rows kTonedVowel ?u = None"
    using kToneBase_facts by (auto simp: list_all_iff)
  have "DecomposeVietChar ?u = Some (base s, modIndexOf (modifier s), None, False)"
    "DecomposeVietChar (ToUpperVietnamese ?u) = Some (base s, modIndexOf (modifier s), None, True)"
    using Decompose_untoned[OF _ f(1,5) decompose_untoned[OF vb]] f by auto
  then show ?thesis
    using assms(3) by (simp add: Compose_vowel[OF assms(1,2)] applyTone_def Let_def)
qed

lemma Decompose_Compose_consonant:
  assumes "letter_cs s" "\<not> IsVowel s"
  shows "DecomposeVietChar (Compose s) = Some (base s, modIndexOf (modifier s), None, isUpper s)"
proof (cases "modifier s = Stroke")
  case True
  then have "base s = L_d" using assms by (simp add: letter_cs_def wf_cs_def)
  with True show ?thesis
    by (simp add: Compose_def cs_defs DecomposeVietChar_def ToLowerVietnamese_def towlower_def
        modIndexOf_def Let_def)
next
  case False
  have b: "L_a \<le> base s" "base s \<le> L_z" "wf_cs s" using assms(1) by (auto simp: letter_cs_def)
  have m: "modifier s = ModNone" "tone s = ToneNone"
    using b(3) assms(2) False by (cases "modifier s"; auto simp: wf_cs_def cs_defs)+
  have c: "Compose s = (if isUpper s then towupper (base s) else base s)"
    using b m by (simp add: Compose_def cs_defs applyMod_def applyTone_def ToUpperVietnamese_def)
  define k where "k = base s - L_a"
  then have "base s = L_a + k" "k \<le> 25" using b(1,2) by auto
  then have l: "ToLowerVietnamese (base s) = base s" "ToLowerVietnamese (towupper (base s)) = base s"
    "towupper (base s) \<noteq> base s"
    by (simp_all add: ToLowerVietnamese_def towlower_def towupper_def)
  have "search_rows kTonedVowel (base s) = None"
    using kTonedVowel_facts b by (fastforce simp: search_rows_None list_all_iff)
  moreover have "decomposeToneBase (base s) = None"
    using assms(2) b by (simp add: decomposeToneBase_def IsVowel_def isVowelBase_def)
  ultimately show ?thesis
    using Decompose_letter[OF _ b(1,2), of "base s"] Decompose_letter[OF _ b(1,2), of "towupper (base s)"] l m
    by (auto simp: c modIndexOf_def)
qed

lemma DecomposeVietChar_Compose:
  assumes "letter_cs s"
  shows "DecomposeVietChar (Compose s) =
    (if upperTilde s then None else Some (base s, modIndexOf (modifier s), ToneIndex (tone s), isUpper s))"
proof -
  have w: "wf_cs s" using assms by (simp add: letter_cs_def)
  show ?thesis
  proof (cases "IsVowel s")
    case True
    then show ?thesis using Decompose_Compose_toned[OF w] Decompose_Compose_untoned[OF w]
      by (cases "tone s = ToneNone") (auto simp: upperTilde_def)
  next
    case False
    then have "tone s = ToneNone" using w by (auto simp: wf_cs_def)
    then show ?thesis using Decompose_Compose_consonant[OF assms False] by (simp add: upperTilde_def)
  qed
qed

subsection \<open>Composing a decomposed character\<close>

definition seedState :: "nat \<Rightarrow> wchar \<times> nat option \<times> nat option \<times> bool \<Rightarrow> CharState" where
  "seedState r d = (case d of (b, m, t, up) \<Rightarrow>
     \<lparr>base = b, modifier = modOfIndex m, tone = toneOfIndex t, isUpper = up, synthetic = False,
      rawIdx = r, toneRawIdx = None\<rparr>)"

lemma decomposeToneBase_SomeD:
  "decomposeToneBase tb = Some (b, m) \<Longrightarrow>
   applyMod b (modOfIndex m) = tb \<and> isVowelBase b \<and> modFits b (modOfIndex m)"
  by (auto simp: decomposeToneBase_def applyMod_def modOfIndex_def VowelBaseIndex_def
      kModifiedVowel_def isVowelBase_def split: if_splits)

lemma ToUpper_ToLower: "lowered ch \<Longrightarrow> ToUpperVietnamese (ToLowerVietnamese ch) = ch"
  unfolding lowered_def
  by (elim disjE conjE insertE emptyE)
     (simp_all add: ToLowerVietnamese_def ToUpperVietnamese_def towlower_def towupper_def, presburger)

lemma ToUpper_iff: "(if ToLowerVietnamese ch \<noteq> ch then ToUpperVietnamese (ToLowerVietnamese ch)
    else ToLowerVietnamese ch) = ch"
  using ToUpper_ToLower[of ch] ToLowerVietnamese_moves[of ch] by auto

lemma ToneBaseIndex_nth: "i < 12 \<Longrightarrow> ToneBaseIndex (kToneBase ! i) = Some i"
proof -
  have "distinct kToneBase" "length kToneBase = 12" by (simp_all add: kToneBase_def)
  then show "i < 12 \<Longrightarrow> ToneBaseIndex (kToneBase ! i) = Some i"
    by (auto simp: ToneBaseIndex_def first_index_Some nth_eq_iff_index_eq)
qed

lemma ToneIndex_of: "j < 5 \<Longrightarrow> ToneIndex (toneOfIndex (Some j)) = Some j \<and> toneOfIndex (Some j) \<noteq> ToneNone"
  by (auto simp: toneOfIndex_def)

lemma isVowelBase_lower: "isVowelBase b \<Longrightarrow> 0 < b \<and> towlower b = b \<and> b \<noteq> L_d"
  by (auto simp: isVowelBase_def towlower_def)

lemma Compose_seed_vowel:
  assumes "isVowelBase b" "modFits b (modOfIndex m)"
    "applyTone (applyMod b (modOfIndex m)) (toneOfIndex t) = ToLowerVietnamese ch"
  shows "Compose (seedState r (b, m, t, ToLowerVietnamese ch \<noteq> ch)) = ch \<and>
    wf_cs (seedState r (b, m, t, ToLowerVietnamese ch \<noteq> ch))"
  using assms isVowelBase_lower[OF assms(1)] ToUpper_iff[of ch]
  by (simp add: Compose_def seedState_def IsEmpty_def IsD_def wf_cs_def IsVowel_def)

lemma Compose_Decompose:
  assumes "DecomposeVietChar ch = Some d"
  shows "Compose (seedState r d) = ch \<and> wf_cs (seedState r d)"
proof (cases "ToLowerVietnamese ch = 0x111")
  case True
  then have d: "d = (L_d, Some 3, None, 0x111 \<noteq> ch)" using assms by (simp add: DecomposeVietChar_def Let_def)
  have "0x111 \<noteq> ch \<Longrightarrow> ch = 0x110" using True ToUpper_iff[of ch] by (simp add: ToUpperVietnamese_def)
  then show ?thesis unfolding d
    by (auto simp: seedState_def Compose_def cs_defs modOfIndex_def toneOfIndex_def wf_cs_def towlower_def)
next
  case False
  show ?thesis
  proof (cases "search_rows kTonedVowel (ToLowerVietnamese ch)")
    case (Some ij)
    obtain i j where ij: "ij = (i, j)" by fastforce
    note sr = search_rows_Some[OF Some[unfolded ij]]
    then have bd: "i < 12" "j < 5" and k: "kTonedVowel ! i ! j = ToLowerVietnamese ch"
      using kTonedVowel_shape(1,2) by (auto simp: list_all_length)
    obtain b m where dt: "decomposeToneBase (kToneBase ! i) = Some (b, m)"
      and d: "d = (b, m, Some j, ToLowerVietnamese ch \<noteq> ch)"
      using assms False Some ij by (auto simp: DecomposeVietChar_def Let_def split: option.splits)
    show ?thesis unfolding d
      using decomposeToneBase_SomeD[OF dt] ToneBaseIndex_nth[OF bd(1)] ToneIndex_of[OF bd(2)] k
      by (intro Compose_seed_vowel) (auto simp: applyTone_def)
  next
    case None
    show ?thesis
    proof (cases "decomposeToneBase (ToLowerVietnamese ch)")
      case (Some bm)
      then obtain b m where dt: "decomposeToneBase (ToLowerVietnamese ch) = Some (b, m)" by fastforce
      then have d: "d = (b, m, None, ToLowerVietnamese ch \<noteq> ch)"
        using assms False None by (simp add: DecomposeVietChar_def Let_def)
      show ?thesis unfolding d
        using decomposeToneBase_SomeD[OF dt]
        by (intro Compose_seed_vowel) (auto simp: applyTone_def toneOfIndex_def)
    next
      case n: None
      then have d: "d = (ToLowerVietnamese ch, None, None, ToLowerVietnamese ch \<noteq> ch)"
        and r: "L_a \<le> ToLowerVietnamese ch" "ToLowerVietnamese ch \<le> L_z"
        using assms False None by (auto simp: DecomposeVietChar_def Let_def split: if_splits)
      moreover have "0 < ch" using r by (cases "ch = 0") (auto simp: ToLowerVietnamese_def towlower_def)
      ultimately show ?thesis unfolding d
        using r ToUpper_iff[of ch]
        by (auto simp: seedState_def Compose_def cs_defs modOfIndex_def toneOfIndex_def applyMod_def
            applyTone_def wf_cs_def towlower_def)
    qed
  qed
qed

subsection \<open>Seeding the engine\<close>

lemma seedLoop_states:
  "seedLoop chs e = Some e' \<Longrightarrow>
     \<exists>ds. map DecomposeVietChar chs = map Some ds \<and>
          states e' = states e @ map2 seedState [length (rawInput e)..<length (rawInput e) + length chs] ds"
proof (induction chs arbitrary: e)
  case (Cons ch chs)
  then obtain b m t up where d: "DecomposeVietChar ch = Some (b, m, t, up)"
    and l: "seedLoop chs (e\<lparr>states := states e @ [seedState (length (rawInput e)) (b, m, t, up)],
              rawInput := rawInput e @ [if up then towupper b else b]\<rparr>) = Some e'"
    by (auto simp: seedState_def split: option.splits)
  from Cons.IH[OF l] obtain ds where "map DecomposeVietChar chs = map Some ds"
    "states e' = states e @ [seedState (length (rawInput e)) (b, m, t, up)] @
       map2 seedState [Suc (length (rawInput e))..<Suc (length (rawInput e)) + length chs] ds" by (auto simp del: upt_Suc)
  then show ?case using d by (intro exI[of _ "(b, m, t, up) # ds"]) (simp add: upt_conv_Cons del: upt_Suc)
qed simp

lemma seedLoop_Some_iff: "(\<exists>e'. seedLoop chs e = Some e') \<longleftrightarrow> list_all (\<lambda>ch. DecomposeVietChar ch \<noteq> None) chs"
  by (induction chs arbitrary: e) (auto split: option.splits)

lemma SeedFromText_states:
  assumes "SeedFromText chs e = (e', True)"
  obtains ds where "map DecomposeVietChar chs = map Some ds"
    "states e' = map2 seedState [0..<length chs] ds"
proof -
  obtain e1 where s: "seedLoop chs (Reset e) = Some e1" and "states e' = states e1"
    using assms by (auto simp: SeedFromText_def UpdateSpellState_def Let_def split: option.splits)
  moreover have "states (Reset e) = []" "rawInput (Reset e) = []" by (simp_all add: Reset_def)
  ultimately show ?thesis using seedLoop_states[OF s] that by auto
qed

lemma map2_seed_Compose:
  "map DecomposeVietChar chs = map Some ds \<Longrightarrow> length rs = length chs \<Longrightarrow>
   map Compose (map2 seedState rs ds) = chs \<and> list_all wf_cs (map2 seedState rs ds)"
proof (induction chs arbitrary: ds rs)
  case (Cons ch chs)
  then obtain d ds' r rs' where "ds = d # ds'" "rs = r # rs'" "DecomposeVietChar ch = Some d"
    "map DecomposeVietChar chs = map Some ds'" "length rs' = length chs"
    by (cases ds; cases rs) auto
  then show ?case using Cons.IH[of ds' rs'] Compose_Decompose[of ch d r] by simp
qed simp

lemma ComposeAll_wf: "wf_engine e \<Longrightarrow> ComposeAll e = map Compose (states e)"
proof -
  assume "wf_engine e"
  then have "list_all (\<lambda>ch. ch \<noteq> 0) (map Compose (states e))"
    using Compose_nonzero by (auto simp: wf_engine_def list_all_iff)
  then show ?thesis by (simp add: ComposeAll_def filter_id_conv list_all_iff)
qed

lemma SeedFromText_wf_Peek:
  assumes "SeedFromText chs e = (e', True)"
  shows "Peek e' = chs \<and> wf_engine e'"
proof -
  obtain ds where "map DecomposeVietChar chs = map Some ds" "states e' = map2 seedState [0..<length chs] ds"
    using SeedFromText_states[OF assms] .
  then have "map Compose (states e') = chs" "wf_engine e'"
    using map2_seed_Compose[of chs ds "[0..<length chs]"] by (auto simp: wf_engine_def)
  then show ?thesis by (simp add: Peek_def ComposeAll_wf)
qed

lemma wf_SeedFromText [inv_intros]: "wf_engine (fst (SeedFromText chs e))"
proof (cases "snd (SeedFromText chs e)")
  case True
  then show ?thesis using SeedFromText_wf_Peek[of chs e "fst (SeedFromText chs e)"]
    by (metis prod.collapse)
next
  case False
  then have "fst (SeedFromText chs e) = Reset e"
    by (auto simp: SeedFromText_def Let_def split: option.splits)
  then show ?thesis by simp
qed

end
