(* ===== verification/EngineEval.thy ===== *)
theory EngineEval
  imports EngineFrame EngineSeed
begin

text \<open>
  Symbolic execution of the engine on concrete keys by the simplifier.  The congruence rules make
  it evaluate the way the program does: a condition before its branches, the scrutinee of a case
  distinction before its arms, the left operand of a connective before the right one.
\<close>

text \<open>A word typed key by key.\<close>

primrec typeKeys :: "wstring \<Rightarrow> TypingEngine \<Rightarrow> TypingEngine" where
  "typeKeys [] e = e"
| "typeKeys (c # cs) e = typeKeys cs (PushChar c e)"

lemma typeKeys_weak: "e = e' \<Longrightarrow> typeKeys cs e = typeKeys cs e'" by simp
lemma conj_weak: "P = P' \<Longrightarrow> (P \<and> Q) = (P' \<and> Q)" by simp
lemma disj_weak: "P = P' \<Longrightarrow> (P \<or> Q) = (P' \<or> Q)" by simp
lemma imp_weak: "P = P' \<Longrightarrow> (P \<longrightarrow> Q) = (P' \<longrightarrow> Q)" by simp
lemma list_ex_weak: "xs = ys \<Longrightarrow> list_ex P xs = list_ex P ys" by simp
lemma find_weak: "xs = ys \<Longrightarrow> find P xs = find P ys" by simp
lemma filter_weak: "xs = ys \<Longrightarrow> filter P xs = filter P ys" by simp
lemma map_weak: "xs = ys \<Longrightarrow> map f xs = map f ys" by simp
lemma takeWhile_weak: "xs = ys \<Longrightarrow> takeWhile P xs = takeWhile P ys" by simp
lemma dropWhile_weak: "xs = ys \<Longrightarrow> dropWhile P xs = dropWhile P ys" by simp
lemma last_idx_weak: "m = n \<Longrightarrow> last_idx P m = last_idx P n" by simp
lemma first_idx_weak: "m = n \<Longrightarrow> first_idx P m = first_idx P n" by simp
lemma first_index_weak: "xs = ys \<Longrightarrow> first_index P xs = first_index P ys" by simp
lemma fold_weak: "xs = ys \<Longrightarrow> s = t \<Longrightarrow> fold f xs s = fold f ys t" by simp
lemma onStates_weak: "e = e' \<Longrightarrow> onStates f e = onStates f e'" by simp
lemma TryModifiedVowels_weak: "xs = ys \<Longrightarrow> TryModifiedVowels xs P = TryModifiedVowels ys P" by simp
lemma MatchExclusionBuf_weak: "xs = ys \<Longrightarrow> MatchExclusionBuf f xs z = MatchExclusionBuf f ys z" by simp
lemma map_option_weak: "x = y \<Longrightarrow> map_option f x = map_option f y" by simp

lemmas eval_cong = typeKeys_weak conj_weak disj_weak imp_weak list_ex_weak find_weak filter_weak map_weak
  takeWhile_weak dropWhile_weak last_idx_weak first_idx_weak first_index_weak fold_weak onStates_weak
  TryModifiedVowels_weak MatchExclusionBuf_weak map_option_weak
  let_weak_cong if_weak_cong option.case_cong_weak prod.case_cong_weak list.case_cong_weak
  bool.case_cong_weak RuleResult.case_cong_weak TypingAction.case_cong_weak Modifier.case_cong_weak

lemma last_idx_numeral:
  "last_idx P (numeral n) = (if P (pred_numeral n) then Some (pred_numeral n) else last_idx P (pred_numeral n))"
  by (simp add: numeral_eq_Suc)

lemma kVowelTable_eval:
  "kVowelTable =
    [VE 0x1000000 True False,
     VE 0x1000001 True True,
     VE 0x1000002 True False,
     VE 0x1000004 True False,
     VE 0x1000005 True False,
     VE 0x1000008 True False,
     VE 0x100000C True False,
     VE 0x100000D True False,
     VE 0x100000F True False,
     VE 0x1000010 True False,
     VE 0x1000013 True False,
     VE 0x1000014 True False,
     VE 0x2000008 False False,
     VE 0x200000C False False,
     VE 0x2000010 False False,
     VE 0x2000014 False False,
     VE 0x2000110 False False,
     VE 0x2000114 False False,
     VE 0x200040C False False,
     VE 0x2000510 False False,
     VE 0x2000800 False False,
     VE 0x2000810 False False,
     VE 0x2000C00 True False,
     VE 0x2000C08 False False,
     VE 0x2000D08 False False,
     VE 0x2000F08 False False,
     VE 0x2001000 False False,
     VE 0x2001008 False False,
     VE 0x2001300 False False,
     VE 0x2001308 False False,
     VE 0x2001310 False False,
     VE 0x2000805 True False,
     VE 0x2000C02 True False,
     VE 0x2000C04 True False,
     VE 0x2000C0C True False,
     VE 0x2001001 True False,
     VE 0x2001005 True False,
     VE 0x200100D True False,
     VE 0x200100F True False,
     VE 0x2001014 True False,
     VE 0x200130F True False,
     VE 0x2001405 True False,
     VE 0x3080510 False False,
     VE 0x30C0008 False False,
     VE 0x30C0014 False False,
     VE 0x30C040C False False,
     VE 0x3100114 False False,
     VE 0x3100D08 False False,
     VE 0x3101400 False False,
     VE 0x3101410 False False,
     VE 0x3130F08 False False,
     VE 0x3130F10 False False,
     VE 0x3101405 True False,
     VE 0x3140510 False False]"
  by (simp add: kVowelTable_def Key1_def Key2_def Key3_def VowelSlot_def)

lemma kVCPairRules_eval:
  "kVCPairRules =
    [(0x1000000, 0x1FF),
     (0x1000001, 0x1BD),
     (0x1000002, 0x1BD),
     (0x1000004, 0x1FF),
     (0x1000005, 0x1DB),
     (0x1000008, 0x1DF),
     (0x100000C, 0x1BD),
     (0x100000D, 0x1BD),
     (0x100000F, 0x198),
     (0x1000010, 0x1BD),
     (0x1000013, 0x1BD),
     (0x1000014, 0x100),
     (0x2000805, 0x1B9),
     (0x2000C00, 0x1FF),
     (0x2000C02, 0x1B9),
     (0x2000C04, 0x138),
     (0x2000C0C, 0x21),
     (0x2001001, 0x130),
     (0x2001005, 0x52),
     (0x200100D, 0x1B9),
     (0x200100F, 0x1B9),
     (0x2001014, 0x1D2),
     (0x200130F, 0x1B9),
     (0x2001405, 0x1B9),
     (0x3101405, 0x110)]"
  by (simp add: kVCPairRules_def Key1_def Key2_def Key3_def VowelSlot_def F_ALL_def F_NO_CH_NH_def)

lemmas eval_defs =
  towlower_def towupper_def iswupper_def first_idx_def erase_at_def
  kModifiedVowel_def VowelBaseIndex_def kTonedVowel_def kToneBase_def ToneBaseIndex_def
  StripTone_def ToUpperVietnamese_def ToLowerVietnamese_def decomposeToneBase_def
  DecomposeVietChar_def DiphthongVowelIndex_def kDiphthongClassic_def kDiphthongModern_def
  diphthongRule_def IsTriphthong_def IsBareSmartTriphthongTail_def IsVowelChar_def lowered_def
  IsToneAction_def IsTelexModifierAction_def IsVniModifierAction_def IsUserDefinedOnlyAction_def
  IsInsertTypeAction_def CanonicalBracketKey_def ResolveBracketKey_def telexAction_def
  vniAction_def ClassifyKey_def
  initCharState_def isVowelBase_def IsVowel_def CanHaveMod_def IsD_def IsHorn_def HasModifier_def
  HasTone_def IsEmpty_def ActionToTone_def ActionToVowel_def ActionToVniModifier_def applyMod_def
  applyTone_def Compose_def wf_cs_def
  IsFrontBaseVowel_def VowelSlot_def BaseIndex_def Key1_def Key2_def Key3_def GetAllowedFinals_def
  FinalConsonantBit_def isOnsetLetter_def
  ParseInitialConsonant_def ParseFinalConsonant_def IsStopFinal_def GetTone_def
  BuildModifiedKey_def TryModifiedVowels_def nucleusKey_def validateCoda_def
  ValidateDecomposition_def IsValidConsonantPrefix_def onsetVowelMismatch_def ValidateImpl_def
  CheckToneModInvariant_def ValidateSyllableState_def
  Decompose_def collectVowels_def diphthongShift_def pairPosition_def diphthongPosition_def
  FindTonePosition_def
  EnglishProtectionState_Reset_def hardStartClusters_def IsHardEnglishStart_def
  IsHardEnglishRawStart_def IsHardEnglishEnd_def IsQWithoutU_def IsValidVietnameseYSequence_def
  CheckSoftEnglishBias_def UpdateToneInsistence_def isCodaLetter_def HasStructuralVCVPattern_def
  IsHardEnglishToneContext_def IsClusterConsonant_def invalidPairAt_def
  HasInvalidAdjacentVowelPair_def IsInvalidVietnameseCoda_def hardEnglishBias_def
  CheckEnglishBias_def kBlockedTonePrefixes_def kBlockedModifierPrefixes_def MatchesRawPrefix_def
  IsBlockedEnglishTone_def IsBlockedEnglishModifier_def
  qc_Reset_def clearActive_def markEscaped_def hasActive_def IsSpellExcluded_def
  UpdateSpellCheck_def ShouldAutoRestore_def HasIntentionalStrokeD_def IsUOEdgeCasePrefix_def
  UndoHornU_def RecalcEnglishBias_def CheckZwjfInitialBias_def FindStrokeDTarget_def
  HasVowelState_def IsStrokeDBlockedByCoda_def ShouldBlockStrokeDAsEnglish_def
  IsStrokeDEscapeAllowed_def MatchExclusionBuf_def MatchExclusionBufIgnoreTone_def
  BuildExclusionBuf_def WouldStrokeDMatchExclusion_def WouldToneMatchExclusion_def
  WouldModifierMatchExclusion_def WouldAnyModifierMatchExclusion_def HasStopFinalCoda_def
  HasEscapableModifier_def FindTonedVowelIndex_def HasConsonantBetween_def
  IsToneRelocBlockedByP4_def
  IsTelexMode_def IsVniMode_def setBias_def newRawIdx_def ProcessChar3_def ProcessChar_def
  shiftRaw_def EraseConsumedRaw_def insertAt_def RestoreConsumedKeyInPlace_def
  RevertProvisionalOoTone_def renderedVowels_def FindToneTarget_def IsToneStopCodaMismatch_def
  RelocateToneToHornVowel_def RelocateToneToTarget_def autoUOAt_def ApplyAutoUO_def
  SetVowelMod_def WouldModifierKeyMatchExclusion_def clearCircumflexAt_def
  WouldBeValidSyllable_def ShouldRejectModifier_def ToneMatchesExclusion_def
  HasNonClusterVowel_def IsInQUCluster_def UpdateSpellState_def onStates_def relocate_def
  autoUO_def
  pushState_def doubledKey_def popAndRestore_def HandleHornInsert_def insertSpec_def
  HandleInsertChar_def HandleUndoAllMarks_def setModAt_def freeMarkHit_def isUseUnrevert_def
  adjacentCircumflex_def HandleAdjacentCircumflex_def isQUClusterU_def nuclearIs_def
  vowelPairAt_def hasVowelPair_def hasNonVowelAfter_def relocateHorn_def stripCircumflex_def
  hornCycleUO_def hornEscape_def hornOnU_def hornOnO_def breveOnA_def insertSyntheticU_def
  hornStandalone_def hornP1_def hornP2_def hornP3_def hornP4_def HandleHornW_def HandleStrokeD_def
  isEligible_def canSwitch_def ProcessVniVowelModifier_def vniHornCycle_def vniHornUU_def
  vniNuclear_def vniUO_def vniUU_def HandleVniHorn_def HandleHornOrInsertU_def ProcessModifier_def
  GateMaskFor_def GateMaskHas_def registerHandler_def
  ProcessTone_def ProcessClearTone_def asLiteral_def effectiveSpellCheck_def toneValidates_def
  spellDisabledLiteral_def toneWouldValidate_def englishToneGate_def afterTone_def toneKeyStep_def
  HandleToneFsm_def WouldModifierRecoverOrEscape_def strokePreCheck_def afterModifier_def
  tryModifier_def exclusionUnblocks_def telexModifierStep_def vniModifierStep_def
  userModifierStep_def HandleModifierAction_def revertSyntheticW_def revertUse_def
  FinalizeRegularChar_def quickStartPair_def quickReplacement_def undoQuickStart_def
  quickConsonantStep_def HandleQuickStartConsonant_def HandleQuickEndConsonant_def
  consumed_def ToneRule_Apply_def ModifierRule_Apply_def QuickStartConsonantRule_Apply_def
  QuickEndConsonantRule_Apply_def ToneRule_def ModifierRule_def QuickStartConsonantRule_def
  QuickEndConsonantRule_def EvaluateGates_def DispatchAtPhase_def ruleContext_def Reset_def
  newTypingEngine_def isVniDigitSequence_def resolveAction_def PushKey_def PushChar_def
  recalcBias_def Backspace_def ComposeAll_def Peek_def PeekRaw_def Count_def
  HasActiveQuickConsonant_def IsEnglishWord_def IsToneEscaped_def commitRestore_def Commit_def
  modOfIndex_def toneOfIndex_def SeedFromText_def
  less_eq_TypingAction_def less_TypingAction_def

text \<open>The defaults of \<open>TypingConfig\<close> that the engine reads.\<close>

lemma default_config [simp]:
  "inputMethod defaultTypingConfig = Telex" "spellCheckEnabled defaultTypingConfig"
  "modernOrtho defaultTypingConfig" "\<not> allowZwjf defaultTypingConfig"
  "autoRestoreEnabled defaultTypingConfig" "\<not> quickConsonant defaultTypingConfig"
  "\<not> quickStartConsonant defaultTypingConfig" "\<not> quickEndConsonant defaultTypingConfig"
  "\<not> allowEnglishBypass defaultTypingConfig" "spellExclusions defaultTypingConfig = []"
  by (simp_all add: defaultTypingConfig_def)

lemma find_key_unat:
  "list_all (\<lambda>(n, e). n = unat (key e)) tab \<Longrightarrow> find (\<lambda>e. key e = k) (map snd tab) = map_of tab (unat k)"
  by (induction tab) (auto simp: word_unat_eq_iff)

lemma FindVowel_eval:
  "FindVowel k = map_of
    [(0x1000000, VE 0x1000000 True False),
     (0x1000001, VE 0x1000001 True True),
     (0x1000002, VE 0x1000002 True False),
     (0x1000004, VE 0x1000004 True False),
     (0x1000005, VE 0x1000005 True False),
     (0x1000008, VE 0x1000008 True False),
     (0x100000C, VE 0x100000C True False),
     (0x100000D, VE 0x100000D True False),
     (0x100000F, VE 0x100000F True False),
     (0x1000010, VE 0x1000010 True False),
     (0x1000013, VE 0x1000013 True False),
     (0x1000014, VE 0x1000014 True False),
     (0x2000008, VE 0x2000008 False False),
     (0x200000C, VE 0x200000C False False),
     (0x2000010, VE 0x2000010 False False),
     (0x2000014, VE 0x2000014 False False),
     (0x2000110, VE 0x2000110 False False),
     (0x2000114, VE 0x2000114 False False),
     (0x200040C, VE 0x200040C False False),
     (0x2000510, VE 0x2000510 False False),
     (0x2000800, VE 0x2000800 False False),
     (0x2000810, VE 0x2000810 False False),
     (0x2000C00, VE 0x2000C00 True False),
     (0x2000C08, VE 0x2000C08 False False),
     (0x2000D08, VE 0x2000D08 False False),
     (0x2000F08, VE 0x2000F08 False False),
     (0x2001000, VE 0x2001000 False False),
     (0x2001008, VE 0x2001008 False False),
     (0x2001300, VE 0x2001300 False False),
     (0x2001308, VE 0x2001308 False False),
     (0x2001310, VE 0x2001310 False False),
     (0x2000805, VE 0x2000805 True False),
     (0x2000C02, VE 0x2000C02 True False),
     (0x2000C04, VE 0x2000C04 True False),
     (0x2000C0C, VE 0x2000C0C True False),
     (0x2001001, VE 0x2001001 True False),
     (0x2001005, VE 0x2001005 True False),
     (0x200100D, VE 0x200100D True False),
     (0x200100F, VE 0x200100F True False),
     (0x2001014, VE 0x2001014 True False),
     (0x200130F, VE 0x200130F True False),
     (0x2001405, VE 0x2001405 True False),
     (0x3080510, VE 0x3080510 False False),
     (0x30C0008, VE 0x30C0008 False False),
     (0x30C0014, VE 0x30C0014 False False),
     (0x30C040C, VE 0x30C040C False False),
     (0x3100114, VE 0x3100114 False False),
     (0x3100D08, VE 0x3100D08 False False),
     (0x3101400, VE 0x3101400 False False),
     (0x3101410, VE 0x3101410 False False),
     (0x3130F08, VE 0x3130F08 False False),
     (0x3130F10, VE 0x3130F10 False False),
     (0x3101405, VE 0x3101405 True False),
     (0x3140510, VE 0x3140510 False False)] (unat k)"
  unfolding FindVowel_def kVowelTable_eval
  by (subst find_key_unat[symmetric]) simp_all

lemma IsVowelPrefix_eval:
  "IsVowelPrefix k (Suc 0) \<longleftrightarrow> list_ex (\<lambda>x. x = k AND 0xFF) [0, 1, 4, 5, 8, 12, 13, 15, 16, 19, 20]"
  "IsVowelPrefix k (Suc (Suc 0)) \<longleftrightarrow> list_ex (\<lambda>x. x = k AND 0xFFFF) [2053, 3072, 3076, 4097, 4109, 4116, 4879, 5125]"
  unfolding IsVowelPrefix_def kVowelTable_eval
  by (auto simp: Let_def)

lemmas engine_eval = eval_defs kVCPairRules_eval FindVowel_eval[of "numeral k" for k]
  IsVowelPrefix_eval ruleRegistry_buckets last_idx_numeral Let_def

end
