(* ===== verification/EngineSession.thy ===== *)
theory EngineSession
  imports EngineEval
begin

text \<open>
  The engine as a state machine: the calls a host makes through \<open>IInputEngine\<close>, as the labels of a
  step relation, and the engines reachable from a new one.  Keys are non-zero code units, which is
  what the hook and the text service send.
\<close>

datatype EngineOp = Key wchar bool | Back | ResetOp | CommitOp | SeedOp wstring

inductive step :: "TypingEngine \<Rightarrow> EngineOp \<Rightarrow> TypingEngine \<Rightarrow> bool" where
  step_key: "0 < c \<Longrightarrow> step e (Key c up) (PushKey c up e)"
| step_back: "step e Back (Backspace e)"
| step_reset: "step e ResetOp (Reset e)"
| step_commit: "step e CommitOp (fst (Commit e))"
| step_seed: "step e (SeedOp t) (fst (SeedFromText t e))"

inductive_cases step_cases: "step e op e'"
inductive_simps step_simps:
  "step e (Key c up) e'" "step e Back e'" "step e ResetOp e'" "step e CommitOp e'" "step e (SeedOp t) e'"

inductive reachable :: "TypingConfig \<Rightarrow> EngineOp list \<Rightarrow> TypingEngine \<Rightarrow> bool" for cfg where
  reachable_new: "reachable cfg [] (newTypingEngine cfg)"
| reachable_step: "reachable cfg ops e \<Longrightarrow> step e op e' \<Longrightarrow> reachable cfg (ops @ [op]) e'"

lemma reachable_typeKeys:
  "reachable cfg ops e \<Longrightarrow> list_all (\<lambda>c. 0 < c) cs \<Longrightarrow> \<exists>ops'. reachable cfg (ops @ ops') (typeKeys cs e)"
proof (induction cs arbitrary: ops e)
  case Nil
  then show ?case by (intro exI[of _ "[]"]) simp
next
  case (Cons c cs)
  then have "reachable cfg (ops @ [Key c (iswupper c \<or> c = L_lbrace \<or> c = L_rbrace)]) (PushChar c e)"
    unfolding PushChar_def by (intro reachable_step) (simp_all add: step_simps)
  with Cons.IH Cons.prems(2) obtain ops' where
    "reachable cfg ((ops @ [Key c (iswupper c \<or> c = L_lbrace \<or> c = L_rbrace)]) @ ops') (typeKeys (c # cs) e)"
    by fastforce
  then show ?case by auto
qed

lemma reachable_key: "0 < c \<Longrightarrow> reachable cfg [Key c up] (PushKey c up (newTypingEngine cfg))"
  using reachable_step[OF reachable_new step_key] by fastforce

subsection \<open>Configuration and history\<close>

lemma frm_self: "frm (escRawHistory e) (config e) None e"
  by (simp add: frm_def)

lemma PushKey_config [simp]: "config (PushKey c up e) = config e"
  using frm_PushKey[OF frm_self[of e], of c up] by (simp add: frm_def)

lemma PushKey_history: "escRawHistory (PushKey c up e) = escRawHistory e @ [c]"
  using frm_PushKey[OF frm_self[of e], of c up] by (simp add: frm_def)

lemma PushChar_history: "escRawHistory (PushChar c e) = escRawHistory e @ [c]"
  by (simp add: PushChar_def PushKey_history)

lemma Backspace_config [simp]: "config (Backspace e) = config e"
  by (simp add: Backspace_def recalcBias_def UpdateSpellState_def ProcessChar_def ProcessChar3_def Let_def)

lemma Reset_fields [simp]:
  "config (Reset e) = config e" "states (Reset e) = []" "rawInput (Reset e) = []"
  "escRawHistory (Reset e) = []" "oobWrite (Reset e) = oobWrite e"
  by (simp_all add: Reset_def)

lemma RevertProvisionalOoTone_frame:
  "config (fst (RevertProvisionalOoTone l e)) = config e"
  "oobWrite (fst (RevertProvisionalOoTone l e)) = oobWrite e"
  by (simp_all add: RevertProvisionalOoTone_def Let_def)

lemma Commit_Reset: "fst (Commit e) = Reset (fst (RevertProvisionalOoTone 0x20 e))"
  by (simp add: Commit_def Let_def split: option.split)

lemma seedLoop_frame: "seedLoop t e = Some e' \<Longrightarrow> config e' = config e \<and> oobWrite e' = oobWrite e"
  by (induction t arbitrary: e) (auto split: option.splits; fastforce)+

lemma SeedFromText_frame:
  "config (fst (SeedFromText t e)) = config e" "oobWrite (fst (SeedFromText t e)) = oobWrite e"
  using seedLoop_frame[of t "Reset e"]
  by (auto simp: SeedFromText_def UpdateSpellState_def Let_def split: option.split)

lemma typeKeys_history: "escRawHistory (typeKeys cs e) = escRawHistory e @ cs"
  by (induction cs arbitrary: e) (simp_all add: PushChar_history)

subsection \<open>Vector bounds\<close>

text \<open>The bound of \<open>frm\<close> at rest, as a predicate on the engine.\<close>

definition raw_safe :: "TypingEngine \<Rightarrow> bool" where
  "raw_safe e \<longleftrightarrow> \<not> oobWrite e \<and> list_all (below (length (rawInput e))) (states e)"

lemma raw_safe_frm: "raw_safe e \<longleftrightarrow> frm (escRawHistory e) (config e) (Some 0) e"
  by (simp add: raw_safe_def frm_def)

lemma raw_safe_PushKey: "raw_safe e \<Longrightarrow> raw_safe (PushKey c up e)"
  using frm_PushKey[of "escRawHistory e" "config e" "Some 0" e c up]
  by (simp add: raw_safe_frm PushKey_history)

lemma raw_safe_Reset: "raw_safe e \<Longrightarrow> raw_safe (Reset e)"
  by (simp add: raw_safe_def)

lemma raw_safe_Commit: "raw_safe e \<Longrightarrow> raw_safe (fst (Commit e))"
  by (simp add: raw_safe_def Commit_Reset RevertProvisionalOoTone_frame)

lemma raw_safe_SeedFromText:
  assumes "raw_safe e" shows "raw_safe (fst (SeedFromText t e))"
proof (cases "snd (SeedFromText t e)")
  case True
  then obtain ds where "states (fst (SeedFromText t e)) = map2 seedState [0..<length t] ds"
    using SeedFromText_states[of t e "fst (SeedFromText t e)"] by (metis prod.collapse)
  then have "list_all (below m) (states (fst (SeedFromText t e)))" for m
    by (auto simp: list_all_iff seedState_def below_def set_zip)
  then show ?thesis using assms by (simp add: raw_safe_def SeedFromText_frame)
next
  case False
  then have "fst (SeedFromText t e) = Reset e"
    by (auto simp: SeedFromText_def Let_def split: option.splits)
  then show ?thesis using assms by (simp add: raw_safe_Reset)
qed

subsection \<open>Reachable engines\<close>

lemma step_wf: "step e op e' \<Longrightarrow> wf_engine e \<Longrightarrow> wf_engine e' \<and> config e' = config e"
  by (auto elim!: step_cases simp: SeedFromText_frame Commit_Reset RevertProvisionalOoTone_frame
      intro!: inv_intros)

lemma step_raw_safe: "step e op e' \<Longrightarrow> op \<noteq> Back \<Longrightarrow> raw_safe e \<Longrightarrow> raw_safe e'"
  by (auto elim!: step_cases simp: raw_safe_PushKey raw_safe_Reset raw_safe_Commit raw_safe_SeedFromText)

lemma reachable_wf: "reachable cfg ops e \<Longrightarrow> wf_engine e \<and> config e = cfg"
  by (induction rule: reachable.induct) (auto simp: newTypingEngine_def dest: step_wf)

lemma length_Peek_wf: "wf_engine e \<Longrightarrow> length (Peek e) = Count e"
  by (simp add: Peek_def ComposeAll_wf Count_def)

lemma reachable_raw_safe: "reachable cfg ops e \<Longrightarrow> Back \<notin> set ops \<Longrightarrow> raw_safe e"
proof (induction rule: reachable.induct)
  case reachable_new
  then show ?case by (simp add: newTypingEngine_def raw_safe_def Reset_def)
next
  case (reachable_step ops e op e')
  then show ?case by (auto dest: step_raw_safe)
qed

subsection \<open>Backspace, commit and reseeding\<close>

lemma Backspace_plain_states:
  assumes "quickStartKey e = 0" "resultIndex (qc e) = None"
  shows "states (Backspace e) = butlast (states e)"
  using assms
  by (simp add: Backspace_def recalcBias_def UpdateSpellState_def hasActive_def Let_def)

lemma Backspace_plain_Peek:
  assumes "wf_engine e" "quickStartKey e = 0" "resultIndex (qc e) = None"
  shows "Peek (Backspace e) = butlast (Peek e)"
  using assms wf_Backspace[OF assms(1)]
  by (simp add: Peek_def ComposeAll_wf Backspace_plain_states map_butlast)

lemma commitRestore_Some:
  "commitRestore e composed = Some t \<Longrightarrow>
   t = composed \<or> t = rawInput e \<or> t = (rawInput e)[0 := towupper (rawInput e ! 0)]"
  by (auto simp: commitRestore_def Let_def split: if_splits)

lemma commitRestore_off:
  "\<not> spellCheckEnabled (config e) \<or> \<not> autoRestoreEnabled (config e) \<Longrightarrow> commitRestore e composed = None"
  by (auto simp: commitRestore_def Let_def)

text \<open>The part of a character state that a character determines: all but the raw indices and the
  provenance flag.\<close>

definition core :: "CharState \<Rightarrow> wchar \<times> Modifier \<times> Tone \<times> bool" where
  "core s = (base s, modifier s, tone s, isUpper s)"

lemma modOfIndex_modIndexOf: "modOfIndex (modIndexOf m) = m"
  by (cases m) (simp_all add: modOfIndex_def modIndexOf_def)

lemma toneOfIndex_ToneIndex: "toneOfIndex (ToneIndex t) = t"
  by (cases t) (simp_all add: toneOfIndex_def)

lemma core_seedState:
  "letter_cs s \<Longrightarrow> DecomposeVietChar (Compose s) = Some d \<Longrightarrow> core (seedState r d) = core s"
  by (auto simp: DecomposeVietChar_Compose core_def seedState_def modOfIndex_modIndexOf
      toneOfIndex_ToneIndex split: if_splits)

lemma map2_core:
  "list_all letter_cs ss \<Longrightarrow> map DecomposeVietChar (map Compose ss) = map Some ds \<Longrightarrow>
   length rs = length ss \<Longrightarrow> map core (map2 seedState rs ds) = map core ss"
proof (induction ss arbitrary: rs ds)
  case (Cons s ss)
  then obtain d ds' r rs' where "ds = d # ds'" "rs = r # rs'" by (cases ds; cases rs) auto
  with Cons show ?case by (auto intro: core_seedState)
qed simp

lemma SeedFromText_accepts: "snd (SeedFromText t e) \<longleftrightarrow> list_all (\<lambda>ch. DecomposeVietChar ch \<noteq> None) t"
  using seedLoop_Some_iff[of t "Reset e"]
  by (auto simp: SeedFromText_def Let_def split: option.splits)

lemma reseed_core:
  assumes "list_all letter_cs (states e)" "list_all (\<lambda>s. \<not> upperTilde s) (states e)"
  shows "snd (SeedFromText (Peek e) e') \<and> map core (states (fst (SeedFromText (Peek e) e'))) = map core (states e)"
proof -
  have w: "wf_engine e" using assms(1) by (auto simp: wf_engine_def letter_cs_def list_all_iff)
  have p: "Peek e = map Compose (states e)" by (simp add: Peek_def ComposeAll_wf[OF w])
  have acc: "snd (SeedFromText (Peek e) e')"
    using assms by (auto simp: SeedFromText_accepts p list_all_iff DecomposeVietChar_Compose)
  then obtain ds where ds: "map DecomposeVietChar (Peek e) = map Some ds"
    "states (fst (SeedFromText (Peek e) e')) = map2 seedState [0..<length (Peek e)] ds"
    using SeedFromText_states[of "Peek e" e' "fst (SeedFromText (Peek e) e')"] by (metis prod.collapse)
  then have "map core (states (fst (SeedFromText (Peek e) e'))) = map core (states e)"
    using map2_core[OF assms(1), of ds "[0..<length (Peek e)]"] by (simp add: p)
  with acc show ?thesis by simp
qed

end
