(* ===== verification/EngineExamples.thy ===== *)
theory EngineExamples
  imports EngineSession
begin

text \<open>
  Words typed on a new engine with the default configuration, executed by the simplifier in the
  logic: two Vietnamese words, an English word that \<open>Commit\<close> restores, and the key sequence that makes \<open>RestoreConsumedKeyInPlace\<close> store past the end
  of \<open>rawInput_\<close>.
\<close>

abbreviation fresh :: TypingEngine where
  "fresh \<equiv> newTypingEngine defaultTypingConfig"

lemma type_tieengs:
  "Peek (typeKeys [L_t, L_i, L_e, L_e, L_n, L_g, L_s] fresh) = [L_t, L_i, 0x1EBF, L_n, L_g]"
  by (simp add: engine_eval cong: eval_cong split del: if_split)

lemma type_dduowcj:
  "Peek (typeKeys [L_d, L_d, L_u, L_o, L_w, L_c, L_j] fresh) = [0x111, 0x1B0, 0x1EE3, L_c]"
  by (simp add: engine_eval cong: eval_cong split del: if_split)

lemma commit_text: "snd (Commit (typeKeys [L_t, L_e, L_x, L_t] fresh)) = [L_t, L_e, L_x, L_t]"
  by (simp add: engine_eval cong: eval_cong split del: if_split)

lemma type_ansbns_oob:
  "oobWrite (typeKeys [L_n, L_s] (Backspace (typeKeys [L_a, L_n, L_s] fresh)))"
  by (simp add: engine_eval cong: eval_cong split del: if_split)

lemma reachable_oob: "\<exists>ops e. reachable defaultTypingConfig ops e \<and> oobWrite e"
proof -
  obtain ops where "reachable defaultTypingConfig ([] @ ops) (typeKeys [L_a, L_n, L_s] fresh)"
    using reachable_typeKeys[OF reachable_new, of "[L_a, L_n, L_s]"] by auto
  then have "reachable defaultTypingConfig (([] @ ops) @ [Back]) (Backspace (typeKeys [L_a, L_n, L_s] fresh))"
    by (rule reachable_step) (rule step_back)
  from reachable_typeKeys[OF this, of "[L_n, L_s]"] obtain ops' where
    "reachable defaultTypingConfig ops' (typeKeys [L_n, L_s] (Backspace (typeKeys [L_a, L_n, L_s] fresh)))"
    by auto
  then show ?thesis using type_ansbns_oob by blast
qed

end
