(* ===== verification/Syllables.thy ===== *)
theory Syllables
  imports EngineHelpers
begin

text \<open>
  What the syllable validator accepts: a complete syllable is an onset of at most three letters, a
  nucleus of one to three vowels that the nucleus table lists, and a coda of at most two letters.
\<close>

lemma ParseFinalConsonant_full:
  assumes "ParseFinalConsonant co = length co" "co \<noteq> []"
  shows "length co \<le> 2 \<and> list_all (\<lambda>s. \<not> IsVowel s) co \<and>
         base (co ! 0) \<in> {L_c, L_k, L_m, L_n, L_p, L_t}"
proof -
  obtain a xs where co: "co = a # xs" using assms(2) by (cases co) auto
  show ?thesis
  proof (cases xs)
    case Nil
    then show ?thesis using assms co
      by (auto simp: ParseFinalConsonant_def Let_def split: if_splits)
  next
    case (Cons b ys)
    then show ?thesis using assms co
      by (cases ys) (auto simp: ParseFinalConsonant_def Let_def split: if_splits)
  qed
qed

lemma nucleusKey_length: "nucleusKey vs = Some k \<Longrightarrow> length vs \<le> 3"
proof -
  have "(case sl of [s0] \<Rightarrow> Some (Key1 s0) | [s0, s1] \<Rightarrow> Some (Key2 s0 s1)
     | [s0, s1, s2] \<Rightarrow> Some (Key3 s0 s1 s2) | _ \<Rightarrow> None) = Some k \<Longrightarrow> length sl \<le> 3" for sl
    by (auto split: list.splits)
  then show "nucleusKey vs = Some k \<Longrightarrow> ?thesis"
    unfolding nucleusKey_def Let_def
    by (metis (no_types, lifting) length_map option.distinct(1))
qed

lemma validateCoda_Valid:
  assumes "validateCoda ss vs co k entry = Valid" "co \<noteq> []"
  shows "canEnd entry \<and> ParseFinalConsonant co = length co \<and>
    (IsStopFinal co (length co) \<longrightarrow> GetTone ss \<in> {ToneNone, Acute, Dot})"
proof -
  have "ParseFinalConsonant co \<le> length co"
    by (cases co) (auto simp: ParseFinalConsonant_def Let_def)
  then show ?thesis using assms
    by (auto simp: validateCoda_def Let_def split: if_splits)
qed

lemma ValidateDecomposition_Valid:
  assumes "ValidateDecomposition ss n = Valid"
  shows "\<exists>vs co k entry. drop n ss = vs @ co \<and> vs \<noteq> [] \<and> list_all IsVowel vs \<and>
    nucleusKey vs = Some k \<and> FindVowel k = Some entry \<and>
    (if co = [] then \<not> requiresEnd entry
     else canEnd entry \<and> ParseFinalConsonant co = length co \<and>
       (IsStopFinal co (length co) \<longrightarrow> GetTone ss \<in> {ToneNone, Acute, Dot}))"
proof -
  let ?vs = "takeWhile IsVowel (drop n ss)" and ?co = "dropWhile IsVowel (drop n ss)"
  have ne: "?vs \<noteq> []" using assms by (auto simp: ValidateDecomposition_def Let_def split: if_splits)
  obtain k where k: "nucleusKey ?vs = Some k"
    using assms by (auto simp: ValidateDecomposition_def Let_def split: if_splits option.splits)
  obtain entry where f: "FindVowel k = Some entry"
    using assms k by (auto simp: ValidateDecomposition_def Let_def split: if_splits option.splits)
  have v: "(if ?co = [] then \<not> requiresEnd entry else validateCoda ss ?vs ?co k entry = Valid)"
    using assms k f ne by (auto simp: ValidateDecomposition_def Let_def split: if_splits)
  have "list_all IsVowel ?vs" by (metis list_all_iff set_takeWhileD)
  then show ?thesis using ne k f v validateCoda_Valid[of ss ?vs ?co k entry]
    by (intro exI[of _ ?vs] exI[of _ ?co] exI[of _ k] exI[of _ entry]) auto
qed

lemma ParseInitialConsonant_le: "ParseInitialConsonant ss z \<le> 3"
  by (simp add: ParseInitialConsonant_def Let_def)

lemma ValidateImpl_Valid: "ValidateImpl ss z = Valid \<Longrightarrow> \<exists>n\<le>3. ValidateDecomposition ss n = Valid"
proof -
  assume v: "ValidateImpl ss z = Valid"
  let ?l = "ParseInitialConsonant ss z"
  let ?n = "if ?l = 0 \<and> \<not> IsVowel (ss ! 0) then 1 else ?l"
  have "ValidateDecomposition ss ?n = Valid \<or> ValidateDecomposition ss 1 = Valid \<or>
      ValidateDecomposition ss 2 = Valid"
    using v unfolding ValidateImpl_def Let_def by (auto split: if_splits)
  moreover have "?n \<le> 3" using ParseInitialConsonant_le[of ss z] by simp
  moreover have "(1::nat) \<le> 3" "(2::nat) \<le> 3" by simp_all
  ultimately show ?thesis by blast
qed

lemma ValidateSyllableState_not_Invalid:
  "ValidateSyllableState ss z \<noteq> Invalid \<Longrightarrow> CheckToneModInvariant ss \<and> ValidateImpl ss z = ValidateSyllableState ss z"
  by (auto simp: ValidateSyllableState_def Let_def split: if_splits)

lemma valid_decomposition:
  assumes "ValidateSyllableState ss z = Valid"
  shows "\<exists>on vs co k entry. ss = on @ vs @ co \<and> length on \<le> 3 \<and>
    vs \<noteq> [] \<and> length vs \<le> 3 \<and> list_all IsVowel vs \<and>
    nucleusKey vs = Some k \<and> FindVowel k = Some entry \<and>
    (if co = [] then \<not> requiresEnd entry
     else canEnd entry \<and> length co \<le> 2 \<and> list_all (\<lambda>s. \<not> IsVowel s) co \<and>
       base (co ! 0) \<in> {L_c, L_k, L_m, L_n, L_p, L_t} \<and>
       (IsStopFinal co (length co) \<longrightarrow> GetTone ss \<in> {ToneNone, Acute, Dot})) \<and>
    CheckToneModInvariant ss"
proof -
  have "CheckToneModInvariant ss" "ValidateImpl ss z = Valid"
    using ValidateSyllableState_not_Invalid[of ss z] assms by simp_all
  moreover obtain n where n: "n \<le> 3" "ValidateDecomposition ss n = Valid"
    using ValidateImpl_Valid \<open>ValidateImpl ss z = Valid\<close> by blast
  obtain vs co k entry where "drop n ss = vs @ co" and d: "vs \<noteq> []" "list_all IsVowel vs"
    "nucleusKey vs = Some k" "FindVowel k = Some entry"
    "(if co = [] then \<not> requiresEnd entry
     else canEnd entry \<and> ParseFinalConsonant co = length co \<and>
       (IsStopFinal co (length co) \<longrightarrow> GetTone ss \<in> {ToneNone, Acute, Dot}))"
    using ValidateDecomposition_Valid[OF n(2)] by blast
  then have "ss = take n ss @ vs @ co" by (metis append_take_drop_id)
  ultimately show ?thesis
    using n(1) d nucleusKey_length[OF d(3)] ParseFinalConsonant_full[of co]
    by (intro exI[of _ "take n ss"] exI[of _ vs] exI[of _ co] exI[of _ k] exI[of _ entry]) auto
qed


lemma last_idx_append_vowel:
  assumes "vs \<noteq> []" "list_all IsVowel vs" "list_all (\<lambda>s. \<not> IsVowel s) co"
  shows "last_idx (\<lambda>i. IsVowel ((on @ vs @ co) ! i)) (length (on @ vs @ co)) = Some (length on + length vs - 1)"
proof -
  have "IsVowel ((on @ vs @ co) ! (length on + length vs - 1))"
    using assms(1,2) by (cases vs rule: rev_cases) (auto simp: nth_append)
  moreover have "\<not> IsVowel ((on @ vs @ co) ! j)"
    if "length on + length vs - 1 < j" "j < length (on @ vs @ co)" for j
    using that assms(3) by (cases vs) (auto simp: nth_append list_all_length)
  moreover have "length on + length vs - 1 < length (on @ vs @ co)" using assms(1) by (cases vs) simp_all
  ultimately show ?thesis unfolding last_idx_Some by blast
qed

lemma valid_stop_tone:
  assumes "ValidateSyllableState ss z = Valid" "HasStopFinalCoda ss"
  shows "GetTone ss \<in> {ToneNone, Acute, Dot}"
proof -
  obtain on vs co k entry where ss: "ss = on @ vs @ co" and vs: "vs \<noteq> []" "list_all IsVowel vs"
    and co: "if co = [] then \<not> requiresEnd entry
     else canEnd entry \<and> length co \<le> 2 \<and> list_all (\<lambda>s. \<not> IsVowel s) co \<and>
       base (co ! 0) \<in> {L_c, L_k, L_m, L_n, L_p, L_t} \<and>
       (IsStopFinal co (length co) \<longrightarrow> GetTone ss \<in> {ToneNone, Acute, Dot})"
    using valid_decomposition[OF assms(1)] by blast
  have nv: "list_all (\<lambda>s. \<not> IsVowel s) co" using co by (cases "co = []") simp_all
  have l: "last_idx (\<lambda>i. IsVowel (ss ! i)) (length ss) = Some (length on + length vs - 1)"
    unfolding ss by (rule last_idx_append_vowel[OF vs nv])
  have n: "ss ! (length on + length vs) = co ! 0" if "co \<noteq> []" using that ss by (simp add: nth_append)
  have c: "length ss - (length on + length vs) = length co" using ss by simp
  have s: "Suc (length on + length vs - Suc 0) = length on + length vs" using vs(1) by (cases vs) auto
  have h: "if length co = 1 then towlower (base (ss ! (length on + length vs))) \<in> {L_c, L_k, L_p, L_t}
      else length co = 2 \<and> towlower (base (ss ! (length on + length vs))) = L_c"
    using assms(2) unfolding HasStopFinalCoda_def l
    by (simp add: Let_def s c split: if_splits)
  then have ne: "co \<noteq> []" by auto
  have "towlower (base (co ! 0)) \<in> {L_c, L_k, L_p, L_t}" using h n[OF ne] by (auto split: if_splits)
  then have "IsStopFinal co (length co)"
    using co ne by (auto simp: IsStopFinal_def towlower_def)
  then show ?thesis using co ne by simp
qed



text \<open>A complete syllable that ends in a stop coda (c, ch, k, p or t) carries no tone, the acute or
  the dot: the two components that know about stop codas, the validator and the tone gate's
  \<open>HasStopFinalCoda\<close>, agree.\<close>

theorem valid_stop_coda_tone:
  assumes "ValidateSyllableState ss z = Valid" "HasStopFinalCoda ss"
  shows "GetTone ss \<in> {ToneNone, Acute, Dot}"
  using valid_stop_tone[OF assms] .

theorem valid_stop_coda_tone_witness:
  "GetTone [initCharState\<lparr>base := L_a, tone := Acute\<rparr>, initCharState\<lparr>base := L_c\<rparr>] \<in> {ToneNone, Acute, Dot}"
  by (rule valid_stop_coda_tone[where z = False]) code_simp+

end
