(* ===== verification/Pipeline.thy ===== *)
theory Pipeline
  imports EngineApi
begin

text \<open>
  The key pipeline of \<open>src/core/pipeline\<close>: the feature \<open>Coordinator\<close> with its gates, the four
  features and the \<open>OutputChannel\<close> that collects their intents.

  The executors behind the features (\<open>ICommitUndoExecutor\<close> and so on) are interfaces that the
  keyboard hook implements; they are parameters, collected in a record, and may change the host
  state in any way.  The host state holds what the gates read, the Vietnamese-mode flag and the
  engine, and is extensible by what a host adds.
\<close>

subsection \<open>Intents and the output channel\<close>

datatype Intent = IBackspace nat | IText wstring | IReinject "16 word" | ConsumeKey | PassThrough

record OutputChannel =
  batch :: "Intent list"
  drained :: "Intent list"

definition newOutputChannel :: OutputChannel where
  "newOutputChannel = \<lparr>batch = [], drained = []\<rparr>"

definition Emit :: "Intent \<Rightarrow> OutputChannel \<Rightarrow> OutputChannel" where
  "Emit i ch = ch\<lparr>batch := batch ch @ [i]\<rparr>"

definition TakeBatch :: "OutputChannel \<Rightarrow> OutputChannel \<times> Intent list" where
  "TakeBatch ch = (ch\<lparr>batch := []\<rparr>, batch ch)"

text \<open>\<open>DrainBatch\<close> clears \<open>drained_\<close>, swaps it with \<open>batch_\<close> and returns it.\<close>

definition DrainBatch :: "OutputChannel \<Rightarrow> OutputChannel \<times> Intent list" where
  "DrainBatch ch =
    (let ch1 = ch\<lparr>drained := []\<rparr>; ch2 = ch1\<lparr>drained := batch ch1, batch := drained ch1\<rparr>
     in (ch2, drained ch2))"

text \<open>What a sink promises: a drain returns what was emitted, in order, and leaves nothing behind.\<close>

locale intent_channel =
  fixes emit :: "Intent \<Rightarrow> 'c \<Rightarrow> 'c" and drain :: "'c \<Rightarrow> 'c \<times> Intent list"
    and pending :: "'c \<Rightarrow> Intent list"
  assumes pending_emit: "pending (emit i c) = pending c @ [i]"
    and pending_drain: "pending (fst (drain c)) = []"
    and drain_out: "snd (drain c) = pending c"
begin

lemma pending_fold: "pending (fold emit xs c) = pending c @ xs"
  by (induction xs arbitrary: c) (simp_all add: pending_emit)

lemma drain_fold: "snd (drain (fold emit xs c)) = pending c @ xs"
  by (simp add: drain_out pending_fold)

text \<open>Two key strokes do not mix: the second drain sees only what was emitted after the first.\<close>

lemma drain_twice: "snd (drain (fold emit ys (fst (drain (fold emit xs c))))) = ys"
  by (simp add: drain_fold pending_drain)

end

interpretation taking: intent_channel Emit TakeBatch batch
  by unfold_locales (simp_all add: Emit_def TakeBatch_def)

interpretation draining: intent_channel Emit DrainBatch batch
  by unfold_locales (simp_all add: Emit_def DrainBatch_def Let_def)

subsection \<open>Keys, the host and the executors\<close>

record KeyContext =
  kVk :: "16 word"
  kKeyChar :: wchar
  kShift :: bool
  kCapsLock :: bool
  kCtrl :: bool
  kAlt :: bool
  kWin :: bool
  previousRendered :: wstring
  engineRendered :: wstring
  sessionRawInput :: wstring
  reinjectVk :: "16 word"

record Host =
  vnMode :: bool
  hostEngine :: "TypingEngine option"

datatype CommitUndoOutcome = CuEat | CuPass | CuFallthrough
datatype MacroOutcome = MEat | MPass | MFallthrough | MNoOp
datatype EscRestoreOutcome = EscEat | EscFallthrough

record 'h Executors =
  HandleCommitUndo :: "16 word \<Rightarrow> bool \<Rightarrow> bool \<Rightarrow> bool \<Rightarrow> bool \<Rightarrow> bool \<Rightarrow> 'h \<Rightarrow> 'h \<times> CommitUndoOutcome"
  HandleMacro :: "16 word \<Rightarrow> bool \<Rightarrow> bool \<Rightarrow> bool \<Rightarrow> bool \<Rightarrow> bool \<Rightarrow> 'h \<Rightarrow> 'h \<times> MacroOutcome"
  TryEscRestore :: "16 word \<Rightarrow> bool \<Rightarrow> bool \<Rightarrow> bool \<Rightarrow> bool \<Rightarrow> 'h \<Rightarrow> 'h \<times> EscRestoreOutcome"
  ExecuteReplace :: "wstring \<Rightarrow> 16 word \<Rightarrow> 'h \<Rightarrow> 'h"

datatype Stage = PreEngine | EngineStage | PostEngine

type_synonym 'h Feature = "(Stage, KeyContext, 'h \<times> OutputChannel) handler"

subsection \<open>The features\<close>

definition CommitUndoFeature_Try ::
  "'h Executors \<Rightarrow> KeyContext \<Rightarrow> 'h \<times> OutputChannel \<Rightarrow> ('h \<times> OutputChannel) \<times> RuleResult" where
  "CommitUndoFeature_Try ex ctx s =
    (case HandleCommitUndo ex (kVk ctx) (kShift ctx) (kCapsLock ctx) (kCtrl ctx) (kAlt ctx) (kWin ctx) (fst s) of
       (h, CuEat) \<Rightarrow> ((h, Emit ConsumeKey (snd s)), Handled)
     | (h, CuPass) \<Rightarrow> ((h, Emit PassThrough (snd s)), Veto)
     | (h, CuFallthrough) \<Rightarrow> ((h, snd s), Pass))"

definition MacroFeature_Try ::
  "'h Executors \<Rightarrow> KeyContext \<Rightarrow> 'h \<times> OutputChannel \<Rightarrow> ('h \<times> OutputChannel) \<times> RuleResult" where
  "MacroFeature_Try ex ctx s =
    (case HandleMacro ex (kVk ctx) (kShift ctx) (kCapsLock ctx) (kCtrl ctx) (kAlt ctx) (kWin ctx) (fst s) of
       (h, MEat) \<Rightarrow> ((h, Emit ConsumeKey (snd s)), Handled)
     | (h, MPass) \<Rightarrow> ((h, Emit PassThrough (snd s)), Veto)
     | (h, MFallthrough) \<Rightarrow> ((h, snd s), Pass)
     | (h, MNoOp) \<Rightarrow> ((h, snd s), Pass))"

definition EscRestoreRawFeature_Try ::
  "'h Executors \<Rightarrow> KeyContext \<Rightarrow> 'h \<times> OutputChannel \<Rightarrow> ('h \<times> OutputChannel) \<times> RuleResult" where
  "EscRestoreRawFeature_Try ex ctx s =
    (case TryEscRestore ex (kVk ctx) (kShift ctx) (kCtrl ctx) (kAlt ctx) (kWin ctx) (fst s) of
       (h, EscEat) \<Rightarrow> ((h, Emit ConsumeKey (snd s)), Handled)
     | (h, EscFallthrough) \<Rightarrow> ((h, snd s), Pass))"

definition BackwardEditFeature_Try ::
  "'h Executors \<Rightarrow> KeyContext \<Rightarrow> 'h \<times> OutputChannel \<Rightarrow> ('h \<times> OutputChannel) \<times> RuleResult" where
  "BackwardEditFeature_Try ex ctx s =
    ((ExecuteReplace ex (engineRendered ctx) (reinjectVk ctx) (fst s), snd s), Handled)"

definition CommitUndoFeature :: "'h Executors \<Rightarrow> 'h Feature" where
  "CommitUndoFeature ex =
    \<lparr>hSlot = PreEngine, hPriority = 20, hRequires = 0, hApply = CommitUndoFeature_Try ex\<rparr>"

definition MacroFeature :: "'h Executors \<Rightarrow> 'h Feature" where
  "MacroFeature ex =
    \<lparr>hSlot = PreEngine, hPriority = 30, hRequires = 0, hApply = MacroFeature_Try ex\<rparr>"

definition EscRestoreRawFeature :: "'h Executors \<Rightarrow> 'h Feature" where
  "EscRestoreRawFeature ex =
    \<lparr>hSlot = PreEngine, hPriority = 40, hRequires = 0, hApply = EscRestoreRawFeature_Try ex\<rparr>"

definition BackwardEditFeature :: "'h Executors \<Rightarrow> 'h Feature" where
  "BackwardEditFeature ex =
    \<lparr>hSlot = PostEngine, hPriority = 10, hRequires = GateMaskFor EnglishBias,
     hApply = BackwardEditFeature_Try ex\<rparr>"

subsection \<open>Gates\<close>

record 'h Gate =
  gateId :: GateId
  IsRaised :: "KeyContext \<Rightarrow> 'h \<Rightarrow> bool"

definition EnglishBiasGate :: "'m Host_scheme Gate" where
  "EnglishBiasGate = \<lparr>gateId = EnglishBias, IsRaised = (\<lambda>_ h. \<not> vnMode h)\<rparr>"

definition SpellCheckGate :: "'m Host_scheme Gate" where
  "SpellCheckGate = \<lparr>gateId = SpellCheck, IsRaised = (\<lambda>_ h.
     case hostEngine h of None \<Rightarrow> False | Some e \<Rightarrow> IsEnglishWord e)\<rparr>"

definition ToneEscapeGate :: "'m Host_scheme Gate" where
  "ToneEscapeGate = \<lparr>gateId = ToneEscape, IsRaised = (\<lambda>_ h.
     case hostEngine h of None \<Rightarrow> False | Some e \<Rightarrow> IsToneEscaped e)\<rparr>"

subsection \<open>The coordinator\<close>

record 'h Coordinator =
  features :: "(Stage, KeyContext, 'h \<times> OutputChannel) buckets"
  gates :: "'h Gate list"

definition newCoordinator :: "'h Coordinator" where
  "newCoordinator = \<lparr>features = (\<lambda>_. []), gates = []\<rparr>"

definition RegisterFeature :: "'h Feature \<Rightarrow> 'h Coordinator \<Rightarrow> 'h Coordinator" where
  "RegisterFeature f co = co\<lparr>features := registerHandler f (features co)\<rparr>"

definition RegisterGate :: "'h Gate \<Rightarrow> 'h Coordinator \<Rightarrow> 'h Coordinator" where
  "RegisterGate g co = co\<lparr>gates := gates co @ [g]\<rparr>"

definition EvaluateGatesAll :: "'h Coordinator \<Rightarrow> KeyContext \<Rightarrow> 'h \<Rightarrow> GateMask" where
  "EvaluateGatesAll co ctx h =
     fold (\<lambda>g raised. if IsRaised g ctx h then raised OR GateMaskFor (gateId g) else raised) (gates co) 0"

text \<open>The loop over the stages: \<open>Handled\<close> ends a stage, \<open>Veto\<close> ends the dispatch.\<close>

fun runStages ::
  "GateMask \<Rightarrow> KeyContext \<Rightarrow> 'h Feature list list \<Rightarrow> 'h \<times> OutputChannel \<Rightarrow> 'h \<times> OutputChannel" where
  "runStages raised ctx [] s = s"
| "runStages raised ctx (b # bs) s =
    (case runBucket raised ctx b s of
       (s', Veto) \<Rightarrow> s'
     | (s', _) \<Rightarrow> runStages raised ctx bs s')"

definition HandleKey :: "'h Coordinator \<Rightarrow> KeyContext \<Rightarrow> 'h \<times> OutputChannel \<Rightarrow> 'h \<times> OutputChannel" where
  "HandleKey co ctx s =
     runStages (EvaluateGatesAll co ctx (fst s)) ctx (map (features co) [PreEngine, EngineStage, PostEngine]) s"

definition HandleKeyAtStage ::
  "'h Coordinator \<Rightarrow> Stage \<Rightarrow> KeyContext \<Rightarrow> 'h \<times> OutputChannel \<Rightarrow> 'h \<times> OutputChannel" where
  "HandleKeyAtStage co stage ctx s =
     fst (runBucket (EvaluateGatesAll co ctx (fst s)) ctx (features co stage) s)"

definition FeatureCountAtStage :: "'h Coordinator \<Rightarrow> Stage \<Rightarrow> nat" where
  "FeatureCountAtStage co s = length (features co s)"

definition GateCount :: "'h Coordinator \<Rightarrow> nat" where
  "GateCount co = length (gates co)"

interpretation coordinator: priority_table hSlot hPriority newCoordinator RegisterFeature features
  by unfold_locales (auto simp: newCoordinator_def RegisterFeature_def registerHandler_def)

text \<open>The registrations of the constructor of \<open>HookEngine\<close>, in its order.\<close>

definition hookCoordinator :: "'m Host_scheme Executors \<Rightarrow> 'm Host_scheme Coordinator" where
  "hookCoordinator ex =
     fold RegisterFeature [BackwardEditFeature ex, CommitUndoFeature ex, EscRestoreRawFeature ex, MacroFeature ex]
       (RegisterGate ToneEscapeGate (RegisterGate SpellCheckGate (RegisterGate EnglishBiasGate newCoordinator)))"

subsection \<open>Gates\<close>

lemma bit_GateMaskFor: "bit (GateMaskFor g) n \<longleftrightarrow> n = gateIndex g"
proof -
  have "gateIndex g < 32" by (cases g) simp_all
  then show ?thesis by (auto simp: GateMaskFor_def bit_exp_iff)
qed

lemma GateMaskHas_bit: "GateMaskHas gm g \<longleftrightarrow> bit gm (gateIndex g)"
proof -
  have "gm AND GateMaskFor g \<noteq> 0 \<longleftrightarrow> (\<exists>n. bit (gm AND GateMaskFor g) n)"
    by (metis bit_0_eq bit_eq_iff bot_apply bot_bool_def)
  then show ?thesis by (simp add: GateMaskHas_def bit_and_iff bit_GateMaskFor)
qed

lemma gateIndex_eq [simp]: "gateIndex a = gateIndex b \<longleftrightarrow> a = b"
  by (cases a; cases b) simp_all

lemma fold_gates_bit:
  "bit (fold (\<lambda>g raised. if IsRaised g ctx h then raised OR GateMaskFor (gateId g) else raised) gs m) (gateIndex i)
   \<longleftrightarrow> bit m (gateIndex i) \<or> (\<exists>g\<in>set gs. gateId g = i \<and> IsRaised g ctx h)"
  by (induction gs arbitrary: m) (auto simp: bit_or_iff bit_GateMaskFor)

lemma EvaluateGatesAll_has:
  "GateMaskHas (EvaluateGatesAll co ctx h) i \<longleftrightarrow> (\<exists>g\<in>set (gates co). gateId g = i \<and> IsRaised g ctx h)"
  by (simp add: GateMaskHas_bit EvaluateGatesAll_def fold_gates_bit)

subsection \<open>Registration order\<close>

lemma filter_key_inj:
  assumes "inj_on f (set zs \<union> {k})"
  shows "filter (\<lambda>x. f k = f x) zs = replicate (count (mset zs) k) k"
  using assms
proof (induction zs)
  case (Cons z zs)
  then have "inj_on f (set zs \<union> {k})" by (auto intro: inj_on_subset)
  moreover have "f k = f z \<longleftrightarrow> z = k" using Cons.prems by (auto simp: inj_on_def)
  ultimately show ?case using Cons.IH by auto
qed simp

lemma sort_key_perm:
  assumes "mset xs = mset ys" "inj_on f (set xs)"
  shows "sort_key f xs = sort_key f ys"
proof (rule properties_for_sort_key)
  show "mset (sort_key f ys) = mset xs" using assms(1) by simp
  fix k assume "k \<in> set (sort_key f ys)"
  moreover have "set xs = set ys" using assms(1) by (metis set_mset_mset)
  ultimately have i: "inj_on f (set xs \<union> {k})" "inj_on f (set ys \<union> {k})"
    using assms(2) by (auto simp: insert_absorb)
  have "inj_on f (set (sort_key f ys) \<union> {k})" using i(2) by simp
  from filter_key_inj[OF this] filter_key_inj[OF i(1)] assms(1)
  show "filter (\<lambda>x. f k = f x) (sort_key f ys) = filter (\<lambda>x. f k = f x) xs" by simp
qed simp

lemma features_perm:
  assumes "mset fs = mset gs" "inj_on hPriority (set fs)"
  shows "features (fold RegisterFeature fs newCoordinator) p = features (fold RegisterFeature gs newCoordinator) p"
  unfolding coordinator.bucket_fold
  by (rule sort_key_perm) (use assms in \<open>auto simp: mset_filter intro: inj_on_subset\<close>)

subsection \<open>The hook's coordinator\<close>

lemma features_RegisterGate [simp]: "features (RegisterGate g co) = features co"
  by (simp add: RegisterGate_def)

lemma gates_RegisterFeature [simp]: "gates (fold RegisterFeature fs co) = gates co"
  by (induction fs arbitrary: co) (simp_all add: RegisterFeature_def)

lemma features_fold_cong:
  "features co = features co' \<Longrightarrow> features (fold RegisterFeature fs co) = features (fold RegisterFeature fs co')"
  by (induction fs arbitrary: co co') (simp_all add: RegisterFeature_def)

lemma hookCoordinator_buckets:
  "features (hookCoordinator ex) PreEngine = [CommitUndoFeature ex, MacroFeature ex, EscRestoreRawFeature ex]"
  "features (hookCoordinator ex) EngineStage = []"
  "features (hookCoordinator ex) PostEngine = [BackwardEditFeature ex]"
proof -
  have "features (hookCoordinator ex) p = features (fold RegisterFeature
      [BackwardEditFeature ex, CommitUndoFeature ex, EscRestoreRawFeature ex, MacroFeature ex] newCoordinator) p" for p
    unfolding hookCoordinator_def by (rule fun_cong[OF features_fold_cong]) simp
  note f = this[unfolded coordinator.bucket_fold]
  show "features (hookCoordinator ex) PreEngine = [CommitUndoFeature ex, MacroFeature ex, EscRestoreRawFeature ex]"
    "features (hookCoordinator ex) EngineStage = []"
    "features (hookCoordinator ex) PostEngine = [BackwardEditFeature ex]"
    by (simp_all add: f CommitUndoFeature_def MacroFeature_def EscRestoreRawFeature_def BackwardEditFeature_def)
qed

lemma hookCoordinator_gates:
  "gates (hookCoordinator ex) = [EnglishBiasGate, SpellCheckGate, ToneEscapeGate]"
  unfolding hookCoordinator_def gates_RegisterFeature by (simp add: RegisterGate_def newCoordinator_def)

lemma hook_English_gate:
  "GateMaskFor EnglishBias AND EvaluateGatesAll (hookCoordinator ex) ctx h \<noteq> 0 \<longleftrightarrow> \<not> vnMode h"
proof -
  have "GateMaskFor EnglishBias AND EvaluateGatesAll (hookCoordinator ex) ctx h \<noteq> 0 \<longleftrightarrow>
      GateMaskHas (EvaluateGatesAll (hookCoordinator ex) ctx h) EnglishBias"
    by (simp add: GateMaskHas_def and.commute)
  then show ?thesis
    by (simp add: EvaluateGatesAll_has hookCoordinator_gates EnglishBiasGate_def SpellCheckGate_def ToneEscapeGate_def)
qed

text \<open>The chain of the three features that see a key before the engine, with the verdict the hook
  reads from the channel.\<close>

definition preEngineChain ::
  "'h Executors \<Rightarrow> KeyContext \<Rightarrow> 'h \<Rightarrow> 'h \<times> Intent option \<times> RuleResult" where
  "preEngineChain ex ctx h0 =
    (case HandleCommitUndo ex (kVk ctx) (kShift ctx) (kCapsLock ctx) (kCtrl ctx) (kAlt ctx) (kWin ctx) h0 of
       (h1, CuEat) \<Rightarrow> (h1, Some ConsumeKey, Handled)
     | (h1, CuPass) \<Rightarrow> (h1, Some PassThrough, Veto)
     | (h1, CuFallthrough) \<Rightarrow>
         let (h2, m) = HandleMacro ex (kVk ctx) (kShift ctx) (kCapsLock ctx) (kCtrl ctx) (kAlt ctx) (kWin ctx) h1 in
         if m = MEat then (h2, Some ConsumeKey, Handled)
         else if m = MPass then (h2, Some PassThrough, Veto)
         else
           let (h3, r) = TryEscRestore ex (kVk ctx) (kShift ctx) (kCtrl ctx) (kAlt ctx) (kWin ctx) h2 in
           if r = EscEat then (h3, Some ConsumeKey, Handled) else (h3, None, Pass))"

definition emitVerdict :: "Intent option \<Rightarrow> OutputChannel \<Rightarrow> OutputChannel" where
  "emitVerdict v ch = (case v of None \<Rightarrow> ch | Some i \<Rightarrow> Emit i ch)"

lemma runBucket_preEngine:
  "runBucket raised ctx [CommitUndoFeature ex, MacroFeature ex, EscRestoreRawFeature ex] (h, ch) =
    (case preEngineChain ex ctx h of (h', v, r) \<Rightarrow> ((h', emitVerdict v ch), r))"
  by (auto simp: CommitUndoFeature_def MacroFeature_def EscRestoreRawFeature_def
      CommitUndoFeature_Try_def MacroFeature_Try_def EscRestoreRawFeature_Try_def preEngineChain_def
      emitVerdict_def Let_def split: prod.splits CommitUndoOutcome.splits MacroOutcome.splits
      EscRestoreOutcome.splits)

lemma runBucket_postEngine:
  "runBucket raised ctx [BackwardEditFeature ex] (h, ch) =
    (if GateMaskFor EnglishBias AND raised \<noteq> 0 then ((h, ch), Pass)
     else ((ExecuteReplace ex (engineRendered ctx) (reinjectVk ctx) h, ch), Handled))"
  by (simp add: BackwardEditFeature_def BackwardEditFeature_Try_def)

subsection \<open>Properties\<close>

text \<open>A keystroke handed to the hook's coordinator before the engine goes through commit undo, the
  macros and the raw restore in this order; the first that consumes or passes the key decides, later
  ones are not asked, and the channel receives at most one verdict.\<close>

theorem pre_engine_verdict:
  "HandleKeyAtStage (hookCoordinator ex) PreEngine ctx (h, ch) =
     (case preEngineChain ex ctx h of (h', v, r) \<Rightarrow> (h', emitVerdict v ch))"
  by (simp add: HandleKeyAtStage_def hookCoordinator_buckets runBucket_preEngine del: runBucket.simps split: prod.split)

text \<open>C26. A full dispatch replaces the text on screen exactly when no feature before the engine vetoed
  the key and Vietnamese mode was on when the dispatch began.\<close>

theorem dispatch_outcome:
  "HandleKey (hookCoordinator ex) ctx (h, ch) =
     (case preEngineChain ex ctx h of (h', v, r) \<Rightarrow>
        (if r \<noteq> Veto \<and> vnMode h then ExecuteReplace ex (engineRendered ctx) (reinjectVk ctx) h' else h',
         emitVerdict v ch))"
proof -
  obtain h' v r where p: "preEngineChain ex ctx h = (h', v, r)" by (metis prod_cases3)
  show ?thesis using hook_English_gate[of ex ctx h]
    by (cases r) (simp_all add: HandleKey_def hookCoordinator_buckets runBucket_preEngine runBucket_postEngine p
        del: runBucket.simps(2))
qed

text \<open>The order in which features are registered does not matter when their priorities differ:
  every stage runs them by priority.\<close>

theorem registration_order_irrelevant:
  assumes "mset fs = mset gs" "inj_on hPriority (set fs)"
  shows "features (fold RegisterFeature fs newCoordinator) stage =
         features (fold RegisterFeature gs newCoordinator) stage"
  by (rule features_perm[OF assms])

definition inertExecutors :: "Host Executors" where
  "inertExecutors = \<lparr>HandleCommitUndo = (\<lambda>_ _ _ _ _ _ h. (h, CuFallthrough)),
     HandleMacro = (\<lambda>_ _ _ _ _ _ h. (h, MNoOp)), TryEscRestore = (\<lambda>_ _ _ _ _ h. (h, EscFallthrough)),
     ExecuteReplace = (\<lambda>_ _ h. h)\<rparr>"

theorem registration_order_irrelevant_witness:
  "features (fold RegisterFeature [MacroFeature inertExecutors, CommitUndoFeature inertExecutors] newCoordinator) PreEngine =
   features (fold RegisterFeature [CommitUndoFeature inertExecutors, MacroFeature inertExecutors] newCoordinator) PreEngine"
  by (rule registration_order_irrelevant) (simp_all add: CommitUndoFeature_def MacroFeature_def)

text \<open>Intents are delivered in the order they were emitted and never leak into the next keystroke,
  through either way of emptying the channel.\<close>

theorem intents_delivered_once:
  "snd (DrainBatch (fold Emit ys (fst (DrainBatch (fold Emit xs newOutputChannel))))) = ys \<and>
   snd (DrainBatch (fold Emit xs newOutputChannel)) = xs \<and>
   snd (TakeBatch (fold Emit ys (fst (TakeBatch (fold Emit xs newOutputChannel))))) = ys \<and>
   snd (TakeBatch (fold Emit xs newOutputChannel)) = xs"
  by (simp add: draining.drain_twice taking.drain_twice draining.drain_fold taking.drain_fold
      draining.pending_drain taking.pending_drain newOutputChannel_def)

end
