(* ===== verification/Seqlock.thy ===== *)
theory Seqlock
  imports Prelude
begin

text \<open>
  The sequence lock by which VKey publishes shared memory: \<open>PublishStagedBufferToWire\<close> and
  \<open>ReadWireToLocalBuffer\<close> of \<open>src/core/ipc/LexiconWireFormat.h\<close> and \<open>WriteAnchorSeqlock\<close> and
  \<open>ReadAnchorSeqlock\<close> of \<open>src/core/ipc/SharedState.h\<close>.

  Writers and one reader interleave cell by cell, in the order their loops copy the cells; the
  fences of the sources make the accesses of the protocol sequentially consistent.  The counter is
  the number of increments so far, and what the code sees of it is that number modulo \<open>2\<^sup>3\<^sup>2\<close>.  The
  last four fields are ghosts for the statements.
\<close>

datatype 'v readerPc =
    Trying nat
  | Copying nat nat "nat \<Rightarrow> 'v" nat
  | Returned "nat \<Rightarrow> 'v"
  | GaveUp

record 'v seqState =
  counter :: nat
  cells :: "nat \<Rightarrow> 'v"
  writing :: "nat \<Rightarrow> ((nat \<Rightarrow> 'v) \<times> nat) option"
  reading :: "'v readerPc"
  published :: "(nat \<Rightarrow> 'v) list"
  readFrom :: nat
  readTo :: nat
  snapshot :: "nat \<Rightarrow> 'v"

definition seqWord :: "nat \<Rightarrow> nat" where
  "seqWord n = n mod 2 ^ 32"

definition seqInit :: "(nat \<Rightarrow> 'v) \<Rightarrow> 'v seqState" where
  "seqInit m = \<lparr>counter = 0, cells = m, writing = (\<lambda>_. None), reading = Trying 0, published = [m],
     readFrom = 0, readTo = 0, snapshot = m\<rparr>"

text \<open>\<open>wc\<close> and \<open>rc\<close> are the cells in the order the writer and the reader copy them, \<open>retries\<close> is the
  bound of the reader's loop, \<open>ids\<close> the writers there are and \<open>ok\<close> what they publish.\<close>

inductive seqStep ::
  "nat list \<Rightarrow> nat list \<Rightarrow> nat \<Rightarrow> nat set \<Rightarrow> ((nat \<Rightarrow> 'v) \<Rightarrow> bool) \<Rightarrow> 'v seqState \<Rightarrow> 'v seqState \<Rightarrow> bool"
  for wc rc :: "nat list" and retries :: nat and ids :: "nat set" and ok :: "(nat \<Rightarrow> 'v) \<Rightarrow> bool"
where
  BeginWrite: "seqStep wc rc retries ids ok s
     (s\<lparr>counter := counter s + 1, writing := (writing s)(w := Some (src, 0))\<rparr>)"
    if "w \<in> ids" "writing s w = None" "ok src"
| WriteCell: "seqStep wc rc retries ids ok s
     (s\<lparr>cells := (cells s)(wc ! k := src (wc ! k)), writing := (writing s)(w := Some (src, k + 1))\<rparr>)"
    if "writing s w = Some (src, k)" "k < length wc"
| EndWrite: "seqStep wc rc retries ids ok s
     (s\<lparr>counter := counter s + 1, writing := (writing s)(w := None), published := src # published s\<rparr>)"
    if "writing s w = Some (src, length wc)"
| BeginRead: "seqStep wc rc retries ids ok s
     (s\<lparr>reading := Copying a (seqWord (counter s)) buf 0, readFrom := counter s, snapshot := hd (published s)\<rparr>)"
    if "reading s = Trying a" "a < retries" "even (seqWord (counter s))"
| BusyRead: "seqStep wc rc retries ids ok s (s\<lparr>reading := Trying (a + 1)\<rparr>)"
    if "reading s = Trying a" "a < retries" "odd (seqWord (counter s))"
| ReadCell: "seqStep wc rc retries ids ok s
     (s\<lparr>reading := Copying a g (buf(rc ! k := cells s (rc ! k))) (k + 1)\<rparr>)"
    if "reading s = Copying a g buf k" "k < length rc"
| Validate: "seqStep wc rc retries ids ok s (s\<lparr>reading := Returned buf, readTo := counter s\<rparr>)"
    if "reading s = Copying a g buf (length rc)" "seqWord (counter s) = g" "even g"
| Retry: "seqStep wc rc retries ids ok s (s\<lparr>reading := Trying (a + 1)\<rparr>)"
    if "reading s = Copying a g buf (length rc)" "seqWord (counter s) \<noteq> g"
| GiveUp: "seqStep wc rc retries ids ok s (s\<lparr>reading := GaveUp\<rparr>)"
    if "reading s = Trying a" "\<not> a < retries"

abbreviation seqReach where
  "seqReach wc rc retries ids ok m \<equiv> (seqStep wc rc retries ids ok)\<^sup>*\<^sup>* (seqInit m)"

section \<open>The invariant of a single writer\<close>

definition writerInv :: "nat list \<Rightarrow> 'v seqState \<Rightarrow> bool" where
  "writerInv wc s \<longleftrightarrow> published s \<noteq> [] \<and> (\<forall>w. w \<noteq> 0 \<longrightarrow> writing s w = None) \<and>
    (case writing s 0 of
       None \<Rightarrow> even (counter s) \<and> (\<forall>j\<in>set wc. cells s j = hd (published s) j)
     | Some (src, k) \<Rightarrow> odd (counter s) \<and> k \<le> length wc \<and> (\<forall>j\<in>set (take k wc). cells s j = src j))"

definition readerInv :: "nat list \<Rightarrow> nat list \<Rightarrow> 'v seqState \<Rightarrow> bool" where
  "readerInv wc rc s \<longleftrightarrow> (case reading s of
     Copying a g buf k \<Rightarrow> g = seqWord (readFrom s) \<and> even (readFrom s) \<and> readFrom s \<le> counter s \<and>
       k \<le> length rc \<and> snapshot s \<in> set (published s) \<and>
       (counter s = readFrom s \<longrightarrow> hd (published s) = snapshot s \<and>
         (\<forall>j\<in>set (take k rc) \<inter> set wc. buf j = snapshot s j))
   | Returned buf \<Rightarrow> snapshot s \<in> set (published s) \<and>
       (readTo s - readFrom s < 2 ^ 32 \<longrightarrow> (\<forall>j\<in>set rc \<inter> set wc. buf j = snapshot s j))
   | _ \<Rightarrow> True)"

lemma even_seqWord [simp]: "even (seqWord n) \<longleftrightarrow> even n"
  by (simp add: seqWord_def dvd_mod_iff)

lemma seqWord_eq:
  assumes "seqWord n = seqWord m" "m \<le> n" "n - m < 2 ^ 32"
  shows "n = m"
proof -
  have "(2 ^ 32 :: nat) dvd n - m"
    using assms(1,2) by (metis mod_eq_dvd_iff_nat seqWord_def)
  then show ?thesis using assms(2,3) by (metis dvd_imp_le diff_is_0_eq le_antisym linorder_not_le not_gr_zero)
qed

lemma set_take_Suc: "k < length xs \<Longrightarrow> set (take (Suc k) xs) = insert (xs ! k) (set (take k xs))"
  by (simp add: take_Suc_conv_app_nth)

lemma writerInv_reader [simp]:
  "writerInv wc (s\<lparr>reading := r\<rparr>) = writerInv wc s"
  "writerInv wc (s\<lparr>readTo := n\<rparr>) = writerInv wc s"
  "writerInv wc (s\<lparr>readFrom := n\<rparr>) = writerInv wc s"
  "writerInv wc (s\<lparr>snapshot := p\<rparr>) = writerInv wc s"
  by (simp_all add: writerInv_def split: option.split)

lemma seqStep_inv:
  assumes "seqStep wc rc retries ids ok s s'" "ids \<subseteq> {0}" "writerInv wc s" "readerInv wc rc s"
  shows "writerInv wc s' \<and> readerInv wc rc s'"
  using assms
proof (induction rule: seqStep.induct)
  case (BeginWrite w s src)
  then show ?case
    by (auto simp: writerInv_def readerInv_def split: readerPc.splits option.splits)
next
  case (WriteCell s w src k)
  then have "w = 0" by (auto simp: writerInv_def)
  with WriteCell have "odd (counter s)" by (auto simp: writerInv_def)
  with WriteCell \<open>w = 0\<close> show ?case
    by (auto simp: writerInv_def readerInv_def set_take_Suc split: readerPc.splits)
next
  case (EndWrite s w src)
  then have "w = 0" by (auto simp: writerInv_def)
  with EndWrite show ?case
    by (auto simp: writerInv_def readerInv_def split: readerPc.splits)
next
  case (BeginRead s a buf)
  then show ?case by (auto simp: writerInv_def readerInv_def split: option.splits)
next
  case (ReadCell s a g buf k)
  have "cells s (rc ! k) = snapshot s (rc ! k)" if "counter s = readFrom s" "rc ! k \<in> set wc"
    using ReadCell that by (auto simp: writerInv_def readerInv_def split: option.splits)
  with ReadCell show ?case
    by (auto simp: readerInv_def set_take_Suc)
next
  case (Validate s a g buf)
  then have "counter s = readFrom s" if "counter s - readFrom s < 2 ^ 32"
    using that by (simp add: readerInv_def seqWord_eq)
  with Validate show ?case by (simp add: readerInv_def)
qed (simp_all add: readerInv_def)

lemma seqInit_inv: "writerInv wc (seqInit m) \<and> readerInv wc rc (seqInit m)"
  by (simp add: writerInv_def readerInv_def seqInit_def)

lemma seqReach_inv:
  assumes "seqReach wc rc retries ids ok m s" "ids \<subseteq> {0}"
  shows "writerInv wc s \<and> readerInv wc rc s"
  using assms(1)
proof (induction rule: rtranclp_induct)
  case base
  then show ?case by (rule seqInit_inv)
next
  case (step s s')
  then show ?case using seqStep_inv[OF step(2) assms(2)] by blast
qed

definition sourceInv :: "((nat \<Rightarrow> 'v) \<Rightarrow> bool) \<Rightarrow> (nat \<Rightarrow> 'v) \<Rightarrow> 'v seqState \<Rightarrow> bool" where
  "sourceInv ok m s \<longleftrightarrow> (\<forall>p\<in>set (published s). p = m \<or> ok p) \<and> (\<forall>w src k. writing s w = Some (src, k) \<longrightarrow> ok src)"

lemma seqReach_source:
  assumes "seqReach wc rc retries ids ok m s"
  shows "sourceInv ok m s"
  using assms
proof (induction rule: rtranclp_induct)
  case (step s s')
  from step(2,3) show ?case
    by (induction rule: seqStep.induct) (fastforce simp: sourceInv_def split: if_splits)+
qed (simp add: sourceInv_def seqInit_def)

section \<open>Undisturbed runs\<close>

lemma write_run:
  assumes "writing s w = Some (src, 0)" "k \<le> length wc"
  shows "\<exists>c. (seqStep wc rc retries ids ok)\<^sup>*\<^sup>* s
      (s\<lparr>cells := c, writing := (writing s)(w := Some (src, k))\<rparr>) \<and> (\<forall>j\<in>set (take k wc). c j = src j)"
  using assms(2)
proof (induction k)
  case 0
  have "s\<lparr>cells := cells s, writing := (writing s)(w := Some (src, 0))\<rparr> = s"
    using assms(1) by (simp add: fun_upd_idem)
  then show ?case by (metis rtranclp.rtrancl_refl take0 empty_iff list.set(1))
next
  case (Suc k)
  then obtain c where c: "(seqStep wc rc retries ids ok)\<^sup>*\<^sup>* s
      (s\<lparr>cells := c, writing := (writing s)(w := Some (src, k))\<rparr>)" "\<forall>j\<in>set (take k wc). c j = src j"
    using Suc_leD by blast
  let ?t = "s\<lparr>cells := c, writing := (writing s)(w := Some (src, k))\<rparr>"
  have "seqStep wc rc retries ids ok ?t
      (s\<lparr>cells := c(wc ! k := src (wc ! k)), writing := (writing s)(w := Some (src, Suc k))\<rparr>)"
    using seqStep.WriteCell[of ?t w src k wc rc retries ids ok] Suc.prems by simp
  with c(1) have "(seqStep wc rc retries ids ok)\<^sup>*\<^sup>* s
      (s\<lparr>cells := c(wc ! k := src (wc ! k)), writing := (writing s)(w := Some (src, Suc k))\<rparr>)"
    by (rule rtranclp.rtrancl_into_rtrancl)
  moreover have "\<forall>j\<in>set (take (Suc k) wc). (c(wc ! k := src (wc ! k))) j = src j"
    using c(2) Suc.prems by (simp add: set_take_Suc)
  ultimately show ?case by (intro exI conjI)
qed

lemma read_run:
  assumes "reading s = Copying a g buf 0" "k \<le> length rc"
  shows "\<exists>b. (seqStep wc rc retries ids ok)\<^sup>*\<^sup>* s (s\<lparr>reading := Copying a g b k\<rparr>) \<and>
    (\<forall>j\<in>set (take k rc). b j = cells s j)"
  using assms(2)
proof (induction k)
  case 0
  have "s\<lparr>reading := Copying a g buf 0\<rparr> = s" using assms(1) by simp
  then show ?case by (metis rtranclp.rtrancl_refl take0 empty_iff list.set(1))
next
  case (Suc k)
  then obtain b where b: "(seqStep wc rc retries ids ok)\<^sup>*\<^sup>* s (s\<lparr>reading := Copying a g b k\<rparr>)"
      "\<forall>j\<in>set (take k rc). b j = cells s j"
    using Suc_leD by blast
  let ?t = "s\<lparr>reading := Copying a g b k\<rparr>"
  have "seqStep wc rc retries ids ok ?t (s\<lparr>reading := Copying a g (b(rc ! k := cells s (rc ! k))) (Suc k)\<rparr>)"
    using seqStep.ReadCell[of ?t a g b k rc wc retries ids ok] Suc.prems by simp
  with b(1) have "(seqStep wc rc retries ids ok)\<^sup>*\<^sup>* s
      (s\<lparr>reading := Copying a g (b(rc ! k := cells s (rc ! k))) (Suc k)\<rparr>)"
    by (rule rtranclp.rtrancl_into_rtrancl)
  moreover have "\<forall>j\<in>set (take (Suc k) rc). (b(rc ! k := cells s (rc ! k))) j = cells s j"
    using b(2) Suc.prems by (simp add: set_take_Suc)
  ultimately show ?case by (intro exI conjI)
qed

lemma quiet_publish:
  assumes "writing s 0 = None" "ok src"
  shows "\<exists>c. (seqStep wc rc retries {0} ok)\<^sup>*\<^sup>* s (s\<lparr>counter := counter s + 2, cells := c, published := src # published s\<rparr>) \<and>
    (\<forall>j\<in>set wc. c j = src j)"
proof -
  let ?s1 = "s\<lparr>counter := counter s + 1, writing := (writing s)(0 := Some (src, 0))\<rparr>"
  have 1: "seqStep wc rc retries {0} ok s ?s1" by (rule seqStep.BeginWrite) (use assms in simp_all)
  obtain c where c: "(seqStep wc rc retries {0} ok)\<^sup>*\<^sup>* ?s1
      (?s1\<lparr>cells := c, writing := (writing ?s1)(0 := Some (src, length wc))\<rparr>)"
      "\<forall>j\<in>set (take (length wc) wc). c j = src j"
    using write_run[of ?s1 0 src "length wc" wc rc retries "{0}" ok, OF _ le_refl] by fastforce
  let ?s2 = "?s1\<lparr>cells := c, writing := (writing ?s1)(0 := Some (src, length wc))\<rparr>"
  have "(writing s)(0 := None) = writing s" using assms(1) by (simp add: fun_upd_idem)
  then have "seqStep wc rc retries {0} ok ?s2 (s\<lparr>counter := counter s + 2, cells := c, published := src # published s\<rparr>)"
    using seqStep.EndWrite[of ?s2 0 src wc rc retries "{0}" ok] by (cases s) simp
  then have "(seqStep wc rc retries {0} ok)\<^sup>*\<^sup>* s (s\<lparr>counter := counter s + 2, cells := c, published := src # published s\<rparr>)"
    using 1 c(1) by (meson converse_rtranclp_into_rtranclp rtranclp.rtrancl_into_rtrancl)
  then show ?thesis using c(2) by auto
qed

lemma quiet_read:
  assumes "reading s = Trying a" "a < retries" "even (counter s)"
  shows "\<exists>b s'. (seqStep wc rc retries ids ok)\<^sup>*\<^sup>* s s' \<and> reading s' = Returned b \<and>
    readTo s' = readFrom s' \<and> published s' = published s \<and> (\<forall>j\<in>set rc. b j = cells s j)"
proof -
  let ?s1 = "s\<lparr>reading := Copying a (seqWord (counter s)) (cells s) 0, readFrom := counter s, snapshot := hd (published s)\<rparr>"
  have 1: "seqStep wc rc retries ids ok s ?s1" by (rule seqStep.BeginRead) (use assms in simp_all)
  obtain b where b: "(seqStep wc rc retries ids ok)\<^sup>*\<^sup>* ?s1 (?s1\<lparr>reading := Copying a (seqWord (counter s)) b (length rc)\<rparr>)"
      "\<forall>j\<in>set rc. b j = cells s j"
    using read_run[of ?s1 a "seqWord (counter s)" "cells s" "length rc" rc wc retries ids ok] by auto
  let ?s2 = "?s1\<lparr>reading := Copying a (seqWord (counter s)) b (length rc)\<rparr>"
  have 2: "seqStep wc rc retries ids ok ?s2 (?s2\<lparr>reading := Returned b, readTo := counter ?s2\<rparr>)"
    by (rule seqStep.Validate[where a = a and g = "seqWord (counter s)"]) (use assms in simp_all)
  have "(seqStep wc rc retries ids ok)\<^sup>*\<^sup>* s (?s2\<lparr>reading := Returned b, readTo := counter ?s2\<rparr>)"
    using 1 b(1) 2 by (meson converse_rtranclp_into_rtranclp rtranclp.rtrancl_into_rtrancl)
  then show ?thesis using b(2)
    by - (rule exI[of _ b], rule exI[of _ "?s2\<lparr>reading := Returned b, readTo := counter ?s2\<rparr>"], simp)
qed

section \<open>Two writers\<close>

text \<open>A run with two writers: both begin, so that the counter is even again, and the first has written
  one of the two cells when the reader copies both.\<close>

definition twoWriters :: "nat seqState list" where
  "twoWriters =
    (let s0 = seqInit (\<lambda>_. 0);
         s1 = s0\<lparr>counter := 1, writing := (writing s0)(0 := Some (\<lambda>_. 1, 0))\<rparr>;
         s2 = s1\<lparr>counter := 2, writing := (writing s1)(1 := Some (\<lambda>_. 2, 0))\<rparr>;
         s3 = s2\<lparr>cells := (cells s2)(0 := 1), writing := (writing s2)(0 := Some (\<lambda>_. 1, 1))\<rparr>;
         s4 = s3\<lparr>reading := Copying 0 2 (\<lambda>_. 0) 0, readFrom := 2, snapshot := \<lambda>_. 0\<rparr>;
         s5 = s4\<lparr>reading := Copying 0 2 ((\<lambda>_. 0)(0 := 1)) 1\<rparr>;
         s6 = s5\<lparr>reading := Copying 0 2 ((\<lambda>_. 0)(0 := 1, 1 := 0)) 2\<rparr>;
         s7 = s6\<lparr>reading := Returned ((\<lambda>_. 0)(0 := 1, 1 := 0)), readTo := 2\<rparr>
     in [s0, s1, s2, s3, s4, s5, s6, s7])"

abbreviation twoCells where "twoCells \<equiv> seqStep [0, 1] [0, 1] 3 {0, 1} (\<lambda>_. True)"

lemma twoWriters_steps:
  "twoCells (twoWriters ! 0) (twoWriters ! 1)" "twoCells (twoWriters ! 1) (twoWriters ! 2)"
  "twoCells (twoWriters ! 2) (twoWriters ! 3)" "twoCells (twoWriters ! 3) (twoWriters ! 4)"
  "twoCells (twoWriters ! 4) (twoWriters ! 5)" "twoCells (twoWriters ! 5) (twoWriters ! 6)"
  "twoCells (twoWriters ! 6) (twoWriters ! 7)"
proof -
  note defs = twoWriters_def seqInit_def Let_def
  show "twoCells (twoWriters ! 0) (twoWriters ! 1)"
    using seqStep.BeginWrite[of 0 "{0, 1}" "twoWriters ! 0" "\<lambda>_. True" "\<lambda>_. 1" "[0, 1]" "[0, 1]" 3]
    by (simp add: defs)
  show "twoCells (twoWriters ! 1) (twoWriters ! 2)"
    using seqStep.BeginWrite[of 1 "{0, 1}" "twoWriters ! 1" "\<lambda>_. True" "\<lambda>_. 2" "[0, 1]" "[0, 1]" 3]
    by (simp add: defs numeral_2_eq_2)
  show "twoCells (twoWriters ! 2) (twoWriters ! 3)"
    using seqStep.WriteCell[of "twoWriters ! 2" 0 "\<lambda>_. 1" 0 "[0, 1]" "[0, 1]" 3 "{0, 1}" "\<lambda>_. True"]
    by (simp add: defs)
  show "twoCells (twoWriters ! 3) (twoWriters ! 4)"
    using seqStep.BeginRead[of "twoWriters ! 3" 0 3 "[0, 1]" "[0, 1]" "{0, 1}" "\<lambda>_. True" "\<lambda>_. 0"]
    by (simp add: defs seqWord_def)
  show "twoCells (twoWriters ! 4) (twoWriters ! 5)"
    using seqStep.ReadCell[of "twoWriters ! 4" 0 2 "\<lambda>_. 0" 0 "[0, 1]" "[0, 1]" 3 "{0, 1}" "\<lambda>_. True"]
    by (simp add: defs)
  show "twoCells (twoWriters ! 5) (twoWriters ! 6)"
    using seqStep.ReadCell[of "twoWriters ! 5" 0 2 "(\<lambda>_. 0)(0 := 1)" 1 "[0, 1]" "[0, 1]" 3 "{0, 1}" "\<lambda>_. True"]
    by (simp add: defs numeral_2_eq_2)
  show "twoCells (twoWriters ! 6) (twoWriters ! 7)"
    using seqStep.Validate[of "twoWriters ! 6" 0 2 "(\<lambda>_. 0)(0 := 1, 1 := 0)" "[0, 1]" "[0, 1]" 3 "{0, 1}" "\<lambda>_. True"]
    by (simp add: defs seqWord_def)
qed

lemma twoWriters_reach:
  "seqReach [0, 1] [0, 1] 3 {0, 1} (\<lambda>_. True) (\<lambda>_. 0) (twoWriters ! 7)"
proof -
  have "twoWriters ! 0 = seqInit (\<lambda>_. 0)" by (simp add: twoWriters_def Let_def)
  then have "seqReach [0, 1] [0, 1] 3 {0, 1} (\<lambda>_. True) (\<lambda>_. 0) (twoWriters ! 0)" by simp
  then show ?thesis using twoWriters_steps by (meson rtranclp.rtrancl_into_rtrancl)
qed

section \<open>Properties\<close>

text \<open>With a single writer, a read that passes its validation returns one complete published image: no
  cell mixes two publications.  The counter is 32 bits wide, so the writer must not increment it
  \<open>2\<^sup>3\<^sup>2\<close> times during the one read.\<close>

theorem seqlock_no_torn_read:
  assumes "seqReach wc rc retries {0} ok m s" "reading s = Returned buf" "readTo s - readFrom s < 2 ^ 32"
  shows "\<exists>p\<in>set (published s). (p = m \<or> ok p) \<and> (\<forall>j\<in>set rc \<inter> set wc. buf j = p j)"
  using seqReach_inv[OF assms(1)] seqReach_source[OF assms(1)] assms(2,3)
  by (intro bexI[of _ "snapshot s"]) (auto simp: readerInv_def sourceInv_def)

theorem seqlock_no_torn_read_witness:
  "\<exists>(s :: nat seqState) buf p. reading s = Returned buf \<and> p \<in> set (published s) \<and> buf 0 = p 0"
proof -
  let ?s = "seqInit (\<lambda>_. 5 :: nat)"
  let ?s1 = "?s\<lparr>reading := Copying 0 0 (\<lambda>_. 0) 0, readFrom := 0, snapshot := \<lambda>_. 5\<rparr>"
  let ?s2 = "?s1\<lparr>reading := Copying 0 0 ((\<lambda>_. 0)(0 := 5)) 1\<rparr>"
  let ?s3 = "?s2\<lparr>reading := Returned ((\<lambda>_. 0)(0 := 5)), readTo := 0\<rparr>"
  have "seqStep [0] [0] 3 {0} (\<lambda>_. True) ?s ?s1"
    using seqStep.BeginRead[of ?s 0 3 "[0]" "[0]" "{0}" "\<lambda>_. True" "\<lambda>_. 0"] by (simp add: seqInit_def seqWord_def)
  moreover have "seqStep [0] [0] 3 {0} (\<lambda>_. True) ?s1 ?s2"
    using seqStep.ReadCell[of ?s1 0 0 "\<lambda>_. 0" 0 "[0]" "[0]" 3 "{0}" "\<lambda>_. True"] by (simp add: seqInit_def)
  moreover have "seqStep [0] [0] 3 {0} (\<lambda>_. True) ?s2 ?s3"
    using seqStep.Validate[of ?s2 0 0 "(\<lambda>_. 0)(0 := 5)" "[0]" "[0]" 3 "{0}" "\<lambda>_. True"]
    by (simp add: seqInit_def seqWord_def)
  ultimately have "seqReach [0] [0] 3 {0} (\<lambda>_. True) (\<lambda>_. 5) ?s3"
    by (meson rtranclp.rtrancl_into_rtrancl rtranclp.rtrancl_refl)
  then have "\<exists>p\<in>set (published ?s3). (p = (\<lambda>_. 5) \<or> True) \<and> (\<forall>j\<in>set [0] \<inter> set [0]. ((\<lambda>_. 0)(0 := 5)) j = p j)"
    by (rule seqlock_no_torn_read) (simp_all add: seqInit_def fun_eq_iff)
  then obtain p where p: "p \<in> set (published ?s3)" "((\<lambda>_. 0)(0 := 5)) 0 = p 0" by auto
  show ?thesis
    by (rule exI[of _ ?s3], rule exI[of _ "(\<lambda>_. 0)(0 := 5)"], rule exI[of _ p]) (use p in simp)
qed

text \<open>With two writers the protocol does not protect the reader: after both have begun the counter is
  even, and a read can be validated that matches no published image.\<close>

theorem two_writers_torn:
  "\<exists>s buf. seqReach [0, 1] [0, 1] 3 {0, 1} (\<lambda>_. True) (\<lambda>_. 0 :: nat) s \<and> reading s = Returned buf \<and>
     readTo s = readFrom s \<and> published s = [\<lambda>_. 0] \<and> map buf [0, 1] = [1, 0]"
  by (intro exI[of _ "twoWriters ! 7"] exI[of _ "(\<lambda>_. 0)(0 := 1, 1 := 0)"] conjI twoWriters_reach)
    (simp_all add: twoWriters_def seqInit_def Let_def)

end
