(* ===== verification/Crc32.thy ===== *)
theory Crc32
  imports Prelude
begin

text \<open>
  The CRC-32 of \<open>src/core/ipc/LexiconWireFormat.cpp\<close>: the table-driven \<open>ComputeCrc32\<close>.

  The table-driven routine is shown equal to the bit-by-bit shift register that defines the
  checksum, and every change of a single byte is shown to change the checksum.
\<close>

unbundle bit_operations_syntax

section \<open>The routine\<close>

text \<open>One round of the loop of \<open>MakeCrc32TableEntry\<close>.\<close>

definition crcRound :: "32 word \<Rightarrow> 32 word" where
  "crcRound crc = drop_bit 1 crc XOR (0xEDB88320 * (crc AND 1))"

definition MakeCrc32TableEntry :: "32 word \<Rightarrow> 32 word" where
  "MakeCrc32TableEntry byte = (crcRound ^^ 8) byte"

definition kCrc32Table :: "32 word list" where
  "kCrc32Table = map (\<lambda>i. MakeCrc32TableEntry (word_of_nat i)) [0..<256]"

definition crcByte :: "8 word \<Rightarrow> 32 word \<Rightarrow> 32 word" where
  "crcByte b crc =
    (let tableIndex = (ucast (crc XOR ucast b) :: 8 word) in drop_bit 8 crc XOR kCrc32Table ! unat tableIndex)"

text \<open>The data pointer may be null, which is \<open>None\<close>.\<close>

definition ComputeCrc32 :: "8 word list option \<Rightarrow> 32 word" where
  "ComputeCrc32 data = (case data of None \<Rightarrow> 0 | Some bytes \<Rightarrow>
     if bytes = [] then 0 else fold crcByte bytes 0xFFFFFFFF XOR 0xFFFFFFFF)"

section \<open>The shift register that defines the checksum\<close>

definition crcByteSpec :: "8 word \<Rightarrow> 32 word \<Rightarrow> 32 word" where
  "crcByteSpec b crc = (crcRound ^^ 8) (crc XOR ucast b)"

definition crcSpec :: "8 word list \<Rightarrow> 32 word" where
  "crcSpec bytes = fold crcByteSpec bytes 0xFFFFFFFF XOR 0xFFFFFFFF"

section \<open>Linearity of the rounds\<close>

lemma crcRound_if: "crcRound x = drop_bit 1 x XOR (if bit x 0 then 0xEDB88320 else 0)"
proof (cases "bit x 0")
  case True
  then have "x mod 2 = 1" by (simp add: bit_0 odd_iff_mod_2_eq_one)
  then show ?thesis using True by (simp add: crcRound_def and_one_eq)
next
  case False
  then have "x mod 2 = 0" by (simp add: bit_0 even_iff_mod_2_eq_zero)
  then show ?thesis using False by (simp add: crcRound_def and_one_eq)
qed

lemma crcRound_xor: "crcRound (x XOR y) = crcRound x XOR crcRound y"
  by (auto simp: crcRound_if bit_xor_iff ac_simps)

lemma crcRounds_xor: "(crcRound ^^ n) (x XOR y) = (crcRound ^^ n) x XOR (crcRound ^^ n) y"
  by (induction n arbitrary: x y) (simp_all add: crcRound_xor)

lemma crcRounds_clear:
  assumes "\<forall>k<n. \<not> bit x k"
  shows "(crcRound ^^ n) x = drop_bit n x"
  using assms
proof (induction n arbitrary: x)
  case (Suc n)
  have "crcRound x = drop_bit 1 x" using Suc.prems by (simp add: crcRound_if)
  moreover have "\<forall>k<n. \<not> bit (drop_bit 1 x) k" using Suc.prems by (simp add: bit_drop_bit_eq)
  ultimately show ?case
    using Suc.IH[of "drop_bit 1 x"] by (simp only: funpow_Suc_right comp_apply drop_bit_drop_bit) simp
qed simp

lemma split_low_byte: "(x :: 32 word) = take_bit 8 x XOR push_bit 8 (drop_bit 8 x)"
  by (rule bit_word_eqI) (auto simp: bit_xor_iff bit_take_bit_iff bit_push_bit_iff bit_drop_bit_eq)

lemma crcRounds_8:
  "(crcRound ^^ 8) x = drop_bit 8 x XOR MakeCrc32TableEntry (take_bit 8 x)"
proof -
  have "(crcRound ^^ 8) (push_bit 8 (drop_bit 8 x)) = drop_bit 8 (push_bit 8 (drop_bit 8 x))"
    by (rule crcRounds_clear) (simp add: bit_push_bit_iff)
  also have "\<dots> = drop_bit 8 x"
    by (rule bit_word_eqI) (auto simp: bit_drop_bit_eq bit_push_bit_iff dest: bit_imp_le_length)
  finally show ?thesis
    using crcRounds_xor[of 8 "take_bit 8 x" "push_bit 8 (drop_bit 8 x)"] split_low_byte[of x]
    by (simp add: MakeCrc32TableEntry_def xor.commute)
qed

lemma table_lookup: "kCrc32Table ! unat (b :: 8 word) = MakeCrc32TableEntry (ucast b)"
proof -
  have "unat b < 256" using unsigned_less[of b] by simp
  then show ?thesis by (simp add: kCrc32Table_def)
qed

lemma crcByte_spec: "crcByte b crc = crcByteSpec b crc"
proof -
  have "drop_bit 8 (crc XOR ucast b) = drop_bit 8 crc"
    by (rule bit_word_eqI) (auto simp: bit_drop_bit_eq bit_xor_iff bit_ucast_iff dest: bit_imp_le_length)
  moreover have "ucast (ucast (crc XOR ucast b) :: 8 word) = take_bit 8 (crc XOR ucast b)"
    by (rule bit_word_eqI) (auto simp: bit_take_bit_iff bit_ucast_iff bit_xor_iff simp del: take_bit_xor)
  ultimately show ?thesis
    by (simp add: crcByte_def crcByteSpec_def Let_def table_lookup crcRounds_8)
qed

section \<open>The rounds lose nothing\<close>

lemma xor_cancel: "(a :: 'a :: len word) XOR b = c XOR b \<longleftrightarrow> a = c"
  by (metis xor.assoc xor_self_eq xor.right_neutral)

lemma crcRound_inj: "crcRound x = crcRound y \<longleftrightarrow> x = y"
proof
  assume e: "crcRound x = crcRound y"
  have "bit (crcRound z) 31 \<longleftrightarrow> bit z 0" for z
    by (auto simp: crcRound_if bit_xor_iff bit_drop_bit_eq dest: bit_imp_le_length)
  then have z: "bit x 0 \<longleftrightarrow> bit y 0" using e by metis
  then have "drop_bit 1 x = drop_bit 1 y" using e by (auto simp: crcRound_if xor_cancel split: if_splits)
  then have "bit x (Suc n) \<longleftrightarrow> bit y (Suc n)" for n
    by (metis bit_drop_bit_eq comp_apply plus_1_eq_Suc)
  then show "x = y" using z by (metis bit_word_eqI not0_implies_Suc)
qed simp

lemma crcRounds_inj: "(crcRound ^^ n) x = (crcRound ^^ n) y \<longleftrightarrow> x = y"
  by (induction n) (simp_all add: crcRound_inj)

lemma crcByte_inj_state: "crcByte b s = crcByte b s' \<longleftrightarrow> s = s'"
  by (simp add: crcByte_spec crcByteSpec_def crcRounds_inj xor_cancel)

lemma crcByte_inj_byte: "crcByte b s = crcByte b' s \<longleftrightarrow> b = b'"
proof -
  have "unat (ucast w :: 32 word) = unat w" for w :: "8 word"
  proof -
    have "unat w < 256" using unsigned_less[of w, where 'a = nat] by simp
    then show ?thesis by (simp add: unsigned_ucast_eq take_bit_nat_eq_self)
  qed
  then have "(ucast b :: 32 word) = ucast b' \<longleftrightarrow> b = b'" by (metis word_eq_iff_unsigned)
  then show ?thesis
    by (simp add: crcByte_spec crcByteSpec_def crcRounds_inj xor.commute[of s] xor_cancel)
qed

lemma fold_crcByte_inj: "fold crcByte bs s = fold crcByte bs s' \<longleftrightarrow> s = s'"
  by (induction bs arbitrary: s s') (simp_all add: crcByte_inj_state)

lemma fold_crcByte_update:
  assumes "i < length bs" "b \<noteq> bs ! i"
  shows "fold crcByte (bs[i := b]) s \<noteq> fold crcByte bs s"
proof -
  have "fold crcByte (take i bs @ b # drop (Suc i) bs) s \<noteq>
        fold crcByte (take i bs @ bs ! i # drop (Suc i) bs) s"
    using assms(2) by (simp add: fold_crcByte_inj crcByte_inj_byte)
  then show ?thesis using assms(1) by (simp add: upd_conv_take_nth_drop flip: id_take_nth_drop)
qed

lemma ComputeCrc32_update:
  assumes "i < length bs" "b \<noteq> bs ! i"
  shows "ComputeCrc32 (Some (bs[i := b])) \<noteq> ComputeCrc32 (Some bs)"
  using fold_crcByte_update[OF assms] assms by (auto simp: ComputeCrc32_def xor_cancel)

section \<open>Properties\<close>

text \<open>The table-driven checksum equals the bit-serial one, on every input, the empty and the absent
  one included.\<close>

theorem crc_table_driven:
  "ComputeCrc32 d = (case d of None \<Rightarrow> 0 | Some bytes \<Rightarrow> crcSpec bytes)"
proof -
  have "crcByte = crcByteSpec" by (simp add: fun_eq_iff crcByte_spec)
  then show ?thesis by (simp add: ComputeCrc32_def crcSpec_def split: option.split)
qed

end
