(* ===== verification/Utf16.thy ===== *)
theory Utf16
  imports Prelude "HOL-Library.List_Lexorder"
begin

text \<open>
  UTF-16 strings as \<open>src/core/ipc/LexiconWireFormat.cpp\<close> reads them: decoding of the next scalar,
  detection of unpaired surrogates, counting, comparison by scalar, and the conversion from and to
  wide strings of the builds whose \<open>wchar_t\<close> holds a whole scalar.

  A view and an index into it are carried as the suffix of the view that starts at the index.  The
  loops are compared with \<open>scalars\<close>, the list of all decoded scalars.
\<close>

unbundle bit_operations_syntax

type_synonym u16 = "16 word"
type_synonym u16string = "u16 list"

definition isHighSurrogate :: "u16 \<Rightarrow> bool" where
  "isHighSurrogate c \<longleftrightarrow> 0xD800 \<le> c \<and> c \<le> 0xDBFF"

definition isLowSurrogate :: "u16 \<Rightarrow> bool" where
  "isLowSurrogate c \<longleftrightarrow> 0xDC00 \<le> c \<and> c \<le> 0xDFFF"

definition pairScalar :: "u16 \<Rightarrow> u16 \<Rightarrow> nat" where
  "pairScalar c1 c2 = 0x10000 + (push_bit 10 (unat c1 - 0xD800) OR (unat c2 - 0xDC00))"

fun DecodeNextScalar :: "u16string \<Rightarrow> nat \<times> u16string" where
  "DecodeNextScalar [] = (0, [])"
| "DecodeNextScalar [c1] = (unat c1, [])"
| "DecodeNextScalar (c1 # c2 # str) =
    (if isHighSurrogate c1 \<and> isLowSurrogate c2 then (pairScalar c1 c2, str) else (unat c1, c2 # str))"

lemma DecodeNextScalar_shorter: "s \<noteq> [] \<Longrightarrow> length (snd (DecodeNextScalar s)) < length s"
  by (cases s rule: DecodeNextScalar.cases) auto

lemma DecodeNextScalar_less [termination_simp]:
  "(cp, r) = DecodeNextScalar (c # s) \<Longrightarrow> length r < Suc (length s)"
  using DecodeNextScalar_shorter[of "c # s"] by (metis length_Cons list.discI snd_conv)

definition isSurrogateScalar :: "nat \<Rightarrow> bool" where
  "isSurrogateScalar cp \<longleftrightarrow> 0xD800 \<le> cp \<and> cp \<le> 0xDFFF"

fun HasInvalidSurrogates :: "u16string \<Rightarrow> bool" where
  "HasInvalidSurrogates [] = False"
| "HasInvalidSurrogates (c # str) =
    (case DecodeNextScalar (c # str) of (cp, rest) \<Rightarrow>
       if isSurrogateScalar cp then True else HasInvalidSurrogates rest)"

fun countScalarsFrom :: "u16string \<Rightarrow> nat \<Rightarrow> nat" where
  "countScalarsFrom [] count = count"
| "countScalarsFrom (c # str) count =
    (case DecodeNextScalar (c # str) of (_, rest) \<Rightarrow> countScalarsFrom rest (count + 1))"

definition CountUnicodeScalars :: "u16string \<Rightarrow> nat" where
  "CountUnicodeScalars str = countScalarsFrom str 0"

fun CompareUtf16ByUnicodeScalar :: "u16string \<Rightarrow> u16string \<Rightarrow> int" where
  "CompareUtf16ByUnicodeScalar (a # as) (b # bs) =
    (case DecodeNextScalar (a # as) of (scalarA, as') \<Rightarrow>
     case DecodeNextScalar (b # bs) of (scalarB, bs') \<Rightarrow>
       if scalarA \<noteq> scalarB then (if scalarA < scalarB then -1 else 1)
       else CompareUtf16ByUnicodeScalar as' bs')"
| "CompareUtf16ByUnicodeScalar (a # as) [] = 1"
| "CompareUtf16ByUnicodeScalar [] (b # bs) = -1"
| "CompareUtf16ByUnicodeScalar [] [] = 0"

text \<open>The conversions of the builds whose \<open>wchar_t\<close> is not 16 bits wide; a wide character outside
  the scalar values is dropped.\<close>

definition encodeScalar :: "nat \<Rightarrow> u16string" where
  "encodeScalar wc =
    (if wc \<le> 0xD7FF \<or> (0xE000 \<le> wc \<and> wc \<le> 0xFFFF) then [word_of_nat wc]
     else if 0x10000 \<le> wc \<and> wc \<le> 0x10FFFF then
       let cp = wc - 0x10000 in [word_of_nat (0xD800 + drop_bit 10 cp), word_of_nat (0xDC00 + (cp AND 0x3FF))]
     else [])"

definition WStringToU16 :: "nat list \<Rightarrow> u16string" where
  "WStringToU16 wstr = concat (map encodeScalar wstr)"

fun U16ToWString :: "u16string \<Rightarrow> nat list" where
  "U16ToWString [] = []"
| "U16ToWString (c # str) = (case DecodeNextScalar (c # str) of (cp, rest) \<Rightarrow> cp # U16ToWString rest)"

section \<open>The decoded scalars\<close>

abbreviation scalars :: "u16string \<Rightarrow> nat list" where "scalars \<equiv> U16ToWString"

lemma HasInvalidSurrogates_iff: "HasInvalidSurrogates s \<longleftrightarrow> (\<exists>cp\<in>set (scalars s). isSurrogateScalar cp)"
  by (induction s rule: HasInvalidSurrogates.induct) (auto split: prod.splits)

lemma countScalarsFrom_eq: "countScalarsFrom s n = n + length (scalars s)"
  by (induction s n rule: countScalarsFrom.induct) (auto split: prod.splits)

lemma CountUnicodeScalars_eq: "CountUnicodeScalars s = length (scalars s)"
  by (simp add: CountUnicodeScalars_def countScalarsFrom_eq)

lemma Compare_scalars:
  "CompareUtf16ByUnicodeScalar a b =
    (if scalars a < scalars b then -1 else if scalars a = scalars b then 0 else 1)"
  by (induction a b rule: CompareUtf16ByUnicodeScalar.induct) (auto split: prod.splits)

declare U16ToWString.simps(2) [simp del]

lemma scalars_Cons [simp]:
  "scalars [c] = [unat c]"
  "scalars (c1 # c2 # s) =
    (if isHighSurrogate c1 \<and> isLowSurrogate c2 then pairScalar c1 c2 # scalars s else unat c1 # scalars (c2 # s))"
  by (simp_all add: U16ToWString.simps(2)[of c1])  (simp add: U16ToWString.simps(2))

lemma scalars_induct [case_names Nil Single Pair Unit]:
  assumes "P []" "\<And>c. P [c]"
    "\<And>c1 c2 s. isHighSurrogate c1 \<Longrightarrow> isLowSurrogate c2 \<Longrightarrow> P s \<Longrightarrow> P (c1 # c2 # s)"
    "\<And>c1 c2 s. \<not> (isHighSurrogate c1 \<and> isLowSurrogate c2) \<Longrightarrow> P (c2 # s) \<Longrightarrow> P (c1 # c2 # s)"
  shows "P s"
proof (induction s rule: length_induct)
  case (1 s)
  show ?case
  proof (cases s rule: DecodeNextScalar.cases)
    case (3 c1 c2 str)
    then have "P str" "P (c2 # str)" using 1 by simp_all
    then show ?thesis using assms(3,4) 3 by blast
  qed (use assms in simp_all)
qed

lemma or_push_bit:
  assumes "b < 1024"
  shows "push_bit 10 a OR b = a * 1024 + (b :: nat)"
proof -
  have "take_bit 10 b = b" using assms by (simp add: take_bit_nat_eq_self)
  then have "\<not> bit b n" if "10 \<le> n" for n using that by (metis bit_take_bit_iff linorder_not_le)
  then have "push_bit 10 a AND b = 0" by (auto simp: bit_eq_iff bit_and_iff bit_push_bit_iff)
  then show ?thesis by (simp add: push_bit_eq_mult flip: disjunctive_add_eq_or)
qed

lemma pairScalar_eq:
  assumes "isHighSurrogate c1" "isLowSurrogate c2"
  shows "pairScalar c1 c2 = 0x10000 + (unat c1 - 0xD800) * 1024 + (unat c2 - 0xDC00)"
proof -
  have "unat c2 \<le> 0xDFFF" using assms(2) by (simp add: isLowSurrogate_def word_le_nat_alt)
  then show ?thesis by (simp add: pairScalar_def or_push_bit)
qed

text \<open>Every list of scalars comes from one string only: the units can be read off the scalars.\<close>

definition reencode :: "nat \<Rightarrow> u16string" where
  "reencode cp = (if cp < 0x10000 then [word_of_nat cp]
     else [word_of_nat (0xD800 + (cp - 0x10000) div 1024), word_of_nat (0xDC00 + (cp - 0x10000) mod 1024)])"

lemma unat_less_16: "unat (c :: u16) < 0x10000"
  using unsigned_less[of c, where 'a = nat] by simp

lemma reencode_unit: "reencode (unat c) = [c]"
  using unat_less_16[of c] by (simp add: reencode_def)

lemma reencode_pair:
  assumes "isHighSurrogate c1" "isLowSurrogate c2"
  shows "reencode (pairScalar c1 c2) = [c1, c2]"
proof -
  have "0xD800 \<le> unat c1" "0xDC00 \<le> unat c2" "unat c2 - 0xDC00 < 1024"
    using assms by (auto simp: isHighSurrogate_def isLowSurrogate_def word_le_nat_alt)
  then obtain x y where "unat c1 = 0xD800 + x" "unat c2 = 0xDC00 + y" "y < 1024"
    by (metis le_Suc_ex diff_add_inverse)
  moreover have "word_of_nat (unat c) = c" for c :: u16 by simp
  moreover from calculation have "word_of_nat (0xD800 + x) = c1" "word_of_nat (0xDC00 + y) = c2"
    by metis+
  ultimately show ?thesis by (simp add: reencode_def pairScalar_eq[OF assms])
qed

lemma reencode_scalars: "concat (map reencode (scalars s)) = s"
  by (induction s rule: scalars_induct) (auto simp: reencode_unit reencode_pair)

lemma scalars_inj [simp]: "scalars a = scalars b \<longleftrightarrow> a = b"
  by (metis reencode_scalars)

lemma Compare_eq_0: "CompareUtf16ByUnicodeScalar a b = 0 \<longleftrightarrow> a = b"
  by (auto simp: Compare_scalars)

lemma Compare_less: "CompareUtf16ByUnicodeScalar a b < 0 \<longleftrightarrow> scalars a < scalars b"
  by (auto simp: Compare_scalars)

section \<open>Conversion\<close>

definition isScalarValue :: "nat \<Rightarrow> bool" where
  "isScalarValue wc \<longleftrightarrow> wc \<le> 0x10FFFF \<and> \<not> isSurrogateScalar wc"

lemma unat_word_of_nat_16: "n < 0x10000 \<Longrightarrow> unat (word_of_nat n :: u16) = n"
  by (simp add: unat_of_nat take_bit_nat_eq_self)

lemma encodeScalar_cases:
  assumes "isScalarValue wc"
  obtains (unit) c where "encodeScalar wc = [c]" "unat c = wc" "\<not> isHighSurrogate c"
  | (pair) c1 c2 where "encodeScalar wc = [c1, c2]" "isHighSurrogate c1" "isLowSurrogate c2" "pairScalar c1 c2 = wc"
proof (cases "wc < 0x10000")
  case True
  then show ?thesis
    using assms by (intro unit[of "word_of_nat wc"])
      (auto simp: encodeScalar_def isScalarValue_def isSurrogateScalar_def isHighSurrogate_def
        word_le_nat_alt unat_word_of_nat_16)
next
  case False
  define cp where "cp = wc - 0x10000"
  have cp: "cp < 0x100000" "wc = 0x10000 + cp" using False assms by (auto simp: cp_def isScalarValue_def)
  then have d: "cp div 1024 < 1024" by (simp add: less_mult_imp_div_less)
  have m: "cp AND 0x3FF = cp mod 1024"
    by (simp flip: take_bit_eq_mod[of 10, simplified] add: take_bit_eq_mask mask_eq_exp_minus_1)
  let ?c1 = "word_of_nat (0xD800 + cp div 1024) :: u16" and ?c2 = "word_of_nat (0xDC00 + cp mod 1024) :: u16"
  have u: "unat ?c1 = 0xD800 + cp div 1024" "unat ?c2 = 0xDC00 + cp mod 1024"
    using d by (subst unat_word_of_nat_16; simp)+
  then have h: "isHighSurrogate ?c1" "isLowSurrogate ?c2"
    using d by (auto simp: isHighSurrogate_def isLowSurrogate_def word_le_nat_alt)
  show ?thesis
    by (rule pair[of ?c1 ?c2])
      (use False assms cp m h pairScalar_eq[OF h] in
        \<open>simp_all add: encodeScalar_def isScalarValue_def Let_def drop_bit_eq_div u del: of_nat_add\<close>)
qed

lemma encodeScalar_other: "\<not> isScalarValue wc \<Longrightarrow> encodeScalar wc = []"
  by (auto simp: encodeScalar_def isScalarValue_def isSurrogateScalar_def)

lemma scalars_encodeScalar: "scalars (encodeScalar wc @ s) = (if isScalarValue wc then wc # scalars s else scalars s)"
proof (cases "isScalarValue wc")
  case True
  then show ?thesis
  proof (cases wc rule: encodeScalar_cases)
    case (unit c)
    then show ?thesis using True by (cases s) simp_all
  qed (use True in simp)
qed (simp add: encodeScalar_other)

lemma scalars_WStringToU16: "scalars (WStringToU16 w) = filter isScalarValue w"
  by (induction w) (simp_all add: WStringToU16_def scalars_encodeScalar)

lemma scalars_le: "cp \<in> set (scalars s) \<Longrightarrow> cp \<le> 0x10FFFF"
proof (induction s rule: scalars_induct)
  case (Single c)
  then show ?case using unat_less_16[of c] by simp
next
  case (Pair c1 c2 s)
  then have "unat c1 \<le> 0xDBFF" "unat c2 \<le> 0xDFFF"
    by (auto simp: isHighSurrogate_def isLowSurrogate_def word_le_nat_alt)
  then have "pairScalar c1 c2 \<le> 0x10FFFF" using Pair by (simp add: pairScalar_eq)
  then show ?case using Pair by auto
next
  case (Unit c1 c2 s)
  then show ?case using unat_less_16[of c1] by auto
qed simp

lemma WStringToU16_scalars: "WStringToU16 (U16ToWString s) = s \<longleftrightarrow> \<not> HasInvalidSurrogates s"
proof -
  have "WStringToU16 (scalars s) = s \<longleftrightarrow> filter isScalarValue (scalars s) = scalars s"
    by (metis scalars_WStringToU16 scalars_inj)
  also have "\<dots> \<longleftrightarrow> \<not> HasInvalidSurrogates s"
    using scalars_le[of _ s] by (auto simp: filter_id_conv HasInvalidSurrogates_iff isScalarValue_def)
  finally show ?thesis .
qed

section \<open>Properties\<close>

text \<open>Comparing two strings scalar by scalar decides the lexicographic order of their decoded
  scalars, and only equal strings compare equal.\<close>

theorem utf16_compare_order:
  "(CompareUtf16ByUnicodeScalar a b < 0 \<longleftrightarrow> U16ToWString a < U16ToWString b) \<and>
   (CompareUtf16ByUnicodeScalar a b = 0 \<longleftrightarrow> a = b) \<and>
   (CompareUtf16ByUnicodeScalar a b > 0 \<longleftrightarrow> U16ToWString b < U16ToWString a)"
  using less_linear[of "scalars a" "scalars b"] by (auto simp: Compare_scalars)

text \<open>A wide string survives the conversion to UTF-16 and back except for the characters that are no
  Unicode scalar values, which are dropped; a UTF-16 string survives the way to wide characters and
  back exactly when it has no unpaired surrogate.\<close>

theorem utf16_round_trip:
  "U16ToWString (WStringToU16 w) = filter isScalarValue w \<and>
   (WStringToU16 (U16ToWString s) = s \<longleftrightarrow> \<not> HasInvalidSurrogates s)"
  by (simp add: scalars_WStringToU16 WStringToU16_scalars)

end
