(* ===== verification/WireMemory.thy ===== *)
theory WireMemory
  imports Utf16
begin

text \<open>
  Byte memory behind the pointers of \<open>src/core/ipc\<close>: a buffer is the function from offsets to bytes
  that its pointer gives access to, and a multi-byte field is stored least significant byte first,
  as on every target of the program.  The size of a buffer is passed beside it, as in the sources.
\<close>

type_synonym bytes = "nat \<Rightarrow> 8 word"

fun loadLE :: "nat \<Rightarrow> bytes \<Rightarrow> nat \<Rightarrow> nat" where
  "loadLE 0 m a = 0"
| "loadLE (Suc n) m a = unat (m a) + 256 * loadLE n m (a + 1)"

fun storeLE :: "nat \<Rightarrow> nat \<Rightarrow> nat \<Rightarrow> bytes \<Rightarrow> bytes" where
  "storeLE 0 a v m = m"
| "storeLE (Suc n) a v m = storeLE n (a + 1) (v div 256) (m(a := word_of_nat v))"

definition memsetZero :: "nat \<Rightarrow> bytes \<Rightarrow> bytes" where
  "memsetZero n m = (\<lambda>i. if i < n then 0 else m i)"

definition loadBytes :: "bytes \<Rightarrow> nat \<Rightarrow> nat \<Rightarrow> 8 word list" where
  "loadBytes m a n = map (\<lambda>i. m (a + i)) [0..<n]"

definition loadU16 :: "bytes \<Rightarrow> nat \<Rightarrow> u16" where
  "loadU16 m a = word_of_nat (loadLE 2 m a)"

definition loadUnits :: "bytes \<Rightarrow> nat \<Rightarrow> nat \<Rightarrow> u16string" where
  "loadUnits m a n = map (\<lambda>i. loadU16 m (a + 2 * i)) [0..<n]"

fun storeUnits :: "nat \<Rightarrow> u16string \<Rightarrow> bytes \<Rightarrow> bytes" where
  "storeUnits a [] m = m"
| "storeUnits a (u # us) m = storeUnits (a + 2) us (storeLE 2 a (unat u) m)"

section \<open>Loads after stores\<close>

named_theorems mem_simps \<open>loads from disjoint and equal places after a store\<close>

lemma storeLE_other [mem_simps]: "i < a \<or> a + n \<le> i \<Longrightarrow> storeLE n a v m i = m i"
  by (induction n arbitrary: a v m) auto

lemma loadLE_cong: "(\<And>i. a \<le> i \<Longrightarrow> i < a + n \<Longrightarrow> m i = m' i) \<Longrightarrow> loadLE n m a = loadLE n m' a"
  by (induction n arbitrary: a) auto

lemma loadLE_other [mem_simps]: "a + n \<le> b \<or> b + k \<le> a \<Longrightarrow> loadLE n (storeLE k b v m) a = loadLE n m a"
  by (rule loadLE_cong) (auto simp: storeLE_other)

lemma loadLE_same [mem_simps]: "loadLE n (storeLE n a v m) a = v mod 256 ^ n"
proof (induction n arbitrary: a v m)
  case (Suc n)
  have "storeLE n (a + 1) (v div 256) (m(a := word_of_nat v)) a = word_of_nat v"
    by (simp add: storeLE_other)
  then show ?case
    by (simp add: Suc.IH unat_of_nat take_bit_eq_mod mod_mult2_eq)
qed simp

lemma loadLE_less: "loadLE n m a < 256 ^ n"
proof (induction n arbitrary: a)
  case (Suc n)
  have "unat (m a) < 256" using unsigned_less[of "m a", where 'a = nat] by simp
  then show ?case using Suc[of "a + 1"] by simp
qed simp

lemma loadU16_other [mem_simps]: "a + 2 \<le> b \<or> b + k \<le> a \<Longrightarrow> loadU16 (storeLE k b v m) a = loadU16 m a"
  by (simp add: loadU16_def loadLE_other)

lemma loadU16_same [mem_simps]: "loadU16 (storeLE 2 a (unat u) m) a = u"
  using unat_less_16[of u] by (simp add: loadU16_def loadLE_same)

lemma length_loadUnits [simp]: "length (loadUnits m a n) = n"
  by (simp add: loadUnits_def)

lemma length_loadBytes [simp]: "length (loadBytes m a n) = n"
  by (simp add: loadBytes_def)

lemma loadUnits_cong:
  "(\<And>i. a \<le> i \<Longrightarrow> i < a + 2 * n \<Longrightarrow> m i = m' i) \<Longrightarrow> loadUnits m a n = loadUnits m' a n"
  unfolding loadUnits_def loadU16_def
  by (rule map_cong[OF refl], rule arg_cong[where f = word_of_nat], rule loadLE_cong) auto

lemma loadBytes_cong:
  "(\<And>i. a \<le> i \<Longrightarrow> i < a + n \<Longrightarrow> m i = m' i) \<Longrightarrow> loadBytes m a n = loadBytes m' a n"
  by (simp add: loadBytes_def)

lemma loadUnits_other [mem_simps]:
  "a + 2 * n \<le> b \<or> b + k \<le> a \<Longrightarrow> loadUnits (storeLE k b v m) a n = loadUnits m a n"
  by (rule loadUnits_cong) (auto simp: storeLE_other)

lemma loadBytes_other [mem_simps]:
  "a + n \<le> b \<or> b + k \<le> a \<Longrightarrow> loadBytes (storeLE k b v m) a n = loadBytes m a n"
  by (rule loadBytes_cong) (auto simp: storeLE_other)

lemma loadUnits_0 [simp]: "loadUnits m a 0 = []"
  by (simp add: loadUnits_def)

lemma loadUnits_Suc: "loadUnits m a (Suc n) = loadU16 m a # loadUnits m (a + 2) n"
  by (simp add: loadUnits_def map_upt_Suc algebra_simps del: upt_Suc)

lemma loadUnits_add: "loadUnits m a (n + k) = loadUnits m a n @ loadUnits m (a + 2 * n) k"
  by (induction n arbitrary: a) (simp_all add: loadUnits_Suc algebra_simps)

lemma storeUnits_other [mem_simps]: "i < a \<or> a + 2 * length us \<le> i \<Longrightarrow> storeUnits a us m i = m i"
  by (induction us arbitrary: a m) (auto simp: storeLE_other)

lemma loadLE_storeUnits [mem_simps]:
  "a + n \<le> b \<or> b + 2 * length us \<le> a \<Longrightarrow> loadLE n (storeUnits b us m) a = loadLE n m a"
  by (rule loadLE_cong) (auto simp: storeUnits_other)

lemma loadUnits_storeUnits_other [mem_simps]:
  "a + 2 * n \<le> b \<or> b + 2 * length us \<le> a \<Longrightarrow> loadUnits (storeUnits b us m) a n = loadUnits m a n"
  by (rule loadUnits_cong) (auto simp: storeUnits_other)

lemma loadUnits_same [mem_simps]: "loadUnits (storeUnits a us m) a (length us) = us"
proof (induction us arbitrary: a m)
  case (Cons u us)
  have "loadU16 (storeUnits (a + 2) us (storeLE 2 a (unat u) m)) a = u"
    by (simp add: loadU16_def loadLE_storeUnits loadLE_same) (simp add: unat_less_16)
  then show ?case using Cons by (simp add: loadUnits_Suc)
qed simp

lemma loadUnits_terminated:
  "loadUnits (storeLE 2 (a + 2 * length us) (unat t) (storeUnits a us m)) a (length us + 1) = us @ [t]"
proof -
  have "loadUnits m' b 1 = [loadU16 m' b]" for m' b by (simp add: loadUnits_def)
  then show ?thesis unfolding loadUnits_add by (simp add: mem_simps)
qed

end
