(* ===== verification/LexiconWire.thy ===== *)
theory LexiconWire
  imports Crc32 WireMemory
begin

text \<open>
  The shared-memory image of the user lexicon, \<open>src/core/ipc/LexiconWireFormat.h\<close> and \<open>.cpp\<close>:
  the header, the serializer, the validator and the deserializer.

  The image is a byte memory with the offsets of the sources.  Error messages are the constructors
  of \<open>WireError\<close>, in the order the sources produce them.  Buffer sizes and unit counts are
  \<open>size_t\<close> of the 64-bit builds; no sum of the sources exceeds it, and the 32-bit differences are
  taken only after the comparison that keeps them from wrapping.
\<close>

section \<open>Layout\<close>

abbreviation (input) WIRE_MAGIC :: nat where "WIRE_MAGIC \<equiv> 0x58454C56"
abbreviation (input) CURRENT_WIRE_ABI_VERSION :: nat where "CURRENT_WIRE_ABI_VERSION \<equiv> 1"
abbreviation (input) WIRE_HEADER_SIZE :: nat where "WIRE_HEADER_SIZE \<equiv> 128"
abbreviation (input) WIRE_TOTAL_SIZE :: nat where "WIRE_TOTAL_SIZE \<equiv> 147456"
abbreviation (input) EXCLUSIONS_REGION_OFFSET :: nat where "EXCLUSIONS_REGION_OFFSET \<equiv> 0x80"
abbreviation (input) EXCLUSIONS_REGION_MAX_BYTES :: nat where "EXCLUSIONS_REGION_MAX_BYTES \<equiv> 2176"
abbreviation (input) USER_DICT_INDEX_OFFSET :: nat where "USER_DICT_INDEX_OFFSET \<equiv> 0x900"
abbreviation (input) USER_DICT_POOL_OFFSET :: nat where "USER_DICT_POOL_OFFSET \<equiv> 0x2900"
abbreviation (input) USER_DICT_POOL_MAX_BYTES :: nat where "USER_DICT_POOL_MAX_BYTES \<equiv> 131072"
abbreviation (input) MAX_EXCLUSIONS_ROWS :: nat where "MAX_EXCLUSIONS_ROWS \<equiv> 8"
abbreviation (input) MAX_USER_DICT_WORDS :: nat where "MAX_USER_DICT_WORDS \<equiv> 1024"
abbreviation (input) MAX_USER_DICT_UTF16_UNITS :: nat where "MAX_USER_DICT_UTF16_UNITS \<equiv> 65536"
abbreviation (input) MAX_EXCLUSIONS_UTF16_UNITS :: nat where "MAX_EXCLUSIONS_UTF16_UNITS \<equiv> 1088"
abbreviation (input) MAX_DICT_WORD_UTF16_UNITS :: nat where "MAX_DICT_WORD_UTF16_UNITS \<equiv> 128"
abbreviation (input) NEWLINE :: u16 where "NEWLINE \<equiv> 10"

record LexiconWireHeader =
  magic :: nat
  abiVersion :: nat
  headerSizeBytes :: nat
  totalSizeBytes :: nat
  seqlock :: nat
  generation :: nat
  crc32 :: nat
  flags :: nat
  payloadOffsetBytes :: nat
  payloadSizeBytes :: nat
  exclusionsOffsetBytes :: nat
  exclusionsLengthBytes :: nat
  exclusionsRowCount :: nat
  userDictOffsetBytes :: nat
  userDictLengthBytes :: nat
  userDictWordCount :: nat
  userDictUtf16Units :: nat
  exclusionsUtf16Units :: nat

definition readHeader :: "bytes \<Rightarrow> LexiconWireHeader" where
  "readHeader m = \<lparr>magic = loadLE 4 m 0x00, abiVersion = loadLE 2 m 0x04, headerSizeBytes = loadLE 2 m 0x06,
     totalSizeBytes = loadLE 4 m 0x08, seqlock = loadLE 4 m 0x0C, generation = loadLE 8 m 0x10,
     crc32 = loadLE 4 m 0x18, flags = loadLE 4 m 0x1C, payloadOffsetBytes = loadLE 4 m 0x20,
     payloadSizeBytes = loadLE 4 m 0x24, exclusionsOffsetBytes = loadLE 4 m 0x28,
     exclusionsLengthBytes = loadLE 4 m 0x2C, exclusionsRowCount = loadLE 4 m 0x30,
     userDictOffsetBytes = loadLE 4 m 0x34, userDictLengthBytes = loadLE 4 m 0x38,
     userDictWordCount = loadLE 4 m 0x3C, userDictUtf16Units = loadLE 4 m 0x40,
     exclusionsUtf16Units = loadLE 4 m 0x44\<rparr>"

record DictWordEntryWire =
  offsetUnits :: nat
  lengthUtf16Units :: nat
  scalarCount :: nat

definition readEntry :: "bytes \<Rightarrow> nat \<Rightarrow> DictWordEntryWire" where
  "readEntry m i = (let a = USER_DICT_INDEX_OFFSET + 8 * i in
     \<lparr>offsetUnits = loadLE 4 m a, lengthUtf16Units = loadLE 2 m (a + 4), scalarCount = loadLE 2 m (a + 6)\<rparr>)"

datatype WireError =
    BufferTooSmall | TooManyRows | RowSurrogate | RowScalars | RowCapacity
  | TooManyWords | WordSurrogate | WordScalars | WordUnits | PoolCapacity
  | BadMagic | BadAbi | BadHeaderSize | BadTotalSize | BadPayloadOffset | BadPayloadSize
  | BadExclusionsOffset | BadExclusionsLength | ExclusionsUnits | RowCountLimit
  | BadDictOffset | BadDictLength | DictUnits | WordCountLimit | DictUnitsLimit
  | PayloadMismatch | CrcMismatch | EmptyRow | RowCountMismatch
  | EntryBounds | EntryDelimiter | EntryLength | EntryScalars | EntryScalarMismatch | NotSorted

section \<open>Serializer\<close>

record LexiconWireSerializeParams =
  spellExclusions :: "u16string list"
  userDictionary :: "u16string list"
  pGeneration :: "64 word"
  spellSuggestEnabled :: bool

text \<open>The loop over the exclusion rows, with the units written so far; an error leaves the buffer as
  it is at that moment.\<close>

fun serializeRows :: "u16string list \<Rightarrow> bytes \<times> nat \<Rightarrow> (bytes \<times> nat) \<times> WireError option" where
  "serializeRows [] s = (s, None)"
| "serializeRows (row # rows) (m, units) =
    (if HasInvalidSurrogates row then ((m, units), Some RowSurrogate)
     else let scal = CountUnicodeScalars row in
     if scal < 2 \<or> scal > 128 then ((m, units), Some RowScalars)
     else if units + length row + 1 > MAX_EXCLUSIONS_UTF16_UNITS then ((m, units), Some RowCapacity)
     else
       let m1 = storeUnits (EXCLUSIONS_REGION_OFFSET + 2 * units) row m;
           units1 = units + length row;
           m2 = storeLE 2 (EXCLUSIONS_REGION_OFFSET + 2 * units1) (unat NEWLINE) m1
       in serializeRows rows (m2, units1 + 1))"

text \<open>\<open>std::sort\<close> and \<open>std::unique\<close>.  The order of equal elements is open in \<open>std::sort\<close>; the
  comparison of the sources identifies only equal strings, so any sort gives the same vector.\<close>

fun insertBy :: "('a \<Rightarrow> 'a \<Rightarrow> bool) \<Rightarrow> 'a \<Rightarrow> 'a list \<Rightarrow> 'a list" where
  "insertBy lt x [] = [x]"
| "insertBy lt x (y # ys) = (if lt x y then x # y # ys else y # insertBy lt x ys)"

definition stdSort :: "('a \<Rightarrow> 'a \<Rightarrow> bool) \<Rightarrow> 'a list \<Rightarrow> 'a list" where
  "stdSort lt xs = foldr (insertBy lt) xs []"

fun stdUnique :: "('a \<Rightarrow> 'a \<Rightarrow> bool) \<Rightarrow> 'a list \<Rightarrow> 'a list" where
  "stdUnique eq (x # y # ys) = (if eq x y then stdUnique eq (x # ys) else x # stdUnique eq (y # ys))"
| "stdUnique eq xs = xs"

definition sortedWords :: "u16string list \<Rightarrow> u16string list" where
  "sortedWords ws = stdUnique (\<lambda>a b. CompareUtf16ByUnicodeScalar a b = 0)
     (stdSort (\<lambda>a b. CompareUtf16ByUnicodeScalar a b < 0) ws)"

fun serializeWords :: "nat \<Rightarrow> u16string list \<Rightarrow> bytes \<times> nat \<Rightarrow> (bytes \<times> nat) \<times> WireError option" where
  "serializeWords i [] s = (s, None)"
| "serializeWords i (word # words) (m, units) =
    (if HasInvalidSurrogates word then ((m, units), Some WordSurrogate)
     else let scal = CountUnicodeScalars word in
     if scal < 1 \<or> scal > 64 then ((m, units), Some WordScalars)
     else if length word > MAX_DICT_WORD_UTF16_UNITS then ((m, units), Some WordUnits)
     else if units + length word + 1 > MAX_USER_DICT_UTF16_UNITS then ((m, units), Some PoolCapacity)
     else
       let a = USER_DICT_INDEX_OFFSET + 8 * i;
           m1 = storeLE 2 (a + 6) scal (storeLE 2 (a + 4) (length word) (storeLE 4 a units m));
           m2 = storeUnits (USER_DICT_POOL_OFFSET + 2 * units) word m1;
           units1 = units + length word;
           m3 = storeLE 2 (USER_DICT_POOL_OFFSET + 2 * units1) (unat NEWLINE) m2
       in serializeWords (i + 1) words (m3, units1 + 1))"

definition storeHeader :: "LexiconWireHeader \<Rightarrow> bytes \<Rightarrow> bytes" where
  "storeHeader h m = fold (\<lambda>(n, a, v). storeLE n a v)
     [(4, 0x00, magic h), (2, 0x04, abiVersion h), (2, 0x06, headerSizeBytes h), (4, 0x08, totalSizeBytes h),
      (4, 0x0C, seqlock h), (8, 0x10, generation h), (4, 0x1C, flags h), (4, 0x20, payloadOffsetBytes h),
      (4, 0x24, payloadSizeBytes h), (4, 0x28, exclusionsOffsetBytes h), (4, 0x2C, exclusionsLengthBytes h),
      (4, 0x30, exclusionsRowCount h), (4, 0x34, userDictOffsetBytes h), (4, 0x38, userDictLengthBytes h),
      (4, 0x3C, userDictWordCount h), (4, 0x40, userDictUtf16Units h), (4, 0x44, exclusionsUtf16Units h)] m"

definition serializedHeader :: "LexiconWireSerializeParams \<Rightarrow> nat \<Rightarrow> nat \<Rightarrow> nat \<Rightarrow> LexiconWireHeader" where
  "serializedHeader p exUnits wordCount dictUnits = \<lparr>magic = WIRE_MAGIC, abiVersion = CURRENT_WIRE_ABI_VERSION,
     headerSizeBytes = WIRE_HEADER_SIZE, totalSizeBytes = WIRE_TOTAL_SIZE, seqlock = 0,
     generation = unat (pGeneration p), crc32 = 0,
     flags = (if spellSuggestEnabled p then 1 else 0) OR 2 OR 4,
     payloadOffsetBytes = WIRE_HEADER_SIZE,
     payloadSizeBytes = (USER_DICT_POOL_OFFSET - WIRE_HEADER_SIZE) + dictUnits * 2,
     exclusionsOffsetBytes = EXCLUSIONS_REGION_OFFSET, exclusionsLengthBytes = exUnits * 2,
     exclusionsRowCount = length (spellExclusions p),
     userDictOffsetBytes = USER_DICT_POOL_OFFSET, userDictLengthBytes = dictUnits * 2,
     userDictWordCount = wordCount, userDictUtf16Units = dictUnits, exclusionsUtf16Units = exUnits\<rparr>"

definition Serialize ::
  "LexiconWireSerializeParams \<Rightarrow> bytes option \<Rightarrow> nat \<Rightarrow> bytes option \<times> WireError option" where
  "Serialize p outBuffer bufferSize =
    (case outBuffer of None \<Rightarrow> (None, Some BufferTooSmall) | Some m0 \<Rightarrow>
     if bufferSize < WIRE_TOTAL_SIZE then (outBuffer, Some BufferTooSmall)
     else if length (spellExclusions p) > MAX_EXCLUSIONS_ROWS then (outBuffer, Some TooManyRows)
     else case serializeRows (spellExclusions p) (memsetZero WIRE_TOTAL_SIZE m0, 0) of
       ((m1, _), Some err) \<Rightarrow> (Some m1, Some err)
     | ((m1, exUnits), None) \<Rightarrow>
         let words = sortedWords (userDictionary p) in
         if length words > MAX_USER_DICT_WORDS then (Some m1, Some TooManyWords)
         else case serializeWords 0 words (m1, 0) of
           ((m2, _), Some err) \<Rightarrow> (Some m2, Some err)
         | ((m2, dictUnits), None) \<Rightarrow>
             let h = serializedHeader p exUnits (length words) dictUnits;
                 m3 = storeHeader h m2;
                 crc = ComputeCrc32 (Some (loadBytes m3 (payloadOffsetBytes h) (payloadSizeBytes h)))
             in (Some (storeLE 4 0x18 (unat crc) m3), None))"

section \<open>Validator and deserializer\<close>

text \<open>The loop over the units of the exclusions text; \<open>row\<close> is the view from \<open>rowStart\<close> to the
  current unit.\<close>

fun validateRows :: "u16string \<Rightarrow> u16string \<Rightarrow> nat \<Rightarrow> WireError + nat" where
  "validateRows [] row parsedRows = Inr parsedRows"
| "validateRows (c # us) row parsedRows =
    (if c = NEWLINE then
       if row = [] then Inl EmptyRow
       else if HasInvalidSurrogates row then Inl RowSurrogate
       else let scal = CountUnicodeScalars row in
       if scal < 2 \<or> scal > 128 then Inl RowScalars
       else validateRows us [] (parsedRows + 1)
     else validateRows us (row @ [c]) parsedRows)"

definition wordAt :: "bytes \<Rightarrow> DictWordEntryWire \<Rightarrow> u16string" where
  "wordAt m e = loadUnits m (USER_DICT_POOL_OFFSET + 2 * offsetUnits e) (lengthUtf16Units e)"

fun validateEntries :: "bytes \<Rightarrow> nat \<Rightarrow> u16string option \<Rightarrow> DictWordEntryWire list \<Rightarrow> WireError option" where
  "validateEntries m units prevWord [] = None"
| "validateEntries m units prevWord (e # es) =
    (if offsetUnits e \<ge> units \<or> lengthUtf16Units e \<ge> units - offsetUnits e then Some EntryBounds
     else if loadU16 m (USER_DICT_POOL_OFFSET + 2 * (offsetUnits e + lengthUtf16Units e)) \<noteq> NEWLINE
     then Some EntryDelimiter
     else if lengthUtf16Units e < 1 \<or> lengthUtf16Units e > MAX_DICT_WORD_UTF16_UNITS then Some EntryLength
     else if scalarCount e < 1 \<or> scalarCount e > 64 then Some EntryScalars
     else if HasInvalidSurrogates (wordAt m e) then Some WordSurrogate
     else if CountUnicodeScalars (wordAt m e) \<noteq> scalarCount e then Some EntryScalarMismatch
     else if (case prevWord of None \<Rightarrow> False | Some w \<Rightarrow> CompareUtf16ByUnicodeScalar w (wordAt m e) \<ge> 0)
     then Some NotSorted
     else validateEntries m units (Some (wordAt m e)) es)"

text \<open>The checks of the header, in their order.\<close>

definition headerError :: "LexiconWireHeader \<Rightarrow> WireError option" where
  "headerError h =
    (if magic h \<noteq> WIRE_MAGIC then Some BadMagic
     else if abiVersion h \<noteq> CURRENT_WIRE_ABI_VERSION then Some BadAbi
     else if headerSizeBytes h \<noteq> WIRE_HEADER_SIZE then Some BadHeaderSize
     else if totalSizeBytes h \<noteq> WIRE_TOTAL_SIZE then Some BadTotalSize
     else if payloadOffsetBytes h \<noteq> WIRE_HEADER_SIZE then Some BadPayloadOffset
     else if payloadSizeBytes h > WIRE_TOTAL_SIZE - WIRE_HEADER_SIZE then Some BadPayloadSize
     else if exclusionsOffsetBytes h \<noteq> EXCLUSIONS_REGION_OFFSET then Some BadExclusionsOffset
     else if exclusionsLengthBytes h > EXCLUSIONS_REGION_MAX_BYTES then Some BadExclusionsLength
     else if exclusionsUtf16Units h * 2 \<noteq> exclusionsLengthBytes h then Some ExclusionsUnits
     else if exclusionsRowCount h > MAX_EXCLUSIONS_ROWS then Some RowCountLimit
     else if userDictOffsetBytes h \<noteq> USER_DICT_POOL_OFFSET then Some BadDictOffset
     else if userDictLengthBytes h > USER_DICT_POOL_MAX_BYTES then Some BadDictLength
     else if userDictUtf16Units h * 2 \<noteq> userDictLengthBytes h then Some DictUnits
     else if userDictWordCount h > MAX_USER_DICT_WORDS then Some WordCountLimit
     else if userDictUtf16Units h > MAX_USER_DICT_UTF16_UNITS then Some DictUnitsLimit
     else if payloadSizeBytes h \<noteq> (USER_DICT_POOL_OFFSET - WIRE_HEADER_SIZE) + userDictLengthBytes h
     then Some PayloadMismatch
     else None)"

record LexiconWireView =
  header :: LexiconWireHeader
  exclusionsBuf :: u16string
  indexEntries :: "DictWordEntryWire list"

definition rowsError :: "bytes \<Rightarrow> LexiconWireHeader \<Rightarrow> WireError option" where
  "rowsError m h =
    (if exclusionsRowCount h > 0 then
       (case validateRows (loadUnits m (exclusionsOffsetBytes h) (exclusionsUtf16Units h)) [] 0 of
          Inl err \<Rightarrow> Some err
        | Inr parsedRows \<Rightarrow> if parsedRows \<noteq> exclusionsRowCount h then Some RowCountMismatch else None)
     else None)"

definition ValidateAndInspect :: "bytes option \<Rightarrow> nat \<Rightarrow> WireError + LexiconWireView" where
  "ValidateAndInspect wireBuffer bufferSize =
    (case wireBuffer of None \<Rightarrow> Inl BufferTooSmall | Some m \<Rightarrow>
     if bufferSize < WIRE_TOTAL_SIZE then Inl BufferTooSmall
     else let h = readHeader m in
     case headerError h of Some err \<Rightarrow> Inl err | None \<Rightarrow>
     if unat (ComputeCrc32 (Some (loadBytes m (payloadOffsetBytes h) (payloadSizeBytes h)))) \<noteq> crc32 h
     then Inl CrcMismatch
     else case rowsError m h of Some err \<Rightarrow> Inl err | None \<Rightarrow>
     let entries = map (readEntry m) [0..<userDictWordCount h] in
     case validateEntries m (userDictUtf16Units h) None entries of Some err \<Rightarrow> Inl err | None \<Rightarrow>
     Inr \<lparr>header = h, exclusionsBuf = loadUnits m (exclusionsOffsetBytes h) (exclusionsUtf16Units h),
          indexEntries = entries\<rparr>)"

fun extractRows :: "u16string \<Rightarrow> u16string \<Rightarrow> u16string list" where
  "extractRows [] row = []"
| "extractRows (c # us) row =
    (if c = NEWLINE then (if row \<noteq> [] then row # extractRows us [] else extractRows us [])
     else extractRows us (row @ [c]))"

record Lexicon =
  outExclusions :: "u16string list"
  outUserDict :: "u16string list"
  outGeneration :: nat
  outSpellSuggestEnabled :: bool

definition Deserialize :: "bytes option \<Rightarrow> nat \<Rightarrow> WireError + Lexicon" where
  "Deserialize wireBuffer bufferSize =
    (case ValidateAndInspect wireBuffer bufferSize of Inl err \<Rightarrow> Inl err | Inr view \<Rightarrow>
     Inr \<lparr>outExclusions = extractRows (exclusionsBuf view) [],
          outUserDict = (case wireBuffer of None \<Rightarrow> [] | Some m \<Rightarrow> map (wordAt m) (indexEntries view)),
          outGeneration = generation (header view),
          outSpellSuggestEnabled = (flags (header view) AND 1 \<noteq> 0)\<rparr>)"

end
