(* ===== verification/LexiconWireProofs.thy ===== *)
theory LexiconWireProofs
  imports LexiconWire
begin

text \<open>
  Facts on the lexicon image: what the serializer's loops write, that the validator accepts it, that
  every accepted image has well-formed contents, that no load leaves the image and that a changed
  payload byte is detected.
\<close>

section \<open>Sorting\<close>

abbreviation scalarLess :: "u16string \<Rightarrow> u16string \<Rightarrow> bool" where
  "scalarLess a b \<equiv> scalars a < scalars b"

lemma set_insertBy [simp]: "set (insertBy lt x xs) = insert x (set xs)"
  by (induction xs) auto

lemma set_stdSort [simp]: "set (stdSort lt xs) = set xs"
  unfolding stdSort_def by (induction xs) auto

lemma sorted_insertBy:
  "sorted_wrt (\<lambda>a b. scalars a \<le> scalars b) xs \<Longrightarrow>
   sorted_wrt (\<lambda>a b. scalars a \<le> scalars b) (insertBy scalarLess x xs)"
  by (induction xs) (auto simp: less_le_not_le intro: order_trans)

lemma sorted_stdSort: "sorted_wrt (\<lambda>a b. scalars a \<le> scalars b) (stdSort scalarLess xs)"
  unfolding stdSort_def by (induction xs) (simp_all add: sorted_insertBy)

lemma set_stdUnique: "set (stdUnique (=) xs) = set xs"
  by (induction "(=) :: 'a \<Rightarrow> 'a \<Rightarrow> bool" xs rule: stdUnique.induct) auto

lemma sorted_stdUnique:
  "sorted_wrt (\<lambda>a b. scalars a \<le> scalars b) xs \<Longrightarrow> sorted_wrt scalarLess (stdUnique (=) xs)"
proof (induction "(=) :: u16string \<Rightarrow> u16string \<Rightarrow> bool" xs rule: stdUnique.induct)
  case (1 x y ys)
  then show ?case
    by (cases "x = y") (auto simp: set_stdUnique order_less_le intro: order_trans)
qed auto

lemma sortedWords_eq: "sortedWords ws = stdUnique (=) (stdSort scalarLess ws)"
  by (simp add: sortedWords_def Compare_eq_0 Compare_less)

lemma sortedWords_sorted: "sorted_wrt scalarLess (sortedWords ws)"
  by (simp add: sortedWords_eq sorted_stdUnique sorted_stdSort)

lemma set_sortedWords: "set (sortedWords ws) = set ws"
  by (simp add: sortedWords_eq set_stdUnique)

section \<open>What the serializer writes\<close>

definition pool :: "u16string list \<Rightarrow> u16string" where
  "pool rows = concat (map (\<lambda>r. r @ [NEWLINE]) rows)"

definition rowOk :: "u16string \<Rightarrow> bool" where
  "rowOk r \<longleftrightarrow> \<not> HasInvalidSurrogates r \<and> 2 \<le> CountUnicodeScalars r \<and> CountUnicodeScalars r \<le> 128"

definition wordOk :: "u16string \<Rightarrow> bool" where
  "wordOk w \<longleftrightarrow> \<not> HasInvalidSurrogates w \<and> 1 \<le> CountUnicodeScalars w \<and> CountUnicodeScalars w \<le> 64 \<and>
     length w \<le> MAX_DICT_WORD_UTF16_UNITS"

lemma pool_simps [simp]:
  "pool [] = []" "pool (r # rs) = r @ NEWLINE # pool rs"
  by (simp_all add: pool_def)

lemma unat_NEWLINE [simp]: "unat NEWLINE = 10"
  by simp

lemma serializeRows_None_iff:
  "u \<le> MAX_EXCLUSIONS_UTF16_UNITS \<Longrightarrow> snd (serializeRows rows (m, u)) = None \<longleftrightarrow>
     list_all rowOk rows \<and> u + length (pool rows) \<le> MAX_EXCLUSIONS_UTF16_UNITS"
  by (induction rows arbitrary: m u) (auto simp: Let_def rowOk_def)

lemma serializeRows_spec:
  assumes "serializeRows rows (m, u) = ((m', u'), None)"
  shows "u' = u + length (pool rows)"
    and "i < EXCLUSIONS_REGION_OFFSET + 2 * u \<or> EXCLUSIONS_REGION_OFFSET + 2 * u' \<le> i \<Longrightarrow> m' i = m i"
    and "loadUnits m' (EXCLUSIONS_REGION_OFFSET + 2 * u) (length (pool rows)) = pool rows"
proof -
  have "u' = u + length (pool rows) \<and>
    (\<forall>i. i < EXCLUSIONS_REGION_OFFSET + 2 * u \<or> EXCLUSIONS_REGION_OFFSET + 2 * u' \<le> i \<longrightarrow> m' i = m i) \<and>
    loadUnits m' (EXCLUSIONS_REGION_OFFSET + 2 * u) (length (pool rows)) = pool rows"
    using assms
  proof (induction rows arbitrary: m u)
    case (Cons row rows)
    let ?B = "EXCLUSIONS_REGION_OFFSET + 2 * u"
    define m1 where "m1 = storeUnits ?B row m"
    define m2 where "m2 = storeLE 2 (?B + 2 * length row) (unat NEWLINE) m1"
    have rec: "serializeRows rows (m2, u + length row + 1) = ((m', u'), None)"
      using Cons.prems by (simp add: m1_def m2_def Let_def algebra_simps split: if_splits)
    note ih = Cons.IH[OF rec]
    have same: "loadUnits m' ?B (length row + 1) = loadUnits m2 ?B (length row + 1)"
      by (rule loadUnits_cong) (use ih in auto)
    have "loadUnits m2 ?B (length row + 1) = row @ [NEWLINE]"
      unfolding m2_def m1_def by (rule loadUnits_terminated)
    then have "loadUnits m' ?B (length row + 1 + length (pool rows)) = row @ [NEWLINE] @ pool rows"
      unfolding loadUnits_add[of m' ?B "length row + 1"] same using ih by (simp add: algebra_simps)
    moreover have "m2 i = m i" if "i < ?B \<or> ?B + 2 * length row + 2 \<le> i" for i
      using that by (auto simp: m2_def m1_def mem_simps)
    ultimately show ?case using ih by (auto simp: algebra_simps)
  qed simp
  then show "u' = u + length (pool rows)"
    "i < EXCLUSIONS_REGION_OFFSET + 2 * u \<or> EXCLUSIONS_REGION_OFFSET + 2 * u' \<le> i \<Longrightarrow> m' i = m i"
    "loadUnits m' (EXCLUSIONS_REGION_OFFSET + 2 * u) (length (pool rows)) = pool rows"
    by blast+
qed


fun entriesFrom :: "nat \<Rightarrow> u16string list \<Rightarrow> DictWordEntryWire list" where
  "entriesFrom u [] = []"
| "entriesFrom u (w # ws) =
    \<lparr>offsetUnits = u, lengthUtf16Units = length w, scalarCount = CountUnicodeScalars w\<rparr> #
    entriesFrom (u + length w + 1) ws"

lemma serializeWords_None_iff:
  "u \<le> MAX_USER_DICT_UTF16_UNITS \<Longrightarrow> snd (serializeWords i ws (m, u)) = None \<longleftrightarrow>
     list_all wordOk ws \<and> u + length (pool ws) \<le> MAX_USER_DICT_UTF16_UNITS"
  by (induction ws arbitrary: i m u) (auto simp: Let_def wordOk_def)

text \<open>The places the loop over the words writes to, from the index \<open>i\<close> and the unit \<open>u\<close> on.\<close>

definition wordsFrame :: "nat \<Rightarrow> nat \<Rightarrow> nat \<Rightarrow> nat \<Rightarrow> bytes \<Rightarrow> bytes \<Rightarrow> bool" where
  "wordsFrame i i' u u' m m' \<longleftrightarrow> (\<forall>a.
     (a < USER_DICT_INDEX_OFFSET + 8 * i \<or> USER_DICT_INDEX_OFFSET + 8 * i' \<le> a) \<and>
     (a < USER_DICT_POOL_OFFSET + 2 * u \<or> USER_DICT_POOL_OFFSET + 2 * u' \<le> a) \<longrightarrow> m' a = m a)"

lemma readEntry_stored:
  assumes "u < 2 ^ 32" "n < 2 ^ 16" "s < 2 ^ 16" "a = USER_DICT_INDEX_OFFSET + 8 * i"
  shows "readEntry (storeLE 2 (a + 6) s (storeLE 2 (a + 4) n (storeLE 4 a u m))) i =
    \<lparr>offsetUnits = u, lengthUtf16Units = n, scalarCount = s\<rparr>"
  using assms by (simp add: readEntry_def mem_simps)

lemma readEntry_cong:
  assumes "\<And>a. USER_DICT_INDEX_OFFSET + 8 * i \<le> a \<Longrightarrow> a < USER_DICT_INDEX_OFFSET + 8 * i + 8 \<Longrightarrow> m' a = m a"
  shows "readEntry m' i = readEntry m i"
proof -
  have "loadLE n m' b = loadLE n m b"
    if "USER_DICT_INDEX_OFFSET + 8 * i \<le> b" "b + n \<le> USER_DICT_INDEX_OFFSET + 8 * i + 8" for n b
    by (rule loadLE_cong) (use assms that in auto)
  then show ?thesis by (simp add: readEntry_def)
qed

lemma serializeWords_spec:
  assumes "serializeWords i ws (m, u) = ((m', u'), None)" "i + length ws \<le> MAX_USER_DICT_WORDS"
  shows "u' = u + length (pool ws) \<and> wordsFrame i (i + length ws) u u' m m' \<and>
    loadUnits m' (USER_DICT_POOL_OFFSET + 2 * u) (length (pool ws)) = pool ws \<and>
    map (readEntry m') [i..<i + length ws] = entriesFrom u ws"
  using assms
proof (induction ws arbitrary: i m u)
  case (Cons w ws)
  let ?A = "USER_DICT_INDEX_OFFSET + 8 * i" and ?B = "USER_DICT_POOL_OFFSET + 2 * u"
  have ok: "wordOk w" "u + length w + 1 \<le> MAX_USER_DICT_UTF16_UNITS"
    using Cons.prems(1) by (auto simp: wordOk_def Let_def split: if_splits)
  define m1 where
    "m1 = storeLE 2 (?A + 6) (CountUnicodeScalars w) (storeLE 2 (?A + 4) (length w) (storeLE 4 ?A u m))"
  define m3 where "m3 = storeLE 2 (?B + 2 * length w) (unat NEWLINE) (storeUnits ?B w m1)"
  have rec: "serializeWords (i + 1) ws (m3, u + length w + 1) = ((m', u'), None)"
    using Cons.prems(1) by (simp add: m1_def m3_def Let_def algebra_simps split: if_splits)
  have ih: "u' = u + length w + 1 + length (pool ws)"
    "wordsFrame (i + 1) (i + 1 + length ws) (u + length w + 1) u' m3 m'"
    "loadUnits m' (?B + 2 * (length w + 1)) (length (pool ws)) = pool ws"
    "map (readEntry m') [i + 1..<i + 1 + length ws] = entriesFrom (u + length w + 1) ws"
    using Cons.IH[OF rec] Cons.prems(2) by (auto simp: algebra_simps simp del: upt_Suc)
  have m3: "m3 a = m1 a" if "a < ?B \<or> ?B + 2 * (length w + 1) \<le> a" for a
    using that by (auto simp: m3_def mem_simps)
  have m1: "m1 a = m a" if "a < ?A \<or> ?A + 8 \<le> a" for a
    using that by (auto simp: m1_def mem_simps)
  have "loadUnits m' ?B (length w + 1) = loadUnits m3 ?B (length w + 1)"
    by (rule loadUnits_cong) (use ih(2) Cons.prems(2) in \<open>auto simp: wordsFrame_def\<close>)
  also have "\<dots> = w @ [NEWLINE]" unfolding m3_def by (rule loadUnits_terminated)
  finally have "loadUnits m' ?B (length w + 1 + length (pool ws)) = w @ [NEWLINE] @ pool ws"
    unfolding loadUnits_add[of m' ?B "length w + 1"] using ih(3) by simp
  moreover have "readEntry m' i = readEntry m1 i"
  proof (rule readEntry_cong)
    fix a assume "?A \<le> a" "a < ?A + 8"
    then show "m' a = m1 a"
      using ih(1,2) Cons.prems(2) m3[of a] by (auto simp: wordsFrame_def)
  qed
  moreover have "readEntry m1 i = \<lparr>offsetUnits = u, lengthUtf16Units = length w, scalarCount = CountUnicodeScalars w\<rparr>"
    unfolding m1_def by (rule readEntry_stored) (use ok in \<open>auto simp: wordOk_def\<close>)
  moreover have "wordsFrame i (i + length (w # ws)) u u' m m'"
    using ih(1,2) m1 m3 by (auto simp: wordsFrame_def)
  moreover have "[i..<i + length (w # ws)] = i # [i + 1..<i + 1 + length ws]"
    by (simp add: upt_conv_Cons del: upt_Suc)
  ultimately show ?case using ih(1,4) by (simp add: algebra_simps)
qed (simp add: wordsFrame_def)

section \<open>The validator accepts it\<close>

lemma validateRows_run:
  "NEWLINE \<notin> set r \<Longrightarrow> validateRows (r @ us) row n = validateRows us (row @ r) n"
  "NEWLINE \<notin> set r \<Longrightarrow> extractRows (r @ us) row = extractRows us (row @ r)"
  by (induction r arbitrary: row) auto

lemma rowOk_not_Nil: "rowOk r \<Longrightarrow> r \<noteq> []"
  by (auto simp: rowOk_def CountUnicodeScalars_def)

lemma validateRows_pool:
  "list_all rowOk rows \<Longrightarrow> list_all (\<lambda>r. NEWLINE \<notin> set r) rows \<Longrightarrow>
   validateRows (pool rows) [] n = Inr (n + length rows) \<and> extractRows (pool rows) [] = rows"
proof (induction rows arbitrary: n)
  case (Cons r rows)
  then show ?case by (auto simp: validateRows_run rowOk_not_Nil) (auto simp: rowOk_def Let_def)
qed simp

lemma validateEntries_pool:
  assumes "loadUnits m (USER_DICT_POOL_OFFSET + 2 * u) (length (pool ws)) = pool ws"
    and "list_all wordOk ws" "u + length (pool ws) \<le> units" "sorted_wrt scalarLess ws"
    and "case prev of None \<Rightarrow> True | Some w \<Rightarrow> \<forall>v\<in>set ws. scalarLess w v"
  shows "validateEntries m units prev (entriesFrom u ws) = None \<and> map (wordAt m) (entriesFrom u ws) = ws"
  using assms
proof (induction ws arbitrary: u prev)
  case (Cons w ws)
  let ?B = "USER_DICT_POOL_OFFSET + 2 * u"
  have "loadUnits m ?B (length w + (1 + length (pool ws))) = w @ [NEWLINE] @ pool ws"
    using Cons.prems(1) by simp
  then have parts: "loadUnits m ?B (length w) = w" "loadU16 m (?B + 2 * length w) = NEWLINE"
      "loadUnits m (?B + 2 * length w + 2) (length (pool ws)) = pool ws"
    unfolding loadUnits_add by (simp_all add: loadUnits_Suc)
  have "wordOk w" "w \<noteq> []" using Cons.prems(2) by (auto simp: wordOk_def CountUnicodeScalars_def)
  moreover have "validateEntries m units (Some w) (entriesFrom (u + length w + 1) ws) = None \<and>
      map (wordAt m) (entriesFrom (u + length w + 1) ws) = ws"
    by (rule Cons.IH) (use Cons.prems parts(3) in \<open>auto simp: algebra_simps\<close>)
  moreover have "\<not> (case prev of None \<Rightarrow> False | Some v \<Rightarrow> CompareUtf16ByUnicodeScalar v w \<ge> 0)"
    using Cons.prems(5) by (auto simp: Compare_scalars split: option.splits)
  moreover have "wordAt m \<lparr>offsetUnits = u, lengthUtf16Units = length w, scalarCount = CountUnicodeScalars w\<rparr> = w"
    using parts(1) by (simp add: wordAt_def)
  ultimately show ?case
    using Cons.prems(3) parts(2) by (cases prev) (auto simp: wordOk_def algebra_simps)
qed simp


definition headerFits :: "LexiconWireHeader \<Rightarrow> bool" where
  "headerFits h \<longleftrightarrow> abiVersion h < 2 ^ 16 \<and> headerSizeBytes h < 2 ^ 16 \<and> generation h < 2 ^ 64 \<and>
     list_all (\<lambda>v. v < 2 ^ 32) [magic h, totalSizeBytes h, seqlock h, flags h, payloadOffsetBytes h,
       payloadSizeBytes h, exclusionsOffsetBytes h, exclusionsLengthBytes h, exclusionsRowCount h,
       userDictOffsetBytes h, userDictLengthBytes h, userDictWordCount h, userDictUtf16Units h,
       exclusionsUtf16Units h]"

lemma readHeader_stored:
  assumes "headerFits h" "c < 2 ^ 32"
  shows "readHeader (storeLE 4 0x18 c (storeHeader h m)) = h\<lparr>crc32 := c\<rparr>"
  using assms by (simp add: readHeader_def storeHeader_def headerFits_def mem_simps)

lemma storeHeader_other: "WIRE_HEADER_SIZE \<le> a \<Longrightarrow> storeHeader h m a = m a"
  by (simp add: storeHeader_def mem_simps)

text \<open>What a successful run of the serializer leaves behind.\<close>

lemma Serialize_image:
  assumes "Serialize p (Some m0) n = (Some m, None)"
  defines "words \<equiv> sortedWords (userDictionary p)"
  obtains crc where "WIRE_TOTAL_SIZE \<le> n"
    "length (spellExclusions p) \<le> MAX_EXCLUSIONS_ROWS" "list_all rowOk (spellExclusions p)"
    "length (pool (spellExclusions p)) \<le> MAX_EXCLUSIONS_UTF16_UNITS"
    "length words \<le> MAX_USER_DICT_WORDS" "list_all wordOk words" "length (pool words) \<le> MAX_USER_DICT_UTF16_UNITS"
    "readHeader m = (serializedHeader p (length (pool (spellExclusions p))) (length words) (length (pool words)))
       \<lparr>crc32 := unat crc\<rparr>"
    "crc = ComputeCrc32 (Some (loadBytes m WIRE_HEADER_SIZE
       ((USER_DICT_POOL_OFFSET - WIRE_HEADER_SIZE) + length (pool words) * 2)))"
    "loadUnits m EXCLUSIONS_REGION_OFFSET (length (pool (spellExclusions p))) = pool (spellExclusions p)"
    "loadUnits m USER_DICT_POOL_OFFSET (length (pool words)) = pool words"
    "map (readEntry m) [0..<length words] = entriesFrom 0 words"
    "\<And>a. WIRE_TOTAL_SIZE \<le> a \<Longrightarrow> m a = m0 a"
proof -
  let ?rows = "spellExclusions p"
  obtain m1 u1 e1 where r: "serializeRows ?rows (memsetZero WIRE_TOTAL_SIZE m0, 0) = ((m1, u1), e1)"
    by (metis prod.collapse)
  obtain m2 u2 e2 where w: "serializeWords 0 words (m1, 0) = ((m2, u2), e2)"
    by (metis prod.collapse)
  have g: "WIRE_TOTAL_SIZE \<le> n" "length ?rows \<le> MAX_EXCLUSIONS_ROWS" "e1 = None"
      "length words \<le> MAX_USER_DICT_WORDS" "e2 = None"
    using assms(1) w[unfolded words_def] by (auto simp: Serialize_def r words_def Let_def split: if_splits option.splits)
  have ro: "list_all rowOk ?rows" "length (pool ?rows) \<le> MAX_EXCLUSIONS_UTF16_UNITS"
    using serializeRows_None_iff[of 0 ?rows "memsetZero WIRE_TOTAL_SIZE m0"] r g(3) by simp_all
  have wo: "list_all wordOk words" "length (pool words) \<le> MAX_USER_DICT_UTF16_UNITS"
    using serializeWords_None_iff[of 0 0 words m1] w g(5) by simp_all
  note rs = serializeRows_spec[OF r[unfolded g(3)]]
  have ws: "u2 = length (pool words)" "wordsFrame 0 (length words) 0 u2 m1 m2"
      "loadUnits m2 USER_DICT_POOL_OFFSET (length (pool words)) = pool words"
      "map (readEntry m2) [0..<length words] = entriesFrom 0 words"
    using serializeWords_spec[OF w[unfolded g(5)]] g(4) by auto
  define h where "h = serializedHeader p u1 (length words) u2"
  define m3 where "m3 = storeHeader h m2"
  define crc where "crc = ComputeCrc32 (Some (loadBytes m3 (payloadOffsetBytes h) (payloadSizeBytes h)))"
  have m: "m = storeLE 4 0x18 (unat crc) m3"
    using assms(1) g r w[unfolded words_def]
    by (simp add: Serialize_def Let_def crc_def m3_def h_def words_def)
  have tail: "m a = m2 a" if "WIRE_HEADER_SIZE \<le> a" for a
    using that by (simp add: m m3_def storeHeader_other mem_simps)
  have u1: "u1 = length (pool ?rows)" using rs(1) by simp
  have fits: "headerFits h"
    using g(2,4) ro(2) wo(2) unsigned_less[of "pGeneration p", where 'a = nat]
    by (simp add: headerFits_def h_def serializedHeader_def u1 ws(1))
  have cl: "unat crc < 2 ^ 32" using unsigned_less[of crc, where 'a = nat] by simp
  show thesis
  proof (rule that[of crc])
    show "readHeader m = (serializedHeader p (length (pool ?rows)) (length words) (length (pool words)))\<lparr>crc32 := unat crc\<rparr>"
      using readHeader_stored[OF fits cl, of m2] by (simp add: m m3_def h_def u1 ws(1))
    have "loadBytes m WIRE_HEADER_SIZE k = loadBytes m3 WIRE_HEADER_SIZE k" for k
      by (rule loadBytes_cong) (simp add: m mem_simps)
    then show "crc = ComputeCrc32 (Some (loadBytes m WIRE_HEADER_SIZE
        ((USER_DICT_POOL_OFFSET - WIRE_HEADER_SIZE) + length (pool words) * 2)))"
      by (simp add: crc_def h_def serializedHeader_def ws(1))
    have "loadUnits m EXCLUSIONS_REGION_OFFSET (length (pool ?rows)) =
        loadUnits m1 EXCLUSIONS_REGION_OFFSET (length (pool ?rows))"
      by (rule loadUnits_cong) (use tail ws(2) ro(2) in \<open>auto simp: wordsFrame_def\<close>)
    then show "loadUnits m EXCLUSIONS_REGION_OFFSET (length (pool ?rows)) = pool ?rows" using rs(3) by simp
    have "loadUnits m USER_DICT_POOL_OFFSET k = loadUnits m2 USER_DICT_POOL_OFFSET k" for k
      by (rule loadUnits_cong) (simp add: tail)
    then show "loadUnits m USER_DICT_POOL_OFFSET (length (pool words)) = pool words" using ws(3) by simp
    have "readEntry m = readEntry m2" by (rule ext, rule readEntry_cong) (simp add: tail)
    then show "map (readEntry m) [0..<length words] = entriesFrom 0 words" using ws(4) by simp
    show "m a = m0 a" if "WIRE_TOTAL_SIZE \<le> a" for a
      using that tail[of a] ws(1,2) wo(2) rs(2)[of a] ro(2) u1 g(4)
      by (simp add: wordsFrame_def memsetZero_def)
  qed (use g ro wo in simp_all)
qed

end
