(* ===== verification/LexiconWireProps.thy ===== *)
theory LexiconWireProps
  imports LexiconWireProofs
begin

text \<open>
  The guarantees of the lexicon image: which lexicons are serialized, the round trip, what an
  accepted image contains, memory safety on arbitrary images and detection of a corrupted payload;
  and the two places where the validator and the (de)serializer disagree.
\<close>

section \<open>Success of the serializer\<close>

definition serializable :: "LexiconWireSerializeParams \<Rightarrow> bool" where
  "serializable p \<longleftrightarrow>
     length (spellExclusions p) \<le> MAX_EXCLUSIONS_ROWS \<and> list_all rowOk (spellExclusions p) \<and>
     length (pool (spellExclusions p)) \<le> MAX_EXCLUSIONS_UTF16_UNITS \<and>
     length (sortedWords (userDictionary p)) \<le> MAX_USER_DICT_WORDS \<and>
     list_all wordOk (sortedWords (userDictionary p)) \<and>
     length (pool (sortedWords (userDictionary p))) \<le> MAX_USER_DICT_UTF16_UNITS"

lemma Serialize_None_iff:
  "snd (Serialize p (Some m0) n) = None \<longleftrightarrow> WIRE_TOTAL_SIZE \<le> n \<and> serializable p"
proof -
  let ?rows = "spellExclusions p" and ?words = "sortedWords (userDictionary p)"
  obtain m1 u1 e1 where r: "serializeRows ?rows (memsetZero WIRE_TOTAL_SIZE m0, 0) = ((m1, u1), e1)"
    by (metis prod.collapse)
  obtain m2 u2 e2 where w: "serializeWords 0 ?words (m1, 0) = ((m2, u2), e2)"
    by (metis prod.collapse)
  have "e1 = None \<longleftrightarrow> list_all rowOk ?rows \<and> length (pool ?rows) \<le> MAX_EXCLUSIONS_UTF16_UNITS"
    using serializeRows_None_iff[of 0 ?rows "memsetZero WIRE_TOTAL_SIZE m0"] r by simp
  moreover have "e2 = None \<longleftrightarrow> list_all wordOk ?words \<and> length (pool ?words) \<le> MAX_USER_DICT_UTF16_UNITS"
    using serializeWords_None_iff[of 0 0 ?words m1] w by simp
  ultimately show ?thesis
    by (cases e1; cases e2) (simp_all add: Serialize_def serializable_def r w Let_def not_le)
qed

lemma Serialize_buffer: "\<exists>m. fst (Serialize p (Some m0) n) = Some m"
  by (auto simp: Serialize_def Let_def split: prod.splits option.splits)

lemma Serialize_SomeI:
  "WIRE_TOTAL_SIZE \<le> n \<Longrightarrow> serializable p \<Longrightarrow> \<exists>m. Serialize p (Some m0) n = (Some m, None)"
  using Serialize_None_iff[of p m0 n] Serialize_buffer[of p m0 n] by (metis prod.collapse)

lemma serializeRows_tail:
  "u \<le> MAX_EXCLUSIONS_UTF16_UNITS \<Longrightarrow> WIRE_TOTAL_SIZE \<le> i \<Longrightarrow> fst (fst (serializeRows rows (m, u))) i = m i"
  by (induction rows arbitrary: m u) (auto simp: Let_def mem_simps)

lemma serializeWords_tail:
  "u \<le> MAX_USER_DICT_UTF16_UNITS \<Longrightarrow> k + length ws \<le> MAX_USER_DICT_WORDS \<Longrightarrow> WIRE_TOTAL_SIZE \<le> i \<Longrightarrow>
   fst (fst (serializeWords k ws (m, u))) i = m i"
  by (induction ws arbitrary: k m u) (auto simp: Let_def mem_simps)

lemma Serialize_tail:
  assumes "Serialize p (Some m0) n = (Some m, e)" "WIRE_TOTAL_SIZE \<le> i"
  shows "m i = m0 i"
proof -
  let ?rows = "spellExclusions p" and ?words = "sortedWords (userDictionary p)"
  obtain m1 u1 e1 where r: "serializeRows ?rows (memsetZero WIRE_TOTAL_SIZE m0, 0) = ((m1, u1), e1)"
    by (metis prod.collapse)
  obtain m2 u2 e2 where w: "serializeWords 0 ?words (m1, 0) = ((m2, u2), e2)"
    by (metis prod.collapse)
  have "m1 i = m0 i"
    using serializeRows_tail[of 0 i ?rows "memsetZero WIRE_TOTAL_SIZE m0"] r assms(2) by (simp add: memsetZero_def)
  moreover have "length ?words \<le> MAX_USER_DICT_WORDS \<Longrightarrow> m2 i = m1 i"
    using serializeWords_tail[of 0 0 ?words i m1] w assms(2) by simp
  ultimately show ?thesis
    using assms by (auto simp: Serialize_def r w Let_def storeHeader_other mem_simps split: if_splits option.splits)
qed

section \<open>Round trip\<close>

lemma serializedHeader_valid:
  assumes "length (spellExclusions p) \<le> MAX_EXCLUSIONS_ROWS" "u \<le> MAX_EXCLUSIONS_UTF16_UNITS"
    "k \<le> MAX_USER_DICT_WORDS" "v \<le> MAX_USER_DICT_UTF16_UNITS"
  shows "headerError ((serializedHeader p u k v)\<lparr>crc32 := c\<rparr>) = None"
  using assms by (simp add: headerError_def serializedHeader_def)

definition rowsVerdict :: "u16string list \<Rightarrow> WireError option" where
  "rowsVerdict rows =
    (if rows = [] then None
     else case validateRows (pool rows) [] 0 of Inl err \<Rightarrow> Some err
       | Inr parsedRows \<Rightarrow> if parsedRows \<noteq> length rows then Some RowCountMismatch else None)"

definition lexiconOf :: "LexiconWireSerializeParams \<Rightarrow> Lexicon" where
  "lexiconOf p = \<lparr>outExclusions = extractRows (pool (spellExclusions p)) [],
     outUserDict = sortedWords (userDictionary p), outGeneration = unat (pGeneration p),
     outSpellSuggestEnabled = spellSuggestEnabled p\<rparr>"

text \<open>On the image of a serialized lexicon only the rows can be refused.\<close>

lemma Deserialize_serialized:
  assumes "Serialize p (Some m0) n = (Some m, None)"
  shows "Deserialize (Some m) n =
    (case rowsVerdict (spellExclusions p) of Some err \<Rightarrow> Inl err | None \<Rightarrow> Inr (lexiconOf p))"
proof -
  let ?rows = "spellExclusions p" and ?words = "sortedWords (userDictionary p)"
  obtain crc where im: "WIRE_TOTAL_SIZE \<le> n"
    "length ?rows \<le> MAX_EXCLUSIONS_ROWS" "length (pool ?rows) \<le> MAX_EXCLUSIONS_UTF16_UNITS"
    "length ?words \<le> MAX_USER_DICT_WORDS" "list_all wordOk ?words"
    "length (pool ?words) \<le> MAX_USER_DICT_UTF16_UNITS"
    "readHeader m = (serializedHeader p (length (pool ?rows)) (length ?words) (length (pool ?words)))\<lparr>crc32 := unat crc\<rparr>"
    "crc = ComputeCrc32 (Some (loadBytes m WIRE_HEADER_SIZE
       ((USER_DICT_POOL_OFFSET - WIRE_HEADER_SIZE) + length (pool ?words) * 2)))"
    "loadUnits m EXCLUSIONS_REGION_OFFSET (length (pool ?rows)) = pool ?rows"
    "loadUnits m USER_DICT_POOL_OFFSET (length (pool ?words)) = pool ?words"
    "map (readEntry m) [0..<length ?words] = entriesFrom 0 ?words"
    by (rule Serialize_image[OF assms]) auto
  have he: "headerError (readHeader m) = None"
    unfolding im(7) by (rule serializedHeader_valid) (use im in simp_all)
  have ve: "validateEntries m (length (pool ?words)) None (entriesFrom 0 ?words) = None \<and>
      map (wordAt m) (entriesFrom 0 ?words) = ?words"
    by (rule validateEntries_pool) (use im sortedWords_sorted in simp_all)
  have re: "rowsError m (readHeader m) = rowsVerdict ?rows"
    by (simp add: rowsError_def rowsVerdict_def im(7) serializedHeader_def im(9) split: sum.split)
  let ?h = "readHeader m"
  have hf: "payloadOffsetBytes ?h = WIRE_HEADER_SIZE"
    "payloadSizeBytes ?h = (USER_DICT_POOL_OFFSET - WIRE_HEADER_SIZE) + length (pool ?words) * 2"
    "crc32 ?h = unat crc" "exclusionsOffsetBytes ?h = EXCLUSIONS_REGION_OFFSET"
    "exclusionsUtf16Units ?h = length (pool ?rows)" "userDictWordCount ?h = length ?words"
    "userDictUtf16Units ?h = length (pool ?words)" "generation ?h = unat (pGeneration p)"
    "flags ?h AND 1 \<noteq> 0 \<longleftrightarrow> spellSuggestEnabled p"
    by (simp_all add: im(7) serializedHeader_def)
  have "unat (ComputeCrc32 (Some (loadBytes m (payloadOffsetBytes ?h) (payloadSizeBytes ?h)))) = crc32 ?h"
    unfolding hf(1-3) im(8) ..
  then show ?thesis
    using im(1) he re ve hf(9)
    by (simp add: Deserialize_def ValidateAndInspect_def Let_def hf(4-8) im(9,11) lexiconOf_def
        del: map_map split: option.split)
qed

lemma rowsVerdict_None:
  assumes "list_all rowOk rows" "list_all (\<lambda>r. NEWLINE \<notin> set r) rows"
  shows "rowsVerdict rows = None" "extractRows (pool rows) [] = rows"
  using validateRows_pool[OF assms, of 0] by (simp_all add: rowsVerdict_def)

section \<open>Memory safety\<close>

lemma readHeader_cong:
  assumes "\<And>i. i < WIRE_HEADER_SIZE \<Longrightarrow> m i = m' i"
  shows "readHeader m = readHeader m'"
proof -
  have "loadLE n m a = loadLE n m' a" if "a + n \<le> WIRE_HEADER_SIZE" for n a
    by (rule loadLE_cong) (use assms that in auto)
  then show ?thesis by (simp add: readHeader_def)
qed

lemma validateEntries_cong:
  assumes "units \<le> MAX_USER_DICT_UTF16_UNITS" "\<And>i. i < WIRE_TOTAL_SIZE \<Longrightarrow> m i = m' i"
  shows "validateEntries m units prev es = validateEntries m' units prev es \<and>
    (validateEntries m units prev es = None \<longrightarrow> map (wordAt m) es = map (wordAt m') es)"
proof (induction es arbitrary: prev)
  case (Cons e es)
  show ?case
  proof (cases "offsetUnits e \<ge> units \<or> lengthUtf16Units e \<ge> units - offsetUnits e")
    case False
    then have l: "offsetUnits e + lengthUtf16Units e < units" by auto
    have "wordAt m e = wordAt m' e"
      unfolding wordAt_def by (rule loadUnits_cong) (use assms l in auto)
    moreover have "loadU16 m (USER_DICT_POOL_OFFSET + 2 * (offsetUnits e + lengthUtf16Units e)) =
        loadU16 m' (USER_DICT_POOL_OFFSET + 2 * (offsetUnits e + lengthUtf16Units e))"
      unfolding loadU16_def by (rule arg_cong[where f = word_of_nat], rule loadLE_cong) (use assms l in auto)
    ultimately show ?thesis using Cons.IH by (cases prev) simp_all
  qed simp
qed simp

lemma headerError_None_bounds:
  assumes "headerError h = None"
  shows "payloadOffsetBytes h = WIRE_HEADER_SIZE" "payloadOffsetBytes h + payloadSizeBytes h \<le> WIRE_TOTAL_SIZE"
    "exclusionsOffsetBytes h = EXCLUSIONS_REGION_OFFSET" "exclusionsUtf16Units h \<le> MAX_EXCLUSIONS_UTF16_UNITS"
    "exclusionsRowCount h \<le> MAX_EXCLUSIONS_ROWS"
    "userDictWordCount h \<le> MAX_USER_DICT_WORDS" "userDictUtf16Units h \<le> MAX_USER_DICT_UTF16_UNITS"
    "payloadSizeBytes h = (USER_DICT_POOL_OFFSET - WIRE_HEADER_SIZE) + 2 * userDictUtf16Units h"
  using assms by (auto simp: headerError_def split: if_splits)

lemma Deserialize_cong:
  assumes a: "\<And>i. i < WIRE_TOTAL_SIZE \<Longrightarrow> m i = m' i"
  shows "Deserialize (Some m) n = Deserialize (Some m') n"
proof -
  let ?h = "readHeader m"
  have h: "readHeader m' = ?h" by (rule readHeader_cong[symmetric]) (simp add: a)
  show ?thesis
  proof (cases "headerError ?h")
    case None
    note b = headerError_None_bounds[OF None]
    have "loadBytes m (payloadOffsetBytes ?h) (payloadSizeBytes ?h) =
        loadBytes m' (payloadOffsetBytes ?h) (payloadSizeBytes ?h)"
      by (rule loadBytes_cong) (use a b(2) in auto)
    moreover have "loadUnits m (exclusionsOffsetBytes ?h) (exclusionsUtf16Units ?h) =
        loadUnits m' (exclusionsOffsetBytes ?h) (exclusionsUtf16Units ?h)"
      by (rule loadUnits_cong) (use a b(3,4) in auto)
    moreover have "map (readEntry m) [0..<userDictWordCount ?h] = map (readEntry m') [0..<userDictWordCount ?h]"
      by (rule map_cong[OF refl], rule readEntry_cong) (use a b(6) in auto)
    ultimately show ?thesis
      using validateEntries_cong[OF b(7), of m m' None "map (readEntry m') [0..<userDictWordCount ?h]"] None a
      by (simp add: Deserialize_def ValidateAndInspect_def h Let_def rowsError_def
          del: map_eq_conv map_map split: option.split)
  qed (simp add: Deserialize_def ValidateAndInspect_def h Let_def)
qed

section \<open>Accepted images\<close>

lemma Deserialize_InrD:
  assumes "Deserialize (Some m) n = Inr x"
  shows "WIRE_TOTAL_SIZE \<le> n" "headerError (readHeader m) = None"
    "unat (ComputeCrc32 (Some (loadBytes m WIRE_HEADER_SIZE (payloadSizeBytes (readHeader m))))) = crc32 (readHeader m)"
    "rowsError m (readHeader m) = None"
    "validateEntries m (userDictUtf16Units (readHeader m)) None
       (map (readEntry m) [0..<userDictWordCount (readHeader m)]) = None"
    "outUserDict x = map (wordAt m) (map (readEntry m) [0..<userDictWordCount (readHeader m)])"
    "outExclusions x = extractRows (loadUnits m EXCLUSIONS_REGION_OFFSET (exclusionsUtf16Units (readHeader m))) []"
  using assms headerError_None_bounds(1,3)[of "readHeader m"]
  by (auto simp: Deserialize_def ValidateAndInspect_def Let_def split: option.splits if_splits sum.splits)

lemma validateEntries_sound:
  "validateEntries m units prev es = None \<Longrightarrow>
   list_all wordOk (map (wordAt m) es) \<and> sorted_wrt scalarLess (map (wordAt m) es) \<and>
   (case prev of None \<Rightarrow> True | Some w \<Rightarrow> list_all (scalarLess w) (map (wordAt m) es))"
proof (induction es arbitrary: prev)
  case (Cons e es)
  let ?w = "wordAt m e"
  have ih: "list_all wordOk (map (wordAt m) es)" "sorted_wrt scalarLess (map (wordAt m) es)"
      "list_all (scalarLess ?w) (map (wordAt m) es)"
    using Cons.IH[of "Some ?w"] Cons.prems by (auto split: if_splits)
  have "length ?w = lengthUtf16Units e" by (simp add: wordAt_def)
  then have "wordOk ?w" using Cons.prems by (auto simp: wordOk_def split: if_splits)
  moreover have "case prev of None \<Rightarrow> True | Some w \<Rightarrow> scalarLess w ?w"
    using Cons.prems by (auto simp: Compare_scalars split: if_splits option.splits)
  ultimately show ?case
    using ih by (auto simp: list_all_iff split: option.splits intro: less_trans)
qed (auto split: option.splits)

lemma validateRows_sound:
  "validateRows us row k = Inr k' \<Longrightarrow>
   list_all rowOk (extractRows us row) \<and> k' = k + length (extractRows us row)"
  by (induction us row k rule: validateRows.induct) (auto simp: Let_def rowOk_def split: if_splits)

section \<open>Corruption\<close>

lemma loadBytes_upd:
  "a \<le> i \<Longrightarrow> i < a + n \<Longrightarrow> loadBytes (m(i := b)) a n = (loadBytes m a n)[i - a := b]"
  by (rule nth_equalityI) (auto simp: loadBytes_def nth_list_update)

section \<open>Concrete lexicons and images\<close>

definition sampleParams :: LexiconWireSerializeParams where
  "sampleParams = \<lparr>spellExclusions = [[0x68, 0x63]], userDictionary = [[0x62], [0x61], [0x62]],
     pGeneration = 7, spellSuggestEnabled = True\<rparr>"

definition newlineParams :: LexiconWireSerializeParams where
  "newlineParams = \<lparr>spellExclusions = [[0x68, 0x63, NEWLINE, 0x68, 0x63]], userDictionary = [],
     pGeneration = 1, spellSuggestEnabled = True\<rparr>"

lemmas lexicon_eval = serializable_def rowOk_def wordOk_def CountUnicodeScalars_def sortedWords_def stdSort_def
  isSurrogateScalar_def isHighSurrogate_def isLowSurrogate_def

lemma serializable_sample: "serializable sampleParams"
  by (simp add: lexicon_eval sampleParams_def)

lemma serializable_newline: "serializable newlineParams"
  by (simp add: lexicon_eval newlineParams_def)

text \<open>An image whose header announces no rows but two units of exclusions text.\<close>

definition hiddenRowHeader :: LexiconWireHeader where
  "hiddenRowHeader = (serializedHeader \<lparr>spellExclusions = [], userDictionary = [], pGeneration = 1,
     spellSuggestEnabled = True\<rparr> 2 0 0)"

definition hiddenRowImage :: bytes where
  "hiddenRowImage =
    (let m = storeHeader hiddenRowHeader (storeUnits EXCLUSIONS_REGION_OFFSET [0xD800, NEWLINE] (\<lambda>_. 0));
         crc = ComputeCrc32 (Some (loadBytes m WIRE_HEADER_SIZE (USER_DICT_POOL_OFFSET - WIRE_HEADER_SIZE)))
     in storeLE 4 0x18 (unat crc) m)"

lemma hiddenRow_accepted:
  "\<exists>x. Deserialize (Some hiddenRowImage) WIRE_TOTAL_SIZE = Inr x \<and> outExclusions x = [[0xD800]]"
proof -
  define m where "m = storeHeader hiddenRowHeader (storeUnits EXCLUSIONS_REGION_OFFSET [0xD800, NEWLINE] (\<lambda>_. 0))"
  define crc where "crc = ComputeCrc32 (Some (loadBytes m WIRE_HEADER_SIZE (USER_DICT_POOL_OFFSET - WIRE_HEADER_SIZE)))"
  have im: "hiddenRowImage = storeLE 4 0x18 (unat crc) m"
    by (simp add: hiddenRowImage_def m_def crc_def Let_def)
  have "headerFits hiddenRowHeader" by (simp add: headerFits_def hiddenRowHeader_def serializedHeader_def)
  moreover have "unat crc < 2 ^ 32" using unsigned_less[of crc, where 'a = nat] by simp
  ultimately have h: "readHeader hiddenRowImage = hiddenRowHeader\<lparr>crc32 := unat crc\<rparr>"
    unfolding im m_def by (rule readHeader_stored)
  have he: "headerError (readHeader hiddenRowImage) = None"
    unfolding h hiddenRowHeader_def by (rule serializedHeader_valid) simp_all
  have "loadBytes hiddenRowImage WIRE_HEADER_SIZE k = loadBytes m WIRE_HEADER_SIZE k" for k
    by (rule loadBytes_cong) (simp add: im mem_simps)
  then have c: "unat (ComputeCrc32 (Some (loadBytes hiddenRowImage (payloadOffsetBytes (readHeader hiddenRowImage))
      (payloadSizeBytes (readHeader hiddenRowImage))))) = crc32 (readHeader hiddenRowImage)"
    by (simp add: h hiddenRowHeader_def serializedHeader_def crc_def)
  have two: "(2 :: nat) = length [0xD800 :: u16, NEWLINE]" by simp
  have "loadUnits hiddenRowImage EXCLUSIONS_REGION_OFFSET 2 =
      loadUnits (storeUnits EXCLUSIONS_REGION_OFFSET [0xD800, NEWLINE] (\<lambda>_. 0)) EXCLUSIONS_REGION_OFFSET
        (length [0xD800 :: u16, NEWLINE])"
    unfolding two by (rule loadUnits_cong) (simp add: im m_def storeHeader_other mem_simps)
  also have "\<dots> = [0xD800, NEWLINE]" by (rule loadUnits_same)
  finally have u: "loadUnits hiddenRowImage EXCLUSIONS_REGION_OFFSET 2 = [0xD800, NEWLINE]" .
  have f: "exclusionsRowCount (readHeader hiddenRowImage) = 0" "userDictWordCount (readHeader hiddenRowImage) = 0"
      "exclusionsUtf16Units (readHeader hiddenRowImage) = 2"
      "exclusionsOffsetBytes (readHeader hiddenRowImage) = EXCLUSIONS_REGION_OFFSET"
    by (simp_all add: h hiddenRowHeader_def serializedHeader_def)
  show ?thesis
    using he c f by (simp add: Deserialize_def ValidateAndInspect_def Let_def rowsError_def u)
qed

section \<open>Properties\<close>



text \<open>\<open>Serialize\<close> succeeds on exactly the lexicons within the limits of the format: at most 8 rows and
  1024 distinct words, well-formed UTF-16, 2 to 128 scalars a row and 1 to 64 a word, within the
  capacity of the two regions; a missing or small buffer is refused untouched.\<close>

theorem serialize_accepts:
  "Serialize p None n = (None, Some BufferTooSmall) \<and>
   (if n < WIRE_TOTAL_SIZE then Serialize p (Some m0) n = (Some m0, Some BufferTooSmall)
    else (snd (Serialize p (Some m0) n) = None) =
      (length (spellExclusions p) \<le> 8 \<and> list_all rowOk (spellExclusions p) \<and>
       length (concat (map (\<lambda>r. r @ [NEWLINE]) (spellExclusions p))) \<le> 1088 \<and>
       length (sortedWords (userDictionary p)) \<le> 1024 \<and> list_all wordOk (sortedWords (userDictionary p)) \<and>
       length (concat (map (\<lambda>w. w @ [NEWLINE]) (sortedWords (userDictionary p)))) \<le> 65536))"
  using Serialize_None_iff[of p m0 n]
  by (cases "n < WIRE_TOTAL_SIZE")
    (simp_all add: serializable_def pool_def not_less, simp_all add: Serialize_def)

text \<open>Successful or not, \<open>Serialize\<close> leaves every byte past the image as it was.\<close>

theorem serialize_in_bounds:
  "map_option (\<lambda>m i. m (WIRE_TOTAL_SIZE + i)) (fst (Serialize p (Some m0) n)) =
   Some (\<lambda>i. m0 (WIRE_TOTAL_SIZE + i))"
proof -
  obtain m e where s: "Serialize p (Some m0) n = (Some m, e)" using Serialize_buffer[of p m0 n] by (metis prod.collapse)
  show ?thesis using Serialize_tail[OF s] by (simp add: s)
qed

text \<open>C12. Reading an image never looks past its last byte, whatever the image holds: two buffers that agree
  on the first \<open>WIRE_TOTAL_SIZE\<close> bytes give the same verdict and the same lexicon.\<close>

theorem deserialize_in_bounds:
  assumes "\<forall>i < WIRE_TOTAL_SIZE. m i = m' i"
  shows "Deserialize (Some m) n = Deserialize (Some m') n"
  by (rule Deserialize_cong) (use assms in simp)

theorem deserialize_in_bounds_witness:
  "Deserialize (Some (\<lambda>_. 0)) 147456 = Deserialize (Some (\<lambda>i. if i < 147456 then 0 else 1)) 147456"
  by (rule deserialize_in_bounds) simp

text \<open>An accepted image holds a strictly sorted dictionary of at most 1024 well-formed words of 1 to 64
  scalars, and, when it announces exclusion rows at all, exactly the announced number of well-formed
  rows of 2 to 128 scalars, at most 8.\<close>

theorem accepted_lexicon:
  assumes "Deserialize (Some m) n = Inr x"
  shows "sorted_wrt (\<lambda>a b. U16ToWString a < U16ToWString b) (outUserDict x) \<and> list_all wordOk (outUserDict x) \<and>
    length (outUserDict x) \<le> 1024 \<and>
    (exclusionsRowCount (readHeader m) \<noteq> 0 \<longrightarrow>
       list_all rowOk (outExclusions x) \<and> length (outExclusions x) = exclusionsRowCount (readHeader m) \<and>
       length (outExclusions x) \<le> 8)"
proof -
  note d = Deserialize_InrD[OF assms]
  note b = headerError_None_bounds[OF d(2)]
  have "list_all rowOk (outExclusions x) \<and> length (outExclusions x) = exclusionsRowCount (readHeader m)"
    if "exclusionsRowCount (readHeader m) \<noteq> 0"
    using that d(4) validateRows_sound
    by (fastforce simp: rowsError_def d(7) b(3) split: sum.splits if_splits)
  then show ?thesis using validateEntries_sound[OF d(5)] b(5,6) by (auto simp: d(6))
qed

theorem accepted_lexicon_witness:
  "\<exists>m x. Deserialize (Some m) 147456 = Inr x \<and> list_all wordOk (outUserDict x) \<and> outUserDict x = [[0x61], [0x62]]"
proof -
  obtain m where m: "Serialize sampleParams (Some (\<lambda>_. 0)) 147456 = (Some m, None)"
    using Serialize_SomeI[OF _ serializable_sample, of 147456 "\<lambda>_. 0"] by auto
  have "rowsVerdict (spellExclusions sampleParams) = None"
    by (rule rowsVerdict_None) (simp_all add: sampleParams_def lexicon_eval)
  then have d: "Deserialize (Some m) 147456 = Inr (lexiconOf sampleParams)"
    by (simp add: Deserialize_serialized[OF m])
  have "outUserDict (lexiconOf sampleParams) = [[0x61], [0x62]]"
    by (simp add: lexiconOf_def sampleParams_def sortedWords_def stdSort_def)
  then show ?thesis using accepted_lexicon[OF d] d by blast
qed

text \<open>C13. Changing one byte of the payload of an accepted image makes the reader refuse it with a checksum
  error.\<close>

theorem corruption_detected:
  assumes "Deserialize (Some m) n = Inr x"
    and "128 \<le> i" "i < 128 + payloadSizeBytes (readHeader m)" "b \<noteq> m i"
  shows "Deserialize (Some (m(i := b))) n = Inl CrcMismatch"
proof -
  note d = Deserialize_InrD[OF assms(1)]
  let ?h = "readHeader m" and ?m = "m(i := b)"
  let ?bs = "loadBytes m WIRE_HEADER_SIZE (payloadSizeBytes ?h)"
  have h: "readHeader ?m = ?h" by (rule readHeader_cong) (use assms(2) in simp)
  have "ComputeCrc32 (Some (?bs[i - WIRE_HEADER_SIZE := b])) \<noteq> ComputeCrc32 (Some ?bs)"
    by (rule ComputeCrc32_update) (use assms in \<open>auto simp: loadBytes_def\<close>)
  then have "unat (ComputeCrc32 (Some (loadBytes ?m WIRE_HEADER_SIZE (payloadSizeBytes ?h)))) \<noteq> crc32 ?h"
    using assms(2,3) by (simp add: loadBytes_upd word_unat_eq_iff flip: d(3))
  then show ?thesis
    using d(1,2) headerError_None_bounds(1)[OF d(2)]
    by (simp add: Deserialize_def ValidateAndInspect_def h Let_def del: fun_upd_apply)
qed

theorem corruption_detected_witness:
  "\<exists>x. Deserialize (Some hiddenRowImage) 147456 = Inr x \<and>
     Deserialize (Some (hiddenRowImage(200 := hiddenRowImage 200 + 1))) 147456 = Inl CrcMismatch"
proof -
  obtain x where x: "Deserialize (Some hiddenRowImage) 147456 = Inr x" using hiddenRow_accepted by blast
  have "payloadSizeBytes (readHeader hiddenRowImage) \<ge> 10368"
    using headerError_None_bounds(8)[OF Deserialize_InrD(2)[OF x]] by simp
  then show ?thesis
    using corruption_detected[OF x, of 200 "hiddenRowImage 200 + 1"] x by simp
qed

text \<open>When an image announces no exclusion rows, the text of the rows is not validated but still read:
  an accepted image can yield a row that is an unpaired surrogate, which the format forbids.\<close>

theorem unvalidated_exclusions:
  "\<exists>m x. Deserialize (Some m) 147456 = Inr x \<and> (\<exists>r\<in>set (outExclusions x). HasInvalidSurrogates r)"
proof -
  have "HasInvalidSurrogates [0xD800]" by (simp add: isSurrogateScalar_def)
  then show ?thesis using hiddenRow_accepted by fastforce
qed

text \<open>The serializer accepts a row that contains the row separator, and the reader then refuses the
  image that was just written.\<close>

theorem newline_row_rejected:
  "\<exists>p m. Serialize p (Some (\<lambda>_. 0)) 147456 = (Some m, None) \<and>
     Deserialize (Some m) 147456 = Inl RowCountMismatch"
proof -
  obtain m where m: "Serialize newlineParams (Some (\<lambda>_. 0)) 147456 = (Some m, None)"
    using Serialize_SomeI[OF _ serializable_newline, of 147456 "\<lambda>_. 0"] by auto
  have "rowsVerdict (spellExclusions newlineParams) = Some RowCountMismatch"
    by (simp add: rowsVerdict_def newlineParams_def lexicon_eval Let_def)
  then show ?thesis using m Deserialize_serialized[OF m] by auto
qed

end
