(* ===== verification/LexiconPublish.thy ===== *)
theory LexiconPublish
  imports Seqlock LexiconWireProps
begin

text \<open>
  The lexicon image behind its sequence lock: \<open>PublishStagedBufferToWire\<close> and
  \<open>ReadWireToLocalBuffer\<close> as instances of the protocol of theory Seqlock, and what the reader
  deserializes from the buffer they hand over.
\<close>

section \<open>The cells of the image\<close>






section \<open>The counter is not part of the lexicon\<close>







section \<open>Properties\<close>



end
