(* ===== verification/SharedState.thy ===== *)
theory SharedState
  imports TypingConfig Utf16
begin

text \<open>
  The block of shared memory between the application and the text service,
  \<open>src/core/ipc/SharedState.h\<close>, with the classification of the text before the caret of
  \<open>src/core/AutoCapDecision.h\<close>.

  Every field has its width; the byte array \<open>reserved\<close> is a function of the index.  The encoders
  and decoders of the feature flags, the hotkeys, the quick-convert settings and the owner process
  are shown to be inverse to each other and not to disturb each other.
\<close>

section \<open>Text before the caret\<close>

datatype CapTrigger = CapNone | DocStart | LineStart | SentenceEnd

text \<open>The loop runs backwards from the caret: the argument is the text read from the caret.\<close>

fun capTriggerFrom :: "u16string \<Rightarrow> bool \<Rightarrow> CapTrigger" where
  "capTriggerFrom [] skippedWhitespace = DocStart"
| "capTriggerFrom (c # rest) skippedWhitespace =
    (if c = 0x20 \<or> c = 0x09 then capTriggerFrom rest True
     else if c = 0x0A \<or> c = 0x0D then LineStart
     else if (c = 0x2E \<or> c = 0x3F \<or> c = 0x21) \<and> skippedWhitespace then SentenceEnd
     else CapNone)"

definition ClassifyCapTrigger :: "u16string \<Rightarrow> CapTrigger" where
  "ClassifyCapTrigger buf = (if buf = [] then DocStart else capTriggerFrom (rev buf) False)"

definition ComputeShouldAutoCap :: "u16string \<Rightarrow> bool" where
  "ComputeShouldAutoCap buf \<longleftrightarrow> ClassifyCapTrigger buf \<noteq> CapNone"

record HookContextAnchor =
  anchorGeneration :: "32 word"
  isAvailable :: bool
  isSentenceStart :: bool
  isLineStart :: bool
  isWordStart :: bool
  syllableLen :: nat
  currentSyllable :: u16string

definition isAnchorSpace :: "u16 \<Rightarrow> bool" where
  "isAnchorSpace c \<longleftrightarrow> c = 0x20 \<or> c = 0x09 \<or> c = 0x0A \<or> c = 0x0D"

fun wordBeginFrom :: "u16string \<Rightarrow> nat \<Rightarrow> nat" where
  "wordBeginFrom preceding 0 = 0"
| "wordBeginFrom preceding (Suc i) = (if isAnchorSpace (preceding ! i) then Suc i else wordBeginFrom preceding i)"

definition DeriveAnchorFromPreceding :: "u16string \<Rightarrow> HookContextAnchor \<Rightarrow> HookContextAnchor" where
  "DeriveAnchorFromPreceding preceding out =
    (let out0 = out\<lparr>isSentenceStart := True, isLineStart := True, isWordStart := True, syllableLen := 0,
           currentSyllable := replicate 16 0\<rparr> in
     if preceding = [] then out0
     else
       let out1 = out0\<lparr>isWordStart := isAnchorSpace (last preceding)\<rparr>;
           out2 = (case ClassifyCapTrigger preceding of
               DocStart \<Rightarrow> out1\<lparr>isSentenceStart := True, isLineStart := True\<rparr>
             | LineStart \<Rightarrow> out1\<lparr>isSentenceStart := False, isLineStart := True\<rparr>
             | SentenceEnd \<Rightarrow> out1\<lparr>isSentenceStart := True, isLineStart := False\<rparr>
             | CapNone \<Rightarrow> out1\<lparr>isSentenceStart := False, isLineStart := False\<rparr>)
       in if isWordStart out2 then out2
          else
            let wordEnd = length preceding;
                wordBegin = wordBeginFrom preceding wordEnd;
                wordLen = wordEnd - wordBegin;
                (wordBegin, wordLen) = (if wordLen > 16 then (wordEnd - 16, 16) else (wordBegin, wordLen))
            in out2\<lparr>currentSyllable := take wordLen (drop wordBegin preceding) @ replicate (16 - wordLen) 0,
                   syllableLen := wordLen\<rparr>)"

section \<open>The state\<close>

record SharedState =
  ssMagic :: "32 word"
  structVersion :: "32 word"
  structSize :: "32 word"
  epoch :: "32 word"
  ssFlags :: "32 word"
  ssInputMethod :: "8 word"
  ssSpellCheck :: "8 word"
  ssOptimizeLevel :: "8 word"
  featureFlags0 :: "8 word"
  featureFlags1 :: "8 word"
  extFeatureFlags :: "8 word"
  ssCodeTable :: "8 word"
  hotkeyMods :: "8 word"
  hotkeyKeyLo :: "8 word"
  hotkeyKeyHi :: "8 word"
  convertMods :: "8 word"
  convertKeyLo :: "8 word"
  convertKeyHi :: "8 word"
  configGeneration :: "8 word"
  diagFlags :: "8 word"
  reserved :: "nat \<Rightarrow> 8 word"
  contextAnchor :: HookContextAnchor

definition SharedState_IsValid :: "SharedState \<Rightarrow> bool" where
  "SharedState_IsValid s \<longleftrightarrow> ssMagic s = 0x59454B4E \<and> structVersion s \<le> 4 \<and> structSize s \<ge> 24"

definition GetFeatureFlags :: "SharedState \<Rightarrow> 32 word" where
  "GetFeatureFlags s =
    ucast (featureFlags0 s) OR push_bit 8 (ucast (featureFlags1 s)) OR push_bit 16 (ucast (extFeatureFlags s))"

definition SetFeatureFlags :: "32 word \<Rightarrow> SharedState \<Rightarrow> SharedState" where
  "SetFeatureFlags ff s =
    s\<lparr>featureFlags0 := ucast ff, featureFlags1 := ucast (drop_bit 8 ff), extFeatureFlags := ucast (drop_bit 16 ff)\<rparr>"

text \<open>\<open>if (b) flags |= m;\<close>\<close>

definition orIf :: "bool \<Rightarrow> 'a :: len word \<Rightarrow> 'a word \<Rightarrow> 'a word" where
  "orIf b m flags = (if b then flags OR m else flags)"

definition SetHotkey :: "HotkeyConfig \<Rightarrow> SharedState \<Rightarrow> SharedState" where
  "SetHotkey hk s =
    s\<lparr>hotkeyMods := (if ctrl hk then 1 else 0) OR (if shift hk then 2 else 0) OR (if alt hk then 4 else 0) OR
        (if win hk then 8 else 0),
      hotkeyKeyLo := ucast (vk hk), hotkeyKeyHi := ucast (drop_bit 8 (vk hk))\<rparr>"

definition GetHotkey :: "SharedState \<Rightarrow> HotkeyConfig" where
  "GetHotkey s = \<lparr>ctrl = (hotkeyMods s AND 1 \<noteq> 0), shift = (hotkeyMods s AND 2 \<noteq> 0),
     alt = (hotkeyMods s AND 4 \<noteq> 0), win = (hotkeyMods s AND 8 \<noteq> 0),
     vk = ucast (hotkeyKeyLo s) OR push_bit 8 (ucast (hotkeyKeyHi s))\<rparr>"

definition convertFlagsOf :: "ConvertConfig \<Rightarrow> 16 word" where
  "convertFlagsOf c =
    orIf (enableLog c) 0x100 (orIf (sequential c) 0x80 (orIf (autoPaste c) 0x40 (orIf (alertDone c) 0x20
    (orIf (removeMark c) 0x10 (orIf (capsEach c) 8 (orIf (capsFirst c) 4 (orIf (allLower c) 2 (orIf (allCaps c) 1 0))))))))"

definition SetConvertConfig :: "ConvertConfig \<Rightarrow> SharedState \<Rightarrow> SharedState" where
  "SetConvertConfig c s =
    (let f = convertFlagsOf c in
     s\<lparr>convertMods := ucast (ToMods (hotkey c)), convertKeyLo := ucast (vk (hotkey c)),
       convertKeyHi := ucast (drop_bit 8 (vk (hotkey c))),
       reserved := (reserved s)(0 := ucast f, 1 := ucast (drop_bit 8 f), 2 := sourceEncoding c, 3 := destEncoding c)\<rparr>)"

definition defaultHotkey :: HotkeyConfig where
  "defaultHotkey = \<lparr>ctrl = False, shift = False, alt = False, win = False, vk = 0\<rparr>"

definition GetConvertConfig :: "SharedState \<Rightarrow> ConvertConfig" where
  "GetConvertConfig s =
    (let f = (ucast (reserved s 0) :: 16 word) OR push_bit 8 (ucast (reserved s 1)) in
     \<lparr>allCaps = (f AND 1 \<noteq> 0), allLower = (f AND 2 \<noteq> 0), capsFirst = (f AND 4 \<noteq> 0), capsEach = (f AND 8 \<noteq> 0),
      removeMark = (f AND 0x10 \<noteq> 0), alertDone = (f AND 0x20 \<noteq> 0), autoPaste = (f AND 0x40 \<noteq> 0),
      sequential = (f AND 0x80 \<noteq> 0), enableLog = (f AND 0x100 \<noteq> 0),
      sourceEncoding = (if reserved s 2 \<le> 4 then reserved s 2 else 0),
      destEncoding = (if reserved s 3 \<le> 4 then reserved s 3 else 0),
      hotkey = (SetModsFromMask defaultHotkey (ucast (convertMods s AND 0x0F)))
        \<lparr>vk := ucast (convertKeyLo s) OR push_bit 8 (ucast (convertKeyHi s))\<rparr>\<rparr>)"

abbreviation NATIVE_CONVERT_OWNER_OFFSET :: nat where "NATIVE_CONVERT_OWNER_OFFSET \<equiv> 5"

definition SetNativeConvertOwnerProcessId :: "32 word \<Rightarrow> SharedState \<Rightarrow> SharedState" where
  "SetNativeConvertOwnerProcessId pid s =
    fold (\<lambda>i s. s\<lparr>reserved := (reserved s)(NATIVE_CONVERT_OWNER_OFFSET + i := ucast (drop_bit (i * 8) pid))\<rparr>)
      [0, 1, 2, 3] s"

definition GetNativeConvertOwnerProcessId :: "SharedState \<Rightarrow> 32 word" where
  "GetNativeConvertOwnerProcessId s =
    fold (\<lambda>i pid. pid OR push_bit (i * 8) (ucast (reserved s (NATIVE_CONVERT_OWNER_OFFSET + i)))) [0, 1, 2, 3] 0"

definition InitDefaults :: "SharedState \<Rightarrow> SharedState" where
  "InitDefaults s =
    (SetFeatureFlags (0x0004 OR 0x0001)
      (s\<lparr>ssMagic := 0x59454B4E, structVersion := 4, structSize := 1104, epoch := 0, ssFlags := 0x0001 OR 0x0002,
         ssInputMethod := 0, ssSpellCheck := 0, ssOptimizeLevel := 0\<rparr>))
    \<lparr>ssCodeTable := 0, hotkeyMods := 0, hotkeyKeyLo := 0, hotkeyKeyHi := 0, convertMods := 0, convertKeyLo := 0,
     convertKeyHi := 0, configGeneration := 0, diagFlags := 0, reserved := (\<lambda>_. 0),
     contextAnchor := \<lparr>anchorGeneration = 0, isAvailable = False, isSentenceStart = False, isLineStart = False,
       isWordStart = False, syllableLen = 0, currentSyllable = replicate 16 0\<rparr>\<rparr>"

section \<open>Feature flags\<close>

definition EncodeFeatureFlags :: "TypingConfig \<Rightarrow> 32 word" where
  "EncodeFeatureFlags config =
    (orIf (macroUndoOnBackspace config) 0x00400000 \<circ> orIf (hidePreeditUnderline config) 0x00100000 \<circ>
     orIf (suggestKeepChars config) 0x00080000 \<circ> orIf (debugLogEnabled config) 0x00040000 \<circ>
     orIf (allowEnglishBypass config) 0x00020000 \<circ> orIf (macroTitleCase config) 0x00200000 \<circ>
     orIf (autoCapsMacro config) 0x00010000 \<circ> orIf (excludeApps config) 0x8000 \<circ>
     orIf (smartSwitch config) 0x4000 \<circ> orIf (quickEndConsonant config) 0x1000 \<circ>
     orIf (quickStartConsonant config) 0x0800 \<circ> orIf (quickConsonant config) 0x0400 \<circ>
     orIf (macroInEnglish config) 0x0200 \<circ> orIf (macroEnabled config) 0x0100 \<circ>
     orIf (beepOnSwitch config) 0x0080 \<circ> orIf (escRestoreRawEnabled config) 0x0020 \<circ>
     orIf (cjkAutoSwitch config) 0x0010 \<circ> orIf (autoRestoreEnabled config) 0x0008 \<circ>
     orIf (allowZwjf config) 0x0004 \<circ> orIf (autoCaps config) 0x0002 \<circ> orIf (modernOrtho config) 0x0001) 0"

definition DecodeFeatureFlags :: "32 word \<Rightarrow> TypingConfig \<Rightarrow> TypingConfig" where
  "DecodeFeatureFlags flags config =
    config\<lparr>modernOrtho := (flags AND 0x0001 \<noteq> 0), autoCaps := (flags AND 0x0002 \<noteq> 0),
      allowZwjf := (flags AND 0x0004 \<noteq> 0), autoRestoreEnabled := (flags AND 0x0008 \<noteq> 0),
      cjkAutoSwitch := (flags AND 0x0010 \<noteq> 0), escRestoreRawEnabled := (flags AND 0x0020 \<noteq> 0),
      beepOnSwitch := (flags AND 0x0080 \<noteq> 0), macroEnabled := (flags AND 0x0100 \<noteq> 0),
      macroInEnglish := (flags AND 0x0200 \<noteq> 0), quickConsonant := (flags AND 0x0400 \<noteq> 0),
      quickStartConsonant := (flags AND 0x0800 \<noteq> 0), quickEndConsonant := (flags AND 0x1000 \<noteq> 0),
      smartSwitch := (flags AND 0x4000 \<noteq> 0), excludeApps := (flags AND 0x8000 \<noteq> 0),
      autoCapsMacro := (flags AND 0x00010000 \<noteq> 0), macroTitleCase := (flags AND 0x00200000 \<noteq> 0),
      allowEnglishBypass := (flags AND 0x00020000 \<noteq> 0), debugLogEnabled := (flags AND 0x00040000 \<noteq> 0),
      suggestKeepChars := (flags AND 0x00080000 \<noteq> 0), hidePreeditUnderline := (flags AND 0x00100000 \<noteq> 0),
      macroUndoOnBackspace := (flags AND 0x00400000 \<noteq> 0)\<rparr>"

section \<open>Bits\<close>

lemma bit_orIf: "bit (orIf b m w) n \<longleftrightarrow> b \<and> bit m n \<or> bit w n"
  by (auto simp: orIf_def bit_or_iff)

lemma and_power_32: "k < 32 \<Longrightarrow> (w :: 32 word) AND 2 ^ k \<noteq> 0 \<longleftrightarrow> bit w k"
  by (simp add: bit_iff_and_push_bit_not_eq_0 push_bit_of_1)

lemma and_power_16: "k < 16 \<Longrightarrow> (w :: 16 word) AND 2 ^ k \<noteq> 0 \<longleftrightarrow> bit w k"
  by (simp add: bit_iff_and_push_bit_not_eq_0 push_bit_of_1)

lemma bytes_24:
  "(ucast (ucast w :: 8 word) :: 32 word) OR push_bit 8 (ucast (ucast (drop_bit 8 w) :: 8 word)) OR
   push_bit 16 (ucast (ucast (drop_bit 16 w) :: 8 word)) = take_bit 24 (w :: 32 word)"
proof (rule bit_word_eqI)
  fix n :: nat
  consider "n < 8" | "8 \<le> n" "n < 16" | "16 \<le> n" by linarith
  then show "bit ((ucast (ucast w :: 8 word) :: 32 word) OR push_bit 8 (ucast (ucast (drop_bit 8 w) :: 8 word)) OR
      push_bit 16 (ucast (ucast (drop_bit 16 w) :: 8 word))) n \<longleftrightarrow> bit (take_bit 24 w) n"
    by cases (auto simp: bit_or_iff bit_push_bit_iff bit_ucast_iff bit_drop_bit_eq bit_take_bit_iff
        dest: bit_imp_le_length)
qed

lemma bytes_16:
  "(ucast (ucast w :: 8 word) :: 32 word) OR push_bit 8 (ucast (ucast (drop_bit 8 w) :: 8 word)) =
   take_bit 16 (w :: 32 word)"
  by (rule bit_word_eqI)
    (auto simp: bit_or_iff bit_push_bit_iff bit_ucast_iff bit_drop_bit_eq bit_take_bit_iff dest: bit_imp_le_length)

lemma bytes_16_16:
  "(ucast (ucast w :: 8 word) :: 16 word) OR push_bit 8 (ucast (ucast (drop_bit 8 w) :: 8 word)) = (w :: 16 word)"
  by (rule bit_word_eqI)
    (auto simp: bit_or_iff bit_push_bit_iff bit_ucast_iff bit_drop_bit_eq dest: bit_imp_le_length)

lemma bytes_32:
  "(ucast (ucast w :: 8 word) :: 32 word) OR push_bit 8 (ucast (ucast (drop_bit 8 w) :: 8 word)) OR
   push_bit 16 (ucast (ucast (drop_bit 16 w) :: 8 word)) OR push_bit 24 (ucast (ucast (drop_bit 24 w) :: 8 word)) =
   (w :: 32 word)"
proof -
  have "take_bit 24 w OR push_bit 24 (ucast (ucast (drop_bit 24 w) :: 8 word)) = w"
    by (rule bit_word_eqI)
      (auto simp: bit_or_iff bit_push_bit_iff bit_ucast_iff bit_drop_bit_eq bit_take_bit_iff dest: bit_imp_le_length)
  then show ?thesis unfolding bytes_24[symmetric] by (simp add: or.assoc)
qed

section \<open>Round trips\<close>

lemma GetFeatureFlags_Set: "GetFeatureFlags (SetFeatureFlags ff s) = take_bit 24 ff"
  by (simp add: GetFeatureFlags_def SetFeatureFlags_def bytes_24)

lemmas flag_test =
  and_power_32[of 0, simplified] and_power_32[of 1, simplified] and_power_32[of 2, simplified]
  and_power_32[of 3, simplified] and_power_32[of 4, simplified] and_power_32[of 5, simplified]
  and_power_32[of 7, simplified] and_power_32[of 8, simplified] and_power_32[of 9, simplified]
  and_power_32[of 10, simplified] and_power_32[of 11, simplified] and_power_32[of 12, simplified]
  and_power_32[of 14, simplified] and_power_32[of 15, simplified] and_power_32[of 16, simplified]
  and_power_32[of 17, simplified] and_power_32[of 18, simplified] and_power_32[of 19, simplified]
  and_power_32[of 20, simplified] and_power_32[of 21, simplified] and_power_32[of 22, simplified]

lemma Decode_take_bit: "DecodeFeatureFlags (take_bit 24 w) c = DecodeFeatureFlags w c"
  by (simp add: DecodeFeatureFlags_def flag_test bit_take_bit_iff)

lemma Decode_Encode: "DecodeFeatureFlags (EncodeFeatureFlags c) c = c"
  by (simp add: DecodeFeatureFlags_def flag_test EncodeFeatureFlags_def bit_orIf)

lemma Encode_Decode: "EncodeFeatureFlags (DecodeFeatureFlags (EncodeFeatureFlags c) c') = EncodeFeatureFlags c"
  by (simp add: DecodeFeatureFlags_def flag_test EncodeFeatureFlags_def bit_orIf)

lemmas convert_test =
  and_power_16[of 0, simplified] and_power_16[of 1, simplified] and_power_16[of 2, simplified]
  and_power_16[of 3, simplified] and_power_16[of 4, simplified] and_power_16[of 5, simplified]
  and_power_16[of 6, simplified] and_power_16[of 7, simplified] and_power_16[of 8, simplified]

lemma ToMods_byte: "(ucast ((ucast (ToMods h) :: 8 word) AND 0x0F) :: 32 word) = ToMods h"
  by (cases "ctrl h"; cases "shift h"; cases "alt h"; cases "win h") (simp_all add: ToMods_def)

lemma GetConvert_Set:
  "GetConvertConfig (SetConvertConfig c s) =
    c\<lparr>sourceEncoding := (if sourceEncoding c \<le> 4 then sourceEncoding c else 0),
      destEncoding := (if destEncoding c \<le> 4 then destEncoding c else 0),
      hotkey := (hotkey c)\<lparr>vk := take_bit 16 (vk (hotkey c))\<rparr>\<rparr>"
proof -
  let ?f = "convertFlagsOf c"
  have "bit ?f 0 = allCaps c" "bit ?f (Suc 0) = allLower c" "bit ?f 2 = capsFirst c" "bit ?f 3 = capsEach c"
    "bit ?f 4 = removeMark c" "bit ?f 5 = alertDone c" "bit ?f 6 = autoPaste c" "bit ?f 7 = sequential c"
    "bit ?f 8 = enableLog c"
    by (simp_all add: convertFlagsOf_def bit_orIf)
  then show ?thesis
    by (cases c) (simp add: GetConvertConfig_def SetConvertConfig_def Let_def bytes_16_16 convert_test
        ToMods_byte SetModsFromMask_ToMods bytes_16)
qed

lemma GetHotkey_Set: "GetHotkey (SetHotkey h s) = h\<lparr>vk := take_bit 16 (vk h)\<rparr>"
  by (cases "ctrl h"; cases "shift h"; cases "alt h"; cases "win h")
    (simp_all add: GetHotkey_def SetHotkey_def bytes_16)

lemma GetOwner_Set: "GetNativeConvertOwnerProcessId (SetNativeConvertOwnerProcessId pid s) = pid"
  using bytes_32[of pid]
  by (simp add: GetNativeConvertOwnerProcessId_def SetNativeConvertOwnerProcessId_def or.assoc)

section \<open>The syllable before the caret\<close>

definition trailingRun :: "u16string \<Rightarrow> u16string" where
  "trailingRun p = rev (takeWhile (\<lambda>c. \<not> isAnchorSpace c) (rev p))"

lemma wordBeginFrom_le: "wordBeginFrom p i \<le> i"
  by (induction i) (simp_all add: le_SucI)

lemma wordBeginFrom_run:
  "i \<le> length p \<Longrightarrow> drop (wordBeginFrom p i) (take i p) = trailingRun (take i p)"
proof (induction i)
  case (Suc i)
  have t: "take (Suc i) p = take i p @ [p ! i]" using Suc.prems by (simp add: take_Suc_conv_app_nth)
  show ?case
  proof (cases "isAnchorSpace (p ! i)")
    case True
    then show ?thesis using Suc.prems by (simp add: t trailingRun_def)
  next
    case False
    have "wordBeginFrom p i \<le> length (take i p)" using wordBeginFrom_le[of p i] Suc.prems by simp
    then show ?thesis using False Suc by (simp add: t trailingRun_def)
  qed
qed (simp add: trailingRun_def)

lemma trailingRun_drop: "drop (wordBeginFrom p (length p)) p = trailingRun p"
  using wordBeginFrom_run[of "length p" p] by simp

section \<open>Properties\<close>

text \<open>The feature switches survive the way through shared memory: encoding a configuration, storing the
  three bytes, loading and decoding them gives the configuration back, for every one of the 21
  switches, and decoding changes no other setting.\<close>

theorem feature_flags_round_trip:
  "DecodeFeatureFlags (GetFeatureFlags (SetFeatureFlags (EncodeFeatureFlags c) s)) c = c \<and>
   EncodeFeatureFlags (DecodeFeatureFlags (GetFeatureFlags (SetFeatureFlags (EncodeFeatureFlags c) s)) c') =
     EncodeFeatureFlags c"
  by (simp add: GetFeatureFlags_Set Decode_take_bit Decode_Encode Encode_Decode)

text \<open>The hotkey, the quick-convert settings and the owner process are read back as they were stored:
  a virtual key keeps its low 16 bits and an unknown encoding becomes 0.  Storing one of them does not
  disturb the others, although they share the reserved bytes.\<close>

theorem shared_settings_round_trip:
  "GetHotkey (SetHotkey h s) = h\<lparr>vk := take_bit 16 (vk h)\<rparr> \<and>
   GetConvertConfig (SetConvertConfig c s) =
     c\<lparr>sourceEncoding := (if sourceEncoding c \<le> 4 then sourceEncoding c else 0),
       destEncoding := (if destEncoding c \<le> 4 then destEncoding c else 0),
       hotkey := (hotkey c)\<lparr>vk := take_bit 16 (vk (hotkey c))\<rparr>\<rparr> \<and>
   GetNativeConvertOwnerProcessId (SetNativeConvertOwnerProcessId pid s) = pid \<and>
   GetNativeConvertOwnerProcessId (SetConvertConfig c s) = GetNativeConvertOwnerProcessId s \<and>
   GetConvertConfig (SetNativeConvertOwnerProcessId pid s) = GetConvertConfig s \<and>
   GetHotkey (SetConvertConfig c s) = GetHotkey s"
proof -
  have "GetNativeConvertOwnerProcessId (SetConvertConfig c s) = GetNativeConvertOwnerProcessId s"
    by (simp add: GetNativeConvertOwnerProcessId_def SetConvertConfig_def Let_def)
  moreover have "GetConvertConfig (SetNativeConvertOwnerProcessId pid s) = GetConvertConfig s"
    by (simp add: GetConvertConfig_def SetNativeConvertOwnerProcessId_def Let_def)
  moreover have "GetHotkey (SetConvertConfig c s) = GetHotkey s"
    by (simp add: GetHotkey_def SetConvertConfig_def Let_def)
  ultimately show ?thesis using GetHotkey_Set GetConvert_Set GetOwner_Set by blast
qed

text \<open>The anchor published for the hook carries the last 16 units at most of the run of non-space units
  before the caret, padded with zeros, with its length; after a space, or at the start of the
  document, the syllable is empty and a word starts.\<close>

theorem anchor_syllable:
  "(let a = DeriveAnchorFromPreceding p out; r = trailingRun p; w = drop (length r - 16) r in
     currentSyllable a = w @ replicate (16 - length w) 0 \<and> syllableLen a = length w \<and> length (currentSyllable a) = 16 \<and>
     (isWordStart a \<longleftrightarrow> r = []))"
proof (cases "p = []")
  case True
  then show ?thesis by (simp add: DeriveAnchorFromPreceding_def trailingRun_def Let_def)
next
  case False
  then obtain q c where p: "p = q @ [c]" by (metis append_butlast_last_id)
  show ?thesis
  proof (cases "isAnchorSpace c")
    case True
    then show ?thesis
      by (simp add: p DeriveAnchorFromPreceding_def trailingRun_def Let_def split: CapTrigger.split)
  next
    case space: False
    let ?b = "wordBeginFrom p (length p)" and ?r = "trailingRun p"
    have r: "drop ?b p = ?r" by (rule trailingRun_drop)
    have le: "?b \<le> length p" by (rule wordBeginFrom_le)
    then have len: "length p - ?b = length ?r" using r by (metis length_drop)
    have ne: "?r \<noteq> []" using space by (simp add: p trailingRun_def)
    have ws: "isAnchorSpace (last p) = False" using space by (simp add: p)
    show ?thesis
    proof (cases "16 < length ?r")
      case True
      then have "length p - 16 = length ?r - 16 + ?b" using le len by linarith
      then have "drop (length p - 16) p = drop (length ?r - 16) ?r" by (simp add: drop_drop flip: r)
      moreover have "length (drop (length ?r - 16) ?r) = 16" using True by simp
      ultimately show ?thesis
        using False ne True
        by (simp add: DeriveAnchorFromPreceding_def Let_def ws len split: CapTrigger.split)
    next
      case short: False
      then show ?thesis
        using False ne by (simp add: DeriveAnchorFromPreceding_def Let_def ws len r split: CapTrigger.split)
    qed
  qed
qed

end
