(* ===== verification/Decisions.thy ===== *)
theory Decisions
  imports SharedState EngineCore
begin

text \<open>
  The pure decision headers of \<open>src/core\<close>: what a key, a focus change, a layout change or a probe
  means for the hook.  Virtual-key codes, flags, handles and ticks are words of the width the
  headers give them.
\<close>

section \<open>Auto-capitalization (AutoCapDecision.h, AutoCapStateTransition.h)\<close>

record AutoCapControlProbe =
  isSupportedControl :: bool
  textLengthKnown :: bool
  caretPositionKnown :: bool
  textLength :: "64 word"
  caretPosition :: "64 word"

definition ComputeShouldAutoCapFromControlProbe :: "AutoCapControlProbe \<Rightarrow> bool" where
  "ComputeShouldAutoCapFromControlProbe probe \<longleftrightarrow> isSupportedControl probe \<and> textLengthKnown probe \<and>
     caretPositionKnown probe \<and> textLength probe = 0 \<and> caretPosition probe = 0"

record AutoCapFocusEvidence =
  isKnownEmptyDocument :: bool
  evHwnd :: "64 word"
  evChildHwnd :: "64 word"
  evPid :: "32 word"
  probeStartedAtMs :: "64 word"

record AutoCapFocusContext =
  cxHwnd :: "64 word"
  cxChildHwnd :: "64 word"
  cxPid :: "32 word"
  lastInputAtMs :: "64 word"
  nowMs :: "64 word"

definition ShouldArmAutoCapFromFocusEvidence ::
  "AutoCapFocusEvidence \<Rightarrow> AutoCapFocusContext \<Rightarrow> 64 word \<Rightarrow> bool" where
  "ShouldArmAutoCapFromFocusEvidence ev cur maxAgeMs \<longleftrightarrow>
     isKnownEmptyDocument ev \<and> evHwnd ev \<noteq> 0 \<and> evChildHwnd ev \<noteq> 0 \<and> evPid ev \<noteq> 0 \<and> probeStartedAtMs ev \<noteq> 0 \<and>
     cxHwnd cur = evHwnd ev \<and> cxChildHwnd cur = evChildHwnd ev \<and> cxPid cur = evPid ev \<and>
     lastInputAtMs cur < probeStartedAtMs ev \<and> nowMs cur \<ge> probeStartedAtMs ev \<and>
     nowMs cur - probeStartedAtMs ev < maxAgeMs"

definition ShouldSuppressAutoCapForPasswordSafety :: "bool \<Rightarrow> 64 word \<Rightarrow> 64 word \<Rightarrow> bool" where
  "ShouldSuppressAutoCapForPasswordSafety probedIsPassword evidenceChild currentChild =
    (if evidenceChild = 0 \<or> currentChild = 0 \<or> evidenceChild \<noteq> currentChild then True else probedIsPassword)"

datatype AutoCapState = Idle | AfterPunct | ReadyToCapitalize

definition isPunctKey :: "32 word \<Rightarrow> bool \<Rightarrow> bool" where
  "isPunctKey vkCode sh \<longleftrightarrow> vkCode = 0xBE \<or> (vkCode = 0xBF \<and> sh) \<or> (vkCode = 0x31 \<and> sh)"

definition ComputeAutoCapStateTransition ::
  "AutoCapState \<Rightarrow> 32 word \<Rightarrow> bool \<Rightarrow> bool \<Rightarrow> bool \<Rightarrow> bool \<Rightarrow> AutoCapState" where
  "ComputeAutoCapStateTransition current vkCode sh ct al wi =
    (if ct \<or> al \<or> wi then current
     else if isPunctKey vkCode sh then AfterPunct
     else if vkCode = 0x20 \<and> (current = AfterPunct \<or> current = ReadyToCapitalize) then ReadyToCapitalize
     else if vkCode = 0x0D then ReadyToCapitalize
     else if vkCode \<ge> 0x41 \<and> vkCode \<le> 0x5A then (if current = ReadyToCapitalize then current else Idle)
     else Idle)"

section \<open>Keyboard layouts (CjkSwitchDecision.h)\<close>

datatype CjkTransition = CjkStay | EnterCjk | LeaveCjk
datatype CjkBeep = Quiet | BeepOk | Asterisk

record CjkSwitchInputs =
  isCompatibleNow :: bool
  layoutSuppressed :: bool
  modeBeforeCjk :: bool
  vietnameseMode :: bool
  isExcluded :: bool
  isForcedVietnamese :: bool
  cjkAutoSwitchEnabled :: bool

record CjkSwitchOutputs =
  transition :: CjkTransition
  newLayoutSuppressed :: bool
  newModeBeforeCjk :: bool
  newVietnameseMode :: bool
  needCommitComposition :: bool
  needNotifyMode :: bool
  beep :: CjkBeep

definition DecideCjkSwitch :: "CjkSwitchInputs \<Rightarrow> CjkSwitchOutputs" where
  "DecideCjkSwitch i =
    (let out = \<lparr>transition = CjkStay, newLayoutSuppressed = layoutSuppressed i, newModeBeforeCjk = modeBeforeCjk i,
           newVietnameseMode = vietnameseMode i, needCommitComposition = False, needNotifyMode = False, beep = Quiet\<rparr> in
     if \<not> cjkAutoSwitchEnabled i then out
     else if isExcluded i \<or> isForcedVietnamese i then out
     else if \<not> isCompatibleNow i \<and> \<not> layoutSuppressed i then
       (let out1 = out\<lparr>transition := EnterCjk, newLayoutSuppressed := True, newModeBeforeCjk := vietnameseMode i,
              needCommitComposition := True\<rparr>
        in if vietnameseMode i then out1\<lparr>newVietnameseMode := False, needNotifyMode := True, beep := Asterisk\<rparr> else out1)
     else if isCompatibleNow i \<and> layoutSuppressed i then
       (let out1 = out\<lparr>transition := LeaveCjk, newLayoutSuppressed := False\<rparr>;
            out2 = (if modeBeforeCjk i \<noteq> vietnameseMode i
                    then out1\<lparr>newVietnameseMode := modeBeforeCjk i, beep := (if modeBeforeCjk i then BeepOk else Asterisk)\<rparr>
                    else out1)
        in out2\<lparr>needNotifyMode := True\<rparr>)
     else out)"

section \<open>Commit undo (CommitUndoArmDecision.h, CommitUndoExemption.h)\<close>

datatype CommitUndoArm = UndoArm | UndoSkip | UndoClear

definition IsReplayContextBoundary :: "32 word \<Rightarrow> bool" where
  "IsReplayContextBoundary vkCode \<longleftrightarrow> vkCode = 0x0D \<or> vkCode = 0x09"

definition IsCaretNavigationKey :: "32 word \<Rightarrow> bool" where
  "IsCaretNavigationKey vkCode \<longleftrightarrow> (vkCode \<ge> 0x25 \<and> vkCode \<le> 0x28) \<or> vkCode = 0x24 \<or> vkCode = 0x23 \<or>
     vkCode = 0x21 \<or> vkCode = 0x22"

definition DecideCommitUndoArm :: "32 word \<Rightarrow> CommitUndoArm" where
  "DecideCommitUndoArm vkCode =
    (if IsReplayContextBoundary vkCode then UndoClear
     else if (vkCode \<ge> 0x25 \<and> vkCode \<le> 0x28) \<or> vkCode = 0x24 \<or> vkCode = 0x23 \<or> vkCode = 0x21 \<or> vkCode = 0x22 \<or>
       vkCode = 0x1B \<or> vkCode = 0x2E \<or> vkCode = 0x2D then UndoSkip
     else UndoArm)"

datatype ReadyGapAction = TrackSpace | GapCancel | StartWord

definition DecideReadyGapKey :: "bool \<Rightarrow> wchar \<Rightarrow> 8 word \<Rightarrow> bool \<Rightarrow> ReadyGapAction" where
  "DecideReadyGapKey isCommitTrigger triggerChar pendingTriggers gapEndsInGlyph =
    (if isCommitTrigger then (if triggerChar = 0x20 then TrackSpace else GapCancel)
     else if pendingTriggers = 0 \<and> gapEndsInGlyph then GapCancel else StartWord)"

datatype PrimedTriggerAction = PrimedCancel | ReEnterReady | PrimedIdle

definition DecidePrimedTriggerAction :: "bool \<Rightarrow> wchar \<Rightarrow> PrimedTriggerAction" where
  "DecidePrimedTriggerAction isCommitTrigger triggerChar =
    (if \<not> isCommitTrigger then PrimedIdle
     else if triggerChar = 0x20 then ReEnterReady
     else if triggerChar > 0x20 then PrimedCancel
     else PrimedIdle)"

definition ShouldCancelPrimedOnTrigger :: "bool \<Rightarrow> wchar \<Rightarrow> bool" where
  "ShouldCancelPrimedOnTrigger isCommitTrigger triggerChar \<longleftrightarrow>
     DecidePrimedTriggerAction isCommitTrigger triggerChar = PrimedCancel"

definition IsHostReplacedWord :: "wchar \<Rightarrow> wchar \<Rightarrow> bool" where
  "IsHostReplacedWord openGlyph closeTrigger \<longleftrightarrow> openGlyph = 0x3A \<and> closeTrigger = 0x3A"

definition IsCommitUndoExemptAction :: "TypingAction \<Rightarrow> bool" where
  "IsCommitUndoExemptAction action =
    (if IsToneAction action then True
     else if IsTelexModifierAction action then True
     else if IsVniModifierAction action then True
     else if action = HornOrInsertU \<or> action = HornOrInsertUNoStart \<or> action = UndoAllMarks then True
     else False)"

definition IsCommitUndoExemptKey :: "32 word \<Rightarrow> InputMethod \<Rightarrow> bool \<Rightarrow> bool \<Rightarrow> bool \<Rightarrow> bool" where
  "IsCommitUndoExemptKey vkCode method shiftHeld escIsCancelTrigger isCustomModifier =
    (let isTelexModifierLetter = (method = Telex \<or> method = SimpleTelex \<or> method = Combined) \<and>
           (vkCode = 0x53 \<or> vkCode = 0x46 \<or> vkCode = 0x52 \<or> vkCode = 0x58 \<or> vkCode = 0x4A \<or> vkCode = 0x5A \<or>
            vkCode = 0x41 \<or> vkCode = 0x45 \<or> vkCode = 0x4F \<or> vkCode = 0x57 \<or> vkCode = 0x44);
         isVniModifierDigit = (method = VNI \<or> method = Combined) \<and> vkCode \<ge> 0x30 \<and> vkCode \<le> 0x39 \<and> \<not> shiftHeld;
         isUserDefinedModifier = (method = UserDefined \<and> isCustomModifier);
         isEscRestoreRawKey = (vkCode = 0x1B \<and> escIsCancelTrigger)
     in isTelexModifierLetter \<or> isVniModifierDigit \<or> isUserDefinedModifier \<or> isEscRestoreRawKey)"

section \<open>Words that start with a digit (DigitLedWordDecision.h)\<close>

datatype DigitLedDecision = DlContinue | DlArm | DlBypass | DlReset | DlResetAndContinue

record DigitLedInputs =
  dlVkCode :: "32 word"
  dlShift :: bool
  engineEmpty :: bool
  dlMethod :: InputMethod
  currentlyArmed :: bool

definition IsDigitLedBoundary :: "32 word \<Rightarrow> bool" where
  "IsDigitLedBoundary vkCode =
    (if vkCode = 0x20 \<or> vkCode = 0x0D \<or> vkCode = 0x09 \<or> vkCode = 0x1B then True
     else if vkCode = 0x08 \<or> vkCode = 0x2E then True
     else if vkCode \<ge> 0x25 \<and> vkCode \<le> 0x28 then True
     else if vkCode = 0x24 \<or> vkCode = 0x23 \<or> vkCode = 0x21 \<or> vkCode = 0x22 then True
     else False)"

definition DecideDigitLed :: "DigitLedInputs \<Rightarrow> DigitLedDecision" where
  "DecideDigitLed i =
    (if currentlyArmed i then
       (if \<not> engineEmpty i then DlResetAndContinue
        else if IsDigitLedBoundary (dlVkCode i) then DlReset else DlBypass)
     else if dlShift i then DlContinue
     else if \<not> engineEmpty i then DlContinue
     else if dlVkCode i < 0x30 \<or> dlVkCode i > 0x39 then DlContinue
     else if dlMethod i \<noteq> VNI \<and> dlMethod i \<noteq> Combined \<and> dlMethod i \<noteq> UserDefined then DlContinue
     else DlArm)"

section \<open>Injected and leaked keys (ExternalInjectedKeyDecision.h, LeakedKeyDuringSendDecision.h)\<close>

definition IsExternalInjectedKey :: "32 word \<Rightarrow> 64 word \<Rightarrow> 64 word \<Rightarrow> bool" where
  "IsExternalInjectedKey fl dwExtraInfo vkeyExtraInfo =
    (if fl AND (0x10 OR 0x02) = 0 then False else dwExtraInfo \<noteq> vkeyExtraInfo)"

definition ShouldBypassAndResetOnInjected :: "bool \<Rightarrow> 32 word \<Rightarrow> bool" where
  "ShouldBypassAndResetOnInjected isExternalInjected vkCode =
    (if \<not> isExternalInjected then False else vkCode = 0x08 \<or> vkCode = 0x2E)"

datatype InjectedDeletionAction = PassThroughOnly | SyncEngine | InjectedReset

definition starts_with :: "wstring \<Rightarrow> wstring \<Rightarrow> bool" where
  "starts_with s prefix \<longleftrightarrow> take (length prefix) s = prefix"

definition DecideInjectedDeletionAction ::
  "wstring \<Rightarrow> wstring \<Rightarrow> bool \<Rightarrow> bool \<Rightarrow> 32 word \<Rightarrow> bool \<Rightarrow> InjectedDeletionAction" where
  "DecideInjectedDeletionAction prevComposition newComposition isUnicodeTable isSending v isDown =
    (if \<not> isDown \<or> isSending then PassThroughOnly
     else if v = 0x08 \<and> isUnicodeTable \<and> prevComposition \<noteq> [] \<and>
       length newComposition + 1 = length prevComposition \<and> starts_with prevComposition newComposition then SyncEngine
     else if v = 0x08 \<or> v = 0x2E then InjectedReset
     else PassThroughOnly)"

record LeakedKeyDuringSendInputs =
  lkIsSending :: bool
  hasMultiProcessRenderer :: bool
  eventVk :: "32 word"
  sendingForVk :: "32 word"

definition DecideEatLeakedKeyDuringSend :: "LeakedKeyDuringSendInputs \<Rightarrow> bool" where
  "DecideEatLeakedKeyDuringSend i =
    (if \<not> lkIsSending i then False
     else if \<not> hasMultiProcessRenderer i then False
     else if sendingForVk i = 0 then False
     else eventVk i = sendingForVk i)"

section \<open>Focus (FocusApplyDecision.h, FocusTargetDecision.h, PerAppModeDecision.h)\<close>

datatype FocusApplyDisposition = DropStale | DeferUntilBoundary | ApplyNow

record FocusApplyInputs =
  snapshotRequestSerial :: "64 word"
  latestRequestSerial :: "64 word"
  snapshotInputEpoch :: "64 word"
  currentInputEpoch :: "64 word"
  hasComposition :: bool

definition DecideFocusApply :: "FocusApplyInputs \<Rightarrow> FocusApplyDisposition" where
  "DecideFocusApply i =
    (if snapshotRequestSerial i \<noteq> latestRequestSerial i then DropStale
     else if hasComposition i \<and> snapshotInputEpoch i \<noteq> currentInputEpoch i then DeferUntilBoundary
     else ApplyNow)"

record TsfFocusActivationState =
  lastTsfHwnd :: "64 word"
  lastTsfPid :: "32 word"

definition ShouldActivateTsfProfileForFocus ::
  "bool \<Rightarrow> 64 word \<Rightarrow> 32 word \<Rightarrow> TsfFocusActivationState \<Rightarrow> TsfFocusActivationState \<times> bool" where
  "ShouldActivateTsfProfileForFocus isTsf hwnd pid st =
    (if \<not> isTsf \<or> hwnd = 0 then (st\<lparr>lastTsfHwnd := 0, lastTsfPid := 0\<rparr>, False)
     else (st\<lparr>lastTsfHwnd := hwnd, lastTsfPid := pid\<rparr>, lastTsfHwnd st \<noteq> hwnd \<or> lastTsfPid st \<noteq> pid))"

definition ShouldResetCompositionOnFocusChange :: "64 word \<Rightarrow> 64 word \<Rightarrow> 64 word \<Rightarrow> 64 word \<Rightarrow> bool" where
  "ShouldResetCompositionOnFocusChange hwnd focus lastHwnd lastFocus \<longleftrightarrow> hwnd \<noteq> lastHwnd \<or> focus \<noteq> lastFocus"

definition IsSpuriousBackgroundFocusEvent :: "64 word \<Rightarrow> 64 word \<Rightarrow> 64 word \<Rightarrow> 64 word \<Rightarrow> 64 word \<Rightarrow> bool" where
  "IsSpuriousBackgroundFocusEvent trigger classified target lastHwnd lastTarget \<longleftrightarrow>
     trigger \<noteq> 0 \<and> trigger \<noteq> classified \<and> classified = lastHwnd \<and> target = lastTarget"

definition ChooseFocusTarget :: "64 word \<Rightarrow> 64 word \<Rightarrow> bool \<Rightarrow> 64 word" where
  "ChooseFocusTarget trigger foreground foregroundIsHelper =
    (if foreground \<noteq> 0 \<and> \<not> foregroundIsHelper then foreground else if trigger \<noteq> 0 then trigger else foreground)"

datatype PerAppMode = NoAppMode | ForceEnglish | ForceVietnamese

definition DecidePerAppMode :: "bool \<Rightarrow> bool \<Rightarrow> PerAppMode" where
  "DecidePerAppMode inExcludedSet inForcedVietnameseSet =
    (if inExcludedSet then ForceEnglish else if inForcedVietnameseSet then ForceVietnamese else NoAppMode)"

section \<open>Text service (TsfEditDecision.h, TsfPromotionDecision.h)\<close>

definition IsReadOnlyTsfDocument :: "32 word \<Rightarrow> bool" where
  "IsReadOnlyTsfDocument dynamicStatus \<longleftrightarrow> dynamicStatus AND 0x1 \<noteq> 0"

record TsfContextInputState =
  hasContext :: bool
  dynamicStatusFlags :: "32 word"
  staticStatusFlags :: "32 word"
  keyboardDisabled :: bool
  emptyContext :: bool
  scopeBlocked :: bool

definition ShouldBlockTsfContext :: "TsfContextInputState \<Rightarrow> bool" where
  "ShouldBlockTsfContext st \<longleftrightarrow> \<not> hasContext st \<or> IsReadOnlyTsfDocument (dynamicStatusFlags st) \<or>
     keyboardDisabled st \<or> emptyContext st \<or> scopeBlocked st"

definition IsExactBackwardRangeShift :: "32 word \<Rightarrow> 32 word \<Rightarrow> bool" where
  "IsExactBackwardRangeShift requestedChars shiftedChars \<longleftrightarrow> sint requestedChars > 0 \<and> shiftedChars = - requestedChars"

definition ShouldSuppressClaimedKeyDown :: "32 word \<Rightarrow> 32 word \<Rightarrow> 32 word \<Rightarrow> bool" where
  "ShouldSuppressClaimedKeyDown pendingVk currentVk lParam \<longleftrightarrow>
     pendingVk \<noteq> 0 \<and> pendingVk = currentVk \<and> lParam AND push_bit 30 1 = 0"

record TsfPromotionInputs =
  engineBufferCount :: nat
  isComposing :: bool
  rawMacroBufferEmpty :: bool
  pendingReviveEmpty :: bool

definition CanPromoteTsfConfig :: "TsfPromotionInputs \<Rightarrow> bool" where
  "CanPromoteTsfConfig i \<longleftrightarrow> engineBufferCount i = 0 \<and> \<not> isComposing i \<and> rawMacroBufferEmpty i \<and> pendingReviveEmpty i"

record TsfPendingLexiconDecision =
  preserveConfigFields :: bool
  keepPendingDictionary :: bool

definition DecidePendingTsfLexicon :: "bool \<Rightarrow> bool \<Rightarrow> TsfPendingLexiconDecision" where
  "DecidePendingTsfLexicon hasPendingConfig lexiconSnapshotStaged =
    \<lparr>preserveConfigFields = (hasPendingConfig \<and> lexiconSnapshotStaged), keepPendingDictionary = lexiconSnapshotStaged\<rparr>"

section \<open>Macro table and caches (MacroTableDecision.h, WebView2CacheDecision.h)\<close>

datatype MacroTableAction = MtNone | MtReload | MtKeepStale

record MacroTableInputs =
  loaded :: bool
  loadedGen :: "8 word"
  stateGen :: "8 word"
  allowDiskRead :: bool

definition DecideMacroTable :: "MacroTableInputs \<Rightarrow> MacroTableAction" where
  "DecideMacroTable i =
    (if loaded i \<and> loadedGen i = stateGen i then MtNone
     else if allowDiskRead i then MtReload
     else if loadedGen i \<noteq> stateGen i then MtReload else MtKeepStale)"

definition IsWebView2NegativeCacheFresh :: "64 word \<Rightarrow> 64 word \<Rightarrow> 64 word \<Rightarrow> bool" where
  "IsWebView2NegativeCacheFresh now cached ttl \<longleftrightarrow> now - cached < ttl"

section \<open>Runs of keys and layout changes\<close>

text \<open>The hook stores the state the transition returns and feeds the next key; a key is its virtual-key
  code with Shift, no other modifier held.\<close>

definition autoCapRun :: "(32 word \<times> bool) list \<Rightarrow> AutoCapState" where
  "autoCapRun ks = fold (\<lambda>(v, sh) st. ComputeAutoCapStateTransition st v sh False False False) ks Idle"

definition keepsReady :: "32 word \<times> bool \<Rightarrow> bool" where
  "keepsReady k \<longleftrightarrow> fst k = 0x20 \<or> (0x41 \<le> fst k \<and> fst k \<le> 0x5A)"

lemma autoCapRun_snoc:
  "autoCapRun (ks @ [k]) = ComputeAutoCapStateTransition (autoCapRun ks) (fst k) (snd k) False False False"
  by (simp add: autoCapRun_def split_beta)

lemma autoCapRun_punct: "autoCapRun ks = AfterPunct \<longleftrightarrow> ks \<noteq> [] \<and> isPunctKey (fst (last ks)) (snd (last ks))"
proof (induction ks rule: rev_induct)
  case (snoc k ks)
  then show ?case by (auto simp: autoCapRun_snoc ComputeAutoCapStateTransition_def)
qed (simp add: autoCapRun_def)

definition readyShape :: "(32 word \<times> bool) list \<Rightarrow> bool" where
  "readyShape ks \<longleftrightarrow> (\<exists>a b k. ks = a @ k # b \<and> list_all keepsReady b \<and>
     (fst k = 0x0D \<or> (fst k = 0x20 \<and> a \<noteq> [] \<and> isPunctKey (fst (last a)) (snd (last a)))))"

lemma readyShape_Nil: "\<not> readyShape []"
  by (simp add: readyShape_def)

lemma readyShape_snoc:
  "readyShape (ks @ [k]) \<longleftrightarrow> fst k = 0x0D \<or> (fst k = 0x20 \<and> ks \<noteq> [] \<and> isPunctKey (fst (last ks)) (snd (last ks))) \<or>
     (keepsReady k \<and> readyShape ks)"
proof
  assume "readyShape (ks @ [k])"
  then obtain a b x where s: "ks @ [k] = a @ x # b" "list_all keepsReady b"
      "fst x = 0x0D \<or> (fst x = 0x20 \<and> a \<noteq> [] \<and> isPunctKey (fst (last a)) (snd (last a)))"
    unfolding readyShape_def by blast
  show "fst k = 0x0D \<or> (fst k = 0x20 \<and> ks \<noteq> [] \<and> isPunctKey (fst (last ks)) (snd (last ks))) \<or>
     (keepsReady k \<and> readyShape ks)"
  proof (cases b rule: rev_cases)
    case Nil
    then show ?thesis using s by auto
  next
    case (snoc c y)
    then have "ks = a @ x # c" "keepsReady k" "list_all keepsReady c" using s(1,2) by auto
    then have "readyShape ks" unfolding readyShape_def using s(3) by blast
    then show ?thesis using \<open>keepsReady k\<close> by blast
  qed
next
  assume "fst k = 0x0D \<or> (fst k = 0x20 \<and> ks \<noteq> [] \<and> isPunctKey (fst (last ks)) (snd (last ks))) \<or>
     (keepsReady k \<and> readyShape ks)"
  then consider "fst k = 0x0D \<or> (fst k = 0x20 \<and> ks \<noteq> [] \<and> isPunctKey (fst (last ks)) (snd (last ks)))"
    | a b x where "keepsReady k" "ks = a @ x # b" "list_all keepsReady b"
        "fst x = 0x0D \<or> (fst x = 0x20 \<and> a \<noteq> [] \<and> isPunctKey (fst (last a)) (snd (last a)))"
    unfolding readyShape_def by blast
  then show "readyShape (ks @ [k])"
  proof cases
    case 1
    then show ?thesis unfolding readyShape_def by (intro exI[of _ ks] exI[of _ "[]"] exI[of _ k]) auto
  next
    case (2 a b x)
    then show ?thesis unfolding readyShape_def by (intro exI[of _ a] exI[of _ "b @ [k]"] exI[of _ x]) auto
  qed
qed

lemma autoCapRun_ready: "autoCapRun ks = ReadyToCapitalize \<longleftrightarrow> readyShape ks"
proof (induction ks rule: rev_induct)
  case (snoc k ks)
  show ?case
    unfolding readyShape_snoc autoCapRun_snoc snoc[symmetric] autoCapRun_punct[symmetric]
    by (cases "autoCapRun ks") (auto simp: ComputeAutoCapStateTransition_def keepsReady_def isPunctKey_def)
qed (simp add: autoCapRun_def readyShape_Nil)

record ModeState =
  suppressed :: bool
  savedMode :: bool
  viMode :: bool

definition layoutChanged :: "bool \<Rightarrow> ModeState \<Rightarrow> ModeState" where
  "layoutChanged compatible s =
    (let out = DecideCjkSwitch \<lparr>isCompatibleNow = compatible, layoutSuppressed = suppressed s, modeBeforeCjk = savedMode s,
           vietnameseMode = viMode s, isExcluded = False, isForcedVietnamese = False, cjkAutoSwitchEnabled = True\<rparr>
     in \<lparr>suppressed = newLayoutSuppressed out, savedMode = newModeBeforeCjk out, viMode = newVietnameseMode out\<rparr>)"

lemma layoutChanged_inv:
  assumes "if suppressed s then savedMode s = v \<and> \<not> viMode s else viMode s = v"
  shows "suppressed (layoutChanged c s) = (\<not> c)"
    "if suppressed (layoutChanged c s) then savedMode (layoutChanged c s) = v \<and> \<not> viMode (layoutChanged c s)
     else viMode (layoutChanged c s) = v"
  using assms by (auto simp: layoutChanged_def DecideCjkSwitch_def Let_def split: if_splits)

section \<open>Properties\<close>

text \<open>The next letter is capitalized exactly when an Enter, or a space right after one of \<open>. ? !\<close>, was
  typed and nothing but spaces and letters since: a full stop inside a token never arms it.\<close>

theorem auto_cap_armed:
  "autoCapRun ks = ReadyToCapitalize \<longleftrightarrow>
    (\<exists>a b k. ks = a @ k # b \<and> list_all keepsReady b \<and>
       (fst k = 0x0D \<or> (fst k = 0x20 \<and> a \<noteq> [] \<and> isPunctKey (fst (last a)) (snd (last a)))))"
  using autoCapRun_ready[of ks] by (simp add: readyShape_def)

text \<open>Passing through Chinese, Japanese or Korean layouts never loses the user's mode: after any sequence
  of layout changes Vietnamese is on exactly when it was on before and the current layout is
  compatible.\<close>

theorem cjk_mode_preserved:
  "(let s = fold layoutChanged cs \<lparr>suppressed = False, savedMode = b, viMode = v\<rparr> in
     suppressed s = (cs \<noteq> [] \<and> \<not> last cs) \<and> viMode s = (v \<and> \<not> suppressed s))"
proof -
  let ?s = "\<lambda>cs. fold layoutChanged cs \<lparr>suppressed = False, savedMode = b, viMode = v\<rparr>"
  have "suppressed (?s cs) = (cs \<noteq> [] \<and> \<not> last cs) \<and>
      (if suppressed (?s cs) then savedMode (?s cs) = v \<and> \<not> viMode (?s cs) else viMode (?s cs) = v)" for cs
  proof (induction cs rule: rev_induct)
    case (snoc c cs)
    then have "if suppressed (?s cs) then savedMode (?s cs) = v \<and> \<not> viMode (?s cs) else viMode (?s cs) = v" by blast
    from layoutChanged_inv[OF this, of c] show ?case by (cases c) simp_all
  qed simp
  from this[of cs] show ?thesis by (auto simp: Let_def split: if_splits)
qed

definition wordKeys :: "32 word list" where
  "wordKeys = map word_of_nat ([0x30..<0x3A] @ [0x41..<0x5B])"

definition methodAction :: "InputMethod \<Rightarrow> 32 word \<Rightarrow> TypingAction" where
  "methodAction m v = ClassifyKey (towlower (unat v)) (m \<noteq> VNI \<and> m \<noteq> UserDefined) (m = VNI \<or> m = Combined)"

lemma wordKeys_exempt:
  "list_all (\<lambda>m. list_all (\<lambda>v. v \<noteq> 0x1B \<and>
     IsCommitUndoExemptKey v m False False False = IsCommitUndoExemptAction (methodAction m v)) wordKeys)
     [Telex, VNI, SimpleTelex, Combined, UserDefined]"
  by code_simp

lemma IsCommitUndoExemptKey_esc:
  "v \<noteq> 0x1B \<Longrightarrow> IsCommitUndoExemptKey v m s esc c = IsCommitUndoExemptKey v m s False c"
  by (simp add: IsCommitUndoExemptKey_def Let_def)

text \<open>The letters and digits exempt from cancelling a commit undo are exactly those the engine classifies
  as a tone or a modifier, in every input method: the table of virtual keys in the hook and the key
  classification of the engine agree on all 36 keys.\<close>

theorem exempt_keys_agree:
  "map (\<lambda>v. IsCommitUndoExemptKey v (inputMethod (config e)) False esc False) wordKeys =
   map (\<lambda>v. IsCommitUndoExemptAction (ClassifyKey (towlower (unat v)) (IsTelexMode e) (IsVniMode e))) wordKeys"
proof -
  have "inputMethod (config e) \<in> set [Telex, VNI, SimpleTelex, Combined, UserDefined]"
    by (cases "inputMethod (config e)") simp_all
  then have all: "\<forall>v\<in>set wordKeys. v \<noteq> 0x1B \<and>
      IsCommitUndoExemptKey v (inputMethod (config e)) False False False =
      IsCommitUndoExemptAction (methodAction (inputMethod (config e)) v)"
    using wordKeys_exempt unfolding list_all_iff by blast
  have eng: "methodAction (inputMethod (config e)) v = ClassifyKey (towlower (unat v)) (IsTelexMode e) (IsVniMode e)" for v
    unfolding methodAction_def IsTelexMode_def IsVniMode_def ..
  show ?thesis
  proof (rule map_cong[OF refl])
    fix v assume "v \<in> set wordKeys"
    with all have "v \<noteq> 0x1B" "IsCommitUndoExemptKey v (inputMethod (config e)) False False False =
        IsCommitUndoExemptAction (methodAction (inputMethod (config e)) v)" by blast+
    then show "IsCommitUndoExemptKey v (inputMethod (config e)) False esc False =
        IsCommitUndoExemptAction (ClassifyKey (towlower (unat v)) (IsTelexMode e) (IsVniMode e))"
      unfolding eng by (subst IsCommitUndoExemptKey_esc)
  qed
qed

end
