(* ===== verification/Supervision.thy ===== *)
theory Supervision
  imports Prelude
begin

text \<open>
  The bounded bookkeeping around the keyboard hook: the restart throttle of the watchdog
  (\<open>src/core/RestartThrottle.h\<close>), the policy and the delayed tickets for taking the hook back from a
  competing application (\<open>DorionHookReclaimPolicy.h\<close>, \<open>DorionHookReclaimSequence.h\<close>) and the
  replacement of the one hook (\<open>SingleHookReplacement.h\<close>).

  The fixed arrays of the sources are lists of their length; ticks and handles are words.
\<close>

section \<open>Restart throttle\<close>

record RestartThrottle =
  times :: "64 word list"
  windowMs :: "64 word"

definition newRestartThrottle :: "64 word \<Rightarrow> RestartThrottle" where
  "newRestartThrottle w = \<lparr>times = [], windowMs = w\<rparr>"

text \<open>\<open>times_[0 .. count_)\<close> is the list; compacting it keeps the order.\<close>

definition AllowRestart :: "nat \<Rightarrow> 64 word \<Rightarrow> RestartThrottle \<Rightarrow> RestartThrottle \<times> bool" where
  "AllowRestart cap now th =
    (let kept = filter (\<lambda>t. t + windowMs th > now) (times th) in
     if length kept \<ge> cap then (th\<lparr>times := kept\<rparr>, False)
     else (th\<lparr>times := kept @ [now]\<rparr>, True))"

definition RecentCount :: "RestartThrottle \<Rightarrow> nat" where
  "RecentCount th = length (times th)"

text \<open>The watchdog asks at each tick of a list; the second component collects the allowed restarts.\<close>

definition throttleStep :: "nat \<Rightarrow> 64 word \<Rightarrow> RestartThrottle \<times> 64 word list \<Rightarrow> RestartThrottle \<times> 64 word list" where
  "throttleStep cap now s =
    (case AllowRestart cap now (fst s) of (th, ok) \<Rightarrow> (th, if ok then snd s @ [now] else snd s))"

definition throttleRun :: "nat \<Rightarrow> 64 word \<Rightarrow> 64 word list \<Rightarrow> RestartThrottle \<times> 64 word list" where
  "throttleRun cap w ticks = fold (throttleStep cap) ticks (newRestartThrottle w, [])"

definition windowAt :: "64 word \<Rightarrow> 64 word \<Rightarrow> 64 word list \<Rightarrow> 64 word list" where
  "windowAt w t xs = filter (\<lambda>a. a \<le> t \<and> t < a + w) xs"

definition throttleInv :: "nat \<Rightarrow> 64 word \<Rightarrow> 64 word list \<Rightarrow> RestartThrottle \<times> 64 word list \<Rightarrow> bool" where
  "throttleInv cap w ticks s \<longleftrightarrow> windowMs (fst s) = w \<and> set (snd s) \<subseteq> set ticks \<and>
     (\<forall>n. list_all (\<lambda>t. t \<le> n) ticks \<longrightarrow> filter (\<lambda>a. n < a + w) (times (fst s)) = filter (\<lambda>a. n < a + w) (snd s)) \<and>
     (\<forall>t. length (windowAt w t (snd s)) \<le> cap)"

lemma throttleStep_inv:
  assumes inv: "throttleInv cap w ticks s" and le: "list_all (\<lambda>t. t \<le> now) ticks"
  shows "throttleInv cap w (ticks @ [now]) (throttleStep cap now s)"
proof -
  obtain th allowed where s: "s = (th, allowed)" by (cases s)
  define kept where "kept = filter (\<lambda>t. now < t + w) (times th)"
  have w: "windowMs th = w" and sub: "set allowed \<subseteq> set ticks" and bound: "length (windowAt w t allowed) \<le> cap" for t
    using inv by (simp_all add: throttleInv_def s)
  have sync: "filter (\<lambda>a. n < a + w) (times th) = filter (\<lambda>a. n < a + w) allowed" if "list_all (\<lambda>t. t \<le> n) ticks" for n
    using inv that by (simp add: throttleInv_def s)
  have keptA: "kept = filter (\<lambda>a. now < a + w) allowed" unfolding kept_def by (rule sync[OF le])
  have keptF: "filter (\<lambda>a. n < a + w) kept = filter (\<lambda>a. n < a + w) allowed" if "now \<le> n" for n
  proof -
    have "n < x \<Longrightarrow> now < x" for x using that by (rule order.strict_trans1)
    then show ?thesis unfolding keptA filter_filter by (intro filter_cong refl) blast
  qed
  have step: "throttleStep cap now s =
      (if cap \<le> length kept then (th\<lparr>times := kept\<rparr>, allowed) else (th\<lparr>times := kept @ [now]\<rparr>, allowed @ [now]))"
    by (simp add: throttleStep_def AllowRestart_def Let_def s w kept_def)
  have win: "length (windowAt w t (allowed @ [now])) \<le> cap" if "length kept < cap" for t
  proof (cases "now \<le> t")
    case True
    have "windowAt w t allowed = filter (\<lambda>a. a \<le> t \<and> t < a + w) kept"
    proof -
      have "now < x" if "t < x" for x using True that by (rule order.strict_trans1)
      then have "(now < a + w \<and> a \<le> t \<and> t < a + w) = (a \<le> t \<and> t < a + w)" for a by blast
      then show ?thesis unfolding windowAt_def keptA filter_filter by presburger
    qed
    then have "length (windowAt w t allowed) \<le> length kept" by (simp only: length_filter_le)
    then show ?thesis using that by (auto simp: windowAt_def)
  next
    case False
    then show ?thesis using bound[of t] by (simp add: windowAt_def)
  qed
  show ?thesis
  proof (cases "cap \<le> length kept")
    case True
    then show ?thesis using w sub bound keptF by (auto simp: throttleInv_def step)
  next
    case False
    then show ?thesis using w sub win keptF by (auto simp: throttleInv_def step)
  qed
qed

lemma throttleRun_inv: "sorted ticks \<Longrightarrow> throttleInv cap w ticks (throttleRun cap w ticks)"
proof (induction ticks rule: rev_induct)
  case Nil
  then show ?case by (simp add: throttleRun_def throttleInv_def newRestartThrottle_def windowAt_def)
next
  case (snoc now ticks)
  then have "throttleInv cap w ticks (throttleRun cap w ticks)" "list_all (\<lambda>t. t \<le> now) ticks"
    by (auto simp: sorted_append list_all_iff)
  from throttleStep_inv[OF this] show ?case by (simp add: throttleRun_def)
qed

section \<open>Which processes the hook may be taken back from\<close>

record DorionProcessIdentity =
  pid :: "32 word"
  creationTime :: "64 word"

definition noIdentity :: DorionProcessIdentity where
  "noIdentity = \<lparr>pid = 0, creationTime = 0\<rparr>"

definition validIdentity :: "DorionProcessIdentity \<Rightarrow> bool" where
  "validIdentity i \<longleftrightarrow> pid i \<noteq> 0 \<and> creationTime i \<noteq> 0"

record DorionHookReclaimPolicy =
  pending :: "DorionProcessIdentity list"
  successful :: "DorionProcessIdentity list"
  suppressNewIdentities :: bool

definition newDorionPolicy :: DorionHookReclaimPolicy where
  "newDorionPolicy = \<lparr>pending = replicate 4 noIdentity, successful = replicate 8 noIdentity, suppressNewIdentities = False\<rparr>"

text \<open>The loops over the slots: the first free slot is taken, the first equal one cleared.\<close>

fun takeFreeSlot :: "('a \<Rightarrow> bool) \<Rightarrow> 'a \<Rightarrow> 'a list \<Rightarrow> 'a list option" where
  "takeFreeSlot used x [] = None"
| "takeFreeSlot used x (y # ys) = (if \<not> used y then Some (x # ys) else map_option (\<lambda>zs. y # zs) (takeFreeSlot used x ys))"

fun clearFirst :: "('a \<Rightarrow> bool) \<Rightarrow> 'a \<Rightarrow> 'a list \<Rightarrow> 'a list" where
  "clearFirst hit blank [] = []"
| "clearFirst hit blank (y # ys) = (if hit y then blank # ys else y # clearFirst hit blank ys)"

definition Observe ::
  "wstring \<Rightarrow> DorionProcessIdentity \<Rightarrow> bool \<Rightarrow> DorionHookReclaimPolicy \<Rightarrow> DorionHookReclaimPolicy \<times> bool" where
  "Observe exeName i isCurrent p =
    (if \<not> isCurrent \<or> exeName \<noteq> [0x64, 0x6F, 0x72, 0x69, 0x6F, 0x6E, 0x2E, 0x65, 0x78, 0x65] \<or> \<not> validIdentity i
     then (p, False)
     else if i \<in> set (pending p) \<or> i \<in> set (successful p) \<or> suppressNewIdentities p then (p, False)
     else case takeFreeSlot validIdentity i (pending p) of
       Some ps \<Rightarrow> (p\<lparr>pending := ps\<rparr>, True) | None \<Rightarrow> (p, False))"

definition Complete :: "DorionProcessIdentity \<Rightarrow> bool \<Rightarrow> DorionHookReclaimPolicy \<Rightarrow> DorionHookReclaimPolicy" where
  "Complete i succeeded p =
    (let p = p\<lparr>pending := clearFirst (\<lambda>x. x = i) noIdentity (pending p)\<rparr> in
     if \<not> succeeded \<or> \<not> validIdentity i \<or> i \<in> set (successful p) then p
     else case takeFreeSlot validIdentity i (successful p) of
       Some ss \<Rightarrow> p\<lparr>successful := ss\<rparr> | None \<Rightarrow> p\<lparr>suppressNewIdentities := True\<rparr>)"

definition ResetPolicy :: "DorionHookReclaimPolicy \<Rightarrow> DorionHookReclaimPolicy" where
  "ResetPolicy p = newDorionPolicy"

datatype DorionOp = OpObserve wstring DorionProcessIdentity bool | OpComplete DorionProcessIdentity bool

fun dorionStep :: "DorionOp \<Rightarrow> DorionHookReclaimPolicy \<Rightarrow> DorionHookReclaimPolicy" where
  "dorionStep (OpObserve e i c) p = fst (Observe e i c p)"
| "dorionStep (OpComplete i ok) p = Complete i ok p"

lemma takeFreeSlot_set:
  "takeFreeSlot used x xs = Some ys \<Longrightarrow> x \<in> set ys \<and> (\<forall>y\<in>set xs. used y \<longrightarrow> y \<in> set ys)"
  by (induction xs arbitrary: ys) (auto split: if_splits)

definition settled :: "DorionProcessIdentity \<Rightarrow> DorionHookReclaimPolicy \<Rightarrow> bool" where
  "settled i p \<longleftrightarrow> \<not> validIdentity i \<or> i \<in> set (successful p) \<or> suppressNewIdentities p"

lemma settled_Complete: "settled i (Complete i True p)"
  by (auto simp: settled_def Complete_def Let_def dest: takeFreeSlot_set split: option.split)

lemma settled_step: "settled i p \<Longrightarrow> settled i (dorionStep op p)"
proof (cases op)
  case (OpObserve e j c)
  assume "settled i p"
  then show ?thesis by (auto simp: OpObserve settled_def Observe_def split: option.split)
next
  case (OpComplete j ok)
  assume "settled i p"
  then show ?thesis
    by (auto simp: OpComplete settled_def Complete_def Let_def dest: takeFreeSlot_set split: option.split)
qed

lemma settled_fold: "settled i p \<Longrightarrow> settled i (fold dorionStep ops p)"
  by (induction ops arbitrary: p) (simp_all add: settled_step)

section \<open>Delayed tickets\<close>

record DorionDelayedReclaimTicket =
  tIdentity :: DorionProcessIdentity
  timerId :: "64 word"
  dueTickMs :: "64 word"
  remainingGateChecks :: "8 word"

definition noTicket :: DorionDelayedReclaimTicket where
  "noTicket = \<lparr>tIdentity = noIdentity, timerId = 0, dueTickMs = 0, remainingGateChecks = 0\<rparr>"

definition validTicket :: "DorionDelayedReclaimTicket \<Rightarrow> bool" where
  "validTicket t \<longleftrightarrow> validIdentity (tIdentity t) \<and> timerId t \<noteq> 0 \<and> remainingGateChecks t \<noteq> 0"

type_synonym slots = "DorionDelayedReclaimTicket list"

definition newSlots :: slots where "newSlots = replicate 4 noTicket"

definition ArmTicket :: "DorionDelayedReclaimTicket \<Rightarrow> slots \<Rightarrow> slots \<times> bool" where
  "ArmTicket t sl =
    (if \<not> validTicket t then (sl, False)
     else if list_ex (\<lambda>s. tIdentity s = tIdentity t \<or> timerId s = timerId t) sl then (sl, False)
     else case takeFreeSlot validTicket t sl of Some sl' \<Rightarrow> (sl', True) | None \<Rightarrow> (sl, False))"

definition TakeIfDue :: "64 word \<Rightarrow> 64 word \<Rightarrow> slots \<Rightarrow> slots \<times> DorionDelayedReclaimTicket option" where
  "TakeIfDue timer nowTick sl =
    (if timer = 0 then (sl, None)
     else (clearFirst (\<lambda>s. timerId s = timer \<and> nowTick \<ge> dueTickMs s) noTicket sl,
           List.find (\<lambda>s. timerId s = timer \<and> nowTick \<ge> dueTickMs s) sl))"

definition CancelTicket :: "DorionProcessIdentity \<Rightarrow> slots \<Rightarrow> slots \<times> DorionDelayedReclaimTicket option" where
  "CancelTicket i sl =
    (if \<not> validIdentity i then (sl, None)
     else (clearFirst (\<lambda>s. tIdentity s = i) noTicket sl, List.find (\<lambda>s. tIdentity s = i) sl))"

definition HasPending :: "DorionProcessIdentity \<Rightarrow> slots \<Rightarrow> bool" where
  "HasPending i sl \<longleftrightarrow> validIdentity i \<and> list_ex (\<lambda>s. tIdentity s = i) sl"

definition HasTimer :: "64 word \<Rightarrow> slots \<Rightarrow> bool" where
  "HasTimer timer sl \<longleftrightarrow> timer \<noteq> 0 \<and> list_ex (\<lambda>s. validTicket s \<and> timerId s = timer) sl"

definition HasAnyPending :: "slots \<Rightarrow> bool" where
  "HasAnyPending sl \<longleftrightarrow> list_ex validTicket sl"

definition ActiveTimerIds :: "slots \<Rightarrow> 64 word list" where
  "ActiveTimerIds sl = map timerId sl"

record DorionReclaimQuietEvidence =
  lastInputQuerySucceeded :: bool
  nowTickMs :: "32 word"
  lastInputTickMs :: "32 word"
  anyPhysicalKeyDown :: bool
  syntheticDispatchActive :: bool
  compositionActive :: bool

definition IsDorionReclaimQuiet :: "DorionReclaimQuietEvidence \<Rightarrow> bool" where
  "IsDorionReclaimQuiet e =
    (if \<not> lastInputQuerySucceeded e \<or> anyPhysicalKeyDown e \<or> syntheticDispatchActive e \<or> compositionActive e then False
     else let elapsed = nowTickMs e - lastInputTickMs e in elapsed \<le> 0x7FFFFFFF \<and> elapsed \<ge> 100)"

datatype SlotOp = OpArm DorionDelayedReclaimTicket | OpTake "64 word" "64 word" | OpCancel DorionProcessIdentity

fun slotStep :: "SlotOp \<Rightarrow> slots \<Rightarrow> slots" where
  "slotStep (OpArm t) sl = fst (ArmTicket t sl)"
| "slotStep (OpTake timer now) sl = fst (TakeIfDue timer now sl)"
| "slotStep (OpCancel i) sl = fst (CancelTicket i sl)"

text \<open>A slot is blank or holds a valid ticket, and no process or timer is in two slots.\<close>

definition slotsInv :: "slots \<Rightarrow> bool" where
  "slotsInv sl \<longleftrightarrow> length sl = 4 \<and> list_all (\<lambda>s. s = noTicket \<or> validTicket s) sl \<and>
     distinct (map tIdentity (filter validTicket sl)) \<and> distinct (map timerId (filter validTicket sl))"

lemma noTicket_invalid [simp]: "\<not> validTicket noTicket"
  by (simp add: validTicket_def noTicket_def)

lemma takeFreeSlot_filter:
  "takeFreeSlot used x xs = Some ys \<Longrightarrow> used x \<Longrightarrow>
   length ys = length xs \<and> set ys \<subseteq> insert x (set xs) \<and>
   (\<exists>us vs. filter used xs = us @ vs \<and> filter used ys = us @ x # vs)"
proof (induction xs arbitrary: ys)
  case (Cons a xs)
  show ?case
  proof (cases "used a")
    case True
    then obtain zs where z: "takeFreeSlot used x xs = Some zs" "ys = a # zs" using Cons.prems by auto
    from Cons.IH[OF z(1) Cons.prems(2)] obtain us vs
      where "filter used xs = us @ vs" "filter used zs = us @ x # vs" "length zs = length xs"
        "set zs \<subseteq> insert x (set xs)" by blast
    then show ?thesis using True z(2) by (intro conjI exI[of _ "a # us"] exI[of _ vs]) auto
  next
    case False
    then show ?thesis using Cons.prems by (intro conjI exI[of _ "[]"] exI[of _ "filter used xs"]) auto
  qed
qed simp

lemma clearFirst_filter:
  "\<not> used blank \<Longrightarrow> length (clearFirst hit blank xs) = length xs \<and> set (clearFirst hit blank xs) \<subseteq> insert blank (set xs) \<and>
   (\<exists>us u vs. filter used xs = us @ u @ vs \<and> filter used (clearFirst hit blank xs) = us @ vs)"
proof (induction xs)
  case (Cons a xs)
  then obtain us u vs where "filter used xs = us @ u @ vs" "filter used (clearFirst hit blank xs) = us @ vs" by blast
  show ?case
  proof (cases "hit a")
    case True
    then show ?thesis
      using Cons.prems by (intro conjI exI[of _ "[]"] exI[of _ "filter used [a]"] exI[of _ "filter used xs"]) auto
  next
    case False
    then show ?thesis
      using Cons \<open>filter used xs = us @ u @ vs\<close> \<open>filter used (clearFirst hit blank xs) = us @ vs\<close>
      by (intro conjI exI[of _ "filter used [a] @ us"] exI[of _ u] exI[of _ vs]) auto
  qed
qed auto

lemma slotsInv_clear: "slotsInv sl \<Longrightarrow> slotsInv (clearFirst hit noTicket sl)"
  using clearFirst_filter[of validTicket noTicket hit sl]
  by (fastforce simp: slotsInv_def list_all_iff)

lemma slotsInv_Arm: "slotsInv sl \<Longrightarrow> slotsInv (fst (ArmTicket t sl))"
proof -
  assume inv: "slotsInv sl"
  show ?thesis
  proof (cases "validTicket t \<and> \<not> list_ex (\<lambda>s. tIdentity s = tIdentity t \<or> timerId s = timerId t) sl \<and>
      takeFreeSlot validTicket t sl \<noteq> None")
    case True
    then obtain sl' where s: "takeFreeSlot validTicket t sl = Some sl'" by auto
    then have "fst (ArmTicket t sl) = sl'" using True by (simp add: ArmTicket_def)
    moreover have "slotsInv sl'"
    proof -
      from takeFreeSlot_filter[OF s] True obtain us vs
        where f: "filter validTicket sl = us @ vs" "filter validTicket sl' = us @ t # vs"
          "length sl' = length sl" "set sl' \<subseteq> insert t (set sl)" by blast
      have "set us \<union> set vs \<subseteq> set sl" using f(1) by (metis filter_is_subset set_append)
      then have "\<forall>s\<in>set us \<union> set vs. tIdentity s \<noteq> tIdentity t \<and> timerId s \<noteq> timerId t"
        using True by (auto simp: list_ex_iff)
      then show ?thesis using inv f True by (auto simp: slotsInv_def list_all_iff)
    qed
    ultimately show ?thesis by simp
  next
    case False
    then show ?thesis using inv by (auto simp: ArmTicket_def split: option.split)
  qed
qed

lemma slotsInv_step: "slotsInv sl \<Longrightarrow> slotsInv (slotStep op sl)"
  by (cases op) (simp_all add: slotsInv_Arm TakeIfDue_def CancelTicket_def slotsInv_clear)

lemma slotsInv_fold: "slotsInv sl \<Longrightarrow> slotsInv (fold slotStep ops sl)"
  by (induction ops arbitrary: sl) (simp_all add: slotsInv_step)

section \<open>Replacing the hook\<close>

datatype SingleHookUnhookStatus = Removed | AlreadyAbsent | UnhookFailedStatus
datatype SingleHookReplacementStatus = Replaced | UnhookFailed | InstallFailed

text \<open>The two operations are the host's; a null function pointer is \<open>None\<close>.  \<open>'h\<close> is the host.\<close>

record 'h SingleHookReplacementOps =
  unhook :: "(64 word \<Rightarrow> 'h \<Rightarrow> 'h \<times> SingleHookUnhookStatus) option"
  install :: "('h \<Rightarrow> 'h \<times> 64 word) option"

definition installHook ::
  "'h SingleHookReplacementOps \<Rightarrow> 'h \<Rightarrow> 'h \<times> 64 word \<times> SingleHookReplacementStatus" where
  "installHook ops h = (case install ops of None \<Rightarrow> (h, 0, InstallFailed)
     | Some f \<Rightarrow> (case f h of (h', new) \<Rightarrow> (h', new, if new \<noteq> 0 then Replaced else InstallFailed)))"

definition ReplaceSingleHook ::
  "64 word \<Rightarrow> 'h SingleHookReplacementOps \<Rightarrow> 'h \<Rightarrow> 'h \<times> 64 word \<times> SingleHookReplacementStatus" where
  "ReplaceSingleHook activeHandle ops h =
    (if activeHandle \<noteq> 0 then
       (case unhook ops of None \<Rightarrow> (h, activeHandle, UnhookFailed)
        | Some f \<Rightarrow> (case f activeHandle h of
            (h', UnhookFailedStatus) \<Rightarrow> (h', activeHandle, UnhookFailed)
          | (h', _) \<Rightarrow> installHook ops h'))
     else installHook ops h)"

section \<open>Properties\<close>

text \<open>Over any non-decreasing sequence of ticks the watchdog restarts the program at most \<open>cap\<close> times
  within any window of the configured length: at every tick \<open>t\<close>, at most \<open>cap\<close> allowed restarts lie in
  the window that ends at \<open>t\<close>.\<close>

theorem throttle_window_bound:
  assumes "sorted ticks"
  shows "length (windowAt w t (snd (throttleRun cap w ticks))) \<le> cap"
  using throttleRun_inv[OF assms] by (simp add: throttleInv_def)

theorem throttle_window_bound_witness:
  "length (windowAt 100 20 (snd (throttleRun 2 100 [0, 10, 20, 30]))) \<le> 2"
  by (rule throttle_window_bound) simp

text \<open>A process from which the hook was taken back once is never observed again, whatever is observed
  and completed in between, also when the history is full; and one that is pending is not observed a
  second time.\<close>

theorem dorion_once:
  "\<not> snd (Observe e i c (fold dorionStep ops (Complete i True p))) \<and>
   \<not> (snd (Observe e i c p) \<and> snd (Observe e' i c' (fst (Observe e i c p))))"
proof -
  have "settled i (fold dorionStep ops (Complete i True p))" by (rule settled_fold, rule settled_Complete)
  then have "\<not> snd (Observe e i c (fold dorionStep ops (Complete i True p)))"
    by (auto simp: settled_def Observe_def)
  moreover have "i \<in> set (pending (fst (Observe e i c p)))" if "snd (Observe e i c p)"
    using that by (auto simp: Observe_def dest: takeFreeSlot_set split: if_splits option.splits)
  then have "\<not> (snd (Observe e i c p) \<and> snd (Observe e' i c' (fst (Observe e i c p))))"
    by (auto simp: Observe_def[of e'])
  ultimately show ?thesis by blast
qed

text \<open>However tickets are armed, fired and cancelled, each slot is blank or valid, and no process and no
  timer identifier occupies two slots.\<close>

theorem reclaim_slots_unique: "slotsInv (fold slotStep ops newSlots)"
  by (rule slotsInv_fold) (simp add: slotsInv_def newSlots_def list_all_iff)

end
