(* ===== verification/CodeTableProofs.thy ===== *)
theory CodeTableProofs
  imports CodeTable "HOL-Library.Multiset"
begin

text \<open>
  Encoding and decoding with the code tables.  The reverse tables do not depend on the order in
  which the hash tables are enumerated (\<open>DecodeString_order\<close>); the locale \<open>pair_code\<close> states when a
  greedy decoder inverts an encoder of one or two units per letter, and is interpreted on the VNI,
  CP 1258 and compound tables; TCVN3 loses the case of the toned letters.
\<close>

section \<open>Order of enumeration\<close>

text \<open>All three builders insert a list of keys and letters one after the other.\<close>

definition revOf :: "(nat \<times> wchar) list \<Rightarrow> nat \<rightharpoonup> wchar" where
  "revOf ps = fold (\<lambda>(k, u). revInsert k u) ps Map.empty"

definition tcvnEntries :: "codeMap \<Rightarrow> (nat \<times> wchar) list" where
  "tcvnEntries es = map (\<lambda>(u, e). (e, u)) es"

definition singleEntries :: "codeMap \<Rightarrow> (nat \<times> wchar) list" where
  "singleEntries es = map (\<lambda>(u, e). (e, u)) (filter (\<lambda>(u, e). e \<le> 0xFF) es)"

definition pairEntries :: "codeMap \<Rightarrow> (nat \<times> wchar) list" where
  "pairEntries es = map (\<lambda>(u, e). (pairKey (e mod 0x100) (e div 0x100 mod 0x100), u)) (filter (\<lambda>(u, e). \<not> e \<le> 0xFF) es)"

definition compoundEntries :: "codeMap \<Rightarrow> (nat \<times> wchar) list" where
  "compoundEntries es =
    map (\<lambda>(u, e). (pairKey (fst (units (DecodeCompound e))) (snd (units (DecodeCompound e))), u))
      (filter (\<lambda>(u, e). unitCount (DecodeCompound e) = 2) es)"

lemma GetTcvn3Reverse_revOf: "GetTcvn3Reverse es = revOf (tcvnEntries es)"
  by (simp add: GetTcvn3Reverse_def revOf_def tcvnEntries_def fold_map comp_def case_prod_unfold)

lemma BuildReversePairMap_fold:
  "fold reversePair es (sm, pm) =
    (fold (\<lambda>(k, u). revInsert k u) (singleEntries es) sm, fold (\<lambda>(k, u). revInsert k u) (pairEntries es) pm)"
  by (induction es arbitrary: sm pm) (auto simp: singleEntries_def pairEntries_def reversePair_def)

lemma BuildReversePairMap_revOf: "BuildReversePairMap es = (revOf (singleEntries es), revOf (pairEntries es))"
  by (simp add: BuildReversePairMap_def BuildReversePairMap_fold revOf_def)

lemma GetCompoundReverse_fold:
  "fold compoundInsert es m = fold (\<lambda>(k, u). revInsert k u) (compoundEntries es) m"
  by (induction es arbitrary: m) (auto simp: compoundEntries_def compoundInsert_def Let_def)

lemma GetCompoundReverse_revOf: "GetCompoundReverse es = revOf (compoundEntries es)"
  by (simp add: GetCompoundReverse_def GetCompoundReverse_fold revOf_def)

lemma revOf_snoc: "revOf (ps @ [(k, u)]) = revInsert k u (revOf ps)"
  by (simp add: revOf_def)

lemma revOf_Nil [simp]: "revOf [] = Map.empty"
  by (simp add: revOf_def)

lemma revOf_None: "revOf ps k = None \<longleftrightarrow> k \<notin> fst ` set ps"
proof (induction ps rule: rev_induct)
  case (snoc p ps)
  then show ?case by (cases p) (auto simp: revOf_snoc revInsert_def split: option.splits)
qed simp

lemma revOf_Some:
  "revOf ps k = Some u \<Longrightarrow>
    (k, u) \<in> set ps \<and> (IsLowerViet u \<or> (\<forall>v. (k, v) \<in> set ps \<longrightarrow> \<not> IsLowerViet v))"
proof (induction ps arbitrary: u rule: rev_induct)
  case (snoc p ps)
  obtain k' w where p: "p = (k', w)" by force
  show ?case
  proof (cases "k' = k")
    case False
    then have "revOf ps k = Some u"
      using snoc.prems by (auto simp: p revOf_snoc revInsert_def split: option.splits if_splits)
    then show ?thesis using snoc.IH False by (auto simp: p)
  next
    case True
    show ?thesis
    proof (cases "revOf ps k")
      case None
      then have "u = w" "k \<notin> fst ` set ps"
        using snoc.prems by (auto simp: p True revOf_snoc revInsert_def revOf_None[symmetric])
      then show ?thesis by (force simp: p True)
    next
      case (Some old)
      then show ?thesis using snoc.IH[OF Some] snoc.prems
        by (auto simp: p True revOf_snoc revInsert_def split: if_splits)
    qed
  qed
qed simp

lemma revOf_eqI:
  assumes "(k, u) \<in> set ps"
    and "\<And>v. (k, v) \<in> set ps \<Longrightarrow> v = u \<or> IsLowerViet u \<and> \<not> IsLowerViet v"
  shows "revOf ps k = Some u"
proof -
  have "k \<in> fst ` set ps" using assms(1) by force
  then obtain w where w: "revOf ps k = Some w"
    using revOf_None[of ps k] by (cases "revOf ps k") auto
  then show ?thesis using revOf_Some[OF w] assms by blast
qed

lemma revOf_set_cong:
  assumes "distinct (map (\<lambda>p. (fst p, IsLowerViet (snd p))) ps)" and "set qs = set ps"
  shows "revOf qs = revOf ps"
proof
  fix k
  have uniq: "u = v" if "(k, u) \<in> set ps" "(k, v) \<in> set ps" "IsLowerViet u = IsLowerViet v" for u v
    using that assms(1) by (fastforce simp: distinct_map inj_on_def)
  show "revOf qs k = revOf ps k"
  proof (cases "revOf ps k")
    case None
    then show ?thesis using revOf_None[of ps k] revOf_None[of qs k] assms(2) by simp
  next
    case (Some u)
    show ?thesis
      using revOf_Some[OF Some] uniq revOf_eqI[of k u qs] assms(2) Some by metis
  qed
qed

lemma revOf_map_of:
  assumes "distinct (map fst ps)" "(k, u) \<in> set ps"
  shows "revOf ps k = Some u"
  using assms by (intro revOf_eqI) (auto dest: eq_key_imp_eq_value)

section \<open>Greedy decoding\<close>

text \<open>A code whose letters become one or two units: the second units never begin a letter, so the
  greedy decoder finds the letters again, up to what \<open>norm\<close> merges.\<close>

locale pair_code =
  fixes enc :: "wchar \<Rightarrow> wstring"
    and P :: "wchar \<Rightarrow> wchar \<Rightarrow> wchar option"
    and S :: "wchar \<Rightarrow> wchar option"
    and A :: "wchar set"
    and M :: "wchar set"
  assumes shape: "c \<in> A \<Longrightarrow>
      (\<exists>x. enc c = [x] \<and> (case S x of Some d \<Rightarrow> d | None \<Rightarrow> x) = c) \<or> (\<exists>x y. enc c = [x, y] \<and> P x y = Some c)"
    and marks: "P x y = Some c \<Longrightarrow> y < 0x10000 \<Longrightarrow> y \<in> M"
    and heads: "c \<in> A \<Longrightarrow> hd (enc c) < 0x10000 \<and> hd (enc c) \<notin> M"
begin

lemma no_pair: "c \<in> A \<Longrightarrow> P x (hd (enc c)) = None"
  using marks heads by (cases "P x (hd (enc c))") auto

lemma decode_single:
  assumes "set s \<subseteq> A" "(case S x of Some d \<Rightarrow> d | None \<Rightarrow> x) = c"
  shows "decodePairs P S (x # concat (map enc s)) = c # decodePairs P S (concat (map enc s))"
proof (cases s)
  case Nil
  then show ?thesis using assms by simp
next
  case (Cons d r)
  then have d: "d \<in> A" using assms by simp
  obtain y ys where e: "enc d = y # ys" using shape[OF d] by blast
  have "P x y = None" using no_pair[OF d, of x] by (simp add: e)
  then show ?thesis using assms Cons e by simp
qed

lemma decode_encode: "set s \<subseteq> A \<Longrightarrow> decodePairs P S (concat (map enc s)) = s"
proof (induction s)
  case (Cons c s)
  then have c: "c \<in> A" and s: "set s \<subseteq> A" by auto
  from shape[OF c] show ?case
  proof (elim disjE exE conjE)
    fix x assume "enc c = [x]" "(case S x of Some d \<Rightarrow> d | None \<Rightarrow> x) = c"
    then show ?thesis using decode_single[OF s] Cons.IH[OF s] by simp
  next
    fix x y assume "enc c = [x, y]" "P x y = Some c"
    then show ?thesis using Cons.IH[OF s] by simp
  qed
qed simp

end

text \<open>The characters of a text: ASCII and the letters of a table.\<close>

definition convertible :: "wchar set" where
  "convertible = {..<0x80} \<union> fst ` set kTcvn3Map"

text \<open>The two-byte tables.\<close>

definition loHiUnits :: "codeMap \<Rightarrow> wchar \<Rightarrow> wstring" where
  "loHiUnits T c = encUnits (case map_of T c of Some v \<Rightarrow> DecodeLoHi v | None \<Rightarrow> single c)"

text \<open>The units that follow a letter, for each of the two tables.\<close>

definition vniMarks :: "wchar list" where
  "vniMarks = [0xC0, 0xC1, 0xC2, 0xC3, 0xC4, 0xC5, 0xC8, 0xC9, 0xCA, 0xCB, 0xCF, 0xD5,
     0xD8, 0xD9, 0xDA, 0xDB, 0xDC, 0xE0, 0xE1, 0xE2, 0xE3, 0xE4, 0xE5, 0xE8,
     0xE9, 0xEA, 0xEB, 0xEF, 0xF5, 0xF8, 0xF9, 0xFA, 0xFB, 0xFC]"

definition cp1258Marks :: "wchar list" where
  "cp1258Marks = [0xCC, 0xD2, 0xDE, 0xEC, 0xF2]"

locale two_byte_table =
  fixes T :: codeMap and M :: "wchar list"
  assumes singles: "distinct (map fst (singleEntries T))"
    and pairs: "distinct (map fst (pairEntries T))"
    and entries: "list_all (\<lambda>(u, e). 0x80 \<le> u \<and>
      (if e \<le> 0xFF then 0x80 \<le> e \<and> e \<notin> set M
       else e mod 0x100 \<notin> set M \<and> e div 0x100 mod 0x100 \<in> set M)) T"
    and mark_range: "list_all (\<lambda>m. 0x80 \<le> m) M"
begin

lemma entry: "(u, e) \<in> set T \<Longrightarrow>
    0x80 \<le> u \<and> (if e \<le> 0xFF then 0x80 \<le> e \<and> e \<notin> set M
      else e mod 0x100 \<notin> set M \<and> e div 0x100 mod 0x100 \<in> set M)"
  using entries by (fastforce simp: list_all_iff)

lemma map_ascii: "c < 0x80 \<Longrightarrow> map_of T c = None"
  using entry by (force simp: map_of_eq_None_iff)

lemma single_ascii: "c < 0x80 \<Longrightarrow> revOf (singleEntries T) c = None"
  using entry by (fastforce simp: revOf_None singleEntries_def)

lemma single_entry: "(u, e) \<in> set T \<Longrightarrow> e \<le> 0xFF \<Longrightarrow> revOf (singleEntries T) e = Some u"
  by (rule revOf_map_of[OF singles]) (force simp: singleEntries_def)

lemma pair_entry:
  "(u, e) \<in> set T \<Longrightarrow> \<not> e \<le> 0xFF \<Longrightarrow>
    revOf (pairEntries T) (pairKey (e mod 0x100) (e div 0x100 mod 0x100)) = Some u"
  by (rule revOf_map_of[OF pairs]) (force simp: pairEntries_def)

lemma pair_mark:
  assumes "revOf (pairEntries T) (pairKey x y) = Some c" "y < 0x10000"
  shows "y \<in> set M"
proof -
  obtain u e where e: "(u, e) \<in> set T" "\<not> e \<le> 0xFF" and k: "pairKey x y = pairKey (e mod 0x100) (e div 0x100 mod 0x100)"
    using revOf_Some[OF assms(1)] by (auto simp: pairEntries_def)
  have "y = pairKey x y mod 0x10000" using assms(2) by (simp add: pairKey_def)
  also have "\<dots> = e div 0x100 mod 0x100"
  proof -
    have "e div 0x100 mod 0x100 < 0x10000" by (rule less_trans[of _ "0x100"]) simp_all
    then show ?thesis unfolding k by (simp add: pairKey_def)
  qed
  finally show ?thesis using entry[OF e(1)] e(2) by simp
qed

lemma loHi_cases:
  assumes "c \<in> {..<0x80} \<union> fst ` set T"
  obtains (ascii) "c < 0x80" "loHiUnits T c = [c]"
    | (one) e where "(c, e) \<in> set T" "e \<le> 0xFF" "loHiUnits T c = [e]"
    | (two) e where "(c, e) \<in> set T" "\<not> e \<le> 0xFF" "loHiUnits T c = [e mod 0x100, e div 0x100 mod 0x100]"
proof (cases "c < 0x80")
  case True
  then show ?thesis using map_ascii[OF True] that(1) by (simp add: loHiUnits_def encUnits_def single_def)
next
  case False
  then have "c \<in> fst ` set T" using assms by auto
  then obtain e where m: "map_of T c = Some e"
    by (cases "map_of T c") (auto simp: map_of_eq_None_iff)
  then have e: "(c, e) \<in> set T" by (rule map_of_SomeD)
  show ?thesis
    using that(2)[OF e] that(3)[OF e] m
    by (cases "e \<le> 0xFF") (simp_all add: loHiUnits_def encUnits_def single_def DecodeLoHi_def)
qed

end

sublocale two_byte_table \<subseteq>
  code: pair_code "loHiUnits T" "\<lambda>x y. revOf (pairEntries T) (pairKey x y)" "revOf (singleEntries T)"
    "{..<0x80} \<union> fst ` set T" "set M"
proof
  fix c assume c: "c \<in> {..<0x80} \<union> fst ` set T"
  let ?P = "\<lambda>x y. revOf (pairEntries T) (pairKey x y)" and ?S = "revOf (singleEntries T)"
  show "(\<exists>x. loHiUnits T c = [x] \<and> (case ?S x of Some d \<Rightarrow> d | None \<Rightarrow> x) = c) \<or>
      (\<exists>x y. loHiUnits T c = [x, y] \<and> ?P x y = Some c)"
    using c by (cases rule: loHi_cases) (simp_all add: single_ascii single_entry pair_entry)
  show "hd (loHiUnits T c) < 0x10000 \<and> hd (loHiUnits T c) \<notin> set M"
    using c
  proof (cases rule: loHi_cases)
    case ascii
    then show ?thesis using mark_range by (auto simp: list_all_iff)
  next
    case (one e)
    then show ?thesis using entry[of c e] by simp
  next
    case (two e)
    have "e mod 0x100 < 0x10000" by (rule less_trans[of _ "0x100"]) simp_all
    then show ?thesis using two entry[of c e] by simp
  qed
next
  fix x y c assume "revOf (pairEntries T) (pairKey x y) = Some c" "y < 0x10000"
  then show "y \<in> set M" by (rule pair_mark)
qed

lemma vni_entries: "list_all (\<lambda>(u, e). 0x80 \<le> u \<and>
    (if e \<le> 0xFF then 0x80 \<le> e \<and> e \<notin> set vniMarks
     else e mod 0x100 \<notin> set vniMarks \<and> e div 0x100 mod 0x100 \<in> set vniMarks)) kVniMap"
  by (simp add: kVniMap_def vniMarks_def)

lemma cp1258_entries: "list_all (\<lambda>(u, e). 0x80 \<le> u \<and>
    (if e \<le> 0xFF then 0x80 \<le> e \<and> e \<notin> set cp1258Marks
     else e mod 0x100 \<notin> set cp1258Marks \<and> e div 0x100 mod 0x100 \<in> set cp1258Marks)) kCp1258Map"
  by (simp add: kCp1258Map_def cp1258Marks_def)

interpretation vni: two_byte_table kVniMap vniMarks
proof
  show "distinct (map fst (singleEntries kVniMap))" by (simp add: kVniMap_def singleEntries_def)
  show "distinct (map fst (pairEntries kVniMap))" by (simp add: kVniMap_def pairEntries_def pairKey_def)
qed (rule vni_entries, simp add: vniMarks_def)

interpretation cp1258: two_byte_table kCp1258Map cp1258Marks
proof
  show "distinct (map fst (singleEntries kCp1258Map))" by (simp add: kCp1258Map_def singleEntries_def)
  show "distinct (map fst (pairEntries kCp1258Map))" by (simp add: kCp1258Map_def pairEntries_def pairKey_def)
qed (rule cp1258_entries, simp add: cp1258Marks_def)

subsection \<open>Unicode compound\<close>

definition compoundUnits :: "wchar \<Rightarrow> wstring" where
  "compoundUnits c = encUnits (case map_of kUnicodeCompoundMap c of Some v \<Rightarrow> DecodeCompound v | None \<Rightarrow> single c)"

definition combiningMarks :: "wchar set" where
  "combiningMarks = {0x300, 0x301, 0x303, 0x309, 0x323}"

lemma compound_entries:
  "list_all (\<lambda>(u, e). 0x80 \<le> u \<and> (if e < 0x2000 then u = e \<and> e < 0x300 else e < 0xC000)) kUnicodeCompoundMap"
  by (simp add: kUnicodeCompoundMap_def)

lemma distinct_compound_letters: "distinct (map fst kUnicodeCompoundMap)"
  by (simp add: kUnicodeCompoundMap_def)

lemma DecodeCompound_short: "e < 0x2000 \<Longrightarrow> DecodeCompound e = single e"
proof -
  assume "e < 0x2000"
  then have "e div 0x100 < 0x20" by (simp add: less_mult_imp_div_less)
  then show ?thesis by (simp add: DecodeCompound_def Let_def)
qed

lemma DecodeCompound_long:
  assumes "0x2000 \<le> e" "e < 0xC000"
  shows "DecodeCompound e = \<lparr>units = (e mod 0x100, kCombiningMarks ! (e div 0x2000 - 1)), unitCount = 2\<rparr>"
    "e div 0x2000 - 1 < length kCombiningMarks"
proof -
  let ?h = "e div 0x100"
  have "0x20 \<le> ?h" "?h < 0xC0" using assms by (simp_all add: less_eq_div_iff_mult_less_eq less_mult_imp_div_less)
  moreover have "?h div 32 = e div 0x2000" by (simp add: div_mult2_eq[symmetric])
  moreover have "e div 0x2000 < 6" using assms by (simp add: less_mult_imp_div_less)
  ultimately show "DecodeCompound e = \<lparr>units = (e mod 0x100, kCombiningMarks ! (e div 0x2000 - 1)), unitCount = 2\<rparr>"
    "e div 0x2000 - 1 < length kCombiningMarks"
    by (simp_all add: DecodeCompound_def Let_def kCombiningMarks_def)
qed

lemma compound_entry:
  assumes "(u, e) \<in> set kUnicodeCompoundMap"
  shows "0x80 \<le> u \<and> fst (units (DecodeCompound e)) < 0x10000 \<and> fst (units (DecodeCompound e)) \<notin> combiningMarks \<and>
     (if e < 0x2000 then unitCount (DecodeCompound e) \<noteq> 2 \<and> fst (units (DecodeCompound e)) = u
      else unitCount (DecodeCompound e) = 2 \<and> IsCombiningMark (snd (units (DecodeCompound e))))"
proof -
  have e: "0x80 \<le> u \<and> (if e < 0x2000 then u = e \<and> e < 0x300 else e < 0xC000)"
    using compound_entries assms by (fastforce simp: list_all_iff)
  show ?thesis
  proof (cases "e < 0x2000")
    case True
    then show ?thesis using e by (auto simp: DecodeCompound_short single_def combiningMarks_def)
  next
    case False
    have marks: "IsCombiningMark (kCombiningMarks ! k)" if "k < length kCombiningMarks" for k
      using that nth_mem[OF that] by (auto simp: kCombiningMarks_def IsCombiningMark_def)
    have "e mod 0x100 < 0x100" by simp
    then have "e mod 0x100 < 0x10000" "e mod 0x100 \<notin> combiningMarks" by (auto simp: combiningMarks_def)
    then show ?thesis using False e DecodeCompound_long[of e] marks by simp
  qed
qed

lemma compoundEntries_eq:
  "compoundEntries kUnicodeCompoundMap =
    map (\<lambda>(u, e). (pairKey (e mod 0x100) (kCombiningMarks ! (e div 0x2000 - 1)), u))
      (filter (\<lambda>(u, e). \<not> e < 0x2000) kUnicodeCompoundMap)"
proof -
  have "filter (\<lambda>(u, e). unitCount (DecodeCompound e) = 2) kUnicodeCompoundMap = filter (\<lambda>(u, e). \<not> e < 0x2000) kUnicodeCompoundMap"
    using compound_entry by (intro filter_cong) (auto split: if_splits)
  moreover have "e < 0xC000" if "(u, e) \<in> set kUnicodeCompoundMap" "\<not> e < 0x2000" for u e
    using compound_entries that by (fastforce simp: list_all_iff)
  ultimately show ?thesis by (auto simp: compoundEntries_def DecodeCompound_long(1))
qed

lemma distinct_compound: "distinct (map fst (compoundEntries kUnicodeCompoundMap))"
  unfolding compoundEntries_eq by (simp add: kUnicodeCompoundMap_def pairKey_def kCombiningMarks_def)

interpretation compound: pair_code compoundUnits
  "\<lambda>x y. if IsCombiningMark y then revOf (compoundEntries kUnicodeCompoundMap) (pairKey x y) else None"
  "\<lambda>_. None" "{..<0x80} \<union> fst ` set kUnicodeCompoundMap" combiningMarks
proof
  fix c assume c: "c \<in> {..<0x80} \<union> fst ` set kUnicodeCompoundMap"
  let ?P = "\<lambda>x y. if IsCombiningMark y then revOf (compoundEntries kUnicodeCompoundMap) (pairKey x y) else None"
  have "((\<exists>x. compoundUnits c = [x] \<and> x = c) \<or> (\<exists>x y. compoundUnits c = [x, y] \<and> ?P x y = Some c)) \<and>
      hd (compoundUnits c) < 0x10000 \<and> hd (compoundUnits c) \<notin> combiningMarks"
  proof (cases "map_of kUnicodeCompoundMap c")
    case None
    then have "c < 0x80" using c by (auto simp: map_of_eq_None_iff)
    then show ?thesis using None by (simp add: compoundUnits_def encUnits_def single_def combiningMarks_def)
  next
    case (Some e)
    then have e: "(c, e) \<in> set kUnicodeCompoundMap" by (rule map_of_SomeD)
    let ?d = "DecodeCompound e"
    have t: "fst (units ?d) < 0x10000" "fst (units ?d) \<notin> combiningMarks"
      "unitCount ?d = 2 \<and> IsCombiningMark (snd (units ?d)) \<or> unitCount ?d \<noteq> 2 \<and> fst (units ?d) = c"
      using compound_entry[OF e] by (auto split: if_splits)
    have "unitCount ?d = 2 \<Longrightarrow> revOf (compoundEntries kUnicodeCompoundMap) (pairKey (fst (units ?d)) (snd (units ?d))) = Some c"
      by (rule revOf_map_of[OF distinct_compound]) (use e in \<open>force simp: compoundEntries_def\<close>)
    then show ?thesis using t Some by (auto simp: compoundUnits_def encUnits_def)
  qed
  then show "(\<exists>x. compoundUnits c = [x] \<and> (case None of Some d \<Rightarrow> d | None \<Rightarrow> x) = c) \<or>
      (\<exists>x y. compoundUnits c = [x, y] \<and> ?P x y = Some c)"
    and "hd (compoundUnits c) < 0x10000 \<and> hd (compoundUnits c) \<notin> combiningMarks"
    by simp_all
next
  fix x y c
  assume "(if IsCombiningMark y then revOf (compoundEntries kUnicodeCompoundMap) (pairKey x y) else None) = Some c"
  then show "y \<in> combiningMarks" by (auto simp: IsCombiningMark_def combiningMarks_def split: if_splits)
qed

subsection \<open>TCVN3\<close>

text \<open>The byte of a toned letter does not tell upper case from lower case; the reader prefers the lower.\<close>

definition tonedUpper :: codeMap where
  "tonedUpper = map (\<lambda>l. (ToUpperVietnamese l, l)) (concat kTonedVowel)"

definition tcvnFold :: "wchar \<Rightarrow> wchar" where
  "tcvnFold c = (case map_of tonedUpper c of Some l \<Rightarrow> l | None \<Rightarrow> c)"

lemma toned_lower:
  "list_all (\<lambda>l. IsLowerViet l \<and> \<not> IsLowerViet (ToUpperVietnamese l) \<and> 0x80 \<le> ToUpperVietnamese l) (concat kTonedVowel)"
  by (simp add: kTonedVowel_def IsLowerViet_def ToUpperVietnamese_def ToLowerVietnamese_def towupper_def towlower_def)

lemma tcvnFold_cases: "tcvnFold c = c \<or> IsLowerViet (tcvnFold c) \<and> \<not> IsLowerViet c"
proof (cases "map_of tonedUpper c")
  case (Some l)
  then have "l \<in> set (concat kTonedVowel)" "c = ToUpperVietnamese l"
    by (auto simp: tonedUpper_def simp del: set_concat dest!: map_of_SomeD)
  then show ?thesis using toned_lower Some by (auto simp: tcvnFold_def list_all_iff simp del: set_concat)
qed (simp add: tcvnFold_def)

lemma tcvnFold_idem [simp]: "tcvnFold (tcvnFold c) = tcvnFold c"
  using tcvnFold_cases[of c] tcvnFold_cases[of "tcvnFold c"] by auto

lemma tonedUpper_eval: "tonedUpper = [(0xC1, 0xE1), (0xC0, 0xE0), (0x1EA2, 0x1EA3), (0xC3, 0xE3), (0x1EA0, 0x1EA1), (0x1EA4, 0x1EA5),
    (0x1EA6, 0x1EA7), (0x1EA8, 0x1EA9), (0x1EAA, 0x1EAB), (0x1EAC, 0x1EAD), (0x1EAE, 0x1EAF), (0x1EB0, 0x1EB1),
    (0x1EB2, 0x1EB3), (0x1EB4, 0x1EB5), (0x1EB6, 0x1EB7), (0xC9, 0xE9), (0xC8, 0xE8), (0x1EBA, 0x1EBB),
    (0x1EBC, 0x1EBD), (0x1EB8, 0x1EB9), (0x1EBE, 0x1EBF), (0x1EC0, 0x1EC1), (0x1EC2, 0x1EC3), (0x1EC4, 0x1EC5),
    (0x1EC6, 0x1EC7), (0xCD, 0xED), (0xCC, 0xEC), (0x1EC8, 0x1EC9), (0x128, 0x129), (0x1ECA, 0x1ECB),
    (0xD3, 0xF3), (0xD2, 0xF2), (0x1ECE, 0x1ECF), (0xD5, 0xF5), (0x1ECC, 0x1ECD), (0x1ED0, 0x1ED1),
    (0x1ED2, 0x1ED3), (0x1ED4, 0x1ED5), (0x1ED6, 0x1ED7), (0x1ED8, 0x1ED9), (0x1EDA, 0x1EDB), (0x1EDC, 0x1EDD),
    (0x1EDE, 0x1EDF), (0x1EE0, 0x1EE1), (0x1EE2, 0x1EE3), (0xDA, 0xFA), (0xD9, 0xF9), (0x1EE6, 0x1EE7),
    (0x168, 0x169), (0x1EE4, 0x1EE5), (0x1EE8, 0x1EE9), (0x1EEA, 0x1EEB), (0x1EEC, 0x1EED), (0x1EEE, 0x1EEF),
    (0x1EF0, 0x1EF1), (0xDD, 0xFD), (0x1EF2, 0x1EF3), (0x1EF6, 0x1EF7), (0x1EF8, 0x1EF9), (0x1EF4, 0x1EF5)]"
  by (simp add: tonedUpper_def kTonedVowel_def ToUpperVietnamese_def)

lemma tcvnFold_upper: "map tcvnFold (map fst tonedUpper) = map snd tonedUpper"
proof -
  have "distinct (map fst tonedUpper)" by (simp add: tonedUpper_eval)
  then show ?thesis by (auto simp: tcvnFold_def)
qed

lemma tcvnFold_other: "list_all (\<lambda>u. tcvnFold u = u)
   [0xC2, 0xE2, 0x102, 0x103, 0xE1, 0xE0, 0x1EA3, 0xE3, 0x1EA1, 0xD4,
    0xF4, 0x1A0, 0x1A1, 0xF3, 0xF2, 0x1ECF, 0xF5, 0x1ECD, 0x1AF, 0x1B0,
    0xFA, 0xF9, 0x1EE7, 0x169, 0x1EE5, 0xCA, 0xEA, 0xE9, 0xE8, 0x1EBB,
    0x1EBD, 0x1EB9, 0x110, 0x111, 0x1EA5, 0x1EA7, 0x1EA9, 0x1EAB, 0x1EAD, 0x1EAF,
    0x1EB1, 0x1EB3, 0x1EB5, 0x1EB7, 0x1ED1, 0x1ED3, 0x1ED5, 0x1ED7, 0x1ED9, 0x1EDB,
    0x1EDD, 0x1EDF, 0x1EE1, 0x1EE3, 0x1EE9, 0x1EEB, 0x1EED, 0x1EEF, 0x1EF1, 0x1EBF,
    0x1EC1, 0x1EC3, 0x1EC5, 0x1EC7, 0xED, 0xEC, 0x1EC9, 0x129, 0x1ECB, 0xFD,
    0x1EF3, 0x1EF7, 0x1EF9, 0x1EF5]"
proof -
  have "tcvnFold u = u" if "u \<notin> fst ` set tonedUpper" for u
    using that by (simp add: tcvnFold_def map_of_eq_None_iff[symmetric])
  then show ?thesis by (simp add: tonedUpper_eval)
qed

lemmas tcvnFold_rules = tcvnFold_upper[unfolded tonedUpper_eval, simplified] tcvnFold_other[simplified]

lemma tcvnFold_evals: "map tcvnFold (map fst kTcvn3Map) =
   [0xC2, 0xE2, 0x102, 0x103, 0xE1, 0xE1, 0xE0, 0xE0, 0x1EA3, 0x1EA3,
    0xE3, 0xE3, 0x1EA1, 0x1EA1, 0xD4, 0xF4, 0x1A0, 0x1A1, 0xF3, 0xF3,
    0xF2, 0xF2, 0x1ECF, 0x1ECF, 0xF5, 0xF5, 0x1ECD, 0x1ECD, 0x1AF, 0x1B0,
    0xFA, 0xFA, 0xF9, 0xF9, 0x1EE7, 0x1EE7, 0x169, 0x169, 0x1EE5, 0x1EE5,
    0xCA, 0xEA, 0xE9, 0xE9, 0xE8, 0xE8, 0x1EBB, 0x1EBB, 0x1EBD, 0x1EBD,
    0x1EB9, 0x1EB9, 0x110, 0x111, 0x1EA5, 0x1EA5, 0x1EA7, 0x1EA7, 0x1EA9, 0x1EA9,
    0x1EAB, 0x1EAB, 0x1EAD, 0x1EAD, 0x1EAF, 0x1EAF, 0x1EB1, 0x1EB1, 0x1EB3, 0x1EB3,
    0x1EB5, 0x1EB5, 0x1EB7, 0x1EB7, 0x1ED1, 0x1ED1, 0x1ED3, 0x1ED3, 0x1ED5, 0x1ED5,
    0x1ED7, 0x1ED7, 0x1ED9, 0x1ED9, 0x1EDB, 0x1EDB, 0x1EDD, 0x1EDD, 0x1EDF, 0x1EDF,
    0x1EE1, 0x1EE1, 0x1EE3, 0x1EE3, 0x1EE9, 0x1EE9, 0x1EEB, 0x1EEB, 0x1EED, 0x1EED,
    0x1EEF, 0x1EEF, 0x1EF1, 0x1EF1, 0x1EBF, 0x1EBF, 0x1EC1, 0x1EC1, 0x1EC3, 0x1EC3,
    0x1EC5, 0x1EC5, 0x1EC7, 0x1EC7, 0xED, 0xED, 0xEC, 0xEC, 0x1EC9, 0x1EC9,
    0x129, 0x129, 0x1ECB, 0x1ECB, 0xFD, 0xFD, 0x1EF3, 0x1EF3, 0x1EF7, 0x1EF7,
    0x1EF9, 0x1EF9, 0x1EF5, 0x1EF5]"
  by (simp add: kTcvn3Map_def tcvnFold_rules)

definition tcvnFolded :: "(wchar \<times> wchar \<times> nat) list" where
  "tcvnFolded = zip (map tcvnFold (map fst kTcvn3Map)) kTcvn3Map"

lemma tcvnFolded_eq: "tcvnFolded = map (\<lambda>p. (tcvnFold (fst p), p)) kTcvn3Map"
  by (simp add: tcvnFolded_def zip_map1 zip_same_conv_map)

lemma tcvn_folded_table:
  "list_all (\<lambda>(f, u, e). 0x80 \<le> u \<and> 0x80 \<le> e \<and> (f, e) \<in> set kTcvn3Map) tcvnFolded"
  unfolding tcvnFolded_def tcvnFold_evals by (simp add: kTcvn3Map_def)

lemma tcvn_folded_distinct: "distinct (map (snd \<circ> snd) (filter (\<lambda>(f, u, e). f = u) tcvnFolded))"
  unfolding tcvnFolded_def tcvnFold_evals by (simp add: kTcvn3Map_def)

lemma tcvn_table:
  "(u, e) \<in> set kTcvn3Map \<Longrightarrow> 0x80 \<le> u \<and> 0x80 \<le> e \<and> (tcvnFold u, e) \<in> set kTcvn3Map"
  using tcvn_folded_table by (force simp: list_all_iff tcvnFolded_eq)

lemma tcvn_distinct: "distinct (map snd (filter (\<lambda>(u, e). tcvnFold u = u) kTcvn3Map))"
  using tcvn_folded_distinct by (simp add: tcvnFolded_eq filter_map comp_def case_prod_unfold)

lemma tcvn_entry_set:
  assumes "(u, e) \<in> set kTcvn3Map" and same: "set ps = set (tcvnEntries kTcvn3Map)"
  shows "revOf ps e = Some (tcvnFold u)"
proof (rule revOf_eqI)
  have mem: "(tcvnFold v, e) \<in> set (filter (\<lambda>(u, e). tcvnFold u = u) kTcvn3Map)" if "(v, e) \<in> set kTcvn3Map" for v
    using tcvn_table[OF that] by simp
  show "(e, tcvnFold u) \<in> set ps" unfolding same using mem[OF assms(1)] by (force simp: tcvnEntries_def)
  fix v assume "(e, v) \<in> set ps"
  then have v: "(v, e) \<in> set kTcvn3Map" unfolding same by (auto simp: tcvnEntries_def)
  have "tcvnFold v = tcvnFold u"
    using tcvn_distinct mem[OF v] mem[OF assms(1)] by (fastforce simp: distinct_map inj_on_def)
  then show "v = tcvnFold u \<or> IsLowerViet (tcvnFold u) \<and> \<not> IsLowerViet v"
    using tcvnFold_cases[of v] by auto
qed

lemmas tcvn_entry = tcvn_entry_set[OF _ refl]

lemma tcvn_ascii:
  assumes "c < 0x80"
  shows "map_of kTcvn3Map c = None" "revOf (tcvnEntries kTcvn3Map) c = None" "tcvnFold c = c"
proof -
  show "map_of kTcvn3Map c = None" "revOf (tcvnEntries kTcvn3Map) c = None"
    using tcvn_table assms by (fastforce simp: map_of_eq_None_iff revOf_None tcvnEntries_def)+
  have "map_of tonedUpper c = None"
    unfolding map_of_eq_None_iff using toned_lower assms
    by (fastforce simp: tonedUpper_def list_all_iff simp del: set_concat)
  then show "tcvnFold c = c" by (simp add: tcvnFold_def)
qed

subsection \<open>The strings\<close>

definition tableOf :: "CodeTable \<Rightarrow> codeMap" where
  "tableOf t = (case t of Unicode \<Rightarrow> [] | TCVN3 \<Rightarrow> kTcvn3Map | VNIWindows \<Rightarrow> kVniMap
     | UnicodeCompound \<Rightarrow> kUnicodeCompoundMap | VietnameseLocale \<Rightarrow> kCp1258Map)"

lemma same_letters:
  "fst ` set kVniMap = fst ` set kTcvn3Map"
  "fst ` set kUnicodeCompoundMap = fst ` set kTcvn3Map"
  "fst ` set kCp1258Map = fst ` set kTcvn3Map"
  by (auto simp: kTcvn3Map_def kVniMap_def kUnicodeCompoundMap_def kCp1258Map_def)

lemma DecodeString_order:
  assumes "\<And>t. mset (es t) = mset (tableOf t)"
  shows "DecodeString es s t = DecodeString tableOf s t"
proof -
  have sets: "set (es t) = set (tableOf t)" for t using assms[of t] by (rule mset_eq_setD)
  have d: "distinct (map (\<lambda>p. (fst p, IsLowerViet (snd p))) ps)" if "distinct (map fst ps)" for ps :: codeMap
    using that by (auto simp: distinct_map inj_on_def)
  have tcvn: "GetTcvn3Reverse (es TCVN3) = GetTcvn3Reverse (tableOf TCVN3)"
  proof
    fix e
    show "GetTcvn3Reverse (es TCVN3) e = GetTcvn3Reverse (tableOf TCVN3) e"
      unfolding GetTcvn3Reverse_revOf
    proof (cases "revOf (tcvnEntries (tableOf TCVN3)) e")
      case None
      then have "e \<notin> snd ` set kTcvn3Map" by (force simp: revOf_None tcvnEntries_def tableOf_def)
      then have "revOf (tcvnEntries (es TCVN3)) e = None"
        using sets[of TCVN3] by (force simp: revOf_None tcvnEntries_def tableOf_def)
      then show "revOf (tcvnEntries (es TCVN3)) e = revOf (tcvnEntries (tableOf TCVN3)) e" using None by simp
    next
      case (Some u)
      then have u: "(u, e) \<in> set kTcvn3Map" using revOf_Some[OF Some] by (auto simp: tcvnEntries_def tableOf_def)
      have "set (tcvnEntries (es TCVN3)) = set (tcvnEntries kTcvn3Map)"
        using sets[of TCVN3] by (simp add: tcvnEntries_def tableOf_def)
      then show "revOf (tcvnEntries (es TCVN3)) e = revOf (tcvnEntries (tableOf TCVN3)) e"
        using tcvn_entry_set[OF u] by (simp add: tableOf_def)
    qed
  qed
  have pairs: "BuildReversePairMap (es t) = BuildReversePairMap (tableOf t)"
    if "distinct (map fst (singleEntries (tableOf t)))" "distinct (map fst (pairEntries (tableOf t)))" for t
    unfolding BuildReversePairMap_revOf
    using revOf_set_cong[OF d[OF that(1)], of "singleEntries (es t)"] revOf_set_cong[OF d[OF that(2)], of "pairEntries (es t)"]
      sets[of t] by (simp add: singleEntries_def pairEntries_def)
  have comp: "GetCompoundReverse (es UnicodeCompound) = GetCompoundReverse (tableOf UnicodeCompound)"
    unfolding GetCompoundReverse_revOf
    using revOf_set_cong[of "compoundEntries (tableOf UnicodeCompound)" "compoundEntries (es UnicodeCompound)"]
      d[OF distinct_compound] sets[of UnicodeCompound] by (simp add: compoundEntries_def tableOf_def)
  show ?thesis
    using tcvn comp pairs[of VNIWindows] pairs[of VietnameseLocale] vni.singles vni.pairs cp1258.singles cp1258.pairs
    by (cases t) (simp_all add: DecodeString_def tableOf_def[of VNIWindows] tableOf_def[of VietnameseLocale] cong: if_cong)
qed

lemma EncodeString_loHi:
  "EncodeString s VNIWindows = concat (map (loHiUnits kVniMap) s)"
  "EncodeString s VietnameseLocale = concat (map (loHiUnits kCp1258Map) s)"
  "EncodeString s UnicodeCompound = concat (map compoundUnits s)"
  by (simp_all add: EncodeString_def ConvertChar_def loHiUnits_def[abs_def] compoundUnits_def[abs_def])

lemma tcvn_round_trip:
  assumes "set s \<subseteq> convertible"
  shows "DecodeString tableOf (EncodeString s TCVN3) TCVN3 = map tcvnFold s"
proof -
  have "(case revOf (tcvnEntries kTcvn3Map) (fst (units (ConvertChar c TCVN3))) of
        Some d \<Rightarrow> d | None \<Rightarrow> fst (units (ConvertChar c TCVN3))) = tcvnFold c \<and> unitCount (ConvertChar c TCVN3) \<noteq> 2"
    if c: "c \<in> convertible" for c
  proof (cases "map_of kTcvn3Map c")
    case None
    then have "c < 0x80" using c by (auto simp: convertible_def map_of_eq_None_iff)
    then show ?thesis by (simp add: tcvn_ascii ConvertChar_def single_def)
  next
    case (Some e)
    then show ?thesis using tcvn_entry[OF map_of_SomeD[OF Some]] by (simp add: ConvertChar_def single_def)
  qed
  then have "map (\<lambda>ch. case revOf (tcvnEntries kTcvn3Map) ch of Some c \<Rightarrow> c | None \<Rightarrow> ch)
      (concat (map (\<lambda>ch. encUnits (ConvertChar ch TCVN3)) s)) = map tcvnFold s"
    using assms by (induction s) (simp_all add: encUnits_def)
  then show ?thesis by (simp add: DecodeString_def EncodeString_def GetTcvn3Reverse_revOf tableOf_def)
qed

lemma round_trip_pairs:
  assumes "set s \<subseteq> convertible"
  shows "DecodeString tableOf (EncodeString s VNIWindows) VNIWindows = s"
    "DecodeString tableOf (EncodeString s VietnameseLocale) VietnameseLocale = s"
    "DecodeString tableOf (EncodeString s UnicodeCompound) UnicodeCompound = s"
proof -
  have "set s \<subseteq> {..<0x80} \<union> fst ` set kVniMap" "set s \<subseteq> {..<0x80} \<union> fst ` set kCp1258Map"
    "set s \<subseteq> {..<0x80} \<union> fst ` set kUnicodeCompoundMap"
    using assms unfolding convertible_def same_letters by simp_all
  note vni.code.decode_encode[OF this(1)] cp1258.code.decode_encode[OF this(2)] compound.decode_encode[OF this(3)]
  then show "DecodeString tableOf (EncodeString s VNIWindows) VNIWindows = s"
    "DecodeString tableOf (EncodeString s VietnameseLocale) VietnameseLocale = s"
    "DecodeString tableOf (EncodeString s UnicodeCompound) UnicodeCompound = s"
    by (simp_all add: EncodeString_loHi DecodeString_def tableOf_def BuildReversePairMap_revOf GetCompoundReverse_revOf
      cong: if_cong)
qed

lemma compound_convert:
  assumes "(u, e) \<in> set kUnicodeCompoundMap" "0x2000 \<le> e"
  shows "ConvertChar u UnicodeCompound =
    \<lparr>units = (e mod 0x100, kCombiningMarks ! (e div 0x2000 - 1)), unitCount = 2\<rparr>"
proof -
  have "map_of kUnicodeCompoundMap u = Some e"
    by (rule map_of_is_SomeI[OF distinct_compound_letters assms(1)])
  moreover have "e < 0xC000" using compound_entries assms by (fastforce simp: list_all_iff)
  ultimately show ?thesis using DecodeCompound_long(1)[OF assms(2)] by (simp add: ConvertChar_def)
qed

text \<open>The codes of the toned lower-case letters, row by row.\<close>

definition tonedCompound :: codeMap where
  "tonedCompound =
   [(0xE1, 0x2061), (0xE0, 0x4061), (0x1EA3, 0x6061), (0xE3, 0x8061), (0x1EA1, 0xA061),
    (0x1EA5, 0x20E2), (0x1EA7, 0x40E2), (0x1EA9, 0x60E2), (0x1EAB, 0x80E2), (0x1EAD, 0xA0E2),
    (0x1EAF, 0x2103), (0x1EB1, 0x4103), (0x1EB3, 0x6103), (0x1EB5, 0x8103), (0x1EB7, 0xA103),
    (0xE9, 0x2065), (0xE8, 0x4065), (0x1EBB, 0x6065), (0x1EBD, 0x8065), (0x1EB9, 0xA065),
    (0x1EBF, 0x20EA), (0x1EC1, 0x40EA), (0x1EC3, 0x60EA), (0x1EC5, 0x80EA), (0x1EC7, 0xA0EA),
    (0xED, 0x2069), (0xEC, 0x4069), (0x1EC9, 0x6069), (0x129, 0x8069), (0x1ECB, 0xA069),
    (0xF3, 0x206F), (0xF2, 0x406F), (0x1ECF, 0x606F), (0xF5, 0x806F), (0x1ECD, 0xA06F),
    (0x1ED1, 0x20F4), (0x1ED3, 0x40F4), (0x1ED5, 0x60F4), (0x1ED7, 0x80F4), (0x1ED9, 0xA0F4),
    (0x1EDB, 0x21A1), (0x1EDD, 0x41A1), (0x1EDF, 0x61A1), (0x1EE1, 0x81A1), (0x1EE3, 0xA1A1),
    (0xFA, 0x2075), (0xF9, 0x4075), (0x1EE7, 0x6075), (0x169, 0x8075), (0x1EE5, 0xA075),
    (0x1EE9, 0x21B0), (0x1EEB, 0x41B0), (0x1EED, 0x61B0), (0x1EEF, 0x81B0), (0x1EF1, 0xA1B0),
    (0xFD, 0x2079), (0x1EF3, 0x4079), (0x1EF7, 0x6079), (0x1EF9, 0x8079), (0x1EF5, 0xA079)]"

lemma tonedCompound_eq:
  "map (\<lambda>(i, j). (kTonedVowel ! i ! j, 0x2000 * (j + 1) + kToneBase ! i)) (List.product [0..<12] [0..<5]) = tonedCompound"
  by (simp add: kTonedVowel_def kToneBase_def tonedCompound_def upt_rec)

lemma tonedCompound_mem: "set tonedCompound \<subseteq> set kUnicodeCompoundMap"
  by (simp add: tonedCompound_def kUnicodeCompoundMap_def)

section \<open>Properties\<close>

text \<open>C27. Text of ASCII characters and Vietnamese letters survives the conversion to any code table and
  back, in whatever order the hash tables are enumerated, except that TCVN3 turns every upper-case
  letter with a tone mark into the lower-case letter.\<close>

theorem code_table_round_trip:
  assumes "\<And>t. mset (es t) = mset (tableOf t)" and "set s \<subseteq> convertible"
  shows "DecodeString es (EncodeString s t) t = (if t = TCVN3 then map tcvnFold s else s)"
  using DecodeString_order[OF assms(1)] tcvn_round_trip[OF assms(2)] round_trip_pairs[OF assms(2)]
  by (cases t) (simp_all add: EncodeString_def[of _ Unicode] DecodeString_def[of _ _ Unicode])

theorem code_table_round_trip_witness:
  "DecodeString (\<lambda>t. rev (tableOf t)) (EncodeString [0x110, 0x1EC0, 0x20, 0x56, 0x1EC6] TCVN3) TCVN3 =
    [0x110, 0x1EC1, 0x20, 0x56, 0x1EC7]"
proof -
  have "set [0x110, 0x1EC0, 0x20, 0x56, 0x1EC6] \<subseteq> convertible"
    by (simp add: convertible_def kTcvn3Map_def)
  from code_table_round_trip[OF _ this, of "\<lambda>t. rev (tableOf t)" TCVN3] show ?thesis
    by (simp add: tcvnFold_rules tcvn_ascii)
qed

text \<open>The decomposed form is right exactly for the letters whose base fits in one byte: the letters
  with a breve or a horn lose the high byte of the base, so that a horn becomes U+00A0 or U+00B0 and
  a breve a control character.\<close>

theorem compound_base_truncated:
  "map (\<lambda>(i, j). ConvertChar (kTonedVowel ! i ! j) UnicodeCompound) (List.product [0..<12] [0..<5]) =
   map (\<lambda>(i, j). \<lparr>units = (kToneBase ! i mod 0x100, kCombiningMarks ! j), unitCount = 2\<rparr>) (List.product [0..<12] [0..<5])"
proof -
  have mem: "(kTonedVowel ! i ! j, 0x2000 * (j + 1) + kToneBase ! i) \<in> set kUnicodeCompoundMap \<and> kToneBase ! i < 0x2000"
    if "(i, j) \<in> set (List.product [0..<12] [0..<5])" for i j
  proof -
    have "(kTonedVowel ! i ! j, 0x2000 * (j + 1) + kToneBase ! i) \<in> set tonedCompound"
      unfolding tonedCompound_eq[symmetric] using that by (force simp del: set_product)
    moreover have "kToneBase ! i \<in> set kToneBase" using that by (intro nth_mem) (simp add: kToneBase_def)
    then have "kToneBase ! i < 0x2000" by (auto simp: kToneBase_def)
    ultimately show ?thesis using tonedCompound_mem by blast
  qed
  have "ConvertChar (kTonedVowel ! i ! j) UnicodeCompound = \<lparr>units = (kToneBase ! i mod 0x100, kCombiningMarks ! j), unitCount = 2\<rparr>"
    if "(i, j) \<in> set (List.product [0..<12] [0..<5])" for i j
  proof -
    have "(kTonedVowel ! i ! j, 0x2000 * (j + 1) + kToneBase ! i) \<in> set kUnicodeCompoundMap" and b: "kToneBase ! i < 0x2000"
      using mem[OF that] by simp_all
    from compound_convert[OF this(1)] have c: "ConvertChar (kTonedVowel ! i ! j) UnicodeCompound =
        \<lparr>units = ((0x2000 * (j + 1) + kToneBase ! i) mod 0x100, kCombiningMarks ! ((0x2000 * (j + 1) + kToneBase ! i) div 0x2000 - 1)),
          unitCount = 2\<rparr>" by simp
    have "(0x2000 * (j + 1) + kToneBase ! i) mod 0x100 = kToneBase ! i mod 0x100"
      using mod_mult_self1[of "kToneBase ! i" "0x20 * (j + 1)" "0x100"] by (simp add: algebra_simps)
    moreover have "(0x2000 * (j + 1) + kToneBase ! i) div 0x2000 = j + 1"
      by (subst div_mult_self4) (use b in simp_all)
    ultimately show ?thesis unfolding c by simp
  qed
  then show ?thesis by (intro map_cong refl) (auto simp del: set_product)
qed

end
