(* ===== verification/TextCase.thy ===== *)
theory TextCase
  imports VietTables
begin

text \<open>
  The text operations of \<open>core/engine/CodeTableConverter.cpp\<close> that do not depend on a code table:
  removal of diacritics, upper case, lower case, sentence case and title case.  \<open>std::iswspace\<close>,
  whose table belongs to the C runtime, is an argument of \<open>ToTitleCase\<close>.
\<close>

definition IsAlpha :: "wchar \<Rightarrow> bool" where
  "IsAlpha ch \<longleftrightarrow>
    0x41 \<le> ch \<and> ch \<le> 0x5A \<or> 0x61 \<le> ch \<and> ch \<le> 0x7A \<or> 0xC0 \<le> ch \<and> ch \<le> 0x24F \<or> 0x1EA0 \<le> ch \<and> ch \<le> 0x1EF9"

section \<open>Diacritics\<close>

definition rowBase :: "wchar list" where
  "rowBase = [L_a, L_a, L_a, L_e, L_e, L_i, L_o, L_o, L_o, L_u, L_u, L_y]"

definition modifiedBases :: "(wchar \<times> wchar) list" where
  "modifiedBases =
    [(0xE2, 0x61), (0xC2, 0x41), (0x103, 0x61), (0x102, 0x41), (0xEA, 0x65), (0xCA, 0x45), (0xF4, 0x6F), (0xD4, 0x4F),
     (0x1A1, 0x6F), (0x1A0, 0x4F), (0x1B0, 0x75), (0x1AF, 0x55), (0x111, 0x64), (0x110, 0x44)]"

text \<open>The assignments of the builder, in its order; a later one overwrites an earlier one.\<close>

definition rowEntries :: "wchar list \<Rightarrow> wchar \<Rightarrow> (wchar \<times> wchar) list" where
  "rowEntries r b = concat (map (\<lambda>l. if l = 0 then [] else [(l, b), (ToUpperVietnamese l, towupper b)]) r)"

definition diacriticsEntries :: "(wchar \<times> wchar) list" where
  "diacriticsEntries = concat (map (\<lambda>(r, b). rowEntries r b) (zip kTonedVowel rowBase)) @ modifiedBases"

definition GetDiacriticsMap :: "wchar \<rightharpoonup> wchar" where
  "GetDiacriticsMap = fold (\<lambda>(k, v) m. m(k \<mapsto> v)) diacriticsEntries Map.empty"

definition RemoveDiacritics :: "wstring \<Rightarrow> wstring" where
  "RemoveDiacritics input = map (\<lambda>ch. case GetDiacriticsMap ch of Some b \<Rightarrow> b | None \<Rightarrow> ch) input"

section \<open>Case\<close>

definition ToUpper :: "wstring \<Rightarrow> wstring" where "ToUpper input = map ToUpperVietnamese input"
definition ToLower :: "wstring \<Rightarrow> wstring" where "ToLower input = map ToLowerVietnamese input"

definition isSentenceEnd :: "wchar \<Rightarrow> bool" where
  "isSentenceEnd ch \<longleftrightarrow> ch = 0x2E \<or> ch = 0x21 \<or> ch = 0x3F \<or> ch = 0x2026"

definition isHorizontalWhitespace :: "wchar \<Rightarrow> bool" where
  "isHorizontalWhitespace ch \<longleftrightarrow> ch = 0x20 \<or> ch = 0x9 \<or> ch = 0xB \<or> ch = 0xC"

definition isClosingPunctuation :: "wchar \<Rightarrow> bool" where
  "isClosingPunctuation ch \<longleftrightarrow>
    ch = 0x27 \<or> ch = 0x22 \<or> ch = 0x29 \<or> ch = 0x5D \<or> ch = 0x7D \<or> ch = 0x2019 \<or> ch = 0x201D \<or> ch = 0xBB"

text \<open>The loop of \<open>ToSentenceCase\<close>; \<open>cap\<close> and \<open>pend\<close> are its flags.\<close>

fun sentenceCaseLoop :: "bool \<Rightarrow> bool \<Rightarrow> wstring \<Rightarrow> wstring" where
  "sentenceCaseLoop cap pend [] = []"
| "sentenceCaseLoop cap pend (ch # r) =
    (if cap \<and> IsAlpha ch then ToUpperVietnamese ch # sentenceCaseLoop False False r
     else ch #
       (if ch = 0xA \<or> ch = 0xD then sentenceCaseLoop True False r
        else if pend then
          (if isHorizontalWhitespace ch then sentenceCaseLoop True False r
           else if \<not> isSentenceEnd ch \<and> \<not> isClosingPunctuation ch then sentenceCaseLoop cap False r
           else sentenceCaseLoop cap True r)
        else if isSentenceEnd ch then sentenceCaseLoop cap True r
        else sentenceCaseLoop cap False r))"

definition ToSentenceCase :: "wstring \<Rightarrow> wstring" where
  "ToSentenceCase input = sentenceCaseLoop True False input"

fun titleCaseLoop :: "(wchar \<Rightarrow> bool) \<Rightarrow> bool \<Rightarrow> wstring \<Rightarrow> wstring" where
  "titleCaseLoop iswspace afterSpace [] = []"
| "titleCaseLoop iswspace afterSpace (ch # r) =
    (if afterSpace \<and> IsAlpha ch then ToUpperVietnamese ch # titleCaseLoop iswspace False r
     else (if IsAlpha ch then ToLowerVietnamese ch else ch) # titleCaseLoop iswspace (iswspace ch) r)"

definition ToTitleCase :: "(wchar \<Rightarrow> bool) \<Rightarrow> wstring \<Rightarrow> wstring" where
  "ToTitleCase iswspace input = titleCaseLoop iswspace True input"

section \<open>Letters and their cases\<close>

lemma ToUpper_values:
  obtains (latin) "0xE0 \<le> c" "c \<le> 0xFE" "c \<noteq> 0xF7" "ToUpperVietnamese c = c - 0x20"
    | (pair) "c \<in> {0x103, 0x111, 0x129, 0x169, 0x1A1}" "ToUpperVietnamese c = c - 1"
    | (horn) "c = 0x1B0" "ToUpperVietnamese c = 0x1AF"
    | (odd) "0x1EA1 \<le> c" "c \<le> 0x1EF9" "odd c" "ToUpperVietnamese c = c - 1"
    | (ascii) "0x61 \<le> c" "c \<le> 0x7A" "ToUpperVietnamese c = c - 0x20"
    | (same) "ToUpperVietnamese c = c"
proof -
  consider "0xE0 \<le> c \<and> c \<le> 0xFE \<and> c \<noteq> 0xF7" | "c \<in> {0x103, 0x111, 0x129, 0x169, 0x1A1}" | "c = 0x1B0"
    | "0x1EA0 \<le> c \<and> c \<le> 0x1EF9" | "0x61 \<le> c \<and> c \<le> 0x7A"
    | "\<not> (0xE0 \<le> c \<and> c \<le> 0xFE \<and> c \<noteq> 0xF7)" "c \<notin> {0x103, 0x111, 0x129, 0x169, 0x1A1}" "c \<noteq> 0x1B0"
      "\<not> (0x1EA0 \<le> c \<and> c \<le> 0x1EF9)" "\<not> (0x61 \<le> c \<and> c \<le> 0x7A)"
    by blast
  then show ?thesis
  proof cases
    case 1 then show ?thesis by (intro latin) (auto simp: ToUpperVietnamese_def)
  next
    case 2 then show ?thesis by (intro pair) (auto simp: ToUpperVietnamese_def)
  next
    case 3 then show ?thesis by (intro horn) (auto simp: ToUpperVietnamese_def)
  next
    case 4
    show ?thesis
    proof (cases "odd c")
      case True
      then have "c \<noteq> 0x1EA0" by auto
      then show ?thesis using 4 True by (intro odd) (simp_all add: ToUpperVietnamese_def)
    qed (use 4 in \<open>intro same; simp add: ToUpperVietnamese_def\<close>)
  next
    case 5 then show ?thesis by (intro ascii) (auto simp: ToUpperVietnamese_def towupper_def)
  next
    case 6 then show ?thesis by (intro same) (auto simp: ToUpperVietnamese_def towupper_def)
  qed
qed

lemma ToUpper_fixed: "c < 0x61 \<or> 0x7A < c \<and> c < 0xE0 \<Longrightarrow> ToUpperVietnamese c = c"
  by (auto simp: ToUpperVietnamese_def towupper_def)

lemma ToUpper_idem [simp]: "ToUpperVietnamese (ToUpperVietnamese c) = ToUpperVietnamese c"
proof (cases rule: ToUpper_values[of c])
  case latin
  from latin(1) obtain k where k: "c = 0xE0 + k" using le_iff_add by blast
  then have "ToUpperVietnamese c = 0xC0 + k" using latin(4) by simp
  then show ?thesis using ToUpper_fixed[of "0xC0 + k"] latin(2) k by simp
next
  case pair
  then have u: "ToUpperVietnamese c \<in> {0x102, 0x110, 0x128, 0x168, 0x1A0}" by auto
  have "ToUpperVietnamese x = x" if "x \<in> {0x102, 0x110, 0x128, 0x168, 0x1A0}" for x
    using that by (elim insertE) (simp_all add: ToUpperVietnamese_def towupper_def)
  then show ?thesis using u by blast
next
  case horn
  then show ?thesis by (simp add: ToUpperVietnamese_def towupper_def)
next
  case odd
  then have "even (c - 1)" "0x1EA0 \<le> c - 1" "c - 1 \<le> 0x1EF9" by auto
  then show ?thesis using odd(4) by (simp add: ToUpperVietnamese_def)
next
  case ascii
  then have "ToUpperVietnamese c < 0x61" by simp
  then show ?thesis using ToUpper_fixed by blast
qed simp

lemma IsAlpha_ToUpper [simp]: "IsAlpha (ToUpperVietnamese c) = IsAlpha c"
  by (cases rule: ToUpper_values[of c]) (auto simp: IsAlpha_def)

lemma IsAlpha_not_special:
  "IsAlpha c \<Longrightarrow> \<not> isSentenceEnd c \<and> \<not> isClosingPunctuation c \<and> \<not> isHorizontalWhitespace c \<and> c \<noteq> 0xA \<and> c \<noteq> 0xD"
  by (auto simp: IsAlpha_def isSentenceEnd_def isClosingPunctuation_def isHorizontalWhitespace_def)

lemma special_disjoint:
  "isHorizontalWhitespace c \<Longrightarrow> \<not> isSentenceEnd c \<and> \<not> isClosingPunctuation c"
  "c = 0xA \<or> c = 0xD \<Longrightarrow> \<not> isSentenceEnd c \<and> \<not> isClosingPunctuation c \<and> \<not> IsAlpha c"
  by (auto simp: isSentenceEnd_def isClosingPunctuation_def isHorizontalWhitespace_def IsAlpha_def)

section \<open>Sentences\<close>

text \<open>The reference: a text that ends with a sentence mark, possibly followed by marks and closing
  punctuation; a text after which a sentence begins; a text whose next letter is the first of a
  sentence.\<close>

definition sentencePend :: "wstring \<Rightarrow> bool" where
  "sentencePend p = list_ex isSentenceEnd (takeWhile (\<lambda>c. isSentenceEnd c \<or> isClosingPunctuation c) (rev p))"

definition sentenceBoundary :: "wstring \<Rightarrow> bool" where
  "sentenceBoundary p \<longleftrightarrow>
    p = [] \<or> last p = 0xA \<or> last p = 0xD \<or> isHorizontalWhitespace (last p) \<and> sentencePend (butlast p)"

definition sentenceInitial :: "wstring \<Rightarrow> bool" where
  "sentenceInitial p = list_ex (\<lambda>k. sentenceBoundary (take k p) \<and> list_all (Not \<circ> IsAlpha) (drop k p)) [0..<Suc (length p)]"

lemma sentencePend_snoc:
  "sentencePend (p @ [c]) \<longleftrightarrow> isSentenceEnd c \<or> isClosingPunctuation c \<and> sentencePend p"
  by (auto simp: sentencePend_def)

lemma sentenceInitial_snoc:
  "sentenceInitial (p @ [c]) \<longleftrightarrow> sentenceBoundary (p @ [c]) \<or> sentenceInitial p \<and> \<not> IsAlpha c"
proof -
  have "list_ex (\<lambda>k. sentenceBoundary (take k (p @ [c])) \<and> list_all (Not \<circ> IsAlpha) (drop k (p @ [c]))) [0..<Suc (length p)] =
      list_ex (\<lambda>k. (sentenceBoundary (take k p) \<and> list_all (Not \<circ> IsAlpha) (drop k p)) \<and> \<not> IsAlpha c) [0..<Suc (length p)]"
    by (intro list_ex_cong refl) auto
  also have "\<dots> \<longleftrightarrow> sentenceInitial p \<and> \<not> IsAlpha c"
    unfolding sentenceInitial_def list_ex_iff by blast
  finally show ?thesis by (auto simp: sentenceInitial_def)
qed

lemma sentenceBoundary_snoc:
  "sentenceBoundary (p @ [c]) \<longleftrightarrow> c = 0xA \<or> c = 0xD \<or> isHorizontalWhitespace c \<and> sentencePend p"
  by (simp add: sentenceBoundary_def)

definition sentenceChar :: "wstring \<Rightarrow> wchar \<Rightarrow> wchar" where
  "sentenceChar p c = (if sentenceInitial p \<and> IsAlpha c then ToUpperVietnamese c else c)"

lemma sentenceCaseLoop_spec:
  "sentenceCaseLoop (sentenceInitial p) (sentencePend p) s =
    map (\<lambda>i. sentenceChar (p @ take i s) (s ! i)) [0..<length s]"
proof (induction s arbitrary: p)
  case (Cons c s)
  have tail: "map (\<lambda>i. sentenceChar (p @ take i (c # s)) ((c # s) ! i)) [0..<length (c # s)] =
      sentenceChar p c # sentenceCaseLoop (sentenceInitial (p @ [c])) (sentencePend (p @ [c])) s"
    by (simp add: Cons.IH map_upt_Suc del: upt_Suc)
  show ?case
  proof (cases "IsAlpha c")
    case True
    then show ?thesis unfolding tail using IsAlpha_not_special[OF True]
      by (simp add: sentenceChar_def sentenceInitial_snoc sentenceBoundary_snoc sentencePend_snoc)
  next
    case False
    show ?thesis
    proof (cases "c = 0xA \<or> c = 0xD \<or> isHorizontalWhitespace c")
      case True
      then show ?thesis unfolding tail using special_disjoint[of c] False
        by (cases "sentencePend p"; cases "c = 0xA \<or> c = 0xD")
          (simp_all add: sentenceChar_def sentenceInitial_snoc sentenceBoundary_snoc sentencePend_snoc)
    next
      case plain: False
      show ?thesis unfolding tail using plain False
        by (cases "sentencePend p"; cases "isSentenceEnd c"; cases "isClosingPunctuation c")
          (simp_all add: sentenceChar_def sentenceInitial_snoc sentenceBoundary_snoc sentencePend_snoc)
    qed
  qed
qed simp

lemma sentenceCaseLoop_idem:
  "sentenceCaseLoop cap pend (sentenceCaseLoop cap pend s) = sentenceCaseLoop cap pend s"
  by (induction s arbitrary: cap pend) auto

end
