(* ===== verification/TextProps.thy ===== *)
theory TextProps
  imports TextCase EngineSeed
begin

text \<open>
  Properties of the text operations: sentence case against its reference, and the removal of
  diacritics against the letters the engine composes.
\<close>

section \<open>Removal of diacritics\<close>

lemma GetDiacriticsMap_map_of: "GetDiacriticsMap = map_of (rev diacriticsEntries)"
proof -
  have "fold (\<lambda>(k, v) m. m(k \<mapsto> v)) es m = m ++ map_of (rev es)" for es :: "(wchar \<times> wchar) list" and m
    by (induction es arbitrary: m) (auto simp: map_add_def fun_eq_iff split: option.splits)
  then show ?thesis by (simp add: GetDiacriticsMap_def)
qed

lemma diacritics_distinct: "distinct (map fst diacriticsEntries)"
  by (simp add: diacriticsEntries_def rowEntries_def kTonedVowel_def rowBase_def modifiedBases_def ToUpperVietnamese_def)

lemma diacritics_keys: "list_all (\<lambda>k. 0x80 \<le> k) (map fst diacriticsEntries)"
  by (simp add: diacriticsEntries_def rowEntries_def kTonedVowel_def rowBase_def modifiedBases_def ToUpperVietnamese_def)

lemma diacritics_entry: "(k, v) \<in> set diacriticsEntries \<Longrightarrow> RemoveDiacritics [k] = [v]"
  using diacritics_distinct by (simp add: RemoveDiacritics_def GetDiacriticsMap_map_of rev_map[symmetric])

lemma diacritics_ascii: "c < 0x80 \<Longrightarrow> RemoveDiacritics [c] = [c]"
proof -
  assume "c < 0x80"
  then have "c \<notin> fst ` set (rev diacriticsEntries)" using diacritics_keys by (fastforce simp: list_all_iff)
  then have "map_of (rev diacriticsEntries) c = None" by (simp only: map_of_eq_None_iff not_False_eq_True)
  then show ?thesis by (simp add: RemoveDiacritics_def GetDiacriticsMap_map_of)
qed

lemma kTonedVowel_rows5: "length kTonedVowel = 12" "list_all (\<lambda>r. length r = 5 \<and> list_all (\<lambda>l. l \<noteq> 0) r) kTonedVowel"
  by (simp_all add: kTonedVowel_def)

lemma rowEntries_mem:
  assumes "(r, b) \<in> set (zip kTonedVowel rowBase)" "l \<in> set r" "l \<noteq> 0"
  shows "(l, b) \<in> set diacriticsEntries \<and> (ToUpperVietnamese l, towupper b) \<in> set diacriticsEntries"
proof -
  have "(l, b) \<in> set (rowEntries r b)" "(ToUpperVietnamese l, towupper b) \<in> set (rowEntries r b)"
    using assms(2,3) by (auto simp: rowEntries_def)
  moreover have "set (rowEntries r b) \<subseteq> set diacriticsEntries"
    using assms(1) by (auto simp: diacriticsEntries_def)
  ultimately show ?thesis by blast
qed

lemma toned_entry:
  assumes "i < 12" "j < 5"
  shows "RemoveDiacritics [kTonedVowel ! i ! j] = [rowBase ! i]"
    "RemoveDiacritics [ToUpperVietnamese (kTonedVowel ! i ! j)] = [towupper (rowBase ! i)]"
proof -
  have i: "kTonedVowel ! i \<in> set kTonedVowel" using assms(1) kTonedVowel_rows5(1) by simp
  have "length (kTonedVowel ! i) = 5" "list_all (\<lambda>l. l \<noteq> 0) (kTonedVowel ! i)"
    using kTonedVowel_rows5(2) i by (auto simp: list_all_iff)
  then have l: "kTonedVowel ! i ! j \<in> set (kTonedVowel ! i)" "kTonedVowel ! i ! j \<noteq> 0"
    using assms(2) by (auto simp: list_all_iff)
  have z: "(kTonedVowel ! i, rowBase ! i) \<in> set (zip kTonedVowel rowBase)"
    using assms(1) kTonedVowel_rows5(1) by (auto simp: set_zip rowBase_def)
  have "(kTonedVowel ! i ! j, rowBase ! i) \<in> set diacriticsEntries \<and>
      (ToUpperVietnamese (kTonedVowel ! i ! j), towupper (rowBase ! i)) \<in> set diacriticsEntries"
    using z l rowEntries_mem by blast
  then show "RemoveDiacritics [kTonedVowel ! i ! j] = [rowBase ! i]"
    "RemoveDiacritics [ToUpperVietnamese (kTonedVowel ! i ! j)] = [towupper (rowBase ! i)]"
    using diacritics_entry by blast+
qed

lemma rowBase_eq: "rowBase = map (fst \<circ> the \<circ> decomposeToneBase) kToneBase"
  by (simp add: rowBase_def kToneBase_def decomposeToneBase_def)

definition plainLetter :: "CharState \<Rightarrow> wchar" where
  "plainLetter s = (if isUpper s then towupper (base s) else base s)"

lemma RemoveDiacritics_untoned:
  assumes "isVowelBase b" "modFits b m" "m \<noteq> ModNone"
  shows "RemoveDiacritics [applyMod b m] = [b]" "RemoveDiacritics [ToUpperVietnamese (applyMod b m)] = [towupper b]"
proof -
  have "(b, m) \<in> {(L_a, Circumflex), (L_a, Breve), (L_e, Circumflex), (L_o, Circumflex), (L_o, Horn), (L_u, Horn)}"
    using assms by (cases m) (auto simp: isVowelBase_def)
  then have "(applyMod b m, b) \<in> set modifiedBases \<and> (ToUpperVietnamese (applyMod b m), towupper b) \<in> set modifiedBases"
    by (elim insertE) (simp_all add: isVowelBase_def applyMod_def VowelBaseIndex_def kModifiedVowel_def
      modifiedBases_def ToUpperVietnamese_def towupper_def)
  then show "RemoveDiacritics [applyMod b m] = [b]" "RemoveDiacritics [ToUpperVietnamese (applyMod b m)] = [towupper b]"
    by (auto intro!: diacritics_entry simp: diacriticsEntries_def)
qed

lemma RemoveDiacritics_letter:
  assumes "L_a \<le> b" "b \<le> L_z"
  shows "RemoveDiacritics [b] = [b]" "ToUpperVietnamese b = towupper b" "RemoveDiacritics [towupper b] = [towupper b]"
  using assms by (auto intro!: diacritics_ascii simp: ToUpperVietnamese_def towupper_def)

lemma RemoveDiacritics_Compose:
  assumes "letter_cs s"
  shows "RemoveDiacritics [Compose s] = [plainLetter s]"
proof -
  have w: "wf_cs s" and b: "L_a \<le> base s" "base s \<le> L_z" using assms by (auto simp: letter_cs_def)
  note L = RemoveDiacritics_letter[OF b]
  show ?thesis
  proof (cases "IsVowel s")
    case False
    show ?thesis
    proof (cases "modifier s = Stroke")
      case True
      then have d: "base s = L_d" using w False by (simp add: wf_cs_def)
      have "RemoveDiacritics [dd_lower] = [L_d]" "RemoveDiacritics [dd_upper] = [towupper L_d]"
        by (auto intro!: diacritics_entry simp: diacriticsEntries_def modifiedBases_def towupper_def)
      then show ?thesis using d True by (simp add: Compose_def cs_defs plainLetter_def)
    next
      case m: False
      have "modifier s = ModNone" "tone s = ToneNone"
        using w False m by (cases "modifier s"; auto simp: wf_cs_def cs_defs)+
      then have "Compose s = plainLetter s"
        using b L(2) by (simp add: Compose_def cs_defs applyMod_def applyTone_def plainLetter_def)
      then show ?thesis using L by (simp add: plainLetter_def)
    qed
  next
    case True
    have vb: "isVowelBase (base s)" "modFits (base s) (modifier s)" using w True by (auto simp: wf_cs_def IsVowel_def)
    show ?thesis
    proof (cases "tone s = ToneNone")
      case False
      obtain i j where ij: "i < 12" "j < 5"
        and ch: "applyTone (applyMod (base s) (modifier s)) (tone s) = kTonedVowel ! i ! j"
        and u: "kToneBase ! i = applyMod (base s) (modifier s)"
        using toned_index[OF w True False] by blast
      have "rowBase ! i = base s"
        using ij(1) u decompose_untoned[OF vb] by (simp add: rowBase_eq kToneBase_def[THEN arg_cong[of _ _ length]])
      then show ?thesis using toned_entry[OF ij] by (simp add: Compose_vowel[OF w True] ch plainLetter_def Let_def)
    next
      case t: True
      show ?thesis
      proof (cases "modifier s = ModNone")
        case m: True
        then show ?thesis using t L by (simp add: Compose_vowel[OF w True] applyTone_def applyMod_def plainLetter_def Let_def)
      next
        case False
        then show ?thesis using t RemoveDiacritics_untoned[OF vb]
          by (simp add: Compose_vowel[OF w True] applyTone_def plainLetter_def Let_def)
      qed
    qed
  qed
qed

section \<open>Properties\<close>

text \<open>Removing the diacritics of what the engine composes leaves exactly the base letters, in their
  case: no modifier and no tone survives, and no letter is changed otherwise.\<close>

theorem remove_diacritics_base:
  assumes "list_all letter_cs ss"
  shows "RemoveDiacritics (map Compose ss) = map plainLetter ss"
  using assms RemoveDiacritics_Compose by (induction ss) (auto simp: RemoveDiacritics_def)

theorem remove_diacritics_base_witness:
  "RemoveDiacritics (map Compose [initCharState\<lparr>base := L_u, tone := Tilde, isUpper := True\<rparr>,
     initCharState\<lparr>base := L_o, modifier := Horn, tone := Grave\<rparr>]) = [0x55, 0x6F]"
proof -
  have "list_all letter_cs [initCharState\<lparr>base := L_u, tone := Tilde, isUpper := True\<rparr>,
     initCharState\<lparr>base := L_o, modifier := Horn, tone := Grave\<rparr>]"
    by (simp add: letter_cs_def wf_cs_def initCharState_def isVowelBase_def cs_defs towlower_def)
  from remove_diacritics_base[OF this] show ?thesis by (simp add: plainLetter_def initCharState_def towupper_def)
qed

text \<open>C28. Sentence case raises exactly the first letter of every sentence and changes nothing else; a
  sentence begins at the start of the text, after a line break, and after a sentence mark, possibly
  followed by marks and closing punctuation, with a blank behind it, so a dot inside a number or a
  name does not begin one.  Applying it again changes nothing.\<close>

theorem sentence_case_spec:
  "ToSentenceCase s = map (\<lambda>i. sentenceChar (take i s) (s ! i)) [0..<length s] \<and>
   ToSentenceCase (ToSentenceCase s) = ToSentenceCase s"
proof -
  have "sentenceInitial []" "\<not> sentencePend []"
    by (simp_all add: sentenceInitial_def sentenceBoundary_def sentencePend_def)
  then have "ToSentenceCase s = map (\<lambda>i. sentenceChar (take i s) (s ! i)) [0..<length s]"
    using sentenceCaseLoop_spec[of "[]" s] by (simp add: ToSentenceCase_def)
  then show ?thesis using sentenceCaseLoop_idem[of True False s] unfolding ToSentenceCase_def by blast
qed

end
