(* ===== verification/Macro.thy ===== *)
theory Macro
  imports CodeTable TextCase
begin

text \<open>
  Macro expansion (\<open>core/MacroCase.cpp\<close>, \<open>core/MacroContextMatch.h\<close>): which macro a typed buffer
  stands for, how many characters it replaces, the case of the expansion, the two ways to send it
  (clipboard and segments), and the lookup over the text before the caret.

  The \<open>CaseMapper\<close> interface, implemented by the operating system, is the pair of arguments \<open>up\<close> and
  \<open>lo\<close> on buffers; \<open>iswspace\<close> and \<open>iswpunct\<close> of the C runtime are arguments too.  A hash table of
  macros is a partial map; an iterator into it is the pair of its key and value.
\<close>

type_synonym bufMap = "wstring \<Rightarrow> wstring"
type_synonym macroMap = "wstring \<rightharpoonup> wstring"

definition charOf :: "bufMap \<Rightarrow> wchar \<Rightarrow> wchar" where
  "charOf f c = hd (f [c])"

definition LowerCopy :: "bufMap \<Rightarrow> wstring \<Rightarrow> wstring" where
  "LowerCopy lo s = (if s = [] then [] else lo s)"

definition HasUpper :: "bufMap \<Rightarrow> wstring \<Rightarrow> bool" where
  "HasUpper lo s = list_ex (\<lambda>c. charOf lo c \<noteq> c) s"

datatype CapsStyle = CapsNone | FirstLetter | Words | CapsAll

text \<open>The loop of \<open>DetectCaps\<close> over its three variables: letters seen, all upper, initial upper.\<close>

definition detectStep :: "bufMap \<Rightarrow> bufMap \<Rightarrow> wchar \<Rightarrow> nat \<times> bool \<times> bool \<Rightarrow> nat \<times> bool \<times> bool" where
  "detectStep up lo c st =
    (let (letters, allUpper, initialUpper) = st; lower = charOf lo c; upper = charOf up c in
     if lower = upper then st
     else (Suc letters, allUpper \<and> c = upper, if letters = 0 then c = upper else initialUpper \<and> c = lower))"

definition DetectCaps :: "bufMap \<Rightarrow> bufMap \<Rightarrow> wstring \<Rightarrow> bool \<Rightarrow> bool \<Rightarrow> bool \<Rightarrow> CapsStyle" where
  "DetectCaps up lo typed enabled title0 sentenceCapped =
    (let (letters, allUpper, initialUpper) = fold (detectStep up lo) typed (0, True, False) in
     if enabled \<and> allUpper \<and> letters > 1 then CapsAll
     else if enabled \<and> initialUpper then (if title0 \<and> \<not> sentenceCapped then Words else FirstLetter)
     else if sentenceCapped then FirstLetter else CapsNone)"

abbreviation L_backslash :: wchar where "L_backslash \<equiv> 0x5C"

text \<open>The loop of \<open>ApplyCaps\<close> for the styles other than \<open>CapsNone\<close>; \<open>sp\<close> and \<open>pu\<close> are \<open>iswspace\<close> and
  \<open>iswpunct\<close>.  The first equation is the macro newline token.\<close>

fun applyCapsLoop :: "bufMap \<Rightarrow> bufMap \<Rightarrow> (wchar \<Rightarrow> bool) \<Rightarrow> (wchar \<Rightarrow> bool) \<Rightarrow> CapsStyle \<Rightarrow> bool \<Rightarrow> wstring \<Rightarrow> wstring" where
  "applyCapsLoop up lo sp pu style wordStart [] = []"
| "applyCapsLoop up lo sp pu style wordStart (c # r) =
    (if c = L_backslash \<and> r \<noteq> [] \<and> hd r = L_n then c # hd r # applyCapsLoop up lo sp pu style True (tl r)
     else if style = CapsAll then charOf up c # applyCapsLoop up lo sp pu style wordStart r
     else if sp c \<or> (pu c \<and> c \<noteq> 0x27 \<and> c \<noteq> 0x2019) then c # applyCapsLoop up lo sp pu style True r
     else let lower = charOf lo c; upper = charOf up c in
       if lower = upper then c # applyCapsLoop up lo sp pu style wordStart r
       else (if style = FirstLetter \<or> wordStart then upper else c) #
         (if style = FirstLetter then r else applyCapsLoop up lo sp pu style False r))"

definition ApplyCaps :: "bufMap \<Rightarrow> bufMap \<Rightarrow> (wchar \<Rightarrow> bool) \<Rightarrow> (wchar \<Rightarrow> bool) \<Rightarrow> CapsStyle \<Rightarrow> wstring \<Rightarrow> wstring" where
  "ApplyCaps up lo sp pu style t = (if style = CapsNone then t else applyCapsLoop up lo sp pu style True t)"

section \<open>The plan\<close>

record PlanInputs =
  rawMacroBuffer :: wstring
  previousComposition :: wstring
  previousEncodedWidths :: "8 word list"
  macroTable :: macroMap
  macroCrossCommit :: bool
  currentCodeTable :: CodeTable
  autoCapsEnabled :: bool
  titleCaseEnabled :: bool
  wasFirstCharAutoCapped :: bool
  triggerChar :: wchar
  clipboardThreshold :: nat

record MacroPlan =
  matched :: bool
  isPartOfMacro :: bool
  bsCount :: nat
  expansion :: wstring
  useClipboard :: bool
  shortcut :: wstring

definition emptyPlan :: MacroPlan where
  "emptyPlan = \<lparr>matched = False, isPartOfMacro = False, bsCount = 0, expansion = [], useClipboard = False, shortcut = []\<rparr>"

definition macroLookup :: "bufMap \<Rightarrow> macroMap \<Rightarrow> wstring \<Rightarrow> (wstring \<times> wstring) option" where
  "macroLookup lo tab candidate =
    (case tab candidate of
       Some v \<Rightarrow> Some (candidate, v)
     | None \<Rightarrow> map_option (Pair (LowerCopy lo candidate)) (tab (LowerCopy lo candidate)))"

text \<open>Priorities 1 and 2: the raw buffer, then the raw buffer without the trigger.  The result is the
  entry, \<open>isPartOfMacro\<close> and the text the case is taken from.\<close>

definition findRaw :: "bufMap \<Rightarrow> PlanInputs \<Rightarrow> (wstring \<times> wstring) option \<times> bool \<times> wstring" where
  "findRaw lo inp =
    (let raw = rawMacroBuffer inp; it = macroLookup lo (macroTable inp) raw in
     if it = None \<and> triggerChar inp > 0x20 \<and> length raw > 1 \<and> last raw = triggerChar inp
     then (macroLookup lo (macroTable inp) (butlast raw), False, butlast raw)
     else (it, it \<noteq> None \<and> triggerChar inp > 0x20, raw))"

text \<open>Priorities 3 and 4: the composed word with the trigger, then without.  The result has in addition
  \<open>matchedViaComposition\<close>.\<close>

definition findEntry :: "bufMap \<Rightarrow> PlanInputs \<Rightarrow> (wstring \<times> wstring) option \<times> bool \<times> wstring \<times> bool" where
  "findEntry lo inp =
    (let (it, part, typed) = findRaw lo inp; pc = previousComposition inp; tab = macroTable inp in
     if it = None \<and> pc \<noteq> [] then
       (let withTrigger = pc @ [triggerChar inp];
            it3 = (if triggerChar inp > 0x20 then macroLookup lo tab withTrigger else None) in
        if it3 \<noteq> None then (it3, True, withTrigger, True)
        else let it4 = macroLookup lo tab pc in (it4, part, if part then typed else pc, it4 \<noteq> None))
     else (it, part, typed, False))"

definition compositionWidth :: "PlanInputs \<Rightarrow> nat" where
  "compositionWidth inp =
    (if currentCodeTable inp \<noteq> Unicode then sum_list (map unat (previousEncodedWidths inp))
     else length (previousComposition inp))"

definition rawWidth :: "PlanInputs \<Rightarrow> nat" where
  "rawWidth inp =
    (let n = length (rawMacroBuffer inp) in if triggerChar inp > 0x20 \<and> n > 0 then n - 1 else n)"

definition Plan :: "bufMap \<Rightarrow> bufMap \<Rightarrow> (wchar \<Rightarrow> bool) \<Rightarrow> (wchar \<Rightarrow> bool) \<Rightarrow> PlanInputs \<Rightarrow> MacroPlan" where
  "Plan up lo sp pu inp =
    (case findEntry lo inp of
       (None, part, typed, via) \<Rightarrow> emptyPlan\<lparr>isPartOfMacro := part\<rparr>
     | (Some (key, val), part, typed, via) \<Rightarrow>
         let e = (if HasUpper lo key then val
                  else ApplyCaps up lo sp pu (DetectCaps up lo typed (autoCapsEnabled inp) (titleCaseEnabled inp)
                         (wasFirstCharAutoCapped inp)) val) in
         \<lparr>matched = True, isPartOfMacro = part,
          bsCount = (if via then compositionWidth inp
                     else if macroCrossCommit inp then rawWidth inp
                     else if previousComposition inp \<noteq> [] then compositionWidth inp
                     else rawWidth inp),
          expansion = e,
          useClipboard = (currentCodeTable inp = Unicode \<and> length e > clipboardThreshold inp),
          shortcut = typed\<rparr>)"

section \<open>Sending the expansion\<close>

fun ExpandEscapesForClipboard :: "wstring \<Rightarrow> wstring" where
  "ExpandEscapesForClipboard (a # b # r) =
    (if a = L_backslash \<and> b = L_n then 0xD # 0xA # ExpandEscapesForClipboard r
     else a # ExpandEscapesForClipboard (b # r))"
| "ExpandEscapesForClipboard [a] = [a]"
| "ExpandEscapesForClipboard [] = []"

record Segment =
  isReturn :: bool
  segText :: wstring

definition flushSeg :: "wstring \<Rightarrow> Segment list" where
  "flushSeg cur = (if cur \<noteq> [] then [\<lparr>isReturn = False, segText = cur\<rparr>] else [])"

definition returnSeg :: Segment where "returnSeg = \<lparr>isReturn = True, segText = []\<rparr>"

text \<open>The loop of \<open>BuildSegments\<close>; \<open>cur\<close> is the text of the segment being built.\<close>

fun segmentsLoop :: "CodeTable \<Rightarrow> wstring \<Rightarrow> wstring \<Rightarrow> Segment list" where
  "segmentsLoop tab cur [] = flushSeg cur"
| "segmentsLoop tab cur (c # r) =
    (if c = L_backslash \<and> r \<noteq> [] \<and> hd r = L_n then flushSeg cur @ returnSeg # segmentsLoop tab [] (tl r)
     else segmentsLoop tab (cur @ (if tab \<noteq> Unicode then encUnits (ConvertChar c tab) else [c])) r)"

definition BuildSegments :: "wstring \<Rightarrow> CodeTable \<Rightarrow> Segment list" where
  "BuildSegments e tab = segmentsLoop tab [] e"

section \<open>Triggers\<close>

definition IsCommitTrigger :: "32 word \<Rightarrow> bool" where
  "IsCommitTrigger vkc \<longleftrightarrow>
    vkc = 0x20 \<or> vkc = 0x0D \<or> vkc = 0x1B \<or> vkc = 0x09 \<or> 0x25 \<le> vkc \<and> vkc \<le> 0x28 \<or>
    vkc = 0x24 \<or> vkc = 0x23 \<or> vkc = 0x21 \<or> vkc = 0x22 \<or> 0x30 \<le> vkc \<and> vkc \<le> 0x39 \<or> 0x60 \<le> vkc \<and> vkc \<le> 0x6F \<or>
    0xBA \<le> vkc \<and> vkc \<le> 0xC0 \<or> 0xDB \<le> vkc \<and> vkc \<le> 0xDF \<or> vkc = 0xBB \<or> vkc = 0xBC \<or> vkc = 0xBD \<or> vkc = 0xBE \<or>
    vkc = 0x2E \<or> vkc = 0x2D"

definition IsTextProducingTrigger :: "32 word \<Rightarrow> wchar \<Rightarrow> bool" where
  "IsTextProducingTrigger vkc trig \<longleftrightarrow> IsCommitTrigger vkc \<and> (vkc = 0x20 \<or> trig > 0x20)"

fun CanUndoWithBackspaces :: "wstring \<Rightarrow> bool" where
  "CanUndoWithBackspaces [] = True"
| "CanUndoWithBackspaces (ch # r) =
    (if ch < 0x20 \<or> ch > 0xFFFF \<or> 0xD800 \<le> ch \<and> ch \<le> 0xDFFF \<or> 0x300 \<le> ch \<and> ch \<le> 0x36F \<or>
        0x1AB0 \<le> ch \<and> ch \<le> 0x1AFF \<or> 0x1DC0 \<le> ch \<and> ch \<le> 0x1DFF \<or> 0x200C \<le> ch \<and> ch \<le> 0x200D \<or>
        0x20D0 \<le> ch \<and> ch \<le> 0x20FF \<or> 0xFE00 \<le> ch \<and> ch \<le> 0xFE2F \<or>
        ch = L_backslash \<and> r \<noteq> [] \<and> hd r = L_n
     then False else CanUndoWithBackspaces r)"

definition IsVerbatimCommitTrigger :: "wchar \<Rightarrow> bool" where
  "IsVerbatimCommitTrigger trig \<longleftrightarrow>
    trig > 0x20 \<and> trig \<notin> set [0x2E, 0x2C, 0x3B, 0x3A, 0x21, 0x3F, 0x29]"

definition ShouldTrigger :: "32 word \<Rightarrow> bool \<Rightarrow> bool \<Rightarrow> bool \<Rightarrow> bool \<Rightarrow> bool" where
  "ShouldTrigger vkc triggerSpace triggerEnter triggerTab triggerDir =
    (if vkc = 0x1B then False
     else if \<not> IsCommitTrigger vkc then False
     else if vkc = 0x20 then triggerSpace
     else if vkc = 0x0D then triggerEnter
     else if vkc = 0x09 then triggerTab
     else if 0x25 \<le> vkc \<and> vkc \<le> 0x28 then triggerDir
     else if vkc = 0x24 \<or> vkc = 0x23 \<or> vkc = 0x21 \<or> vkc = 0x22 then triggerDir
     else triggerSpace \<or> triggerEnter)"

section \<open>Lookup in the text before the caret\<close>

record ContextMatch =
  plan :: MacroPlan
  shortcutLen :: nat

definition LongestMacroKeyLength :: "(wstring \<times> wstring) list \<Rightarrow> nat" where
  "LongestMacroKeyLength es = fold (\<lambda>e longest. max longest (length (fst e))) es 0"

definition contextInputs :: "macroMap \<Rightarrow> bool \<Rightarrow> bool \<Rightarrow> wchar \<Rightarrow> nat \<Rightarrow> wstring \<Rightarrow> PlanInputs" where
  "contextInputs tab caps0 title0 trig threshold candidate =
    \<lparr>rawMacroBuffer = candidate, previousComposition = [], previousEncodedWidths = [], macroTable = tab,
     macroCrossCommit = True, currentCodeTable = Unicode, autoCapsEnabled = caps0, titleCaseEnabled = title0,
     wasFirstCharAutoCapped = False, triggerChar = trig, clipboardThreshold = threshold\<rparr>"

text \<open>The loop \<open>for (len = scan; len > 0; --len)\<close>; \<open>planOf\<close> is the plan for a candidate.\<close>

fun contextLoop :: "(wchar \<Rightarrow> bool) \<Rightarrow> (wchar \<Rightarrow> bool) \<Rightarrow> (wstring \<Rightarrow> MacroPlan) \<Rightarrow> wchar \<Rightarrow> wstring \<Rightarrow> nat \<Rightarrow> ContextMatch option" where
  "contextLoop sp pu planOf trig text0 0 = None"
| "contextLoop sp pu planOf trig text0 (Suc n) =
    (let len = Suc n; start = length text0 - len in
     if start > 0 \<and> \<not> sp (text0 ! (start - 1)) \<and> \<not> pu (text0 ! (start - 1)) then contextLoop sp pu planOf trig text0 n
     else let p = planOf (drop start text0 @ (if trig > 0x20 then [trig] else [])) in
       if \<not> matched p then contextLoop sp pu planOf trig text0 n
       else Some \<lparr>plan = p\<lparr>bsCount := len\<rparr>, shortcutLen = len\<rparr>)"

text \<open>The table is given by its list of entries, of distinct keys.\<close>

definition MatchInPrecedingText ::
  "bufMap \<Rightarrow> bufMap \<Rightarrow> (wchar \<Rightarrow> bool) \<Rightarrow> (wchar \<Rightarrow> bool) \<Rightarrow> wstring \<Rightarrow> wchar \<Rightarrow> (wstring \<times> wstring) list \<Rightarrow> nat \<Rightarrow> bool \<Rightarrow> nat \<Rightarrow> bool \<Rightarrow> ContextMatch option" where
  "MatchInPrecedingText up lo sp pu precedingText trig entries maxShortcutLen caps0 threshold title0 =
    (let triggerLen = (if trig > 0x20 then 1 else 0) in
     if precedingText = [] \<or> entries = [] then None
     else if maxShortcutLen \<le> triggerLen then None
     else contextLoop sp pu
       (\<lambda>c. Plan up lo sp pu (contextInputs (map_of entries) caps0 title0 trig threshold c))
       trig precedingText (min (length precedingText) (maxShortcutLen - triggerLen)))"

end
