(* ===== verification/MacroProps.thy ===== *)
theory MacroProps
  imports Macro
begin

text \<open>
  Properties of macro expansion: which candidate wins and what the expansion may change, the
  agreement of the two ways to send an expansion, and the reach of the lookup before the caret.
\<close>

section \<open>Capitals\<close>

definition raisedFrom :: "bufMap \<Rightarrow> wstring \<Rightarrow> wstring \<Rightarrow> bool" where
  "raisedFrom up v e \<longleftrightarrow> list_all2 (\<lambda>a b. b = a \<or> b = charOf up a) v e"

lemma raisedFrom_refl [simp]: "raisedFrom up v v"
  by (simp add: raisedFrom_def list_all2_refl)

lemma raisedFrom_Cons [simp]:
  "raisedFrom up (a # v) (b # e) \<longleftrightarrow> (b = a \<or> b = charOf up a) \<and> raisedFrom up v e"
  by (simp add: raisedFrom_def)

lemma raisedFrom_loop: "raisedFrom up v (applyCapsLoop up lo sp pu style ws v)"
proof (induction up lo sp pu style ws v rule: applyCapsLoop.induct)
  case (2 up lo sp pu style wordStart c r)
  show ?case
  proof (cases "c = L_backslash \<and> r \<noteq> [] \<and> hd r = L_n")
    case True
    then obtain t where "r = L_n # t" by (cases r) auto
    then show ?thesis using 2(1)[OF True] True by simp
  next
    case False
    then show ?thesis using 2(2-5)[OF False] by (auto simp: Let_def)
  qed
qed simp

lemma raisedFrom_ApplyCaps: "raisedFrom up v (ApplyCaps up lo sp pu style v)"
  by (simp add: ApplyCaps_def raisedFrom_loop)

section \<open>Candidates\<close>

text \<open>The texts the macro table is asked for, in order of priority.\<close>

definition candidates :: "PlanInputs \<Rightarrow> wstring list" where
  "candidates inp =
    (let raw = rawMacroBuffer inp; pc = previousComposition inp; printable = triggerChar inp > 0x20 in
     [raw] @ (if printable \<and> length raw > 1 \<and> last raw = triggerChar inp then [butlast raw] else []) @
     (if pc \<noteq> [] then (if printable then [pc @ [triggerChar inp]] else []) @ [pc] else []))"

lemma findEntry_candidates:
  "(case find (\<lambda>c. macroLookup lo (macroTable inp) c \<noteq> None) (candidates inp) of
      None \<Rightarrow> fst (findEntry lo inp) = None \<and> \<not> fst (snd (findEntry lo inp))
    | Some c \<Rightarrow> fst (findEntry lo inp) = macroLookup lo (macroTable inp) c \<and> fst (snd (snd (findEntry lo inp))) = c)"
proof -
  define L where "L = macroLookup lo (macroTable inp)"
  note defs = findEntry_def findRaw_def candidates_def Let_def L_def[symmetric]
  show ?thesis unfolding L_def[symmetric]
    by (cases "L (rawMacroBuffer inp)"; cases "triggerChar inp > 0x20"; cases "previousComposition inp = []";
        cases "length (rawMacroBuffer inp) > 1 \<and> last (rawMacroBuffer inp) = triggerChar inp";
        cases "L (butlast (rawMacroBuffer inp))"; cases "L (previousComposition inp @ [triggerChar inp])";
        cases "L (previousComposition inp)"; auto simp: defs)
qed

lemma macroLookup_key:
  "macroLookup lo tab c = Some (k, v) \<Longrightarrow> tab k = Some v \<and> (k = c \<or> k = LowerCopy lo c)"
  by (auto simp: macroLookup_def split: option.splits)

section \<open>Sending\<close>

definition sent :: "Segment list \<Rightarrow> wstring" where
  "sent ss = concat (map (\<lambda>s. if isReturn s then [0xD, 0xA] else segText s) ss)"

lemma sent_simps [simp]:
  "sent [] = []" "sent (a @ b) = sent a @ sent b" "sent (returnSeg # ss) = 0xD # 0xA # sent ss" "sent (flushSeg cur) = cur"
  by (simp_all add: sent_def returnSeg_def flushSeg_def)

lemma ExpandEscapes_Cons:
  "ExpandEscapesForClipboard (c # r) =
    (if c = L_backslash \<and> r \<noteq> [] \<and> hd r = L_n then 0xD # 0xA # ExpandEscapesForClipboard (tl r)
     else c # ExpandEscapesForClipboard r)"
  by (cases r) auto

lemma sent_segmentsLoop: "sent (segmentsLoop Unicode cur e) = cur @ ExpandEscapesForClipboard e"
proof (induction "Unicode" cur e rule: segmentsLoop.induct)
  case (2 cur c r)
  then show ?case by (cases "c = L_backslash \<and> r \<noteq> [] \<and> hd r = L_n") (auto simp: ExpandEscapes_Cons)
qed simp

definition encodeSeg :: "CodeTable \<Rightarrow> Segment \<Rightarrow> Segment" where
  "encodeSeg tab s = s\<lparr>segText := EncodeString (segText s) tab\<rparr>"

lemma EncodeString_append [simp]: "EncodeString (a @ b) tab = EncodeString a tab @ EncodeString b tab"
  by (simp add: EncodeString_def)

lemma EncodeString_Nil_iff [simp]: "EncodeString a tab = [] \<longleftrightarrow> a = []"
  by (cases a) (auto simp: EncodeString_def encUnits_def)

lemma EncodeString_Nil [simp]: "EncodeString [] tab = []"
  by simp

lemma EncodeString_single: "EncodeString [c] tab = (if tab \<noteq> Unicode then encUnits (ConvertChar c tab) else [c])"
  by (simp add: EncodeString_def)

lemma encodeSeg_flush [simp]: "map (encodeSeg tab) (flushSeg cur) = flushSeg (EncodeString cur tab)"
  by (simp add: flushSeg_def encodeSeg_def)

lemma encodeSeg_return [simp]: "encodeSeg tab returnSeg = returnSeg"
  by (simp add: encodeSeg_def returnSeg_def EncodeString_def)

lemma segmentsLoop_encode:
  "segmentsLoop tab (EncodeString cur tab) e = map (encodeSeg tab) (segmentsLoop Unicode cur e)"
proof (induction "Unicode" cur e rule: segmentsLoop.induct)
  case (2 cur c r)
  show ?case
  proof (cases "c = L_backslash \<and> r \<noteq> [] \<and> hd r = L_n")
    case True
    then show ?thesis using 2(1)[OF True] by simp
  next
    case False
    then show ?thesis using 2(2)[OF False] by (auto simp: EncodeString_single[symmetric] simp del: if_split)
  qed
qed simp

section \<open>Before the caret\<close>

lemma contextLoop_None:
  "contextLoop sp pu planOf trig t n = None \<Longrightarrow> 0 < k \<Longrightarrow> k \<le> n \<Longrightarrow>
    length t = k \<or> sp (t ! (length t - k - 1)) \<or> pu (t ! (length t - k - 1)) \<Longrightarrow> k \<le> length t \<Longrightarrow>
    \<not> matched (planOf (drop (length t - k) t @ (if trig > 0x20 then [trig] else [])))"
proof (induction n)
  case (Suc n)
  show ?case
  proof (cases "k = Suc n")
    case True
    then show ?thesis using Suc.prems by (auto simp: Let_def split: if_splits)
  next
    case False
    then show ?thesis using Suc by (auto simp: Let_def split: if_splits)
  qed
qed simp

lemma contextLoop_len:
  "contextLoop sp pu planOf trig t n = Some m \<Longrightarrow> shortcutLen m \<le> n"
  by (induction n) (auto simp: Let_def split: if_splits)





lemma segmentsLoop_shape: "list_all (\<lambda>s. isReturn s \<longleftrightarrow> segText s = []) (segmentsLoop tab cur e)"
proof (induction tab cur e rule: segmentsLoop.induct)
  case (2 tab cur c r)
  then show ?case
    by (cases "c = L_backslash \<and> r \<noteq> [] \<and> hd r = L_n") (auto simp: flushSeg_def returnSeg_def)
qed (simp add: flushSeg_def)

section \<open>Properties\<close>

text \<open>C29. A macro expands exactly when one of the candidate texts (the raw buffer, the raw buffer without
  the trigger, the composed word with and without the trigger) is a key of the table as typed or in
  lower case.  The first such candidate wins and is reported as the replaced shortcut; the expansion
  is the stored text up to capitals put on some of its letters, and the stored text itself when the
  key is written with capitals.\<close>

theorem macro_plan_first:
  "(let p = Plan up lo sp pu inp in
    case find (\<lambda>c. macroLookup lo (macroTable inp) c \<noteq> None) (candidates inp) of
      None \<Rightarrow> p = emptyPlan
    | Some c \<Rightarrow> matched p \<and> shortcut p = c \<and>
        (case macroLookup lo (macroTable inp) c of
           None \<Rightarrow> False
         | Some (k, v) \<Rightarrow> (if HasUpper lo k then expansion p = v else raisedFrom up v (expansion p))))"
proof -
  obtain it part typed via where f: "findEntry lo inp = (it, part, typed, via)" by (metis prod_cases4)
  note c = findEntry_candidates[of lo inp, unfolded f fst_conv snd_conv]
  show ?thesis
  proof (cases "find (\<lambda>c. macroLookup lo (macroTable inp) c \<noteq> None) (candidates inp)")
    case None
    then show ?thesis using c by (simp add: Plan_def f emptyPlan_def)
  next
    case (Some x)
    then have "macroLookup lo (macroTable inp) x \<noteq> None" by (auto simp: find_Some_iff)
    then obtain k v where kv: "macroLookup lo (macroTable inp) x = Some (k, v)" by auto
    then have "it = Some (k, v)" "typed = x" using c Some by simp_all
    then show ?thesis using Some kv by (simp add: Plan_def f Let_def raisedFrom_ApplyCaps)
  qed
qed

text \<open>Pasting an expansion and typing it as segments give the same text, a return for every newline
  token; for another code table the segments are the same with their text encoded, and no segment
  is empty.\<close>

theorem segments_faithful:
  "sent (BuildSegments e Unicode) = ExpandEscapesForClipboard e \<and>
   BuildSegments e tab = map (encodeSeg tab) (BuildSegments e Unicode) \<and>
   list_all (\<lambda>s. isReturn s \<longleftrightarrow> segText s = []) (BuildSegments e tab)"
  using sent_segmentsLoop[of "[]" e] segmentsLoop_encode[of tab "[]" e] segmentsLoop_shape[of tab "[]" e]
  by (simp add: BuildSegments_def)



text \<open>A printable trigger costs the scan one character even when the key does not end in it: the only
  macro \<open>nma\<close>, typed before a full stop, expands from the typed buffer but is not found before the
  caret.\<close>

theorem context_longest_missed:
  "MatchInPrecedingText ToUpper ToLower sp pu [L_n, L_m, L_a] 0x2E [([L_n, L_m, L_a], v)]
      (LongestMacroKeyLength [([L_n, L_m, L_a], v)]) False 200 False = None \<and>
   matched (Plan ToUpper ToLower sp pu (contextInputs (map_of [([L_n, L_m, L_a], v)]) False False 0x2E 200 [L_n, L_m, L_a, 0x2E]))"
  by (simp add: MatchInPrecedingText_def LongestMacroKeyLength_def Plan_def findEntry_def findRaw_def contextInputs_def
    macroLookup_def LowerCopy_def ToLower_def ToLowerVietnamese_def towlower_def emptyPlan_def Let_def numeral_2_eq_2)

end
