(* ===== verification/MacroPrefix.thy ===== *)
theory MacroPrefix
  imports Prelude "HOL-Library.List_Lexorder" "HOL-Library.Sublist"
begin

text \<open>
  The phrase-prefix matcher of \<open>core/MacroPrefix.h\<close>: the plain scan over a set of keys, and the sorted
  index that replaces it.  The classification \<open>isup\<close> and the case map \<open>low\<close> of the current locale
  (\<open>iswupper\<close>, \<open>towlower\<close>) are arguments, because the index outlives a change of the locale; what the
  code relies on is that they treat ASCII as every locale does (\<open>asciiLocale\<close>).  A set of keys is the
  list of its elements in the order the program enumerates them.

  \<open>std::sort\<close>, \<open>std::lower_bound\<close> and \<open>std::binary_search\<close> are modelled by their contracts: sorting, the
  first element that is not below, membership in a sorted range.
\<close>

definition asciiLocale :: "(wchar \<Rightarrow> bool) \<Rightarrow> (wchar \<Rightarrow> wchar) \<Rightarrow> bool" where
  "asciiLocale isup low \<longleftrightarrow>
    (\<forall>c. c \<le> 127 \<longrightarrow> isup c = (0x41 \<le> c \<and> c \<le> 0x5A)) \<and>
    (\<forall>c. c \<le> 127 \<longrightarrow> \<not> (0x41 \<le> c \<and> c \<le> 0x5A) \<longrightarrow> low c = c)"

section \<open>The plain scan\<close>

text \<open>\<open>key.compare(0, n, s) == 0\<close>\<close>

definition compareAt0 :: "wstring \<Rightarrow> wstring \<Rightarrow> bool" where
  "compareAt0 key s \<longleftrightarrow> take (length s) key = s"

definition IsSpaceMacroPrefix :: "(wchar \<Rightarrow> bool) \<Rightarrow> (wchar \<Rightarrow> wchar) \<Rightarrow> wstring \<Rightarrow> wstring list \<Rightarrow> bool" where
  "IsSpaceMacroPrefix isup low candidate spaceKeys =
    (spaceKeys \<noteq> [] \<and> candidate \<noteq> [] \<and>
     list_ex (\<lambda>key. \<not> length key < length candidate \<and>
       (if list_ex isup key then compareAt0 key candidate else compareAt0 key (map low candidate))) spaceKeys)"

section \<open>The index\<close>

datatype KeyCase = Flexible | Strict | LocaleDependent

fun keyRule :: "KeyCase \<Rightarrow> wstring \<Rightarrow> KeyCase" where
  "keyRule rule [] = rule"
| "keyRule rule (ch # r) =
    (if 0x41 \<le> ch \<and> ch \<le> 0x5A then Strict else keyRule (if ch > 127 then LocaleDependent else rule) r)"

record MacroPrefixIndex =
  keyCount :: nat
  sortedKeys :: "(wstring \<times> KeyCase) list"
  foldStarts :: "wchar list"
  maxLength :: nat
  commonLength :: nat
  firstKey :: wstring
  firstCase :: KeyCase

fun commonPrefixLength :: "wstring \<Rightarrow> wstring \<Rightarrow> nat" where
  "commonPrefixLength (a # x) (b # y) = (if a = b then Suc (commonPrefixLength x y) else 0)"
| "commonPrefixLength _ _ = 0"

text \<open>The loop that collects the first letters of the keys that are not strict.\<close>

definition addStart :: "wstring \<times> KeyCase \<Rightarrow> wchar list \<Rightarrow> wchar list" where
  "addStart p starts =
    (let (key, rule) = p in
     if rule = Strict \<or> key = [] then starts
     else if starts = [] \<or> last starts \<noteq> hd key then starts @ [hd key] else starts)"

definition buildIndex :: "wstring list \<Rightarrow> MacroPrefixIndex option" where
  "buildIndex ks =
    (if ks = [] then None
     else let rules = map (\<lambda>k. (k, keyRule Flexible k)) ks; srt = sort_key fst rules in
       Some \<lparr>keyCount = length ks, sortedKeys = srt, foldStarts = fold addStart srt [],
             maxLength = fold (\<lambda>k m. max m (length k)) ks 0,
             commonLength = commonPrefixLength (fst (hd srt)) (fst (last srt)),
             firstKey = hd ks, firstCase = keyRule Flexible (hd ks)\<rparr>)"

definition keyHasUpper :: "(wchar \<Rightarrow> bool) \<Rightarrow> wstring \<Rightarrow> KeyCase \<Rightarrow> bool" where
  "keyHasUpper isup key rule =
    (if rule \<noteq> LocaleDependent then rule = Strict else list_ex (\<lambda>ch. ch > 127 \<and> isup ch) key)"

definition Fold :: "(wchar \<Rightarrow> wchar) \<Rightarrow> wchar \<Rightarrow> wchar" where
  "Fold low ch = (if 0x41 \<le> ch \<and> ch \<le> 0x5A \<or> ch > 127 then low ch else ch)"

definition compareStr :: "wstring \<Rightarrow> wstring \<Rightarrow> int" where
  "compareStr a b = (if a < b then -1 else if a = b then 0 else 1)"

fun compareFolded :: "(wchar \<Rightarrow> wchar) \<Rightarrow> wstring \<Rightarrow> wstring \<Rightarrow> int" where
  "compareFolded low key [] = 0"
| "compareFolded low [] (c # cs) = -1"
| "compareFolded low (k # ks) (c # cs) =
    (if k < Fold low c then -1 else if k > Fold low c then 1 else compareFolded low ks cs)"

definition ComparePrefix :: "(wchar \<Rightarrow> wchar) \<Rightarrow> wstring \<Rightarrow> wstring \<Rightarrow> bool \<Rightarrow> int" where
  "ComparePrefix low key candidate folded =
    (if \<not> folded then compareStr (take (length candidate) key) candidate else compareFolded low key candidate)"

text \<open>The lambda \<open>find\<close>; an iterator into the sorted keys is the rest of the list it begins.\<close>

definition findKeys :: "(wchar \<Rightarrow> wchar) \<Rightarrow> MacroPrefixIndex \<Rightarrow> wstring \<Rightarrow> bool \<Rightarrow> (wstring \<times> KeyCase) list" where
  "findKeys low ix query folded =
    (let n = min (commonLength ix) (length query) in
     if n \<noteq> 0 \<and> ComparePrefix low (take n (fst (hd (sortedKeys ix)))) (take n query) folded \<noteq> 0 then []
     else dropWhile (\<lambda>p. ComparePrefix low (fst p) query folded < 0) (sortedKeys ix))"

text \<open>The two loops; the first returns whether it found a strict key, and \<open>rawFlexible\<close>.\<close>

fun rawScan :: "(wchar \<Rightarrow> bool) \<Rightarrow> (wchar \<Rightarrow> wchar) \<Rightarrow> wstring \<Rightarrow> bool \<Rightarrow> (wstring \<times> KeyCase) list \<Rightarrow> bool \<times> bool" where
  "rawScan isup low candidate rawFlexible [] = (False, rawFlexible)"
| "rawScan isup low candidate rawFlexible ((key, rule) # r) =
    (if ComparePrefix low key candidate False \<noteq> 0 then (False, rawFlexible)
     else if keyHasUpper isup key rule then (True, rawFlexible)
     else rawScan isup low candidate True r)"

fun foldScan :: "(wchar \<Rightarrow> bool) \<Rightarrow> (wchar \<Rightarrow> wchar) \<Rightarrow> wstring \<Rightarrow> bool \<Rightarrow> (wstring \<times> KeyCase) list \<Rightarrow> bool" where
  "foldScan isup low query folded [] = False"
| "foldScan isup low query folded ((key, rule) # r) =
    (if ComparePrefix low key query folded \<noteq> 0 then False
     else if \<not> keyHasUpper isup key rule then True
     else foldScan isup low query folded r)"

abbreviation kInlineFoldChars :: nat where "kInlineFoldChars \<equiv> 32"

definition ContainsOtherPrefixes :: "(wchar \<Rightarrow> bool) \<Rightarrow> (wchar \<Rightarrow> wchar) \<Rightarrow> MacroPrefixIndex \<Rightarrow> wstring \<Rightarrow> bool" where
  "ContainsOtherPrefixes isup low ix candidate =
    (let (found, rawFlexible) = rawScan isup low candidate False (findKeys low ix candidate False) in
     if found then True
     else if foldStarts ix = [] then False
     else if Fold low (hd candidate) \<notin> set (foldStarts ix) then False
     else let normalized = length candidate \<le> kInlineFoldChars;
              folded = (if normalized then map (Fold low) candidate else candidate) in
       if normalized \<and> rawFlexible \<and> folded = candidate then True
       else foldScan isup low folded (\<not> normalized) (findKeys low ix folded (\<not> normalized)))"

definition ContainsPrefix :: "(wchar \<Rightarrow> bool) \<Rightarrow> (wchar \<Rightarrow> wchar) \<Rightarrow> MacroPrefixIndex option \<Rightarrow> wstring \<Rightarrow> bool" where
  "ContainsPrefix isup low index candidate =
    (case index of
       None \<Rightarrow> False
     | Some ix \<Rightarrow>
         if candidate = [] then False
         else if length (firstKey ix) \<ge> length candidate \<and>
           ComparePrefix low (firstKey ix) candidate (\<not> keyHasUpper isup (firstKey ix) (firstCase ix)) = 0 then True
         else if keyCount ix = 1 \<or> length candidate > maxLength ix then False
         else ContainsOtherPrefixes isup low ix candidate)"

section \<open>Case rules\<close>

lemma keyRule_eq:
  "rule \<noteq> Strict \<Longrightarrow> keyRule rule key =
    (if \<exists>c\<in>set key. 0x41 \<le> c \<and> c \<le> 0x5A then Strict else if \<exists>c\<in>set key. c > 127 then LocaleDependent else rule)"
  by (induction rule key rule: keyRule.induct) auto

lemma keyHasUpper_eq:
  assumes "asciiLocale isup low"
  shows "keyHasUpper isup key (keyRule Flexible key) = list_ex isup key"
proof -
  have small: "c \<le> 127 \<Longrightarrow> isup c = (0x41 \<le> c \<and> c \<le> 0x5A)" for c using assms by (simp add: asciiLocale_def)
  show ?thesis
  proof (cases "\<exists>c\<in>set key. 0x41 \<le> c \<and> c \<le> 0x5A")
    case True
    then obtain c where "c \<in> set key" "0x41 \<le> c" "c \<le> 0x5A" by blast
    then have "list_ex isup key" using small[of c] by (auto simp: list_ex_iff)
    then show ?thesis using True by (simp add: keyHasUpper_def keyRule_eq)
  next
    case False
    then have "isup c \<longleftrightarrow> c > 127 \<and> isup c" if "c \<in> set key" for c
      using small[of c] that by (cases "c \<le> 127") auto
    then have "list_ex isup key \<longleftrightarrow> list_ex (\<lambda>c. c > 127 \<and> isup c) key" by (auto simp: list_ex_iff)
    then show ?thesis using False by (auto simp: keyHasUpper_def keyRule_eq list_ex_iff)
  qed
qed

lemma Fold_eq: "asciiLocale isup low \<Longrightarrow> Fold low = low"
  by (rule ext) (auto simp: Fold_def asciiLocale_def not_le)

section \<open>Comparison of prefixes\<close>

lemma compareStr_0 [simp]: "compareStr a b = 0 \<longleftrightarrow> a = b"
  by (auto simp: compareStr_def)

lemma compareStr_neg [simp]: "compareStr a b < 0 \<longleftrightarrow> a < b"
  by (simp add: compareStr_def)

lemma compareFolded_eq: "compareFolded low key q = compareStr (take (length q) key) (map (Fold low) q)"
  by (induction low key q rule: compareFolded.induct) (auto simp: compareStr_def)

lemma ComparePrefix_eq:
  "ComparePrefix low key q folded = compareStr (take (length q) key) (if folded then map (Fold low) q else q)"
  by (simp add: ComparePrefix_def compareFolded_eq)

lemma take_mono: "a \<le> b \<Longrightarrow> take n a \<le> take n (b :: wstring)"
proof (induction n arbitrary: a b)
  case (Suc n)
  then show ?case by (cases a; cases b) auto
qed simp

section \<open>Sorted ranges\<close>

lemma sorted_range:
  fixes f :: "'a \<Rightarrow> 'b :: linorder"
  assumes "sorted (map f xs)"
  shows "takeWhile (\<lambda>x. f x = q) (dropWhile (\<lambda>x. f x < q) xs) = filter (\<lambda>x. f x = q) xs"
  using assms
proof (induction xs)
  case (Cons x xs)
  show ?case
  proof (cases "f x < q")
    case False
    have "takeWhile (\<lambda>x. f x = q) xs = filter (\<lambda>x. f x = q) xs" if "f x = q"
    proof -
      have "dropWhile (\<lambda>x. f x < q) xs = xs" using Cons.prems that by (cases xs) auto
      then show ?thesis using Cons by simp
    qed
    moreover have "filter (\<lambda>x. f x = q) xs = []" if "f x > q"
      using Cons.prems that by (auto simp: filter_empty_conv)
    ultimately show ?thesis using False by (cases "f x = q") auto
  qed (use Cons in auto)
qed simp

lemma commonPrefixLength_take: "take (commonPrefixLength a b) a = take (commonPrefixLength a b) b"
  by (induction a b rule: commonPrefixLength.induct) auto

lemma common_all:
  fixes xs :: "wstring list"
  assumes "sorted xs" "x \<in> set xs" "n \<le> commonPrefixLength (hd xs) (last xs)"
  shows "take n x = take n (hd xs)"
proof -
  have "xs \<noteq> []" using assms(2) by auto
  have le: "hd xs \<le> x" using assms(1,2) by (cases xs) auto
  have ge: "x \<le> last xs"
    using assms(1,2) \<open>xs \<noteq> []\<close> sorted_nth_mono[of xs] by (metis in_set_conv_nth last_conv_nth diff_less length_greater_0_conv zero_less_one le_less_linear less_Suc_eq_le Suc_pred')
  have "take n (hd xs) = take n (last xs)"
    using commonPrefixLength_take[of "hd xs" "last xs"] assms(3) by (metis min.absorb1 take_take)
  then show ?thesis using take_mono[OF le, of n] take_mono[OF ge, of n] by simp
qed

section \<open>The index\<close>

definition sortedRules :: "wstring list \<Rightarrow> (wstring \<times> KeyCase) list" where
  "sortedRules ks = sort_key fst (map (\<lambda>k. (k, keyRule Flexible k)) ks)"

lemma set_sortedRules: "set (sortedRules ks) = (\<lambda>k. (k, keyRule Flexible k)) ` set ks"
  by (simp add: sortedRules_def)

lemma sorted_sortedRules: "sorted (map fst (sortedRules ks))"
  by (simp add: sortedRules_def)

lemma find_range:
  assumes ix: "sortedKeys ix = sortedRules ks" "commonLength ix = commonPrefixLength (fst (hd (sortedRules ks))) (fst (last (sortedRules ks)))"
    and q: "q = (if folded then map (Fold low) query else query)"
  shows "takeWhile (\<lambda>p. ComparePrefix low (fst p) query folded = 0) (findKeys low ix query folded) =
    filter (\<lambda>p. take (length q) (fst p) = q) (sortedRules ks)"
proof (cases "ks = []")
  case True
  then show ?thesis by (simp add: findKeys_def ix sortedRules_def Let_def)
next
  case False
  let ?S = "sortedRules ks" and ?n = "min (commonLength ix) (length query)"
  have ne: "?S \<noteq> []" using False set_sortedRules[of ks] by auto
  have lq: "length q = length query" using q by simp
  have qn: "(if folded then map (Fold low) (take ?n query) else take ?n query) = take ?n q" by (simp add: q take_map)
  show ?thesis
  proof (cases "take ?n (fst (hd ?S)) = take ?n q")
    case True
    have "sorted_wrt (\<lambda>x y. fst x \<le> fst y) ?S" using sorted_sortedRules[of ks] by (simp only: sorted_map)
    then have "sorted (map (\<lambda>p. take (length q) (fst p)) ?S)"
      unfolding sorted_map by (rule sorted_wrt_mono_rel[rotated]) (rule take_mono)
    note r = sorted_range[OF this, of q]
    have "findKeys low ix query folded = dropWhile (\<lambda>p. take (length q) (fst p) < q) ?S"
      using True qn lq by (auto simp: findKeys_def Let_def ix(1) ComparePrefix_eq q)
    then show ?thesis using r lq by (simp add: ComparePrefix_eq q)
  next
    case False
    then have "findKeys low ix query folded = []"
      using qn by (auto simp: findKeys_def Let_def ix(1) ComparePrefix_eq)
    moreover have "take (length q) (fst p) \<noteq> q" if p: "p \<in> set ?S" for p
    proof
      assume eq: "take (length q) (fst p) = q"
      have "take ?n (fst p) = take ?n (hd (map fst ?S))"
        using p ix(2) ne by (intro common_all[OF sorted_sortedRules]) (auto simp: hd_map last_map)
      moreover have "take ?n (fst p) = take ?n q" using eq lq by (metis min.absorb1 min.cobounded2 take_take)
      ultimately show False using False ne by (simp add: hd_map)
    qed
    ultimately show ?thesis by (simp add: filter_empty_conv[THEN iffD2])
  qed
qed

lemma rawScan_found:
  "fst (rawScan isup low q rf L) =
    list_ex (\<lambda>p. keyHasUpper isup (fst p) (snd p)) (takeWhile (\<lambda>p. ComparePrefix low (fst p) q False = 0) L)"
  by (induction isup low q rf L rule: rawScan.induct) simp_all

lemma rawScan_flexible:
  "\<not> fst (rawScan isup low q rf L) \<Longrightarrow>
    snd (rawScan isup low q rf L) = (rf \<or> takeWhile (\<lambda>p. ComparePrefix low (fst p) q False = 0) L \<noteq> [])"
  by (induction isup low q rf L rule: rawScan.induct) (auto split: if_splits)

lemma foldScan_range:
  "foldScan isup low q folded L =
    list_ex (\<lambda>p. \<not> keyHasUpper isup (fst p) (snd p)) (takeWhile (\<lambda>p. ComparePrefix low (fst p) q folded = 0) L)"
  by (induction isup low q folded L rule: foldScan.induct) auto

lemma set_addStart: "set (fold addStart L starts) = set starts \<union> {hd k | k r. (k, r) \<in> set L \<and> r \<noteq> Strict \<and> k \<noteq> []}"
proof (induction L arbitrary: starts)
  case (Cons p L)
  obtain k r where p: "p = (k, r)" by force
  have "set (addStart p starts) = set starts \<union> (if r \<noteq> Strict \<and> k \<noteq> [] then {hd k} else {})"
  proof -
    have "hd k \<in> set starts" if "starts \<noteq> []" "last starts = hd k" using that last_in_set by metis
    then show ?thesis by (auto simp: addStart_def p)
  qed
  then show ?case by (auto simp: Cons.IH p)
qed simp

lemma maxLength_ge: "k \<in> set (ks :: wstring list) \<Longrightarrow> length k \<le> fold (\<lambda>k m. max m (length k)) ks n"
proof (induction ks arbitrary: n)
  case (Cons a ks)
  have ge: "n \<le> fold (\<lambda>k m. max m (length k)) ks n" for n :: nat and ks :: "wstring list"
    by (induction ks arbitrary: n) (auto intro: order_trans[OF max.cobounded1])
  show ?case using Cons order_trans[OF max.cobounded2 ge[of "max n (length a)" ks]] by auto
qed simp

definition prefixHit :: "(wchar \<Rightarrow> bool) \<Rightarrow> (wchar \<Rightarrow> wchar) \<Rightarrow> wstring \<Rightarrow> wstring \<Rightarrow> bool" where
  "prefixHit isup low c k \<longleftrightarrow> take (length c) k = (if list_ex isup k then c else map low c)"

lemma prefixHit_length: "prefixHit isup low c k \<Longrightarrow> length c \<le> length k"
proof -
  assume "prefixHit isup low c k"
  then have "length (take (length c) k) = length c"
    by (cases "list_ex isup k") (simp_all only: prefixHit_def if_True if_False length_map)
  then show ?thesis by (simp add: min_def split: if_splits)
qed

lemma IsSpaceMacroPrefix_hit:
  "IsSpaceMacroPrefix isup low c ks \<longleftrightarrow> c \<noteq> [] \<and> (\<exists>k\<in>set ks. prefixHit isup low c k)"
proof -
  have "\<not> length k < length c \<and> (if list_ex isup k then compareAt0 k c else compareAt0 k (map low c)) \<longleftrightarrow> prefixHit isup low c k" for k
    using prefixHit_length[of isup low c k] by (auto simp: prefixHit_def compareAt0_def)
  then show ?thesis by (auto simp: IsSpaceMacroPrefix_def list_ex_iff)
qed

lemma ContainsOther_hit:
  assumes loc: "asciiLocale isup low" and c: "c \<noteq> []"
    and ix: "sortedKeys ix = sortedRules ks" "foldStarts ix = fold addStart (sortedRules ks) []"
      "commonLength ix = commonPrefixLength (fst (hd (sortedRules ks))) (fst (last (sortedRules ks)))"
  shows "ContainsOtherPrefixes isup low ix c \<longleftrightarrow> (\<exists>k\<in>set ks. prefixHit isup low c k)"
proof -
  let ?up = "list_ex isup" and ?lc = "map low c"
  have F: "Fold low = low" by (rule Fold_eq[OF loc])
  have rules: "p \<in> set (sortedRules ks) \<longleftrightarrow> (\<exists>k\<in>set ks. p = (k, keyRule Flexible k))" for p
    by (auto simp: set_sortedRules)
  note up = keyHasUpper_eq[OF loc]
  obtain found rf where scan: "rawScan isup low c False (findKeys low ix c False) = (found, rf)" by force
  note raw = find_range[OF ix(1,3), of c False low c, simplified]
  have found: "found \<longleftrightarrow> (\<exists>k\<in>set ks. ?up k \<and> take (length c) k = c)"
    using rawScan_found[of isup low c False "findKeys low ix c False"]
    by (auto simp: scan raw list_ex_iff set_sortedRules up)
  have rf: "rf \<longleftrightarrow> (\<exists>k\<in>set ks. take (length c) k = c)" if "\<not> found"
    using rawScan_flexible[of isup low c False "findKeys low ix c False"] that
    by (auto simp: scan raw filter_empty_conv set_sortedRules)
  have starts: "Fold low (hd c) \<in> set (foldStarts ix)" if "k \<in> set ks" "\<not> ?up k" "take (length c) k = ?lc" for k
  proof -
    have "k \<noteq> []" "hd k = low (hd c)" using that(3) c by (cases k; cases c; auto)+
    moreover have "keyRule Flexible k \<noteq> Strict" using up[of k] that(2) by (auto simp: keyHasUpper_def)
    moreover have "(k, keyRule Flexible k) \<in> set (sortedRules ks)" using that(1) by (auto simp: rules)
    ultimately have "hd k \<in> set (foldStarts ix)" unfolding ix(2) set_addStart by blast
    then show ?thesis using \<open>hd k = low (hd c)\<close> by (simp add: F)
  qed
  have fold: "foldScan isup low q folded (findKeys low ix q folded) \<longleftrightarrow> (\<exists>k\<in>set ks. \<not> ?up k \<and> take (length c) k = ?lc)"
    if "(if folded then map (Fold low) q else q) = ?lc" for q folded
    unfolding foldScan_range find_range[OF ix(1,3) that[symmetric]] by (auto simp: list_ex_iff set_sortedRules up)
  have hit: "(\<exists>k\<in>set ks. prefixHit isup low c k) \<longleftrightarrow>
      found \<or> (\<exists>k\<in>set ks. \<not> ?up k \<and> take (length c) k = ?lc)"
    unfolding found prefixHit_def by auto
  show ?thesis
  proof (cases found)
    case True
    then show ?thesis using hit scan by (simp add: ContainsOtherPrefixes_def)
  next
    case nf: False
    show ?thesis
    proof (cases "Fold low (hd c) \<in> set (foldStarts ix)")
      case False
      then show ?thesis using hit nf scan starts by (auto simp: ContainsOtherPrefixes_def)
    next
      case True
      have early: "\<exists>k\<in>set ks. \<not> ?up k \<and> take (length c) k = ?lc" if "rf" "?lc = c"
        using rf[OF nf] that found nf by auto
      show ?thesis
        using hit nf True early fold[of False ?lc] fold[of True c]
        by (cases "length c \<le> kInlineFoldChars")
          (auto simp: ContainsOtherPrefixes_def scan F Let_def)
    qed
  qed
qed

lemma buildIndex_Some:
  "ks \<noteq> [] \<Longrightarrow> \<exists>ix. buildIndex ks = Some ix \<and> sortedKeys ix = sortedRules ks \<and>
    foldStarts ix = fold addStart (sortedRules ks) [] \<and>
    commonLength ix = commonPrefixLength (fst (hd (sortedRules ks))) (fst (last (sortedRules ks))) \<and>
    keyCount ix = length ks \<and> firstKey ix = hd ks \<and> firstCase ix = keyRule Flexible (hd ks) \<and>
    maxLength ix = fold (\<lambda>k m. max m (length k)) ks 0"
  by (simp add: buildIndex_def sortedRules_def Let_def)

section \<open>Properties\<close>

text \<open>C31. The sorted index answers exactly like the scan over all the keys, for every set of keys, every
  candidate and every locale that treats ASCII as usual, whatever the order in which the keys were
  enumerated: binary search, the common-prefix guard, the first-letter table, the bounded scratch
  buffer and the shortcuts change no answer.\<close>

theorem prefix_index_equiv:
  assumes "asciiLocale isup low" "distinct ks" "set keys = set ks"
  shows "ContainsPrefix isup low (buildIndex ks) c = IsSpaceMacroPrefix isup low c keys"
proof (cases "ks = [] \<or> c = []")
  case True
  then show ?thesis using assms(3)
    by (auto simp: ContainsPrefix_def buildIndex_def IsSpaceMacroPrefix_def Let_def split: option.splits)
next
  case False
  then obtain k ks' where ks: "ks = k # ks'" and c: "c \<noteq> []" by (cases ks) auto
  note len = prefixHit_length[of isup low c]
  have ne: "ks \<noteq> []" using ks by simp
  obtain ix where ix: "buildIndex ks = Some ix" "sortedKeys ix = sortedRules ks" "foldStarts ix = fold addStart (sortedRules ks) []"
    "commonLength ix = commonPrefixLength (fst (hd (sortedRules ks))) (fst (last (sortedRules ks)))"
    "keyCount ix = length ks" "firstKey ix = k" "firstCase ix = keyRule Flexible k"
    "maxLength ix = fold (\<lambda>k m. max m (length k)) ks 0"
    using buildIndex_Some[OF ne] unfolding arg_cong[OF ks, of hd, unfolded list.sel] by blast
  have first: "length (firstKey ix) \<ge> length c \<and>
      ComparePrefix low (firstKey ix) c (\<not> keyHasUpper isup (firstKey ix) (firstCase ix)) = 0 \<longleftrightarrow> prefixHit isup low c k"
    using len[of k] by (auto simp: ix ComparePrefix_eq keyHasUpper_eq[OF assms(1)] Fold_eq[OF assms(1)] prefixHit_def)
  have short: "\<not> prefixHit isup low c x" if "length c > maxLength ix" "x \<in> set ks" for x
    using len[of x] maxLength_ge[OF that(2), of 0] that(1) by (auto simp: ix(8))
  have "IsSpaceMacroPrefix isup low c keys \<longleftrightarrow> (\<exists>x\<in>set ks. prefixHit isup low c x)"
    using c assms(3) by (simp add: IsSpaceMacroPrefix_hit)
  moreover have "ContainsPrefix isup low (buildIndex ks) c =
      (if prefixHit isup low c k then True else if length ks = 1 \<or> length c > maxLength ix then False
       else ContainsOtherPrefixes isup low ix c)"
    by (simp only: ContainsPrefix_def ix(1,5) option.case c if_False first)
  moreover have "k \<in> set ks" "length ks = 1 \<Longrightarrow> set ks = {k}" using ks by auto
  then have "(if prefixHit isup low c k then True else if length ks = 1 \<or> length c > maxLength ix then False
       else ContainsOtherPrefixes isup low ix c) \<longleftrightarrow> (\<exists>x\<in>set ks. prefixHit isup low c x)"
    using short ContainsOther_hit[OF assms(1) c ix(2,3,4)] by auto
  ultimately show ?thesis by simp
qed

theorem prefix_index_equiv_witness:
  "ContainsPrefix iswupper towlower (buildIndex [[L_v, L_n, 0x20, L_x], [0x56, 0x4E], [L_a, 0x20, L_b]]) [0x56, L_n] =
    IsSpaceMacroPrefix iswupper towlower [0x56, L_n] [[L_a, 0x20, L_b], [0x56, 0x4E], [L_v, L_n, 0x20, L_x]]"
  by (rule prefix_index_equiv) (auto simp: asciiLocale_def iswupper_def towlower_def)

end
