(* ===== verification/SmartSwitch.thy ===== *)
theory SmartSwitch
  imports Prelude
begin

text \<open>
  The per-application mode table in shared memory (\<open>core/SmartSwitchState.h\<close>,
  \<open>core/SmartSwitchManager.cpp\<close>): the FNV-1a key, the fixed table of 64 entries and its operations on
  the mapped state.  \<open>towlower\<close> is that of the C locale.  The operations are given as the sequence of
  memory states they write, so that a reader between two writes can be asked what it sees; mapping
  the memory is left out, and a table that is not mapped is \<open>None\<close>.
\<close>

unbundle bit_operations_syntax

abbreviation SMART_SWITCH_MAX_ENTRIES :: nat where "SMART_SWITCH_MAX_ENTRIES \<equiv> 64"

record SmartSwitchEntry =
  hash :: "32 word"
  vietnamese :: "8 word"

record SmartSwitchState =
  magic :: "32 word"
  epoch :: "32 word"
  entryCount :: "32 word"
  entries :: "SmartSwitchEntry list"

definition SMSW_MAGIC :: "32 word" where "SMSW_MAGIC = 0x57534D53"

definition SmartSwitch_IsValid :: "SmartSwitchState \<Rightarrow> bool" where
  "SmartSwitch_IsValid s \<longleftrightarrow> magic s = SMSW_MAGIC"

definition blankEntry :: SmartSwitchEntry where "blankEntry = \<lparr>hash = 0, vietnamese = 0\<rparr>"

definition SmartSwitch_InitDefaults :: "SmartSwitchState \<Rightarrow> SmartSwitchState" where
  "SmartSwitch_InitDefaults s =
    \<lparr>magic = SMSW_MAGIC, epoch = 0, entryCount = 0, entries = replicate SMART_SWITCH_MAX_ENTRIES blankEntry\<rparr>"

text \<open>\<open>FnvHash\<close> of a string and of its \<open>c_str()\<close>, which ends at the first zero.\<close>

definition FnvHash :: "wstring \<Rightarrow> 32 word" where
  "FnvHash str = fold (\<lambda>c h. (h XOR of_nat (towlower c)) * 16777619) (takeWhile (\<lambda>c. c \<noteq> 0) str) 2166136261"

text \<open>The scan \<open>for (i = 0; i < count && i < 64; ++i)\<close> for a hash.\<close>

definition scanCount :: "SmartSwitchState \<Rightarrow> nat" where
  "scanCount s = min (unat (entryCount s)) SMART_SWITCH_MAX_ENTRIES"

definition findHash :: "SmartSwitchState \<Rightarrow> 32 word \<Rightarrow> nat option" where
  "findHash s h = first_index (\<lambda>e. hash e = h) (take (scanCount s) (entries s))"

definition boolByte :: "bool \<Rightarrow> 8 word" where "boolByte b = (if b then 1 else 0)"

text \<open>The states \<open>SetAppMode\<close> writes, in order.\<close>

definition setSteps :: "wstring \<Rightarrow> bool \<Rightarrow> SmartSwitchState \<Rightarrow> SmartSwitchState list" where
  "setSteps exeName v s =
    (let h = FnvHash exeName in
     case findHash s h of
       Some i \<Rightarrow>
         let s1 = s\<lparr>entries := (entries s)[i := (entries s ! i)\<lparr>vietnamese := boolByte v\<rparr>]\<rparr>;
             s2 = s1\<lparr>epoch := epoch s1 + 1\<rparr> in [s1, s2]
     | None \<Rightarrow>
         if entryCount s < of_nat SMART_SWITCH_MAX_ENTRIES then
           (let c = unat (entryCount s);
                s1 = s\<lparr>entries := (entries s)[c := (entries s ! c)\<lparr>hash := h\<rparr>]\<rparr>;
                s2 = s1\<lparr>entries := (entries s1)[c := (entries s1 ! c)\<lparr>vietnamese := boolByte v\<rparr>]\<rparr>;
                s3 = s2\<lparr>entryCount := entryCount s2 + 1\<rparr>;
                s4 = s3\<lparr>epoch := epoch s3 + 1\<rparr> in [s1, s2, s3, s4])
         else [])"

definition SetAppMode :: "wstring \<Rightarrow> bool \<Rightarrow> SmartSwitchState \<Rightarrow> SmartSwitchState" where
  "SetAppMode exeName v s = last (s # setSteps exeName v s)"

definition GetAppMode :: "SmartSwitchState \<Rightarrow> wstring \<Rightarrow> bool option" where
  "GetAppMode s exeName = map_option (\<lambda>i. vietnamese (entries s ! i) \<noteq> 0) (findHash s (FnvHash exeName))"

text \<open>The loop of \<open>LoadFromMap\<close> over the pairs from index \<open>i\<close> on, as the states it writes; the map is
  the list of its pairs in the order of enumeration.\<close>

fun loadEntries :: "nat \<Rightarrow> (wstring \<times> bool) list \<Rightarrow> SmartSwitchState \<Rightarrow> SmartSwitchState list" where
  "loadEntries i [] s = []"
| "loadEntries i ((exeName, v) # r) s =
    (if i \<ge> SMART_SWITCH_MAX_ENTRIES then []
     else
       let s1 = s\<lparr>entries := (entries s)[i := (entries s ! i)\<lparr>hash := FnvHash exeName\<rparr>]\<rparr>;
           s2 = s1\<lparr>entries := (entries s1)[i := (entries s1 ! i)\<lparr>vietnamese := boolByte v\<rparr>]\<rparr> in
       s1 # s2 # loadEntries (Suc i) r s2)"

definition loadSteps :: "(wstring \<times> bool) list \<Rightarrow> SmartSwitchState \<Rightarrow> SmartSwitchState list" where
  "loadSteps m s =
    (let ws = loadEntries 0 m s; s1 = last (s # ws);
         s2 = s1\<lparr>entryCount := of_nat (min (length m) SMART_SWITCH_MAX_ENTRIES)\<rparr>;
         s3 = s2\<lparr>epoch := epoch s2 + 1\<rparr> in ws @ [s2, s3])"

definition LoadFromMap :: "(wstring \<times> bool) list \<Rightarrow> SmartSwitchState \<Rightarrow> SmartSwitchState" where
  "LoadFromMap m s = last (loadSteps m s)"

text \<open>The manager: an unmapped table ignores updates and knows no mode.\<close>

definition ManagerSet :: "wstring \<Rightarrow> bool \<Rightarrow> SmartSwitchState option \<Rightarrow> SmartSwitchState option" where
  "ManagerSet exeName v = map_option (SetAppMode exeName v)"

definition ManagerGet :: "SmartSwitchState option \<Rightarrow> wstring \<Rightarrow> bool option" where
  "ManagerGet p exeName = Option.bind p (\<lambda>s. GetAppMode s exeName)"

definition IsConnected :: "SmartSwitchState option \<Rightarrow> bool" where
  "IsConnected p = (case p of Some s \<Rightarrow> magic s = SMSW_MAGIC | None \<Rightarrow> False)"

section \<open>The abstract table\<close>

definition tableInv :: "SmartSwitchState \<Rightarrow> bool" where
  "tableInv s \<longleftrightarrow> length (entries s) = SMART_SWITCH_MAX_ENTRIES \<and> unat (entryCount s) \<le> SMART_SWITCH_MAX_ENTRIES"

definition activeModes :: "SmartSwitchState \<Rightarrow> (32 word \<times> bool) list" where
  "activeModes s = map (\<lambda>e. (hash e, vietnamese e \<noteq> 0)) (take (unat (entryCount s)) (entries s))"

definition absModes :: "SmartSwitchState \<Rightarrow> 32 word \<rightharpoonup> bool" where
  "absModes s = map_of (activeModes s)"

text \<open>A table of at most 64 modes that ignores a new key when it is full.\<close>

definition specSet :: "32 word \<Rightarrow> bool \<Rightarrow> (32 word \<rightharpoonup> bool) \<Rightarrow> 32 word \<rightharpoonup> bool" where
  "specSet h v m = (if m h \<noteq> None \<or> card (dom m) < SMART_SWITCH_MAX_ENTRIES then m(h \<mapsto> v) else m)"

lemma first_index_map_of:
  "map_of (map (\<lambda>e. (hash e, vietnamese e \<noteq> 0)) xs) h =
    map_option (\<lambda>i. vietnamese (xs ! i) \<noteq> 0) (first_index (\<lambda>e. hash e = h) xs)"
  by (induction xs) (auto simp: option.map_comp comp_def)

lemma map_of_update_first:
  "first_index (\<lambda>p. fst p = h) xs = Some i \<Longrightarrow> map_of (xs[i := (h, v)]) = (map_of xs)(h \<mapsto> v)"
proof (induction xs arbitrary: i)
  case (Cons x xs)
  then show ?case by (cases x) (auto split: if_splits simp: fun_upd_twist)
qed simp

lemma first_index_map: "first_index P (map f xs) = first_index (\<lambda>x. P (f x)) xs"
  by (induction xs) auto

lemma boolByte_iff [simp]: "boolByte v \<noteq> 0 \<longleftrightarrow> v"
  by (simp add: boolByte_def)

lemma findHash_inv: "tableInv s \<Longrightarrow> findHash s h = first_index (\<lambda>p. fst p = h) (activeModes s)"
  by (simp add: findHash_def activeModes_def tableInv_def scanCount_def first_index_map min_absorb1 comp_def)

lemma GetAppMode_abs:
  assumes "tableInv s"
  shows "GetAppMode s n = absModes s (FnvHash n)"
proof -
  have "findHash s h = first_index (\<lambda>e. hash e = h) (take (unat (entryCount s)) (entries s))" for h
    using assms by (simp add: findHash_def tableInv_def scanCount_def min_absorb1)
  then show ?thesis
    by (auto simp: GetAppMode_def absModes_def activeModes_def first_index_map_of first_index_Some
        intro!: option.map_cong)
qed

section \<open>One update\<close>

lemma count_less: "tableInv s \<Longrightarrow> entryCount s < of_nat SMART_SWITCH_MAX_ENTRIES \<longleftrightarrow> unat (entryCount s) < SMART_SWITCH_MAX_ENTRIES"
  by (simp add: word_less_nat_alt)

lemma unat_Suc: "unat (c :: 32 word) < 64 \<Longrightarrow> unat (c + 1) = Suc (unat c)"
  by (simp add: unat_plus_if')

definition sameTable :: "SmartSwitchState \<Rightarrow> (32 word \<times> bool) list \<Rightarrow> bool" where
  "sameTable s ms \<longleftrightarrow> tableInv s \<and> activeModes s = ms"

lemma setSteps_old:
  assumes "tableInv s" "findHash s (FnvHash n) = Some i"
  shows "list_all (\<lambda>s'. sameTable s' ((activeModes s)[i := (FnvHash n, v)])) (setSteps n v s)" "setSteps n v s \<noteq> []"
proof -
  have i: "i < unat (entryCount s)" "hash (entries s ! i) = FnvHash n"
    using assms by (auto simp: findHash_def tableInv_def scanCount_def first_index_Some)
  have "activeModes (s\<lparr>entries := (entries s)[i := (entries s ! i)\<lparr>vietnamese := boolByte v\<rparr>]\<rparr>) =
      (activeModes s)[i := (FnvHash n, v)]"
    using i by (simp add: activeModes_def take_update_swap map_update)
  then show "list_all (\<lambda>s'. sameTable s' ((activeModes s)[i := (FnvHash n, v)])) (setSteps n v s)" "setSteps n v s \<noteq> []"
    using assms by (auto simp: setSteps_def sameTable_def tableInv_def Let_def activeModes_def)
qed

lemma setSteps_new:
  assumes inv: "tableInv s" and f: "findHash s (FnvHash n) = None" and c: "unat (entryCount s) < SMART_SWITCH_MAX_ENTRIES"
  shows "\<exists>s1 s2 s3 s4. setSteps n v s = [s1, s2, s3, s4] \<and> sameTable s1 (activeModes s) \<and> sameTable s2 (activeModes s) \<and>
    sameTable s3 (activeModes s @ [(FnvHash n, v)]) \<and> sameTable s4 (activeModes s @ [(FnvHash n, v)])"
proof -
  let ?c = "unat (entryCount s)"
  have len: "?c < length (entries s)" using inv c by (simp add: tableInv_def)
  have less: "entryCount s < of_nat SMART_SWITCH_MAX_ENTRIES" using count_less[OF inv] c by simp
  note suc = unat_Suc[OF c]
  have "take (Suc ?c) ((entries s)[?c := x]) = take ?c (entries s) @ [x]" for x
    using len by (simp add: take_Suc_conv_app_nth)
  then show ?thesis
    using inv f less c len suc
    by (auto simp: setSteps_def Let_def sameTable_def tableInv_def activeModes_def)
qed

lemma setSteps_full:
  assumes "tableInv s" "findHash s (FnvHash n) = None" "\<not> unat (entryCount s) < SMART_SWITCH_MAX_ENTRIES"
  shows "setSteps n v s = []"
  using assms count_less[OF assms(1)] by (simp add: setSteps_def Let_def)

lemma SetAppMode_table:
  assumes "tableInv s"
  shows "tableInv (SetAppMode n v s) \<and>
    (case findHash s (FnvHash n) of
       Some i \<Rightarrow> activeModes (SetAppMode n v s) = (activeModes s)[i := (FnvHash n, v)]
     | None \<Rightarrow> activeModes (SetAppMode n v s) =
         (if length (activeModes s) < SMART_SWITCH_MAX_ENTRIES then activeModes s @ [(FnvHash n, v)] else activeModes s))"
proof -
  have len: "length (activeModes s) = unat (entryCount s)" using assms by (simp add: activeModes_def tableInv_def)
  show ?thesis
  proof (cases "findHash s (FnvHash n)")
    case (Some i)
    then have "sameTable (SetAppMode n v s) ((activeModes s)[i := (FnvHash n, v)])"
      using setSteps_old[OF assms Some, of v] by (auto simp: SetAppMode_def list_all_iff)
    then show ?thesis using Some by (simp add: sameTable_def)
  next
    case None
    then show ?thesis
    proof (cases "unat (entryCount s) < SMART_SWITCH_MAX_ENTRIES")
      case True
      from setSteps_new[OF assms None True, of v] have "sameTable (SetAppMode n v s) (activeModes s @ [(FnvHash n, v)])"
        by (auto simp: SetAppMode_def)
      then show ?thesis using None True len by (simp add: sameTable_def)
    next
      case False
      from setSteps_full[OF assms None False, of v] show ?thesis
        using assms None False len by (simp add: SetAppMode_def)
    qed
  qed
qed

definition distinctTable :: "SmartSwitchState \<Rightarrow> bool" where
  "distinctTable s \<longleftrightarrow> tableInv s \<and> distinct (map fst (activeModes s))"

lemma absModes_dom: "distinctTable s \<Longrightarrow> card (dom (absModes s)) = length (activeModes s)"
  by (simp add: distinctTable_def absModes_def dom_map_of_conv_image_fst) (metis distinct_card length_map set_map)

lemma SetAppMode_spec:
  assumes "distinctTable s"
  shows "distinctTable (SetAppMode n v s) \<and> absModes (SetAppMode n v s) = specSet (FnvHash n) v (absModes s)"
proof -
  have inv: "tableInv s" and d: "distinct (map fst (activeModes s))" using assms by (simp_all add: distinctTable_def)
  note tab = SetAppMode_table[OF inv, of n v]
  note fh = findHash_inv[OF inv, of "FnvHash n"]
  show ?thesis
  proof (cases "findHash s (FnvHash n)")
    case (Some i)
    then have f: "first_index (\<lambda>p. fst p = FnvHash n) (activeModes s) = Some i" by (simp add: fh)
    then have i: "i < length (activeModes s)" "fst (activeModes s ! i) = FnvHash n" by (auto simp: first_index_Some)
    then have "map fst ((activeModes s)[i := (FnvHash n, v)]) = map fst (activeModes s)"
      by (simp add: map_update) (metis i list_update_id nth_map)
    moreover have "absModes s (FnvHash n) \<noteq> None"
      using imageI[OF nth_mem[OF i(1)], of fst] i(2) by (simp add: absModes_def map_of_eq_None_iff)
    ultimately show ?thesis using tab Some d map_of_update_first[OF f]
      by (simp add: distinctTable_def absModes_def specSet_def)
  next
    case None
    then have n: "FnvHash n \<notin> fst ` set (activeModes s)" by (auto simp: fh first_index_None)
    then have "absModes s (FnvHash n) = None" by (simp add: absModes_def map_of_eq_None_iff)
    moreover have "map_of (activeModes s @ [(FnvHash n, v)]) = (map_of (activeModes s))(FnvHash n \<mapsto> v)"
      using n by (auto simp: map_of_eq_None_iff[symmetric] map_add_def fun_eq_iff split: option.splits)
    ultimately show ?thesis using tab None d n absModes_dom[OF assms]
      by (auto simp: distinctTable_def specSet_def absModes_def)
  qed
qed

lemma InitDefaults_spec:
  "distinctTable (SmartSwitch_InitDefaults s)" "absModes (SmartSwitch_InitDefaults s) = Map.empty"
  by (simp_all add: distinctTable_def tableInv_def activeModes_def absModes_def SmartSwitch_InitDefaults_def)

section \<open>The interface\<close>

text \<open>What a client of a mode table relies on: a key per application, and updates and look-ups that
  behave like those of a bounded map.\<close>

locale mode_table =
  fixes inv :: "'s \<Rightarrow> bool"
    and modes :: "'s \<Rightarrow> 'k \<rightharpoonup> bool"
    and appKey :: "'n \<Rightarrow> 'k"
    and put :: "'n \<Rightarrow> bool \<Rightarrow> 's \<Rightarrow> 's"
    and look :: "'s \<Rightarrow> 'n \<Rightarrow> bool option"
    and spec :: "'k \<Rightarrow> bool \<Rightarrow> ('k \<rightharpoonup> bool) \<Rightarrow> 'k \<rightharpoonup> bool"
  assumes put_spec: "inv s \<Longrightarrow> inv (put n v s) \<and> modes (put n v s) = spec (appKey n) v (modes s)"
    and look_spec: "inv s \<Longrightarrow> look s n = modes s (appKey n)"
begin

lemma puts_spec:
  "inv s \<Longrightarrow> inv (fold (\<lambda>(n, v). put n v) ops s) \<and>
    modes (fold (\<lambda>(n, v). put n v) ops s) = fold (\<lambda>(n, v). spec (appKey n) v) ops (modes s)"
  by (induction ops arbitrary: s) (auto simp: put_spec)

lemma look_puts:
  "inv s \<Longrightarrow> look (fold (\<lambda>(n, v). put n v) ops s) n = fold (\<lambda>(n, v). spec (appKey n) v) ops (modes s) (appKey n)"
  using puts_spec[of s ops] look_spec by simp

end

interpretation smart: mode_table distinctTable absModes FnvHash SetAppMode GetAppMode specSet
  by unfold_locales (use SetAppMode_spec GetAppMode_abs in \<open>auto simp: distinctTable_def\<close>)

section \<open>Properties\<close>

text \<open>C37. After any sequence of updates of a fresh table a look-up answers like a map of at most 64
  entries from the hashes of the names: the last mode set for the name, or for a name of the same
  hash, as long as there was room for it.\<close>

theorem smart_switch_refines:
  "GetAppMode (fold (\<lambda>(n, v). SetAppMode n v) ops (SmartSwitch_InitDefaults s)) n =
    fold (\<lambda>(n, v). specSet (FnvHash n) v) ops Map.empty (FnvHash n)"
  using smart.look_puts[OF InitDefaults_spec(1), of ops s n] by (simp add: InitDefaults_spec(2))

text \<open>An update is atomic for readers: whichever of its writes have been done, a look-up of any name
  answers as before the update or as after it.\<close>

theorem set_app_mode_atomic:
  assumes "tableInv s"
  shows "list_all (\<lambda>s'. GetAppMode s' n' = GetAppMode s n' \<or> GetAppMode s' n' = GetAppMode (SetAppMode n v s) n') (setSteps n v s)"
proof -
  have get: "GetAppMode s' n' = map_of ms (FnvHash n')" if "sameTable s' ms" for s' ms
    using that GetAppMode_abs[of s' n'] by (simp add: sameTable_def absModes_def)
  show ?thesis
  proof (cases "findHash s (FnvHash n)")
    case (Some i)
    have "list_all (\<lambda>s'. GetAppMode s' n' = map_of ((activeModes s)[i := (FnvHash n, v)]) (FnvHash n')) (setSteps n v s)"
      using setSteps_old(1)[OF assms Some, of v] get by (auto simp: list_all_iff)
    moreover have "SetAppMode n v s \<in> set (setSteps n v s)"
      using setSteps_old(2)[OF assms Some, of v] by (simp add: SetAppMode_def)
    ultimately show ?thesis by (auto simp: list_all_iff)
  next
    case None
    show ?thesis
    proof (cases "unat (entryCount s) < SMART_SWITCH_MAX_ENTRIES")
      case True
      have "sameTable s (activeModes s)" using assms by (simp add: sameTable_def)
      then show ?thesis using setSteps_new[OF assms None True, of v] get by (auto simp: SetAppMode_def)
    qed (simp add: setSteps_full[OF assms None])
  qed
qed

theorem set_app_mode_atomic_witness:
  "list_all (\<lambda>s'. GetAppMode s' [L_a] = None \<or> GetAppMode s' [L_a] = Some True)
     (setSteps [L_a] True (SmartSwitch_InitDefaults s))"
proof -
  let ?s = "SmartSwitch_InitDefaults s"
  have inv: "distinctTable ?s" "tableInv ?s" using InitDefaults_spec(1)[of s] by (auto simp: distinctTable_def)
  have "GetAppMode ?s [L_a] = None" by (simp add: GetAppMode_abs[OF inv(2)] InitDefaults_spec(2))
  moreover have "GetAppMode (SetAppMode [L_a] True ?s) [L_a] = Some True"
    using SetAppMode_spec[OF inv(1), of "[L_a]" True]
    by (simp add: GetAppMode_abs distinctTable_def InitDefaults_spec(2) specSet_def)
  ultimately show ?thesis using set_app_mode_atomic[OF inv(2), of "[L_a]" "[L_a]" True] by simp
qed

text \<open>Reloading a table in use is not: between the write of a hash and the write of its mode, a reader
  finds the new application with the mode of the old one, which it has neither before nor after.\<close>

theorem load_from_map_torn:
  "(let s = SetAppMode [L_a] True (SmartSwitch_InitDefaults s0) in
     GetAppMode s [L_b] = None \<and> GetAppMode (LoadFromMap [([L_b], False)] s) [L_b] = Some False \<and>
     list_ex (\<lambda>s'. GetAppMode s' [L_b] = Some True) (loadSteps [([L_b], False)] s))"
proof -
  have h: "FnvHash [L_a] = 0xE40C292C" "FnvHash [L_b] = 0xE70C2DE5"
    by (simp_all add: FnvHash_def towlower_def)
  have r: "replicate SMART_SWITCH_MAX_ENTRIES x = x # replicate 63 x" for x :: SmartSwitchEntry
    using replicate_Suc[of 63 x] by simp
  have init: "SetAppMode [L_a] True (SmartSwitch_InitDefaults s0) =
      \<lparr>magic = SMSW_MAGIC, epoch = 1, entryCount = 1,
       entries = \<lparr>hash = FnvHash [L_a], vietnamese = 1\<rparr> # replicate 63 blankEntry\<rparr>"
    by (simp add: SetAppMode_def setSteps_def SmartSwitch_InitDefaults_def findHash_def scanCount_def r boolByte_def
      blankEntry_def Let_def)
  show ?thesis
    unfolding init by (simp add: Let_def h findHash_def scanCount_def GetAppMode_def LoadFromMap_def loadSteps_def boolByte_def)
qed

end
