(* ===== verification/CommittedText.thy ===== *)
theory CommittedText
  imports EngineSession
begin

text \<open>
  The policy that puts the engine behind text already committed to the document
  (\<open>core/engine/CommittedTextRestore.h\<close>): replay of the typed keys, or seeding from the visible text,
  in the order the caller prefers.  The replay callback of the hook or the text service is an
  argument.
\<close>

datatype CommittedTextRestoreResult = Failed | ReplayedHistory | SeededVisibleText
datatype CommittedTextRestorePreference = ReplayHistory | VisibleText

text \<open>\<open>engine.Reset(); engine.SeedFromText(visibleText) && engine.Peek() == visibleText\<close>\<close>

definition seedVisible :: "wstring \<Rightarrow> TypingEngine \<Rightarrow> TypingEngine \<times> bool" where
  "seedVisible visibleText e =
    (let (e1, ok) = SeedFromText visibleText (Reset e) in (e1, ok \<and> Peek e1 = visibleText))"

definition RestoreCommittedText ::
  "TypingEngine \<Rightarrow> wstring \<Rightarrow> (TypingEngine \<Rightarrow> TypingEngine) \<Rightarrow> CommittedTextRestorePreference \<Rightarrow>
    TypingEngine \<times> CommittedTextRestoreResult" where
  "RestoreCommittedText e visibleText replay preference =
    (let (e1, seeded) = (if preference = VisibleText then seedVisible visibleText e else (e, False)) in
     if seeded then (e1, SeededVisibleText)
     else let e2 = replay (Reset e1) in
       if Peek e2 = visibleText then (e2, ReplayedHistory)
       else let (e3, seeded3) = (if preference = ReplayHistory then seedVisible visibleText e2 else (e2, False)) in
         if seeded3 then (e3, SeededVisibleText) else (Reset e3, Failed))"

lemma Reset_Reset [simp]: "Reset (Reset e) = Reset e"
  by (simp add: Reset_def)

lemma seedVisible_eq:
  "if list_all (\<lambda>ch. DecomposeVietChar ch \<noteq> None) t
   then snd (seedVisible t e) \<and> Peek (fst (seedVisible t e)) = t \<and> wf_engine (fst (seedVisible t e))
   else \<not> snd (seedVisible t e)"
proof (cases "snd (SeedFromText t (Reset e))")
  case True
  then have "SeedFromText t (Reset e) = (fst (SeedFromText t (Reset e)), True)" by (metis prod.collapse)
  from SeedFromText_wf_Peek[OF this] show ?thesis
    using True SeedFromText_accepts[of t "Reset e"] by (simp add: seedVisible_def case_prod_beta Let_def)
next
  case False
  then show ?thesis using SeedFromText_accepts[of t "Reset e"] by (simp add: seedVisible_def case_prod_beta Let_def)
qed

text \<open>C38. Restoring never leaves the engine behind other text than the visible one: on success the
  preview is the visible text, on failure the engine is reset.  It fails exactly when some character
  of the text does not decompose and the replay renders something else; the visible text is seeded
  when the caller prefers it and it decomposes, or as the last resort.\<close>

theorem restore_committed_text:
  "(let (e', res) = RestoreCommittedText e t replay pref; decomposes = list_all (\<lambda>ch. DecomposeVietChar ch \<noteq> None) t in
    (case res of
       Failed \<Rightarrow> Peek e' = [] \<and> rawInput e' = [] \<and> \<not> decomposes
     | SeededVisibleText \<Rightarrow> Peek e' = t \<and> wf_engine e' \<and> decomposes
     | ReplayedHistory \<Rightarrow> Peek e' = t \<and> \<not> (pref = VisibleText \<and> decomposes)))"
proof -
  have empty: "Peek (Reset x) = []" "rawInput (Reset x) = []" for x
    by (simp_all add: Reset_def Peek_def ComposeAll_def)
  define D where "D = list_all (\<lambda>ch. DecomposeVietChar ch \<noteq> None) t"
  have seed: "snd (seedVisible t x) \<longleftrightarrow> D" "D \<Longrightarrow> Peek (fst (seedVisible t x)) = t" "D \<Longrightarrow> wf_engine (fst (seedVisible t x))" for x
    using seedVisible_eq[of t x] unfolding D_def[symmetric] by (auto split: if_splits)
  show ?thesis unfolding D_def[symmetric]
    by (cases pref; cases D) (simp_all add: RestoreCommittedText_def Let_def case_prod_beta seed empty)
qed

end
