(* ===== verification/Utf8.thy ===== *)
theory Utf8
  imports Utf16
begin

text \<open>
  UTF-8 as \<open>core/config/SpellExclusionCanonicalizer.cpp\<close> writes and reads it (\<open>Utf32ToUtf8\<close>,
  \<open>Utf8ToUtf32\<close>), with the failures of both as \<open>None\<close>.  A byte is an \<open>8 word\<close>, a scalar a natural
  number.
\<close>

type_synonym u8string = "8 word list"

section \<open>Encoding\<close>

definition byteOf :: "nat \<Rightarrow> 8 word" where
  "byteOf n = word_of_nat n"

definition encodeUtf8 :: "nat \<Rightarrow> u8string option" where
  "encodeUtf8 cp =
    (if cp > 0x10FFFF \<or> 0xD800 \<le> cp \<and> cp \<le> 0xDFFF then None
     else Some (map byteOf
       (if cp \<le> 0x7F then [cp]
        else if cp \<le> 0x7FF then [0xC0 OR drop_bit 6 cp, 0x80 OR (cp AND 0x3F)]
        else if cp \<le> 0xFFFF then [0xE0 OR drop_bit 12 cp, 0x80 OR (drop_bit 6 cp AND 0x3F), 0x80 OR (cp AND 0x3F)]
        else [0xF0 OR drop_bit 18 cp, 0x80 OR (drop_bit 12 cp AND 0x3F), 0x80 OR (drop_bit 6 cp AND 0x3F),
              0x80 OR (cp AND 0x3F)])))"

fun Utf32ToUtf8 :: "nat list \<Rightarrow> u8string option" where
  "Utf32ToUtf8 [] = Some []"
| "Utf32ToUtf8 (cp # r) =
    (case encodeUtf8 cp of None \<Rightarrow> None | Some b \<Rightarrow> map_option (\<lambda>o'. b @ o') (Utf32ToUtf8 r))"

section \<open>Decoding\<close>

text \<open>The bits of the first byte and the width it announces.\<close>

definition leadByte :: "nat \<Rightarrow> (nat \<times> nat) option" where
  "leadByte first =
    (if first \<le> 0x7F then Some (first, 1)
     else if 0xC2 \<le> first \<and> first \<le> 0xDF then Some (first AND 0x1F, 2)
     else if 0xE0 \<le> first \<and> first \<le> 0xEF then Some (first AND 0x0F, 3)
     else if 0xF0 \<le> first \<and> first \<le> 0xF4 then Some (first AND 0x07, 4)
     else None)"

fun continuationBytes :: "nat \<Rightarrow> u8string \<Rightarrow> nat option" where
  "continuationBytes scalar [] = Some scalar"
| "continuationBytes scalar (c # r) =
    (if unat c AND 0xC0 \<noteq> 0x80 then None
     else continuationBytes (push_bit 6 scalar OR (unat c AND 0x3F)) r)"

definition Utf8Next :: "u8string \<Rightarrow> (nat \<times> u8string) option" where
  "Utf8Next input =
    (case leadByte (unat (hd input)) of
       None \<Rightarrow> None
     | Some (bits, width) \<Rightarrow>
         if width > length input then None
         else case continuationBytes bits (take (width - 1) (tl input)) of
           None \<Rightarrow> None
         | Some scalar \<Rightarrow>
             if width = 3 \<and> scalar < 0x800 \<or> width = 4 \<and> scalar < 0x10000 \<or> 0xD800 \<le> scalar \<and> scalar \<le> 0xDFFF \<or>
                scalar > 0x10FFFF then None
             else Some (scalar, drop width input))"

lemma leadByte_width: "leadByte b = Some (x, w) \<Longrightarrow> 0 < w"
  by (auto simp: leadByte_def split: if_splits)

lemma Utf8Next_shorter [termination_simp]:
  "input \<noteq> [] \<Longrightarrow> Utf8Next input = Some (x, r) \<Longrightarrow> length r < length input"
  by (auto simp: Utf8Next_def split: option.splits prod.splits if_splits dest: leadByte_width)

function Utf8ToUtf32 :: "u8string \<Rightarrow> nat list option" where
  "Utf8ToUtf32 input =
    (if input = [] then Some []
     else case Utf8Next input of
       None \<Rightarrow> None
     | Some (scalar, r) \<Rightarrow> map_option (\<lambda>o'. scalar # o') (Utf8ToUtf32 r))"
  by pat_completeness auto
termination
  by (relation "measure length") (auto dest: Utf8Next_shorter)

declare Utf8ToUtf32.simps [simp del]

section \<open>Bits and bytes\<close>

lemma or_push: "b < 2 ^ n \<Longrightarrow> push_bit n a OR b = a * 2 ^ n + (b :: nat)"
proof -
  assume "b < 2 ^ n"
  then have b: "take_bit n b = b" by (simp add: take_bit_nat_eq_self)
  have "push_bit n a + take_bit n b = push_bit n a OR take_bit n b"
    by (rule disjunctive_add_eq_or) (auto simp: bit_eq_iff bit_simps)
  then show ?thesis by (simp add: b push_bit_eq_mult)
qed

lemma or_lead:
  "q < 64 \<Longrightarrow> 0x80 OR q = 0x80 + (q :: nat)" "q < 32 \<Longrightarrow> 0xC0 OR q = 0xC0 + (q :: nat)"
  "q < 16 \<Longrightarrow> 0xE0 OR q = 0xE0 + (q :: nat)" "q < 8 \<Longrightarrow> 0xF0 OR q = 0xF0 + (q :: nat)"
  using or_push[of q 6 2] or_push[of q 5 6] or_push[of q 4 14] or_push[of q 3 30] by (simp_all add: push_bit_eq_mult)

lemma and_low:
  "x AND 0x3F = x mod 64" "x AND 0x1F = x mod 32" "x AND 0x0F = x mod 16" "x AND 0x07 = x mod (8 :: nat)"
proof -
  have "x AND mask n = x mod 2 ^ n" for n by (simp only: take_bit_eq_mask[symmetric] take_bit_eq_mod)
  from this[of 6] this[of 5] this[of 4] this[of 3] show
    "x AND 0x3F = x mod 64" "x AND 0x1F = x mod 32" "x AND 0x0F = x mod 16" "x AND 0x07 = x mod (8 :: nat)"
    by (simp_all add: mask_eq_exp_minus_1)
qed

lemma and_top: "x < 256 \<Longrightarrow> x AND 0xC0 = 0x80 \<longleftrightarrow> 128 \<le> x \<and> x < (192 :: nat)"
proof -
  assume x: "x < 256"
  have "x AND push_bit n a = push_bit n (drop_bit n x AND a)" for n a
    by (rule bit_eqI) (auto simp: bit_simps)
  note this[of 6 3]
  also have "drop_bit 6 x AND 3 = drop_bit 6 x mod 4"
    using take_bit_eq_mask[of 2 "drop_bit 6 x"] by (simp add: mask_eq_exp_minus_1 take_bit_eq_mod)
  finally have "x AND 0xC0 = x div 64 mod 4 * 64" by (simp add: push_bit_eq_mult drop_bit_eq_div)
  moreover have "x div 64 < 4" using x by (simp add: less_mult_imp_div_less)
  ultimately have "x AND 0xC0 = 0x80 \<longleftrightarrow> x div 64 = 2" by simp
  also have "\<dots> \<longleftrightarrow> 128 \<le> x \<and> x < 192"
    using div_mult_mod_eq[of x 64] mod_less_divisor[of 64 x] by (intro iffI) linarith+
  finally show ?thesis .
qed

lemma unat_u8: "unat (c :: 8 word) < 256"
  using unsigned_less[of c, where ?'a = nat] by simp

lemma unat_of_byte: "n < 256 \<Longrightarrow> unat (byteOf n) = n"
  by (simp add: byteOf_def unat_of_nat)

lemma mod_64: "128 \<le> n \<Longrightarrow> n < 192 \<Longrightarrow> n mod 64 = n - (128 :: nat) \<and> n - 128 < 2 ^ 6"
  by (auto simp: mod_if)

lemma continuationBytes_Cons:
  "continuationBytes s (c # r) =
    (if 128 \<le> unat c \<and> unat c < 192 then continuationBytes (s * 64 + (unat c - 128)) r else None)"
proof (cases "128 \<le> unat c \<and> unat c < 192")
  case True
  then have "unat c mod 64 = unat c - 128" "unat c - 128 < 2 ^ 6" using mod_64[of "unat c"] by blast+
  then have "push_bit 6 s OR (unat c AND 0x3F) = s * 64 + (unat c - 128)"
    using or_push[of "unat c - 128" 6 s] by (simp only: and_low) simp
  then show ?thesis using True and_top[OF unat_u8, of c] by simp
next
  case False
  then show ?thesis using and_top[OF unat_u8, of c] by auto
qed

declare continuationBytes.simps(2) [simp del]

lemma encodeUtf8_arith:
  "encodeUtf8 cp =
    (if cp > 0x10FFFF \<or> 0xD800 \<le> cp \<and> cp \<le> 0xDFFF then None
     else Some (map byteOf
       (if cp \<le> 0x7F then [cp]
        else if cp \<le> 0x7FF then [0xC0 + cp div 64, 0x80 + cp mod 64]
        else if cp \<le> 0xFFFF then [0xE0 + cp div 4096, 0x80 + cp div 64 mod 64, 0x80 + cp mod 64]
        else [0xF0 + cp div 262144, 0x80 + cp div 4096 mod 64, 0x80 + cp div 64 mod 64, 0x80 + cp mod 64])))"
proof -
  have "cp div 64 < 32" if "cp \<le> 0x7FF" using that by (simp add: less_mult_imp_div_less)
  moreover have "cp div 4096 < 16" if "cp \<le> 0xFFFF" using that by (simp add: less_mult_imp_div_less)
  moreover have "cp div 262144 < 8" if "cp \<le> 0x10FFFF" using that by (simp add: less_mult_imp_div_less)
  ultimately show ?thesis
    by (simp add: encodeUtf8_def and_low drop_bit_eq_div or_lead not_less cong: if_cong)
qed

section \<open>One scalar\<close>

lemma sextet_digit:
  fixes y z :: nat
  assumes "y < 64"
  shows "(z * 64 + y) div 64 = z" "(z * 64 + y) mod 64 = y"
  using assms by auto

lemma Utf8Next_encode:
  assumes "encodeUtf8 cp = Some b"
  shows "b \<noteq> []" "Utf8Next (b @ r) = Some (cp, r)"
proof -
  have v: "cp \<le> 0x10FFFF" "\<not> (0xD800 \<le> cp \<and> cp \<le> 0xDFFF)" using assms by (auto simp: encodeUtf8_arith split: if_splits)
  consider (1) "cp \<le> 0x7F" | (2) "0x7F < cp" "cp \<le> 0x7FF" | (3) "0x7FF < cp" "cp \<le> 0xFFFF" | (4) "0xFFFF < cp" by linarith
  then have "b \<noteq> [] \<and> Utf8Next (b @ r) = Some (cp, r)"
  proof cases
    case 1
    then have b: "b = [byteOf cp]" using assms by (simp add: encodeUtf8_arith)
    show ?thesis using 1 by (simp add: b Utf8Next_def leadByte_def unat_of_byte)
  next
    case 2
    let ?q = "cp div 64"
    have q: "2 \<le> ?q" "?q < 32" using 2 by (simp_all add: less_eq_div_iff_mult_less_eq less_mult_imp_div_less)
    then have m: "(0xC0 + ?q) mod 32 = ?q" using mod_mult_self2[of ?q 32 6] by (simp add: add.commute)
    have b: "b = [byteOf (0xC0 + ?q), byteOf (0x80 + cp mod 64)]" using assms 2 by (simp add: encodeUtf8_arith)
    have c: "?q * 64 + cp mod 64 = cp" by simp
    show ?thesis using q 2 by (simp add: b Utf8Next_def leadByte_def unat_of_byte continuationBytes_Cons and_low m c)
  next
    case 3
    let ?q = "cp div 4096" and ?r = "cp div 64 mod 64"
    have q: "?q < 16" using 3 by (simp add: less_mult_imp_div_less)
    then have m: "(0xE0 + ?q) mod 16 = ?q" using mod_mult_self2[of ?q 16 14] by (simp add: add.commute)
    have b: "b = [byteOf (0xE0 + ?q), byteOf (0x80 + ?r), byteOf (0x80 + cp mod 64)]"
      using assms 3 v by (simp add: encodeUtf8_arith)
    have "?q = cp div 64 div 64" by (simp add: div_mult2_eq[symmetric])
    then have "?q * 64 + ?r = cp div 64" by simp
    then have "(?q * 64 + ?r) * 64 + cp mod 64 = cp" by simp
    then have "?q * 4096 + ?r * 64 + cp mod 64 = cp" by (simp only: add_mult_distrib mult.assoc)
    then have c: "4096 * ?q + ?r * 64 + cp mod 64 = cp" by (simp only: mult.commute[of 4096])
    show ?thesis using q 3 v by (simp add: b Utf8Next_def leadByte_def unat_of_byte continuationBytes_Cons and_low m c)
  next
    case 4
    let ?q = "cp div 262144" and ?r = "cp div 4096 mod 64" and ?s = "cp div 64 mod 64"
    have q: "?q < 5" using v by (simp add: less_mult_imp_div_less)
    then have m: "(0xF0 + ?q) mod 8 = ?q" using mod_mult_self2[of ?q 8 30] by (simp add: add.commute)
    have b: "b = [byteOf (0xF0 + ?q), byteOf (0x80 + ?r), byteOf (0x80 + ?s), byteOf (0x80 + cp mod 64)]"
      using assms 4 v by (simp add: encodeUtf8_arith)
    have "?q = cp div 4096 div 64" by (simp add: div_mult2_eq[symmetric])
    then have "?q * 64 + ?r = cp div 4096" by (simp only: div_mult_mod_eq)
    moreover have "cp div 4096 = cp div 64 div 64" by (simp add: div_mult2_eq[symmetric])
    ultimately have "?q * 64 + ?r = cp div 64 div 64" by (simp only:)
    then have "(?q * 64 + ?r) * 64 + ?s = cp div 64" by simp
    then have "((?q * 64 + ?r) * 64 + ?s) * 64 + cp mod 64 = cp" by simp
    then have "?q * 262144 + ?r * 4096 + ?s * 64 + cp mod 64 = cp" by (simp only: add_mult_distrib mult.assoc)
    then have c: "262144 * ?q + 4096 * ?r + ?s * 64 + cp mod 64 = cp" by (simp only: mult.commute[of 4096] mult.commute[of 262144])
    show ?thesis using q 4 v by (simp add: b Utf8Next_def leadByte_def unat_of_byte continuationBytes_Cons and_low m c)
  qed
  then show "b \<noteq> []" "Utf8Next (b @ r) = Some (cp, r)" by simp_all
qed

text \<open>Back from the bytes: a decoded scalar has the bytes it came from.\<close>

lemma byteOf_unat [simp]: "byteOf (unat c) = c"
  by (simp add: byteOf_def)

lemma leadByte_cases:
  assumes "leadByte (unat b) = Some (bits, width)"
  obtains (1) "unat b \<le> 0x7F" "bits = unat b" "width = 1"
    | (2) "0xC2 \<le> unat b" "unat b \<le> 0xDF" "bits = unat b - 0xC0" "width = 2"
    | (3) "0xE0 \<le> unat b" "unat b \<le> 0xEF" "bits = unat b - 0xE0" "width = 3"
    | (4) "0xF0 \<le> unat b" "unat b \<le> 0xF4" "bits = unat b - 0xF0" "width = 4"
proof -
  have m: "0xC0 \<le> n \<Longrightarrow> n \<le> 0xDF \<Longrightarrow> n mod 32 = n - 0xC0" "0xE0 \<le> n \<Longrightarrow> n \<le> 0xEF \<Longrightarrow> n mod 16 = n - 0xE0"
    "0xF0 \<le> n \<Longrightarrow> n \<le> 0xF4 \<Longrightarrow> n mod 8 = n - 0xF0" for n :: nat
    by (auto simp: mod_if)
  show ?thesis using assms that m[of "unat b"] by (auto simp: leadByte_def and_low split: if_splits)
qed

lemma encode_Utf8Next:
  assumes "s \<noteq> []" "Utf8Next s = Some (cp, r)"
  shows "\<exists>b. encodeUtf8 cp = Some b \<and> s = b @ r"
proof -
  obtain b0 t where s: "s = b0 # t" using assms(1) by (cases s) auto
  obtain bits width where lead: "leadByte (unat b0) = Some (bits, width)"
    using assms(2) s by (cases "leadByte (unat b0)") (auto simp: Utf8Next_def)
  have nxt: "width \<le> length s" "continuationBytes bits (take (width - 1) t) = Some cp" "r = drop width s"
    "\<not> (width = 3 \<and> cp < 0x800 \<or> width = 4 \<and> cp < 0x10000 \<or> 0xD800 \<le> cp \<and> cp \<le> 0xDFFF \<or> cp > 0x10FFFF)"
    using assms(2) s lead by (auto simp: Utf8Next_def split: option.splits if_splits)
  from lead show ?thesis
  proof (cases rule: leadByte_cases)
    case 1
    then show ?thesis using nxt s by (auto simp: encodeUtf8_arith)
  next
    case 2
    then obtain c1 t1 where t: "t = c1 # t1" using nxt(1) s by (cases t) auto
    then have c: "128 \<le> unat c1" "unat c1 < 192" "cp = (unat b0 - 0xC0) * 64 + (unat c1 - 128)"
      using nxt(2) 2 by (auto simp: continuationBytes_Cons split: if_splits)
    define q x where "q = unat b0 - 0xC0" "x = unat c1 - 128"
    have u: "unat b0 = 0xC0 + q" "unat c1 = 0x80 + x" "x < 64" "2 \<le> q" "q < 32" "cp = q * 64 + x"
      using 2 c by (auto simp: q_x_def)
    have "cp div 64 = q" "cp mod 64 = x" "0x7F < cp" "cp \<le> 0x7FF" using u(3-6) by auto
    then have "encodeUtf8 cp = Some [byteOf (unat b0), byteOf (unat c1)]" by (simp add: encodeUtf8_arith u(1,2))
    then show ?thesis using s t nxt(3) 2 by simp
  next
    case 3
    then obtain c1 c2 t2 where t: "t = c1 # c2 # t2" using nxt(1) s by (cases t; cases "tl t") auto
    then have c: "128 \<le> unat c1" "unat c1 < 192" "128 \<le> unat c2" "unat c2 < 192"
      "cp = ((unat b0 - 0xE0) * 64 + (unat c1 - 128)) * 64 + (unat c2 - 128)"
      using nxt(2) 3 by (auto simp: continuationBytes_Cons numeral_2_eq_2 split: if_splits)
    define q x y where "q = unat b0 - 0xE0" "x = unat c1 - 128" "y = unat c2 - 128"
    have u: "unat b0 = 0xE0 + q" "unat c1 = 0x80 + x" "unat c2 = 0x80 + y" "x < 64" "y < 64" "q < 16"
      "cp = (q * 64 + x) * 64 + y"
      using 3 c by (auto simp: q_x_y_def)
    have "cp div 64 = q * 64 + x" "cp mod 64 = y" by (simp_all only: u(7) sextet_digit[OF u(5)])
    moreover have "cp div 4096 = cp div 64 div 64" by (simp add: div_mult2_eq[symmetric])
    moreover have "(q * 64 + x) div 64 = q" "(q * 64 + x) mod 64 = x" by (simp_all only: sextet_digit[OF u(4)])
    ultimately have "cp div 4096 = q" "cp div 64 mod 64 = x" "cp mod 64 = y" by simp_all
    moreover have "0x7FF < cp" "cp \<le> 0xFFFF" using nxt(4) 3 u(4-7) by auto
    ultimately have "encodeUtf8 cp = Some [byteOf (unat b0), byteOf (unat c1), byteOf (unat c2)]"
      using nxt(4) by (simp add: encodeUtf8_arith u(1-3))
    then show ?thesis using s t nxt(3) 3 by simp
  next
    case 4
    then obtain c1 c2 c3 t3 where t: "t = c1 # c2 # c3 # t3"
      using nxt(1) s by (cases t; cases "tl t"; cases "tl (tl t)") auto
    then have c: "128 \<le> unat c1" "unat c1 < 192" "128 \<le> unat c2" "unat c2 < 192" "128 \<le> unat c3" "unat c3 < 192"
      "cp = (((unat b0 - 0xF0) * 64 + (unat c1 - 128)) * 64 + (unat c2 - 128)) * 64 + (unat c3 - 128)"
      using nxt(2) 4 by (auto simp: continuationBytes_Cons numeral_3_eq_3 split: if_splits)
    define q x y z where "q = unat b0 - 0xF0" "x = unat c1 - 128" "y = unat c2 - 128" "z = unat c3 - 128"
    have u: "unat b0 = 0xF0 + q" "unat c1 = 0x80 + x" "unat c2 = 0x80 + y" "unat c3 = 0x80 + z" "x < 64" "y < 64" "z < 64"
      "cp = ((q * 64 + x) * 64 + y) * 64 + z"
      using 4 c by (auto simp: q_x_y_z_def)
    have "cp div 64 = (q * 64 + x) * 64 + y" "cp mod 64 = z" by (simp_all only: u(8) sextet_digit[OF u(7)])
    moreover have "cp div 4096 = cp div 64 div 64" "cp div 262144 = cp div 64 div 64 div 64"
      by (simp_all add: div_mult2_eq[symmetric])
    moreover have "((q * 64 + x) * 64 + y) div 64 = q * 64 + x" "((q * 64 + x) * 64 + y) mod 64 = y" by (simp_all only: sextet_digit[OF u(6)])
    moreover have "(q * 64 + x) div 64 = q" "(q * 64 + x) mod 64 = x" by (simp_all only: sextet_digit[OF u(5)])
    ultimately have "cp div 262144 = q" "cp div 4096 mod 64 = x" "cp div 64 mod 64 = y" "cp mod 64 = z" by simp_all
    moreover have "0xFFFF < cp" using nxt(4) 4 by auto
    ultimately have "encodeUtf8 cp = Some [byteOf (unat b0), byteOf (unat c1), byteOf (unat c2), byteOf (unat c3)]"
      using nxt(4) by (simp add: encodeUtf8_arith u(1-4))
    then show ?thesis using s t nxt(3) 4 by simp
  qed
qed


section \<open>Whole strings\<close>

lemma Utf8ToUtf32_Cons:
  "encodeUtf8 cp = Some b \<Longrightarrow> Utf8ToUtf32 (b @ r) = map_option ((#) cp) (Utf8ToUtf32 r)"
  using Utf8Next_encode[of cp b] by (subst Utf8ToUtf32.simps) auto

lemma utf8_decode_encode: "Utf32ToUtf8 s = Some b \<Longrightarrow> Utf8ToUtf32 b = Some s"
proof (induction s arbitrary: b)
  case Nil
  then show ?case by (simp add: Utf8ToUtf32.simps)
next
  case (Cons cp s)
  then show ?case by (auto simp: Utf8ToUtf32_Cons split: option.splits)
qed

lemma utf8_encode_decode: "Utf8ToUtf32 b = Some s \<Longrightarrow> Utf32ToUtf8 s = Some b"
proof (induction b arbitrary: s rule: Utf8ToUtf32.induct)
  case (1 input)
  show ?case
  proof (cases "input = []")
    case True
    then show ?thesis using "1.prems" by (simp add: Utf8ToUtf32.simps)
  next
    case False
    then obtain cp r s' where nxt: "Utf8Next input = Some (cp, r)" and s: "Utf8ToUtf32 r = Some s'" "s = cp # s'"
      using "1.prems" by (subst (asm) Utf8ToUtf32.simps) (auto split: option.splits)
    then obtain b where "encodeUtf8 cp = Some b" "input = b @ r" using encode_Utf8Next[OF False nxt] by blast
    then show ?thesis using "1.IH"[OF False nxt refl s(1)] s(2) by simp
  qed
qed

text \<open>C39. The two directions of the UTF-8 codec are inverse partial functions: a byte string decodes to a
  scalar string exactly when that scalar string encodes to it.  So a file has one decoding, overlong forms,
  surrogates and scalars past \<open>U+10FFFF\<close> have none, and nothing is written that is not read back.\<close>

theorem utf8_bijection: "Utf8ToUtf32 b = Some s \<longleftrightarrow> Utf32ToUtf8 s = Some b"
  using utf8_decode_encode utf8_encode_decode by blast

end
