(* ===== verification/LexiconText.thy ===== *)
theory LexiconText
  imports Utf8 LexiconWireProofs
begin

text \<open>
  The text side of the user lexicon: \<open>src/core/config/SpellExclusionCanonicalizer.cpp\<close> and
  \<open>src/core/config/LexiconValidation.cpp\<close>.

  A wide string is a UTF-16 string, as on Windows, a byte string a list of \<open>8 word\<close>.  The two calls
  of the system's Unicode library, \<open>NormalizeNfcUtf16\<close> and \<open>ToLowercaseUtf16\<close>, are the parameters
  \<open>nfc\<close> and \<open>lower\<close> of the definitions that use them; \<open>None\<close> is their failure.  A diagnostic
  message is the constructor that names it, with the numbers it prints.
\<close>

section \<open>UTF-16 with failures\<close>

definition unitsOf :: "nat \<Rightarrow> u16string" where
  "unitsOf cp =
    (if cp \<le> 0xFFFF then [word_of_nat cp]
     else let v = cp - 0x10000 in [word_of_nat (0xD800 + drop_bit 10 v), word_of_nat (0xDC00 + (v AND 0x3FF))])"

fun Utf32ToUtf16 :: "nat list \<Rightarrow> u16string option" where
  "Utf32ToUtf16 [] = Some []"
| "Utf32ToUtf16 (cp # r) =
    (if cp > 0x10FFFF \<or> 0xD800 \<le> cp \<and> cp \<le> 0xDFFF then None
     else map_option (\<lambda>units. unitsOf cp @ units) (Utf32ToUtf16 r))"

text \<open>The returned flag and the scalars written to the output, which stay there after a failure.\<close>

fun decodeUtf16 :: "u16string \<Rightarrow> bool \<times> nat list" where
  "decodeUtf16 [] = (True, [])"
| "decodeUtf16 (u # r) =
    (if 0xD800 \<le> u \<and> u \<le> 0xDBFF then
       (case r of
          [] \<Rightarrow> (False, [])
        | low # r' \<Rightarrow>
            if low < 0xDC00 \<or> low > 0xDFFF then (False, [])
            else case decodeUtf16 r' of (ok, s) \<Rightarrow>
              (ok, (0x10000 + push_bit 10 (unat u - 0xD800) + (unat low - 0xDC00)) # s))
     else if 0xDC00 \<le> u \<and> u \<le> 0xDFFF then (False, [])
     else case decodeUtf16 r of (ok, s) \<Rightarrow> (ok, unat u # s))"

definition Utf16ToUtf32 :: "u16string \<Rightarrow> nat list option" where
  "Utf16ToUtf32 input = (case decodeUtf16 input of (ok, output) \<Rightarrow> if ok then Some output else None)"

text \<open>The private copies of the two conversions, on vectors of units.\<close>

definition ScalarsToUtf16Units :: "nat list \<Rightarrow> u16string option" where
  "ScalarsToUtf16Units scalars' = Utf32ToUtf16 scalars'"

definition Utf16UnitsToScalars :: "u16string \<Rightarrow> nat list option" where
  "Utf16UnitsToScalars units' = Utf16ToUtf32 units'"

section \<open>Lines and white space\<close>

text \<open>\<open>SplitLines\<close> and \<open>SplitLinesWide\<close> of the canonicalizer: a line ends at a carriage return, a
  line feed or the two together; the rest after the last break is a line when it is not empty.\<close>

function SplitLinesAt :: "'c::len word list \<Rightarrow> 'c word list list" where
  "SplitLinesAt s =
    (if s = [] then []
     else case dropWhile (\<lambda>c. c \<noteq> 13 \<and> c \<noteq> 10) s of
       [] \<Rightarrow> [s]
     | c # r \<Rightarrow>
         takeWhile (\<lambda>c. c \<noteq> 13 \<and> c \<noteq> 10) s #
         SplitLinesAt (if c = 13 \<and> r \<noteq> [] \<and> hd r = 10 then tl r else r))"
  by pat_completeness auto
termination
proof (relation "measure length", goal_cases)
  case (2 s c r)
  then have "length (c # r) \<le> length s" using length_dropWhile_le[of _ s] by metis
  then show ?case by (cases r) auto
qed simp

declare SplitLinesAt.simps [simp del]

text \<open>\<open>SplitLines\<close> of the validator: carriage returns are skipped wherever they stand.\<close>

fun splitStep :: "u8string \<Rightarrow> u8string \<Rightarrow> u8string list \<Rightarrow> u8string \<times> u8string list" where
  "splitStep [] current lines = (current, lines)"
| "splitStep (ch # r) current lines =
    (if ch = 13 then splitStep r current lines
     else if ch = 10 then splitStep r [] (lines @ [current])
     else splitStep r (current @ [ch]) lines)"

definition SplitLines :: "u8string \<Rightarrow> u8string list" where
  "SplitLines t =
    (case splitStep t [] [] of (current, lines) \<Rightarrow>
       if current \<noteq> [] \<or> t \<noteq> [] \<and> last t = 10 then lines @ [current] else lines)"

definition IsUnicodeWhitespace :: "nat \<Rightarrow> bool" where
  "IsUnicodeWhitespace cp \<longleftrightarrow>
    cp \<in> {0x0009, 0x000A, 0x000B, 0x000C, 0x000D, 0x0020, 0x0085, 0x00A0, 0x1680,
          0x2000, 0x2001, 0x2002, 0x2003, 0x2004, 0x2005, 0x2006, 0x2007, 0x2008, 0x2009, 0x200A,
          0x2028, 0x2029, 0x202F, 0x205F, 0x3000}"

definition IsUnicodeControl :: "nat \<Rightarrow> bool" where
  "IsUnicodeControl cp \<longleftrightarrow> cp \<le> 0x1F \<or> (0x7F \<le> cp \<and> cp \<le> 0x9F)"

definition TrimWhitespace :: "nat list \<Rightarrow> nat list" where
  "TrimWhitespace input = rev (dropWhile IsUnicodeWhitespace (rev (dropWhile IsUnicodeWhitespace input)))"

section \<open>Spell exclusions\<close>

abbreviation (input) kMaxSpellExclusionRows :: nat where "kMaxSpellExclusionRows \<equiv> 8"
abbreviation (input) kMinSpellExclusionScalars :: nat where "kMinSpellExclusionScalars \<equiv> 2"
abbreviation (input) kMaxSpellExclusionScalars :: nat where "kMaxSpellExclusionScalars \<equiv> 128"

datatype SpellExclusionErrorKind = NoExclusionError | TooManyEntries | TooShort | TooLong | InvalidEntry

datatype ExclusionMessage =
    InvalidScalar nat | NotNormalized nat | NotLowercased nat | InvalidSurrogates nat | InvalidUtf8Bytes nat
  | ShorterThan2 nat | ExceedsScalarCap nat nat | WhitespaceOrControl nat | NotEncoded nat | ExceedsEntryCap nat

record SpellExclusionError =
  errKind :: SpellExclusionErrorKind
  errRow :: nat
  errCount :: nat
  errScalars :: nat
  errText :: ExclusionMessage

definition rowError :: "SpellExclusionErrorKind \<Rightarrow> nat \<Rightarrow> ExclusionMessage \<Rightarrow> SpellExclusionError" where
  "rowError k row' msg = \<lparr>errKind = k, errRow = row', errCount = 0, errScalars = 0, errText = msg\<rparr>"

type_synonym unicode = "u16string \<Rightarrow> u16string option"

definition NormalizeAndValidate ::
    "unicode \<Rightarrow> unicode \<Rightarrow> nat list \<Rightarrow> nat \<Rightarrow> SpellExclusionError + u8string \<times> u16string" where
  "NormalizeAndValidate nfc lower input row' =
    (case ScalarsToUtf16Units (TrimWhitespace input) of
       None \<Rightarrow> Inl (rowError InvalidEntry row' (InvalidScalar row'))
     | Some u16in \<Rightarrow>
     case nfc u16in of
       None \<Rightarrow> Inl (rowError InvalidEntry row' (NotNormalized row'))
     | Some nfc1 \<Rightarrow>
     case lower nfc1 of
       None \<Rightarrow> Inl (rowError InvalidEntry row' (NotLowercased row'))
     | Some lowered \<Rightarrow>
     case nfc lowered of
       None \<Rightarrow> Inl (rowError InvalidEntry row' (NotNormalized row'))
     | Some nfc2 \<Rightarrow>
     case Utf16UnitsToScalars nfc2 of
       None \<Rightarrow> Inl (rowError InvalidEntry row' (InvalidSurrogates row'))
     | Some finalScalars \<Rightarrow>
       if length finalScalars < kMinSpellExclusionScalars then
         Inl ((rowError TooShort row' (ShorterThan2 row'))\<lparr>errScalars := length finalScalars\<rparr>)
       else if length finalScalars > kMaxSpellExclusionScalars then
         Inl ((rowError TooLong row' (ExceedsScalarCap row' (length finalScalars)))\<lparr>errScalars := length finalScalars\<rparr>)
       else if list_ex (\<lambda>scalar. IsUnicodeWhitespace scalar \<or> IsUnicodeControl scalar) finalScalars then
         Inl (rowError InvalidEntry row' (WhitespaceOrControl row'))
       else case (Utf32ToUtf8 finalScalars, Utf32ToUtf16 finalScalars) of
         (Some outUtf8, Some outUtf16) \<Rightarrow> Inr (outUtf8, outUtf16)
       | _ \<Rightarrow> Inl (rowError InvalidEntry row' (NotEncoded row')))"

text \<open>The loop over the entries; \<open>decode\<close> and \<open>undecodable\<close> are the conversion and the message of the
  two overloads.\<close>

fun canonicalItems ::
    "unicode \<Rightarrow> unicode \<Rightarrow> ('e \<Rightarrow> nat list option) \<Rightarrow> (nat \<Rightarrow> ExclusionMessage) \<Rightarrow> nat \<Rightarrow> 'e list \<Rightarrow>
     SpellExclusionError + (u8string \<times> u16string) list" where
  "canonicalItems nfc lower decode undecodable i [] = Inr []"
| "canonicalItems nfc lower decode undecodable i (entry # entries) =
    (case decode entry of
       None \<Rightarrow> Inl (rowError InvalidEntry (i + 1) (undecodable (i + 1)))
     | Some scalars' \<Rightarrow>
     case NormalizeAndValidate nfc lower scalars' (i + 1) of
       Inl e \<Rightarrow> Inl e
     | Inr item \<Rightarrow>
     case canonicalItems nfc lower decode undecodable (i + 1) entries of
       Inl e \<Rightarrow> Inl e
     | Inr items \<Rightarrow> Inr (item # items))"

record SpellExclusionCanonicalResult =
  wideEntries :: "u16string list"
  utf8Entries :: "u8string list"

definition finishCanonical :: "(u8string \<times> u16string) list \<Rightarrow> SpellExclusionError + SpellExclusionCanonicalResult" where
  "finishCanonical items =
    (let items' = stdUnique (\<lambda>a b. fst a = fst b) (stdSort (\<lambda>a b. fst a < fst b) items)
     in if length items' > kMaxSpellExclusionRows then
          Inl \<lparr>errKind = TooManyEntries, errRow = 0, errCount = length items', errScalars = 0,
               errText = ExceedsEntryCap (length items')\<rparr>
        else Inr \<lparr>wideEntries = map snd items', utf8Entries = map fst items'\<rparr>)"

definition canonicalizeWith ::
    "unicode \<Rightarrow> unicode \<Rightarrow> ('e \<Rightarrow> nat list option) \<Rightarrow> (nat \<Rightarrow> ExclusionMessage) \<Rightarrow> 'e list \<Rightarrow>
     SpellExclusionError + SpellExclusionCanonicalResult" where
  "canonicalizeWith nfc lower decode undecodable entries =
    (case canonicalItems nfc lower decode undecodable 0 entries of
       Inl e \<Rightarrow> Inl e
     | Inr items \<Rightarrow> finishCanonical items)"

definition Canonicalize ::
    "unicode \<Rightarrow> unicode \<Rightarrow> u16string list \<Rightarrow> SpellExclusionError + SpellExclusionCanonicalResult" where
  "Canonicalize nfc lower entries = canonicalizeWith nfc lower Utf16ToUtf32 InvalidSurrogates entries"

definition CanonicalizeUtf8 ::
    "unicode \<Rightarrow> unicode \<Rightarrow> u8string list \<Rightarrow> SpellExclusionError + SpellExclusionCanonicalResult" where
  "CanonicalizeUtf8 nfc lower entries = canonicalizeWith nfc lower Utf8ToUtf32 InvalidUtf8Bytes entries"

definition CanonicalizeFromText ::
    "unicode \<Rightarrow> unicode \<Rightarrow> u16string \<Rightarrow> SpellExclusionError + SpellExclusionCanonicalResult" where
  "CanonicalizeFromText nfc lower t = Canonicalize nfc lower (SplitLinesAt t)"

definition CanonicalizeFromUtf8Text ::
    "unicode \<Rightarrow> unicode \<Rightarrow> u8string \<Rightarrow> SpellExclusionError + SpellExclusionCanonicalResult" where
  "CanonicalizeFromUtf8Text nfc lower t = CanonicalizeUtf8 nfc lower (SplitLinesAt t)"

section \<open>User dictionary\<close>

abbreviation (input) kMaxUserDictEntries :: nat where "kMaxUserDictEntries \<equiv> 1024"
abbreviation (input) kMaxUserDictWordScalars :: nat where "kMaxUserDictWordScalars \<equiv> 64"
abbreviation (input) kMaxUserDictUtf16Units :: nat where "kMaxUserDictUtf16Units \<equiv> 65536"

datatype LexiconMessage =
    WordBadSurrogate nat | WordEmpty nat | WordHasSpace nat | WordHasControl nat | WordHasReplacement nat
  | WordTooLong nat nat | WordNotUtf16 nat | WordNotNormalized nat | WordTooLongNormalized nat
  | ExclusionTooShort nat | ExclusionTooLong nat | ExclusionOther nat ExclusionMessage
  | LineNotUtf8 nat | LineNotUtf16 nat | TooManyWords nat | TooManyUnits | TooManyExclusions nat
  | CanonicalMessage ExclusionMessage

text \<open>A failed \<open>LexiconValidationResult\<close>: the line, 0 for an error of the whole file, and the message.\<close>

record LexiconError =
  errorLine :: nat
  errorMessage :: LexiconMessage

definition lineError :: "nat \<Rightarrow> LexiconMessage \<Rightarrow> LexiconError" where
  "lineError n msg = \<lparr>errorLine = n, errorMessage = msg\<rparr>"

text \<open>The loop over the scalars of a word.\<close>

fun scalarsError :: "nat \<Rightarrow> nat list \<Rightarrow> LexiconMessage option" where
  "scalarsError n [] = None"
| "scalarsError n (scalar # r) =
    (if IsUnicodeWhitespace scalar then Some (WordHasSpace n)
     else if IsUnicodeControl scalar then Some (WordHasControl n)
     else if scalar = 0xFFFD then Some (WordHasReplacement n)
     else scalarsError n r)"

definition orKeep :: "unicode \<Rightarrow> u16string \<Rightarrow> u16string" where
  "orKeep f s = (case f s of None \<Rightarrow> s | Some s' \<Rightarrow> s')"

definition CanonicalizeUserWord :: "unicode \<Rightarrow> unicode \<Rightarrow> u16string \<Rightarrow> nat \<Rightarrow> LexiconError + u16string" where
  "CanonicalizeUserWord nfc lower input lineNum =
    (case Utf16ToUtf32 input of
       None \<Rightarrow> Inl (lineError lineNum (WordBadSurrogate lineNum))
     | Some decoded \<Rightarrow>
     let u32 = TrimWhitespace decoded in
     if u32 = [] then Inl (lineError lineNum (WordEmpty lineNum))
     else case scalarsError lineNum u32 of
       Some msg \<Rightarrow> Inl (lineError lineNum msg)
     | None \<Rightarrow>
     if length u32 > kMaxUserDictWordScalars then Inl (lineError lineNum (WordTooLong lineNum (length u32)))
     else case Utf32ToUtf16 u32 of
       None \<Rightarrow> Inl (lineError lineNum (WordNotUtf16 lineNum))
     | Some utf16 \<Rightarrow>
     let nfc1 = orKeep nfc utf16;
         lower1 = orKeep lower nfc1;
         nfc2 = orKeep nfc lower1
     in case Utf16ToUtf32 nfc2 of
          None \<Rightarrow> Inl (lineError lineNum (WordNotNormalized lineNum))
        | Some finalU32 \<Rightarrow>
          if finalU32 = [] then Inl (lineError lineNum (WordEmpty lineNum))
          else if length finalU32 > kMaxUserDictWordScalars then Inl (lineError lineNum (WordTooLongNormalized lineNum))
          else Inr nfc2)"

definition ValidateUserDictWord :: "unicode \<Rightarrow> unicode \<Rightarrow> u16string \<Rightarrow> nat \<Rightarrow> LexiconError + u16string" where
  "ValidateUserDictWord nfc lower word' lineNum = CanonicalizeUserWord nfc lower word' lineNum"

definition ValidateSpellExclusionWord :: "unicode \<Rightarrow> unicode \<Rightarrow> u16string \<Rightarrow> nat \<Rightarrow> LexiconError + u16string" where
  "ValidateSpellExclusionWord nfc lower word' lineNum =
    (case Utf16ToUtf32 word' of
       None \<Rightarrow> Inl (lineError lineNum (WordBadSurrogate lineNum))
     | Some decoded \<Rightarrow>
     case NormalizeAndValidate nfc lower (TrimWhitespace decoded) lineNum of
       Inl err \<Rightarrow>
         Inl (lineError lineNum
           (if errKind err = TooShort then ExclusionTooShort lineNum
            else if errKind err = TooLong then ExclusionTooLong lineNum
            else ExclusionOther lineNum (errText err)))
     | Inr (utf8, utf16) \<Rightarrow> Inr utf16)"

section \<open>Text files\<close>

text \<open>The loop over the lines of both parsers; \<open>comment\<close> decides from the first scalar whether a line is
  ignored, \<open>validate\<close> normalizes the word of a line.\<close>

fun parseLines ::
    "(nat \<Rightarrow> bool) \<Rightarrow> (u16string \<Rightarrow> nat \<Rightarrow> LexiconError + u16string) \<Rightarrow> nat \<Rightarrow> u8string list \<Rightarrow>
     LexiconError + u16string list" where
  "parseLines comment validate i [] = Inr []"
| "parseLines comment validate i (line # lines) =
    (case Utf8ToUtf32 line of
       None \<Rightarrow> Inl (lineError (i + 1) (LineNotUtf8 (i + 1)))
     | Some decoded \<Rightarrow>
     let u32 = TrimWhitespace decoded in
     if u32 = [] \<or> comment (hd u32) then parseLines comment validate (i + 1) lines
     else case Utf32ToUtf16 u32 of
       None \<Rightarrow> Inl (lineError (i + 1) (LineNotUtf16 (i + 1)))
     | Some lineUtf16 \<Rightarrow>
     case validate lineUtf16 (i + 1) of
       Inl e \<Rightarrow> Inl e
     | Inr normalized \<Rightarrow>
     case parseLines comment validate (i + 1) lines of
       Inl e \<Rightarrow> Inl e
     | Inr words \<Rightarrow> Inr (normalized # words))"

text \<open>The words that are new to the list they are appended to; the set \<open>seen\<close> of the dictionary parser
  holds exactly the words of that list.\<close>

fun appendNew :: "u16string list \<Rightarrow> u16string list \<Rightarrow> nat \<Rightarrow> nat \<Rightarrow> u16string list \<times> nat \<times> nat" where
  "appendNew combined [] added dupes = (combined, added, dupes)"
| "appendNew combined (w # ws) added dupes =
    (if w \<notin> set combined then appendNew (combined @ [w]) ws (added + 1) dupes
     else appendNew combined ws added (dupes + 1))"

text \<open>The conversion for the files ignores both returned flags: of a word that is no UTF-16 the scalars
  before the error are written.  What was decoded can always be encoded.\<close>

definition toUtf8 :: "u16string \<Rightarrow> u8string" where
  "toUtf8 w = (case Utf32ToUtf8 (snd (decodeUtf16 w)) of None \<Rightarrow> [] | Some u8 \<Rightarrow> u8)"

record LexiconImportResult =
  importEntries :: "u16string list"
  addedCount :: nat
  duplicateCount :: nat

definition ParseAndValidateUserDictText ::
    "unicode \<Rightarrow> unicode \<Rightarrow> u8string \<Rightarrow> u16string list option \<Rightarrow> bool \<Rightarrow> LexiconError + LexiconImportResult" where
  "ParseAndValidateUserDictText nfc lower utf8Content existingEntries appendMode =
    (case parseLines (\<lambda>c. c = 0x23) (ValidateUserDictWord nfc lower) 0 (SplitLines utf8Content) of
       Inl e \<Rightarrow> Inl e
     | Inr parsedWords \<Rightarrow>
     let combined0 =
       (case existingEntries of Some ws \<Rightarrow> if appendMode then fst (appendNew [] ws 0 0) else [] | None \<Rightarrow> [])
     in case appendNew combined0 parsedWords 0 0 of (combined, added, dupes) \<Rightarrow>
       if length combined > kMaxUserDictEntries then Inl (lineError 0 (TooManyWords (length combined)))
       else if sum_list (map length combined) > kMaxUserDictUtf16Units then Inl (lineError 0 TooManyUnits)
       else Inr \<lparr>importEntries = map snd (stdSort (\<lambda>a b. fst a < fst b) (map (\<lambda>w. (toUtf8 w, w)) combined)),
                 addedCount = added, duplicateCount = dupes\<rparr>)"

definition ParseAndValidateSpellExclusionsText ::
    "unicode \<Rightarrow> unicode \<Rightarrow> u8string \<Rightarrow> u16string list option \<Rightarrow> bool \<Rightarrow> LexiconError + LexiconImportResult" where
  "ParseAndValidateSpellExclusionsText nfc lower utf8Content existingEntries appendMode =
    (case parseLines (\<lambda>c. c = 0x3B \<or> c = 0x23) (ValidateSpellExclusionWord nfc lower) 0 (SplitLines utf8Content) of
       Inl e \<Rightarrow> Inl e
     | Inr parsedExclusions \<Rightarrow>
     let candidate0 = (case existingEntries of Some ws \<Rightarrow> if appendMode then ws else [] | None \<Rightarrow> [])
     in case appendNew candidate0 parsedExclusions 0 0 of (candidateList, added, dupes) \<Rightarrow>
       case Canonicalize nfc lower candidateList of
         Inl err \<Rightarrow>
           Inl (lineError 0
             (if errKind err = TooManyEntries then TooManyExclusions (errCount err)
              else CanonicalMessage (errText err)))
       | Inr canonical \<Rightarrow>
           Inr \<lparr>importEntries = wideEntries canonical, addedCount = added, duplicateCount = dupes\<rparr>)"

definition bytesOf :: "string \<Rightarrow> u8string" where
  "bytesOf s = map (\<lambda>c. of_char c) s"

definition userDictHeader :: u8string where
  "userDictHeader = bytesOf ''# VKey User Dictionary'' @ [10] @ bytesOf ''# One word per line'' @ [10]"

definition exclusionsHeader :: u8string where
  "exclusionsHeader =
    bytesOf ''# VKey Spell Exclusions'' @ [10] @ bytesOf ''# One exclusion prefix per line (max 8)'' @ [10]"

definition FormatUserDictText :: "u16string list \<Rightarrow> u8string" where
  "FormatUserDictText entries = userDictHeader @ concat (map (\<lambda>w. toUtf8 w @ [10]) entries)"

definition FormatSpellExclusionsText :: "u16string list \<Rightarrow> u8string" where
  "FormatSpellExclusionsText entries = exclusionsHeader @ concat (map (\<lambda>w. toUtf8 w @ [10]) entries)"

end
