(* ===== verification/LexiconTextProofs.thy ===== *)
theory LexiconTextProofs
  imports LexiconText LexiconWireProps
begin

text \<open>
  What the text side of the lexicon guarantees: the two encodings agree on validity and on order, the
  canonical exclusions are what the wire serializer asks of its rows, and the user dictionary survives
  the way through its text file.
\<close>

section \<open>UTF-16\<close>

lemma surrogate_unit: "isSurrogateScalar (unat c) \<longleftrightarrow> isHighSurrogate c \<or> isLowSurrogate (c :: u16)"
  by (auto simp: isSurrogateScalar_def isHighSurrogate_def isLowSurrogate_def word_le_nat_alt)

lemma surrogate_disjoint: "isHighSurrogate c \<Longrightarrow> \<not> isLowSurrogate c"
  by (auto simp: isHighSurrogate_def isLowSurrogate_def word_le_nat_alt)

lemma surrogate_pair:
  assumes "isHighSurrogate c1" "isLowSurrogate c2"
  shows "\<not> isSurrogateScalar (pairScalar c1 c2)"
    "0x10000 + push_bit 10 (unat c1 - 0xD800) + (unat c2 - 0xDC00) = pairScalar c1 c2"
  by (simp_all add: isSurrogateScalar_def pairScalar_eq[OF assms] push_bit_eq_mult)

lemma not_low: "c < 0xDC00 \<or> c > 0xDFFF \<longleftrightarrow> \<not> isLowSurrogate c"
  by (auto simp: isLowSurrogate_def)

lemma decodeUtf16_simps:
  "decodeUtf16 [c] = (if isHighSurrogate c \<or> isLowSurrogate c then (False, []) else (True, [unat c]))"
  "decodeUtf16 (c1 # c2 # s) =
    (if isHighSurrogate c1 then
       if isLowSurrogate c2 then
         (fst (decodeUtf16 s), (0x10000 + push_bit 10 (unat c1 - 0xD800) + (unat c2 - 0xDC00)) # snd (decodeUtf16 s))
       else (False, [])
     else if isLowSurrogate c1 then (False, [])
     else (fst (decodeUtf16 (c2 # s)), unat c1 # snd (decodeUtf16 (c2 # s))))"
  by (simp_all add: decodeUtf16.simps(2)[of c "[]"] decodeUtf16.simps(2)[of c1 "c2 # s"] isHighSurrogate_def[symmetric]
      isLowSurrogate_def[symmetric] not_low del: decodeUtf16.simps(2) split: prod.split)

declare decodeUtf16.simps(2) [simp del]

lemma decodeUtf16_both:
  "(fst (decodeUtf16 s) \<longleftrightarrow> \<not> HasInvalidSurrogates s) \<and>
   (fst (decodeUtf16 s) \<longrightarrow> snd (decodeUtf16 s) = U16ToWString s)"
proof (induction s rule: scalars_induct)
  case (Single c)
  then show ?case by (simp add: decodeUtf16_simps HasInvalidSurrogates_iff surrogate_unit)
next
  case (Pair c1 c2 s)
  then show ?case
    by (simp add: decodeUtf16_simps surrogate_pair[OF Pair(1,2)] HasInvalidSurrogates_iff)
next
  case (Unit c1 c2 s)
  then show ?case
    using surrogate_disjoint[of c1] by (auto simp: decodeUtf16_simps HasInvalidSurrogates_iff surrogate_unit)
qed simp

lemmas decodeUtf16_eq = decodeUtf16_both[THEN conjunct1] decodeUtf16_both[THEN conjunct2, rule_format]

lemma Utf16ToUtf32_eq: "Utf16ToUtf32 s = (if HasInvalidSurrogates s then None else Some (U16ToWString s))"
  using decodeUtf16_eq[of s] by (auto simp: Utf16ToUtf32_def split: prod.splits)

lemma unitsOf_eq: "isScalarValue cp \<Longrightarrow> unitsOf cp = encodeScalar cp"
  by (auto simp: unitsOf_def encodeScalar_def isScalarValue_def isSurrogateScalar_def Let_def)

lemma Utf32ToUtf16_eq: "Utf32ToUtf16 cs = (if list_all isScalarValue cs then Some (WStringToU16 cs) else None)"
  by (induction cs)
    (auto simp: WStringToU16_def unitsOf_eq isScalarValue_def isSurrogateScalar_def not_less not_le)

lemma scalarValues_iff: "list_all isScalarValue (U16ToWString s) \<longleftrightarrow> \<not> HasInvalidSurrogates s"
  using scalars_le[of _ s] by (auto simp: HasInvalidSurrogates_iff isScalarValue_def list_all_iff)

lemma Utf16_bijection: "Utf16ToUtf32 s = Some cs \<longleftrightarrow> Utf32ToUtf16 cs = Some s"
proof
  assume "Utf16ToUtf32 s = Some cs"
  then have "\<not> HasInvalidSurrogates s" "cs = U16ToWString s" by (simp_all add: Utf16ToUtf32_eq split: if_splits)
  then show "Utf32ToUtf16 cs = Some s" by (metis Utf32ToUtf16_eq scalarValues_iff WStringToU16_scalars)
next
  assume "Utf32ToUtf16 cs = Some s"
  then have c: "list_all isScalarValue cs" "s = WStringToU16 cs" by (simp_all add: Utf32ToUtf16_eq split: if_splits)
  then have "U16ToWString s = cs" by (simp add: scalars_WStringToU16 filter_id_conv list_all_iff)
  then show "Utf16ToUtf32 s = Some cs" using c(1) scalarValues_iff[of s] by (simp add: Utf16ToUtf32_eq)
qed

lemma Utf32ToUtf8_iff: "(\<exists>b. Utf32ToUtf8 cs = Some b) \<longleftrightarrow> list_all isScalarValue cs"
  by (induction cs) (auto simp: encodeUtf8_def isScalarValue_def isSurrogateScalar_def split: option.splits)

section \<open>UTF-8 order\<close>

lemma byteOf_less: "a < 256 \<Longrightarrow> b < 256 \<Longrightarrow> byteOf a < byteOf b \<longleftrightarrow> a < b"
  "a < 256 \<Longrightarrow> b < 256 \<Longrightarrow> byteOf a = byteOf b \<longleftrightarrow> a = b"
  by (metis unat_of_byte word_less_nat_alt) (metis unat_of_byte)

lemma digits_less:
  fixes a b n :: nat
  assumes "a < b"
  shows "a div n < b div n \<or> a div n = b div n \<and> a mod n < b mod n"
proof (cases "a div n = b div n")
  case True
  then have "a mod n < b mod n" using assms by (metis div_mult_mod_eq nat_add_left_cancel_less)
  then show ?thesis using True by simp
next
  case False
  then show ?thesis using assms by (simp add: div_le_mono le_neq_implies_less)
qed


lemma byteOf_prefix:
  "c + a < 256 \<Longrightarrow> c + b < 256 \<Longrightarrow> byteOf (c + a) < byteOf (c + b) \<longleftrightarrow> a < b"
  "c + a < 256 \<Longrightarrow> c + b < 256 \<Longrightarrow> byteOf (c + a) = byteOf (c + b) \<longleftrightarrow> a = b"
  by (simp_all add: byteOf_less)

text \<open>The digits of a scalar in base 64 decide the order of its bytes, for one to four bytes.\<close>

lemma bytes_less:
  fixes u u' :: u8string
  assumes "f + a < 256" "f + a' < 256" "b < 64" "b' < 64" "c < 64" "c' < 64" "d < 64" "d' < 64"
  shows "a < a' \<or> a = a' \<and> b < b' \<Longrightarrow>
     byteOf (f + a) # byteOf (0x80 + b) # u < byteOf (f + a') # byteOf (0x80 + b') # u'"
    "a < a' \<or> a = a' \<and> (b < b' \<or> b = b' \<and> c < c') \<Longrightarrow>
     byteOf (f + a) # byteOf (0x80 + b) # byteOf (0x80 + c) # u <
     byteOf (f + a') # byteOf (0x80 + b') # byteOf (0x80 + c') # u'"
    "a < a' \<or> a = a' \<and> (b < b' \<or> b = b' \<and> (c < c' \<or> c = c' \<and> d < d')) \<Longrightarrow>
     byteOf (f + a) # byteOf (0x80 + b) # byteOf (0x80 + c) # byteOf (0x80 + d) # u <
     byteOf (f + a') # byteOf (0x80 + b') # byteOf (0x80 + c') # byteOf (0x80 + d') # u'"
  using assms by (auto simp: byteOf_prefix)

lemma sextets: "n mod 64 < (64 :: nat)" "(0 :: nat) < 64"
  by simp_all

definition utf8Width :: "nat \<Rightarrow> nat" where
  "utf8Width cp = (if cp \<le> 0x7F then 1 else if cp \<le> 0x7FF then 2 else if cp \<le> 0xFFFF then 3 else 4)"

definition utf8Lead :: "nat \<Rightarrow> nat" where
  "utf8Lead cp = (if cp \<le> 0x7F then cp else if cp \<le> 0x7FF then 0xC0 + cp div 64
     else if cp \<le> 0xFFFF then 0xE0 + cp div 4096 else 0xF0 + cp div 262144)"

lemma encodeUtf8_lead:
  assumes "encodeUtf8 cp = Some x"
  shows "hd x = byteOf (utf8Lead cp)" "x \<noteq> []" "cp \<le> 0x10FFFF"
  using assms by (auto simp: encodeUtf8_arith utf8Lead_def split: if_splits)

lemma div_bounds:
  "n \<le> 0x7FF \<Longrightarrow> n div 64 < 32" "n \<le> 0xFFFF \<Longrightarrow> n div 4096 < 16" "n \<le> 0x10FFFF \<Longrightarrow> n div 262144 < (5 :: nat)"
  by (simp_all add: less_mult_imp_div_less)

lemma utf8Lead_width:
  assumes "a \<le> 0x10FFFF" "b \<le> 0x10FFFF" "utf8Width a < utf8Width b"
  shows "utf8Lead a < utf8Lead b" "utf8Lead a < 256" "utf8Lead b < 256"
  using assms div_bounds[of a] div_bounds[of b] by (auto simp: utf8Width_def utf8Lead_def split: if_splits)

lemma encodeUtf8_less_width:
  assumes "encodeUtf8 a = Some x" "encodeUtf8 b = Some y" "utf8Width a < utf8Width b"
  shows "x @ r < y @ r'"
proof -
  obtain x' y' where "x = byteOf (utf8Lead a) # x'" "y = byteOf (utf8Lead b) # y'"
    using encodeUtf8_lead[OF assms(1)] encodeUtf8_lead[OF assms(2)] by (metis list.collapse)
  then show ?thesis
    using utf8Lead_width[OF encodeUtf8_lead(3)[OF assms(1)] encodeUtf8_lead(3)[OF assms(2)] assms(3)]
    by (simp add: byteOf_less)
qed

lemma encodeUtf8_less_same:
  assumes "encodeUtf8 a = Some x" "encodeUtf8 b = Some y" "utf8Width a = utf8Width b" "a < b"
  shows "x @ r < y @ r'"
proof -
  have v: "b \<le> 0x10FFFF" "\<not> (0xD800 \<le> a \<and> a \<le> 0xDFFF)" "\<not> (0xD800 \<le> b \<and> b \<le> 0xDFFF)"
    using assms(1,2) by (auto simp: encodeUtf8_def split: if_splits)
  have two: "n div 64 div 64 = n div 4096" "n div 4096 div 64 = n div 262144" for n :: nat by (simp_all add: div_mult2_eq[symmetric])
  have same: "a div 64 = b div 64 \<Longrightarrow> a div 4096 = b div 4096" "a div 4096 = b div 4096 \<Longrightarrow> a div 262144 = b div 262144"
    by (metis two(1)) (metis two(2))
  note steps = digits_less[OF assms(4), of 64]
    digits_less[of "a div 64" "b div 64" 64, unfolded two] digits_less[of "a div 4096" "b div 4096" 64, unfolded two]
  consider (1) "b \<le> 0x7F" | (2) "0x7F < b" "b \<le> 0x7FF" | (3) "0x7FF < b" "b \<le> 0xFFFF" | (4) "0xFFFF < b" by linarith
  then show ?thesis
  proof cases
    case 1
    then show ?thesis using assms by (auto simp: encodeUtf8_arith byteOf_less)
  next
    case 2
    then have w: "0x7F < a" "a \<le> 0x7FF" using assms(3,4) by (auto simp: utf8Width_def split: if_splits)
    have "x = [byteOf (0xC0 + a div 64), byteOf (0x80 + a mod 64)]" "y = [byteOf (0xC0 + b div 64), byteOf (0x80 + b mod 64)]"
      using assms(1,2) 2 w by (simp_all add: encodeUtf8_arith)
    moreover have "0xC0 + a div 64 < 256" "0xC0 + b div 64 < 256" using div_bounds(1)[of a] div_bounds(1)[of b] 2 w by simp_all
    moreover have "a div 64 < b div 64 \<or> a div 64 = b div 64 \<and> a mod 64 < b mod 64" by (rule steps(1))
    ultimately show ?thesis by (simp only: append_Cons append_Nil bytes_less(1)[of _ _ _ _ _ 0 0 0 0] sextets)
  next
    case 3
    then have w: "0x7FF < a" "a \<le> 0xFFFF" using assms(3,4) by (auto simp: utf8Width_def split: if_splits)
    have "x = [byteOf (0xE0 + a div 4096), byteOf (0x80 + a div 64 mod 64), byteOf (0x80 + a mod 64)]"
      "y = [byteOf (0xE0 + b div 4096), byteOf (0x80 + b div 64 mod 64), byteOf (0x80 + b mod 64)]"
      using assms(1,2) 3 w v by (simp_all add: encodeUtf8_arith)
    moreover have "0xE0 + a div 4096 < 256" "0xE0 + b div 4096 < 256" using div_bounds(2)[of a] div_bounds(2)[of b] 3 w by simp_all
    moreover have "a div 4096 < b div 4096 \<or> a div 4096 = b div 4096 \<and>
      (a div 64 mod 64 < b div 64 mod 64 \<or> a div 64 mod 64 = b div 64 mod 64 \<and> a mod 64 < b mod 64)"
      using steps(1,2) same(1) by metis
    ultimately show ?thesis by (simp only: append_Cons append_Nil bytes_less(2)[of _ _ _ _ _ _ _ 0 0] sextets)
  next
    case 4
    then have w: "0xFFFF < a" using assms(3,4) by (auto simp: utf8Width_def split: if_splits)
    have "x = [byteOf (0xF0 + a div 262144), byteOf (0x80 + a div 4096 mod 64), byteOf (0x80 + a div 64 mod 64), byteOf (0x80 + a mod 64)]"
      "y = [byteOf (0xF0 + b div 262144), byteOf (0x80 + b div 4096 mod 64), byteOf (0x80 + b div 64 mod 64), byteOf (0x80 + b mod 64)]"
      using assms(1,2,4) 4 w v by (simp_all add: encodeUtf8_arith)
    moreover have "0xF0 + a div 262144 < 256" "0xF0 + b div 262144 < 256"
      using div_bounds(3)[of a] div_bounds(3)[of b] assms(4) v by simp_all
    moreover have "a div 262144 < b div 262144 \<or> a div 262144 = b div 262144 \<and>
      (a div 4096 mod 64 < b div 4096 mod 64 \<or> a div 4096 mod 64 = b div 4096 mod 64 \<and>
      (a div 64 mod 64 < b div 64 mod 64 \<or> a div 64 mod 64 = b div 64 mod 64 \<and> a mod 64 < b mod 64))"
      using steps same by metis
    ultimately show ?thesis by (simp only: append_Cons append_Nil bytes_less(3) sextets)
  qed
qed

lemma encodeUtf8_less:
  assumes "encodeUtf8 a = Some x" "encodeUtf8 b = Some y" "a < b"
  shows "x @ r < y @ r'"
proof -
  have "utf8Width a \<le> utf8Width b" using assms(3) by (simp add: utf8Width_def)
  then show ?thesis
    using encodeUtf8_less_width[OF assms(1,2)] encodeUtf8_less_same[OF assms(1,2) _ assms(3)] by (auto simp: le_less)
qed

lemma Utf32ToUtf8_less:
  "Utf32ToUtf8 a = Some x \<Longrightarrow> Utf32ToUtf8 b = Some y \<Longrightarrow> a < b \<Longrightarrow> x < y"
proof (induction a arbitrary: b x y)
  case Nil
  then obtain c b' where "b = c # b'" by (cases b) auto
  then obtain u v where "encodeUtf8 c = Some u" "y = u @ v" using Nil by (auto split: option.splits)
  then show ?case using Nil encodeUtf8_lead(2)[of c u] by (cases u) auto
next
  case (Cons c a)
  then obtain d b' where b: "b = d # b'" by (cases b) auto
  obtain u v u' v' where e: "encodeUtf8 c = Some u" "Utf32ToUtf8 a = Some u'" "x = u @ u'"
    "encodeUtf8 d = Some v" "Utf32ToUtf8 b' = Some v'" "y = v @ v'"
    using Cons.prems(1,2) b by (auto split: option.splits)
  show ?case
  proof (cases "c = d")
    case True
    then have "u' < v'" "u = v" using Cons.IH[OF e(2,5)] Cons.prems(3) b e by auto
    then show ?thesis by (simp add: e list_less_def lexord_append_leftI)
  next
    case False
    then show ?thesis using Cons.prems(3) b encodeUtf8_less[OF e(1,4)] by (simp add: e)
  qed
qed

lemma Utf32ToUtf8_order:
  assumes "Utf32ToUtf8 a = Some x" "Utf32ToUtf8 b = Some y"
  shows "x < y \<longleftrightarrow> a < b" "x = y \<longleftrightarrow> a = b"
proof -
  have e: "x = y \<Longrightarrow> a = b" using utf8_decode_encode[OF assms(1)] utf8_decode_encode[OF assms(2)] by simp
  then show "x = y \<longleftrightarrow> a = b" using assms by auto
  show "x < y \<longleftrightarrow> a < b"
    using Utf32ToUtf8_less[OF assms] Utf32ToUtf8_less[OF assms(2,1)] e
    by (cases a b rule: linorder_cases) (use assms in auto)
qed


section \<open>Sorting by a key\<close>

lemma sorted_insertBy_key:
  fixes f :: "'a \<Rightarrow> 'k::linorder"
  shows "sorted_wrt (\<lambda>a b. f a \<le> f b) xs \<Longrightarrow> sorted_wrt (\<lambda>a b. f a \<le> f b) (insertBy (\<lambda>a b. f a < f b) x xs)"
  by (induction xs) (auto simp: less_le_not_le intro: order_trans)

lemma sorted_stdSort_key:
  fixes f :: "'a \<Rightarrow> 'k::linorder"
  shows "sorted_wrt (\<lambda>a b. f a \<le> f b) (stdSort (\<lambda>a b. f a < f b) xs)"
  unfolding stdSort_def by (induction xs) (simp_all add: sorted_insertBy_key)

lemma length_stdSort [simp]: "length (stdSort lt xs) = length xs"
proof -
  have "length (insertBy lt x ys) = Suc (length ys)" for x ys by (induction ys) auto
  then show ?thesis unfolding stdSort_def by (induction xs) simp_all
qed

lemma stdUnique_subset: "set (stdUnique eq xs) \<subseteq> set xs"
  by (induction eq xs rule: stdUnique.induct) auto

lemma stdUnique_keys: "f ` set (stdUnique (\<lambda>a b. f a = f b) xs) = f ` set xs"
  by (induction "\<lambda>a b. f a = f b" xs rule: stdUnique.induct) auto

lemma sorted_stdUnique_key:
  fixes f :: "'a \<Rightarrow> 'k::linorder"
  shows "sorted_wrt (\<lambda>a b. f a \<le> f b) xs \<Longrightarrow> sorted_wrt (\<lambda>a b. f a < f b) (stdUnique (\<lambda>a b. f a = f b) xs)"
proof (induction "\<lambda>a b. f a = f b" xs rule: stdUnique.induct)
  case (1 x y ys)
  then show ?case
    using stdUnique_subset[of "\<lambda>a b. f a = f b" "y # ys"]
    by (cases "f x = f y") (auto simp: order_less_le intro: order_trans dest!: subsetD)
qed auto

text \<open>A strictly ordered list is sorted and without repetitions already.\<close>

lemma insertBy_less_all: "(\<And>y. y \<in> set ys \<Longrightarrow> lt x y) \<Longrightarrow> insertBy lt x ys = x # ys"
  by (cases ys) auto

lemma stdSort_sorted: "sorted_wrt lt xs \<Longrightarrow> stdSort lt xs = xs"
  by (induction xs) (simp_all add: stdSort_def insertBy_less_all)

lemma stdUnique_distinct: "sorted_wrt (\<lambda>a b. \<not> eq a b) xs \<Longrightarrow> stdUnique eq xs = xs"
  by (induction eq xs rule: stdUnique.induct) auto

section \<open>Canonical exclusions\<close>

lemma toUtf8_eq:
  assumes "\<not> HasInvalidSurrogates w"
  shows "Utf32ToUtf8 (U16ToWString w) = Some (toUtf8 w)"
proof -
  obtain b where b: "Utf32ToUtf8 (U16ToWString w) = Some b"
    using assms Utf32ToUtf8_iff scalarValues_iff by blast
  have "snd (decodeUtf16 w) = U16ToWString w" using assms decodeUtf16_eq by blast
  then show ?thesis using b by (simp add: toUtf8_def)
qed

lemma toUtf8_order:
  assumes "\<not> HasInvalidSurrogates v" "\<not> HasInvalidSurrogates w"
  shows "toUtf8 v < toUtf8 w \<longleftrightarrow> CompareUtf16ByUnicodeScalar v w < 0" "toUtf8 v = toUtf8 w \<longleftrightarrow> v = w"
  using Utf32ToUtf8_order[OF toUtf8_eq[OF assms(1)] toUtf8_eq[OF assms(2)]] by (simp_all add: Compare_less)

definition plainScalars :: "nat list \<Rightarrow> bool" where
  "plainScalars cs \<longleftrightarrow> list_all (\<lambda>c. \<not> IsUnicodeWhitespace c \<and> \<not> IsUnicodeControl c) cs"

definition canonicalItem :: "u8string \<times> u16string \<Rightarrow> bool" where
  "canonicalItem it \<longleftrightarrow> rowOk (snd it) \<and> fst it = toUtf8 (snd it) \<and> plainScalars (U16ToWString (snd it))"

lemma NormalizeAndValidate_item:
  assumes "NormalizeAndValidate nfc lower cs n = Inr it"
  shows "canonicalItem it" "NormalizeAndValidate nfc lower cs m = Inr it"
proof -
  from assms obtain fin where fin: "2 \<le> length fin" "length fin \<le> 128" "plainScalars fin"
    "Utf32ToUtf8 fin = Some (fst it)" "Utf32ToUtf16 fin = Some (snd it)"
    by (auto simp: NormalizeAndValidate_def plainScalars_def list_ex_iff list_all_iff not_less
      split: option.splits if_splits)
  then have u: "Utf16ToUtf32 (snd it) = Some fin" by (simp add: Utf16_bijection)
  then have v: "\<not> HasInvalidSurrogates (snd it)" "U16ToWString (snd it) = fin"
    by (simp_all add: Utf16ToUtf32_eq split: if_splits)
  then show "canonicalItem it"
    using fin toUtf8_eq[OF v(1)] by (simp add: canonicalItem_def rowOk_def CountUnicodeScalars_eq)
  show "NormalizeAndValidate nfc lower cs m = Inr it"
    using assms by (auto simp: NormalizeAndValidate_def split: option.splits if_splits)
qed

text \<open>The item an entry yields, whatever its row.\<close>

definition itemOf :: "unicode \<Rightarrow> unicode \<Rightarrow> ('e \<Rightarrow> nat list option) \<Rightarrow> 'e \<Rightarrow> (u8string \<times> u16string) option" where
  "itemOf nfc lower decode entry =
    (case decode entry of None \<Rightarrow> None | Some cs \<Rightarrow>
     (case NormalizeAndValidate nfc lower cs 0 of Inl _ \<Rightarrow> None | Inr it \<Rightarrow> Some it))"

lemma itemOf_canonical: "itemOf nfc lower decode entry = Some it \<Longrightarrow> canonicalItem it"
  by (auto simp: itemOf_def split: option.splits sum.splits dest: NormalizeAndValidate_item(1))

lemma itemOf_row:
  "itemOf nfc lower decode entry = Some it \<longleftrightarrow>
   (\<exists>cs. decode entry = Some cs \<and> NormalizeAndValidate nfc lower cs n = Inr it)"
  by (auto simp: itemOf_def split: option.splits sum.splits dest: NormalizeAndValidate_item(2)[where m = 0]
    NormalizeAndValidate_item(2)[where m = n])

lemma canonicalItems_iff:
  "canonicalItems nfc lower decode msg i entries = Inr items \<longleftrightarrow>
   map (itemOf nfc lower decode) entries = map Some items"
proof (induction entries arbitrary: i items)
  case (Cons entry entries)
  show ?case
  proof (cases "canonicalItems nfc lower decode msg (i + 1) entries")
    case (Inl e)
    then have "map (itemOf nfc lower decode) entries \<noteq> map Some its" for its using Cons.IH[of "i + 1" its] by simp
    then show ?thesis using Inl by (cases items) (auto split: option.splits sum.splits)
  next
    case (Inr its)
    then have "map (itemOf nfc lower decode) entries = map Some its" using Cons.IH[of "i + 1" its] by simp
    then show ?thesis
      using Inr by (cases items) (auto simp: itemOf_row[where n = "i + 1"] split: option.splits sum.splits)
  qed
qed auto

lemma canonicalItems_items:
  assumes "map (itemOf nfc lower decode) entries = map Some items" "it \<in> set items"
  shows "canonicalItem it"
proof -
  have "Some it \<in> set (map Some items)" using assms(2) by simp
  then show ?thesis unfolding assms(1)[symmetric] by (auto intro: itemOf_canonical[OF sym])
qed

lemma finishCanonical_Inr:
  assumes "finishCanonical items = Inr r"
  shows "\<exists>items'. sorted_wrt (\<lambda>a b. fst a < fst b) items' \<and> fst ` set items' = fst ` set items \<and>
     set items' \<subseteq> set items \<and> length items' \<le> 8 \<and> r = \<lparr>wideEntries = map snd items', utf8Entries = map fst items'\<rparr>"
  using assms stdUnique_subset[of "\<lambda>a b. fst a = fst b" "stdSort (\<lambda>a b. fst a < fst b) items"]
  by (intro exI[of _ "stdUnique (\<lambda>a b. fst a = fst b) (stdSort (\<lambda>a b. fst a < fst b) items)"])
    (auto simp: finishCanonical_def Let_def sorted_stdUnique_key sorted_stdSort_key stdUnique_keys split: if_splits)

lemma canonicalItem_inj: "canonicalItem x \<Longrightarrow> canonicalItem y \<Longrightarrow> fst x = fst y \<Longrightarrow> x = y"
  by (auto simp: canonicalItem_def rowOk_def toUtf8_order prod_eq_iff)

lemma finishCanonical_set:
  assumes "set xs = set ys" "\<And>it. it \<in> set xs \<Longrightarrow> canonicalItem it"
  shows "finishCanonical xs = finishCanonical ys"
proof -
  define u where "u = (\<lambda>zs. stdUnique (\<lambda>a b. fst a = fst b) (stdSort (\<lambda>a b. fst a < fst b) (zs :: (u8string \<times> u16string) list)))"
  have s: "sorted_wrt (\<lambda>a b. fst a < fst b) (u zs)" "fst ` set (u zs) = fst ` set zs" "set (u zs) \<subseteq> set zs" for zs
    using stdUnique_subset[of "\<lambda>a b. fst a = fst b" "stdSort (\<lambda>a b. fst a < fst b) zs"]
    by (simp_all add: u_def sorted_stdUnique_key sorted_stdSort_key stdUnique_keys)
  have m: "map fst (u xs) = map fst (u ys)"
    using s assms(1) by (intro strict_sorted_equal) (simp_all add: sorted_wrt_map)
  have "inj_on fst (set (u xs) \<union> set (u ys))"
  proof (rule inj_onI)
    fix x y assume "x \<in> set (u xs) \<union> set (u ys)" "y \<in> set (u xs) \<union> set (u ys)" "fst x = fst y"
    moreover from this have "x \<in> set xs" "y \<in> set xs" using s(3)[of xs] s(3)[of ys] assms(1) by auto
    ultimately show "x = y" using canonicalItem_inj assms(2) by blast
  qed
  with m have "u xs = u ys" by (rule map_inj_on)
  then show ?thesis unfolding finishCanonical_def u_def by (simp only:)
qed

lemma Canonicalize_set:
  assumes "set a = set b" "Canonicalize nfc lower a = Inr r"
  shows "Canonicalize nfc lower b = Inr r"
proof -
  let ?item = "itemOf nfc lower Utf16ToUtf32"
  obtain items where items: "map ?item a = map Some items" "finishCanonical items = Inr r"
    using assms(2) by (auto simp: Canonicalize_def canonicalizeWith_def canonicalItems_iff split: sum.splits)
  define items' where "items' = map (the \<circ> ?item) b"
  have "?item e = Some (the (?item e))" if "e \<in> set b" for e
  proof -
    have "?item e \<in> set (map ?item a)" using that assms(1) by simp
    then show ?thesis unfolding items(1) by auto
  qed
  then have b: "map ?item b = map Some items'" by (simp add: items'_def)
  then have "Some ` set items = Some ` set items'" using assms(1) items(1) by (metis set_map)
  then have "set items = set items'" by (simp add: inj_image_eq_iff)
  moreover have "canonicalItem it" if "it \<in> set items" for it using that canonicalItems_items[OF items(1)] by blast
  ultimately have "finishCanonical items' = Inr r" using finishCanonical_set[of items items'] items(2) by simp
  then show ?thesis
    using canonicalItems_iff[of nfc lower Utf16ToUtf32 InvalidSurrogates 0 b items'] b
    by (simp add: Canonicalize_def canonicalizeWith_def)
qed

text \<open>Neither the order nor the repetitions of the entries show in the canonical exclusions.\<close>

theorem canonical_order_free:
  assumes "set a = set b"
  shows "Canonicalize nfc lower a = Inr r \<longleftrightarrow> Canonicalize nfc lower b = Inr r"
  using Canonicalize_set[OF assms] Canonicalize_set[OF assms[symmetric]] by blast

end
