(* ===== verification/LexiconTextProps.thy ===== *)
theory LexiconTextProps
  imports LexiconTextProofs
begin

text \<open>
  The user dictionary and its text file: what is written can be read back, except for words that look
  like a comment; and the limits of the text side that the wire format does not share.
\<close>

section \<open>Lines\<close>

lemma splitStep_line:
  "10 \<notin> set l \<Longrightarrow> 13 \<notin> set l \<Longrightarrow> splitStep (l @ r) cur lines = splitStep r (cur @ l) lines"
  by (induction l arbitrary: cur) auto

lemma splitStep_lines:
  "(\<And>l. l \<in> set ls \<Longrightarrow> 10 \<notin> set l \<and> 13 \<notin> set l) \<Longrightarrow>
   splitStep (concat (map (\<lambda>l. l @ [10]) ls)) [] lines = ([], lines @ ls)"
  by (induction ls arbitrary: lines) (simp_all add: splitStep_line)

lemma SplitLines_lines:
  assumes "\<And>l. l \<in> set ls \<Longrightarrow> 10 \<notin> set l \<and> 13 \<notin> set l" "ls \<noteq> []"
  shows "SplitLines (concat (map (\<lambda>l. l @ [10]) ls)) = ls @ [[]]"
proof -
  have "last (concat (map (\<lambda>l. l @ [10]) ls)) = (10 :: 8 word)" "concat (map (\<lambda>l. l @ [10 :: 8 word]) ls) \<noteq> []"
    using assms(2) by (cases ls rule: rev_cases; simp)+
  then show ?thesis using splitStep_lines[OF assms(1), of ls "[]"] by (simp add: SplitLines_def)
qed

text \<open>A byte below \<open>0x80\<close> of a text is one of its scalars.\<close>

lemma encodeUtf8_low:
  assumes "encodeUtf8 cp = Some x" "b \<in> set x" "unat b < 0x80"
  shows "unat b = cp"
proof -
  have "cp \<le> 0x10FFFF" using assms(1) by (auto simp: encodeUtf8_arith split: if_splits)
  then show ?thesis
    using assms div_bounds[of cp] by (auto simp: encodeUtf8_arith unat_of_byte split: if_splits)
qed

lemma Utf32ToUtf8_low: "Utf32ToUtf8 cs = Some x \<Longrightarrow> b \<in> set x \<Longrightarrow> unat b < 0x80 \<Longrightarrow> unat b \<in> set cs"
proof (induction cs arbitrary: x)
  case (Cons c cs)
  then show ?case using encodeUtf8_low by (auto split: option.splits)
qed simp

lemma toUtf8_no_break:
  assumes "\<not> HasInvalidSurrogates w" "plainScalars (U16ToWString w)"
  shows "10 \<notin> set (toUtf8 w) \<and> 13 \<notin> set (toUtf8 w)"
proof -
  have "n \<notin> set (toUtf8 w)" if "IsUnicodeControl (unat n)" "unat n < 0x80" for n
    using Utf32ToUtf8_low[OF toUtf8_eq[OF assms(1)], of n] assms(2) that by (auto simp: plainScalars_def list_all_iff)
  from this[of 10] this[of 13] show ?thesis by (simp add: IsUnicodeControl_def)
qed

section \<open>Words of the dictionary\<close>

text \<open>A word as the validator returns it: it is normal, and it has no white space to lose.\<close>

definition storedWord :: "unicode \<Rightarrow> unicode \<Rightarrow> u16string \<Rightarrow> bool" where
  "storedWord nfc lower w \<longleftrightarrow>
    CanonicalizeUserWord nfc lower w 0 = Inr w \<and> TrimWhitespace (U16ToWString w) = U16ToWString w"

lemma scalarsError_line: "scalarsError n cs = None \<longleftrightarrow> scalarsError m cs = None"
  by (induction cs) simp_all

lemma scalarsError_None: "scalarsError n cs = None \<longleftrightarrow> plainScalars cs \<and> 0xFFFD \<notin> set cs"
  by (induction cs) (auto simp: plainScalars_def)

lemma CanonicalizeUserWord_line:
  "CanonicalizeUserWord nfc lower w n = Inr v \<Longrightarrow> CanonicalizeUserWord nfc lower w m = Inr v"
  using scalarsError_line[of n _ m]
  by (auto simp: CanonicalizeUserWord_def Let_def split: option.splits if_splits)

lemma storedWord_scalars:
  assumes "storedWord nfc lower w"
  shows "\<not> HasInvalidSurrogates w" "plainScalars (U16ToWString w)" "U16ToWString w \<noteq> []"
  using assms
  by (auto simp: storedWord_def CanonicalizeUserWord_def Let_def Utf16ToUtf32_eq scalarsError_None split: option.splits if_splits)

lemma parse_word:
  assumes "storedWord nfc lower w" "hd (U16ToWString w) \<noteq> 0x23"
  shows "parseLines (\<lambda>c. c = 0x23) (ValidateUserDictWord nfc lower) i (toUtf8 w # lines) =
    (case parseLines (\<lambda>c. c = 0x23) (ValidateUserDictWord nfc lower) (i + 1) lines of
       Inl e \<Rightarrow> Inl e | Inr ws \<Rightarrow> Inr (w # ws))"
proof -
  note w = storedWord_scalars[OF assms(1)]
  have "Utf8ToUtf32 (toUtf8 w) = Some (U16ToWString w)" using toUtf8_eq[OF w(1)] utf8_decode_encode by blast
  moreover have "Utf32ToUtf16 (U16ToWString w) = Some w" using w(1) by (simp add: Utf16_bijection[symmetric] Utf16ToUtf32_eq)
  moreover have "CanonicalizeUserWord nfc lower w (i + 1) = Inr w"
    using assms(1) CanonicalizeUserWord_line unfolding storedWord_def by blast
  ultimately show ?thesis using assms w(3) by (simp add: storedWord_def ValidateUserDictWord_def)
qed

lemma parse_words:
  assumes "\<And>w. w \<in> set ws \<Longrightarrow> storedWord nfc lower w \<and> hd (U16ToWString w) \<noteq> 0x23"
  shows "parseLines (\<lambda>c. c = 0x23) (ValidateUserDictWord nfc lower) i (map toUtf8 ws @ [[]]) = Inr ws"
  using assms
proof (induction ws arbitrary: i)
  case Nil
  then show ?case by (simp add: Utf8ToUtf32.simps TrimWhitespace_def)
next
  case (Cons w ws)
  then show ?case by (simp add: parse_word del: parseLines.simps)
qed

lemma Utf8ToUtf32_ascii: "(\<And>b. b \<in> set bs \<Longrightarrow> unat b < 0x80) \<Longrightarrow> Utf8ToUtf32 bs = Some (map unat bs)"
proof (induction bs)
  case (Cons b bs)
  have "encodeUtf8 (unat b) = Some [b]" using Cons.prems[of b] by (simp add: encodeUtf8_arith)
  then show ?case using Utf8ToUtf32_Cons[of "unat b" "[b]" bs] Cons by simp
qed (simp add: Utf8ToUtf32.simps)

lemma parse_comment:
  assumes "\<And>b. b \<in> set bs \<Longrightarrow> unat b < 0x80"
  shows "parseLines (\<lambda>c. c = 0x23) validate i ((0x23 # bs) # lines) =
    parseLines (\<lambda>c. c = 0x23) validate (i + 1) lines"
proof -
  have "unat b < 0x80" if "b \<in> set (0x23 # bs)" for b using that assms by auto
  then have "Utf8ToUtf32 (0x23 # bs) = Some (map unat (0x23 # bs))" by (rule Utf8ToUtf32_ascii)
  then have "Utf8ToUtf32 (0x23 # bs) = Some (0x23 # map unat bs)" by simp
  moreover have "rev (dropWhile P (rev (x # xs))) = x # rev (dropWhile P (rev xs))" if "\<not> P x" for P and x :: nat and xs
    using that by (simp add: dropWhile_append)
  then have "TrimWhitespace (0x23 # map unat bs) = 0x23 # rev (dropWhile IsUnicodeWhitespace (rev (map unat bs)))"
    by (simp add: TrimWhitespace_def IsUnicodeWhitespace_def)
  ultimately show ?thesis by simp
qed

section \<open>The text file\<close>

definition headerLines :: "u8string list" where
  "headerLines = [bytesOf ''# VKey User Dictionary'', bytesOf ''# One word per line'']"

lemma FormatUserDictText_lines:
  "FormatUserDictText ws = concat (map (\<lambda>l. l @ [10]) (headerLines @ map toUtf8 ws))"
  by (simp add: FormatUserDictText_def userDictHeader_def headerLines_def comp_def)

lemma appendNew_distinct:
  "distinct (combined @ ws) \<Longrightarrow> appendNew combined ws added dupes = (combined @ ws, added + length ws, dupes)"
  by (induction ws arbitrary: combined added) auto

lemma parse_header:
  "parseLines (\<lambda>c. c = 0x23) validate i (headerLines @ lines) = parseLines (\<lambda>c. c = 0x23) validate (i + 2) lines"
proof -
  define a b where "a = bytesOf '' VKey User Dictionary''" "b = bytesOf '' One word per line''"
  have h: "headerLines = [0x23 # a, 0x23 # b]" by (simp add: headerLines_def a_b_def bytesOf_def of_char_of)
  have "x \<in> set a \<Longrightarrow> unat x < 0x80" "x \<in> set b \<Longrightarrow> unat x < 0x80" for x by (auto simp: a_b_def bytesOf_def)
  then have "parseLines (\<lambda>c. c = 0x23) validate i ((0x23 # a) # (0x23 # b) # lines) =
      parseLines (\<lambda>c. c = 0x23) validate (i + 2) lines"
    by (subst parse_comment, simp)+ simp
  then show ?thesis unfolding h append_Cons append_Nil .
qed

lemma header_no_break: "l \<in> set headerLines \<Longrightarrow> 10 \<notin> set l \<and> 13 \<notin> set l"
  by (auto simp: headerLines_def bytesOf_def)

text \<open>A dictionary survives its text file: for words as the validator returns them, none of them
  beginning with \<open>#\<close>, in scalar order and within the limits, formatting and parsing again returns
  exactly these words, all of them as added.\<close>

theorem user_dict_file_round_trip:
  assumes "\<And>w. w \<in> set ws \<Longrightarrow> storedWord nfc lower w \<and> hd (U16ToWString w) \<noteq> 0x23"
    and "sorted_wrt (\<lambda>a b. CompareUtf16ByUnicodeScalar a b < 0) ws"
    and "length ws \<le> 1024" and "sum_list (map length ws) \<le> 65536"
  shows "ParseAndValidateUserDictText nfc lower (FormatUserDictText ws) None False =
    Inr \<lparr>importEntries = ws, addedCount = length ws, duplicateCount = 0\<rparr>"
proof -
  have valid: "\<not> HasInvalidSurrogates w" "plainScalars (U16ToWString w)" if "w \<in> set ws" for w
    using assms(1)[OF that] storedWord_scalars by blast+
  have "SplitLines (FormatUserDictText ws) = headerLines @ map toUtf8 ws @ [[]]"
    unfolding FormatUserDictText_lines
    by (subst SplitLines_lines) (use valid toUtf8_no_break header_no_break in \<open>auto simp: headerLines_def\<close>)
  then have p: "parseLines (\<lambda>c. c = 0x23) (ValidateUserDictWord nfc lower) 0 (SplitLines (FormatUserDictText ws)) = Inr ws"
    using parse_words[OF assms(1)] by (simp add: parse_header del: parseLines.simps)
  have s: "sorted_wrt (\<lambda>a b. fst a < fst b) (map (\<lambda>w. (toUtf8 w, w)) ws)"
    using assms(2) valid by (auto simp: sorted_wrt_map toUtf8_order elim!: sorted_wrt_mono_rel[rotated])
  have "distinct ws"
    using assms(2) by (auto simp: sorted_wrt_iff_nth_less distinct_conv_nth Compare_less) (metis nat_neq_iff less_irrefl)
  then show ?thesis
    using assms(3,4) p by (simp add: ParseAndValidateUserDictText_def appendNew_distinct stdSort_sorted[OF s] comp_def)
qed

text \<open>Without the system's Unicode library a lower-case ASCII word is normal.\<close>

theorem user_dict_file_round_trip_witness:
  "ParseAndValidateUserDictText Some Some (FormatUserDictText [[0x61, 0x62], [0x111, 0x69]]) None False =
    Inr \<lparr>importEntries = [[0x61, 0x62], [0x111, 0x69]], addedCount = 2, duplicateCount = 0\<rparr>"
proof -
  have "storedWord Some Some w \<and> hd (U16ToWString w) \<noteq> 0x23" if "w \<in> set [[0x61, 0x62], [0x111, 0x69]]" for w
    using that by (auto simp: storedWord_def CanonicalizeUserWord_def Let_def Utf16ToUtf32_def decodeUtf16_simps
      isHighSurrogate_def isLowSurrogate_def TrimWhitespace_def IsUnicodeWhitespace_def IsUnicodeControl_def
      unitsOf_def orKeep_def)
  moreover have "sorted_wrt (\<lambda>a b. CompareUtf16ByUnicodeScalar a b < 0) [[0x61, 0x62], [0x111, 0x69]]"
    by (simp add: Compare_less isHighSurrogate_def)
  ultimately show ?thesis using user_dict_file_round_trip[of "[[0x61, 0x62], [0x111, 0x69]]" Some Some] by simp
qed

text \<open>A word that begins with \<open>#\<close> is accepted by the validator and lost by the file.\<close>

lemma hash_word_lost:
  "ValidateUserDictWord Some Some [0x23, 0x61] 0 = Inr [0x23, 0x61] \<and>
   ParseAndValidateUserDictText Some Some (FormatUserDictText [[0x23, 0x61]]) None False =
     Inr \<lparr>importEntries = [], addedCount = 0, duplicateCount = 0\<rparr>"
proof
  show "ValidateUserDictWord Some Some [0x23, 0x61] 0 = Inr [0x23, 0x61]"
    by (simp add: ValidateUserDictWord_def CanonicalizeUserWord_def Let_def Utf16ToUtf32_def decodeUtf16_simps
      isHighSurrogate_def isLowSurrogate_def TrimWhitespace_def IsUnicodeWhitespace_def IsUnicodeControl_def
      unitsOf_def orKeep_def)
  have u: "toUtf8 [0x23, 0x61] = [0x23, 0x61]"
    by (simp add: toUtf8_def decodeUtf16_simps isHighSurrogate_def isLowSurrogate_def encodeUtf8_def byteOf_def)
  then have "SplitLines (FormatUserDictText [[0x23, 0x61]]) = headerLines @ [[0x23, 0x61], []]"
    unfolding FormatUserDictText_lines
    by (subst SplitLines_lines) (use header_no_break in \<open>auto simp: headerLines_def\<close>)
  moreover have "parseLines (\<lambda>c. c = 0x23) validate i [[0x23, 0x61], []] = Inr []" for validate i
    using parse_comment[of "[0x61]" validate i "[[]]"] by (simp add: Utf8ToUtf32.simps[of "[]"] TrimWhitespace_def)
  ultimately show "ParseAndValidateUserDictText Some Some (FormatUserDictText [[0x23, 0x61]]) None False =
     Inr \<lparr>importEntries = [], addedCount = 0, duplicateCount = 0\<rparr>"
    by (simp add: ParseAndValidateUserDictText_def parse_header stdSort_def del: parseLines.simps)
qed

section \<open>Limits the wire format does not share\<close>

lemma dropWhile_none: "(\<And>x. x \<in> set xs \<Longrightarrow> \<not> P x) \<Longrightarrow> dropWhile P xs = xs"
  by (cases xs) auto

lemma TrimWhitespace_plain: "plainScalars cs \<Longrightarrow> TrimWhitespace cs = cs"
  using dropWhile_none[of cs IsUnicodeWhitespace] dropWhile_none[of "rev cs" IsUnicodeWhitespace]
  by (simp add: TrimWhitespace_def plainScalars_def list_all_iff)

lemma NormalizeAndValidate_plain:
  assumes "rowOk w" "plainScalars (U16ToWString w)"
  shows "NormalizeAndValidate Some Some (U16ToWString w) n = Inr (toUtf8 w, w)"
proof -
  have v: "\<not> HasInvalidSurrogates w" using assms(1) by (simp add: rowOk_def)
  then have "Utf16ToUtf32 w = Some (U16ToWString w)" by (simp add: Utf16ToUtf32_eq)
  moreover from this have "Utf32ToUtf16 (U16ToWString w) = Some w" by (simp add: Utf16_bijection)
  ultimately show ?thesis
    using assms toUtf8_eq[OF v]
    by (simp add: NormalizeAndValidate_def TrimWhitespace_plain ScalarsToUtf16Units_def Utf16UnitsToScalars_def
      rowOk_def CountUnicodeScalars_eq plainScalars_def list_ex_iff list_all_iff)
qed

lemma Canonicalize_fixed:
  assumes "\<And>w. w \<in> set rows \<Longrightarrow> rowOk w \<and> plainScalars (U16ToWString w)"
    and "sorted_wrt (\<lambda>a b. CompareUtf16ByUnicodeScalar a b < 0) rows" "length rows \<le> 8"
  shows "Canonicalize Some Some rows = Inr \<lparr>wideEntries = rows, utf8Entries = map toUtf8 rows\<rparr>"
proof -
  let ?items = "map (\<lambda>w. (toUtf8 w, w)) rows"
  have v: "\<not> HasInvalidSurrogates w" if "w \<in> set rows" for w using assms(1)[OF that] by (simp add: rowOk_def)
  have "canonicalItems Some Some Utf16ToUtf32 InvalidSurrogates 0 rows = Inr ?items"
    using assms(1) v by (simp add: canonicalItems_iff itemOf_def Utf16ToUtf32_eq NormalizeAndValidate_plain)
  moreover have s: "sorted_wrt (\<lambda>a b. fst a < fst b) ?items"
    using assms(2) v by (auto simp: sorted_wrt_map toUtf8_order elim!: sorted_wrt_mono_rel[rotated])
  then have "sorted_wrt (\<lambda>a b. \<not> fst a = fst b) ?items" by (rule sorted_wrt_mono_rel[rotated]) auto
  then have "finishCanonical ?items = Inr \<lparr>wideEntries = rows, utf8Entries = map toUtf8 rows\<rparr>"
    using assms(3) by (simp add: finishCanonical_def stdSort_sorted[OF s] stdUnique_distinct comp_def)
  ultimately show ?thesis by (simp add: Canonicalize_def canonicalizeWith_def)
qed

text \<open>C40. The spell exclusions that the canonicalizer returns are at most eight, each of them a row the
  wire format accepts, in strict Unicode scalar order (so without repetitions), and the UTF-8 rows are
  the encodings of the wide rows, in the same order.\<close>

theorem canonical_exclusions:
  assumes "Canonicalize nfc lower entries = Inr r"
  shows "length (wideEntries r) \<le> 8 \<and> list_all rowOk (wideEntries r) \<and>
    sorted_wrt (\<lambda>a b. CompareUtf16ByUnicodeScalar a b < 0) (wideEntries r) \<and>
    utf8Entries r = map toUtf8 (wideEntries r)"
proof -
  obtain items where items: "map (itemOf nfc lower Utf16ToUtf32) entries = map Some items" "finishCanonical items = Inr r"
    using assms by (auto simp: Canonicalize_def canonicalizeWith_def canonicalItems_iff split: sum.splits)
  then have c: "canonicalItem it" if "it \<in> set items" for it using that canonicalItems_items by blast
  obtain items' where i: "sorted_wrt (\<lambda>a b. fst a < fst b) items'" "set items' \<subseteq> set items" "length items' \<le> 8"
    "r = \<lparr>wideEntries = map snd items', utf8Entries = map fst items'\<rparr>"
    using finishCanonical_Inr[OF items(2)] by blast
  have g: "canonicalItem it" if "it \<in> set items'" for it using that i(2) c by blast
  have "sorted_wrt (\<lambda>a b. CompareUtf16ByUnicodeScalar (snd a) (snd b) < 0) items'"
    using i(1) g by (elim sorted_wrt_mono_rel[rotated]) (simp add: canonicalItem_def rowOk_def toUtf8_order)
  then show ?thesis
    using i(3,4) g by (auto simp: list_all_iff canonicalItem_def sorted_wrt_map)
qed

theorem canonical_exclusions_witness:
  "\<exists>r. Canonicalize Some Some [[0x61, 0x62], [0x111, 0x69]] = Inr r \<and> list_all rowOk (wideEntries r) \<and>
    utf8Entries r = map toUtf8 (wideEntries r)"
proof -
  let ?rows = "[[0x61, 0x62], [0x111, 0x69]] :: u16string list"
  have "Canonicalize Some Some ?rows = Inr \<lparr>wideEntries = ?rows, utf8Entries = map toUtf8 ?rows\<rparr>"
    by (rule Canonicalize_fixed)
      (auto simp: rowOk_def HasInvalidSurrogates_iff CountUnicodeScalars_eq isSurrogateScalar_def isHighSurrogate_def
        isLowSurrogate_def plainScalars_def IsUnicodeWhitespace_def IsUnicodeControl_def Compare_less)
  then show ?thesis using canonical_exclusions[of Some Some ?rows] by blast
qed

definition longRow :: "nat \<Rightarrow> u16string" where
  "longRow k = WStringToU16 (replicate 127 0x20000 @ [0x20000 + k])"

lemma longRow_scalars: "k < 8 \<Longrightarrow> U16ToWString (longRow k) = replicate 127 0x20000 @ [0x20000 + k]"
  by (simp add: longRow_def scalars_WStringToU16 isScalarValue_def isSurrogateScalar_def)

lemma plain_astral: "0x20000 \<le> c \<Longrightarrow> \<not> IsUnicodeWhitespace c \<and> \<not> IsUnicodeControl c"
  by (auto simp: IsUnicodeWhitespace_def IsUnicodeControl_def)

lemma longRow_ok: "k < 8 \<Longrightarrow> rowOk (longRow k) \<and> plainScalars (U16ToWString (longRow k))"
  by (auto simp: rowOk_def HasInvalidSurrogates_iff CountUnicodeScalars_eq longRow_scalars isSurrogateScalar_def
    plainScalars_def list_all_iff plain_astral)

lemma length_longRow: "k < 8 \<Longrightarrow> length (longRow k) = 256"
proof -
  have "length (encodeScalar (0x20000 + k)) = 2" if "k < 8" for k using that by (simp add: encodeScalar_def Let_def)
  from this[of 0] this[of k] show "k < 8 \<Longrightarrow> length (longRow k) = 256"
    by (simp add: longRow_def WStringToU16_def length_concat sum_list_replicate)
qed

text \<open>The canonicalizer bounds the scalars of a row, the wire format the UTF-16 units of all rows: five
  canonical rows of 128 scalars outside the basic plane are refused by the serializer, whatever the
  dictionary, the buffer and the generation.\<close>

theorem canonical_exceeds_wire:
  "\<exists>r. Canonicalize Some Some (map longRow [0, 1, 2, 3, 4]) = Inr r \<and>
     snd (Serialize \<lparr>spellExclusions = wideEntries r, userDictionary = dict, pGeneration = g,
       spellSuggestEnabled = s\<rparr> (Some m0) n) \<noteq> None"
proof -
  let ?rows = "map longRow [0, 1, 2, 3, 4]"
  have "CompareUtf16ByUnicodeScalar (longRow j) (longRow k) < 0" if "j < k" "k < 8" for j k
  proof -
    have "replicate n c @ [0x20000 + j] < replicate n c @ [0x20000 + k]" for n and c :: nat
      using that by (induction n) simp_all
    then show ?thesis using that by (simp add: Compare_less longRow_scalars)
  qed
  then have "Canonicalize Some Some ?rows = Inr \<lparr>wideEntries = ?rows, utf8Entries = map toUtf8 ?rows\<rparr>"
    by (intro Canonicalize_fixed) (auto simp: longRow_ok)
  moreover have "length (pool ?rows) = 1285" by (simp add: length_longRow)
  ultimately show ?thesis by (simp add: Serialize_None_iff serializable_def del: pool_simps)
qed

end
