(* ===== verification/LexiconJournal.thy ===== *)
theory LexiconJournal
  imports Prelude
begin

text \<open>
  The journal record of a lexicon transaction and its text, \<open>src/core/config/LexiconTransaction.cpp\<close>
  (\<open>ComputeHash\<close>, \<open>Serialize\<close>, \<open>Deserialize\<close>).  The contents of files and the strings of the record are
  byte strings, that is \<open>string\<close>; a path is the string the record stores for it.
\<close>

unbundle bit_operations_syntax

section \<open>FNV-1a\<close>

definition hexDigit :: "nat \<Rightarrow> char" where
  "hexDigit d = (if d < 10 then char_of (48 + d) else char_of (87 + d))"

text \<open>\<open>"%016llx"\<close>\<close>

definition hex16 :: "64 word \<Rightarrow> string" where
  "hex16 w = map (\<lambda>i. hexDigit (unat w div 16 ^ i mod 16)) (rev [0..<16])"

definition fnv1a64 :: "string \<Rightarrow> 64 word" where
  "fnv1a64 data = fold (\<lambda>c h. (h XOR of_char c) * 1099511628211) data 14695981039346656037"

definition ComputeHash :: "string \<Rightarrow> string" where
  "ComputeHash data = hex16 (fnv1a64 data)"

section \<open>The record\<close>

datatype LexiconJournalState = StateUnknown | Prepared | FilesReplaced | GenerationPublished | Committed | RollbackPending

record LexiconJournalRecord =
  jState :: LexiconJournalState
  configExistedBefore :: bool
  dictExistedBefore :: bool
  notifySharedState :: bool
  oldGeneration :: "8 word"
  newGeneration :: "8 word"
  oldConfigHash :: string
  newConfigHash :: string
  oldDictHash :: string
  newDictHash :: string
  configBakPath :: string
  dictBakPath :: string
  configTmpPath :: string
  dictTmpPath :: string

definition emptyRecord :: LexiconJournalRecord where
  "emptyRecord = \<lparr>jState = StateUnknown, configExistedBefore = False, dictExistedBefore = False,
     notifySharedState = True, oldGeneration = 0, newGeneration = 0, oldConfigHash = [], newConfigHash = [],
     oldDictHash = [], newDictHash = [], configBakPath = [], dictBakPath = [], configTmpPath = [], dictTmpPath = []\<rparr>"

section \<open>Serialize\<close>

fun stateName :: "LexiconJournalState \<Rightarrow> string" where
  "stateName Prepared = ''PREPARED''"
| "stateName FilesReplaced = ''FILES_REPLACED''"
| "stateName GenerationPublished = ''GENERATION_PUBLISHED''"
| "stateName Committed = ''COMMITTED''"
| "stateName RollbackPending = ''ROLLBACK_PENDING''"
| "stateName StateUnknown = ''UNKNOWN''"

definition boolDigit :: "bool \<Rightarrow> string" where
  "boolDigit b = (if b then ''1'' else ''0'')"

fun decimal :: "nat \<Rightarrow> string" where
  "decimal n = (if n < 10 then [char_of (48 + n)] else decimal (n div 10) @ [char_of (48 + n mod 10)])"

definition journalHeader :: string where "journalHeader = ''VKEY_LEXICON_JOURNAL_V1''"

definition recordFields :: "LexiconJournalRecord \<Rightarrow> (string \<times> string) list" where
  "recordFields r =
    [(''state'', stateName (jState r)), (''config_existed'', boolDigit (configExistedBefore r)),
     (''dict_existed'', boolDigit (dictExistedBefore r)), (''notify_shared_state'', boolDigit (notifySharedState r)),
     (''old_gen'', decimal (unat (oldGeneration r))), (''new_gen'', decimal (unat (newGeneration r))),
     (''old_config_hash'', oldConfigHash r), (''new_config_hash'', newConfigHash r),
     (''old_dict_hash'', oldDictHash r), (''new_dict_hash'', newDictHash r),
     (''config_bak_path'', configBakPath r), (''dict_bak_path'', dictBakPath r),
     (''config_tmp_path'', configTmpPath r), (''dict_tmp_path'', dictTmpPath r)]"

definition newline :: char where "newline = CHR 0x0A"
definition carriageReturn :: char where "carriageReturn = CHR 0x0D"
definition equals :: char where "equals = CHR ''=''"

definition JournalSerialize :: "LexiconJournalRecord \<Rightarrow> string" where
  "JournalSerialize r =
    journalHeader @ [newline] @ concat (map (\<lambda>(k, v). k @ [equals] @ v @ [newline]) (recordFields r))"

section \<open>Deserialize\<close>

text \<open>\<open>std::getline\<close>: the text before the next line feed and the text after it; \<open>None\<close> at the end of
  the text.\<close>

definition getline :: "string \<Rightarrow> (string \<times> string) option" where
  "getline s = (if s = [] then None else Some (takeWhile (\<lambda>c. c \<noteq> newline) s, drop 1 (dropWhile (\<lambda>c. c \<noteq> newline) s)))"

definition isDigit :: "char \<Rightarrow> bool" where
  "isDigit c \<longleftrightarrow> 48 \<le> (of_char c :: nat) \<and> (of_char c :: nat) \<le> 57"

definition digitsValue :: "string \<Rightarrow> nat" where
  "digitsValue s = foldl (\<lambda>n c. 10 * n + (of_char c - 48)) 0 s"

text \<open>\<open>std::from_chars\<close> on an \<open>unsigned\<close> that must take the whole text and fit eight bits.\<close>

definition parseGeneration :: "string \<Rightarrow> 8 word option" where
  "parseGeneration v =
    (if v = [] \<or> \<not> list_all isDigit v \<or> digitsValue v > 255 then None else Some (word_of_nat (digitsValue v)))"

definition parseBoolean :: "string \<Rightarrow> bool option" where
  "parseBoolean v = (if v = ''1'' then Some True else if v = ''0'' then Some False else None)"

definition parseState :: "string \<Rightarrow> LexiconJournalState option" where
  "parseState v =
    (if v = ''PREPARED'' then Some Prepared
     else if v = ''FILES_REPLACED'' then Some FilesReplaced
     else if v = ''GENERATION_PUBLISHED'' then Some GenerationPublished
     else if v = ''COMMITTED'' then Some Committed
     else if v = ''ROLLBACK_PENDING'' then Some RollbackPending
     else None)"

definition requiredKeys :: "string list" where
  "requiredKeys =
    [''state'', ''config_existed'', ''dict_existed'', ''notify_shared_state'', ''old_gen'', ''new_gen'',
     ''old_config_hash'', ''new_config_hash'', ''old_dict_hash'', ''new_dict_hash'', ''config_bak_path'',
     ''dict_bak_path'', ''config_tmp_path'', ''dict_tmp_path'']"

definition assignField :: "string \<Rightarrow> string \<Rightarrow> LexiconJournalRecord \<Rightarrow> LexiconJournalRecord option" where
  "assignField k v r =
    (if k = ''state'' then map_option (\<lambda>x. r\<lparr>jState := x\<rparr>) (parseState v)
     else if k = ''config_existed'' then map_option (\<lambda>x. r\<lparr>configExistedBefore := x\<rparr>) (parseBoolean v)
     else if k = ''dict_existed'' then map_option (\<lambda>x. r\<lparr>dictExistedBefore := x\<rparr>) (parseBoolean v)
     else if k = ''notify_shared_state'' then map_option (\<lambda>x. r\<lparr>notifySharedState := x\<rparr>) (parseBoolean v)
     else if k = ''old_gen'' then map_option (\<lambda>x. r\<lparr>oldGeneration := x\<rparr>) (parseGeneration v)
     else if k = ''new_gen'' then map_option (\<lambda>x. r\<lparr>newGeneration := x\<rparr>) (parseGeneration v)
     else if k = ''old_config_hash'' then Some (r\<lparr>oldConfigHash := v\<rparr>)
     else if k = ''new_config_hash'' then Some (r\<lparr>newConfigHash := v\<rparr>)
     else if k = ''old_dict_hash'' then Some (r\<lparr>oldDictHash := v\<rparr>)
     else if k = ''new_dict_hash'' then Some (r\<lparr>newDictHash := v\<rparr>)
     else if k = ''config_bak_path'' then Some (r\<lparr>configBakPath := v\<rparr>)
     else if k = ''dict_bak_path'' then Some (r\<lparr>dictBakPath := v\<rparr>)
     else if k = ''config_tmp_path'' then Some (r\<lparr>configTmpPath := v\<rparr>)
     else if k = ''dict_tmp_path'' then Some (r\<lparr>dictTmpPath := v\<rparr>)
     else Some r)"

text \<open>One line of the loop, with the set of required keys seen so far (the bit mask \<open>seenKeys\<close>); a
  second occurrence of a required key fails.\<close>

definition parseLine :: "string \<Rightarrow> LexiconJournalRecord \<times> string list \<Rightarrow> (LexiconJournalRecord \<times> string list) option" where
  "parseLine line0 = (\<lambda>(r, seen).
    (let line = (if line0 \<noteq> [] \<and> last line0 = carriageReturn then butlast line0 else line0) in
     if equals \<notin> set line then Some (r, seen)
     else
       let key = takeWhile (\<lambda>c. c \<noteq> equals) line; val = drop 1 (dropWhile (\<lambda>c. c \<noteq> equals) line) in
       if key \<in> set requiredKeys \<and> key \<in> set seen then None
       else map_option (\<lambda>r'. (r', if key \<in> set requiredKeys then key # seen else seen)) (assignField key val r)))"

lemma getline_shorter: "getline s = Some (l, r) \<Longrightarrow> length r < length s"
proof -
  assume g: "getline s = Some (l, r)"
  then have s: "s \<noteq> []" "r = drop 1 (dropWhile (\<lambda>c. c \<noteq> newline) s)" by (auto simp: getline_def split: if_splits)
  have "length (dropWhile (\<lambda>c. c \<noteq> newline) s) \<le> length s" by (rule length_dropWhile_le)
  then show ?thesis using s by (cases "dropWhile (\<lambda>c. c \<noteq> newline) s") auto
qed

function parseJournal :: "string \<Rightarrow> LexiconJournalRecord \<times> string list \<Rightarrow> (LexiconJournalRecord \<times> string list) option" where
  "parseJournal s acc =
    (case getline s of
       None \<Rightarrow> Some acc
     | Some (line, r) \<Rightarrow> (case parseLine line acc of None \<Rightarrow> None | Some acc' \<Rightarrow> parseJournal r acc'))"
  by pat_completeness auto
termination
  by (relation "measure (\<lambda>(s, _). length s)") (auto dest: getline_shorter)

declare parseJournal.simps [simp del]

definition JournalDeserialize :: "string \<Rightarrow> LexiconJournalRecord option" where
  "JournalDeserialize t =
    (case getline t of
       None \<Rightarrow> None
     | Some (first, r) \<Rightarrow>
       if first \<noteq> journalHeader then None
       else case parseJournal r (emptyRecord, []) of
         None \<Rightarrow> None
       | Some (record', seen) \<Rightarrow>
           if length seen \<noteq> length requiredKeys \<or> jState record' = StateUnknown then None else Some record')"

section \<open>Round trip\<close>

text \<open>The strings of a record that fit on a line.\<close>

definition lineSafe :: "string \<Rightarrow> bool" where
  "lineSafe v \<longleftrightarrow> newline \<notin> set v \<and> carriageReturn \<notin> set v"

definition storable :: "LexiconJournalRecord \<Rightarrow> bool" where
  "storable r \<longleftrightarrow> jState r \<noteq> StateUnknown \<and>
    list_all lineSafe [oldConfigHash r, newConfigHash r, oldDictHash r, newDictHash r,
      configBakPath r, dictBakPath r, configTmpPath r, dictTmpPath r]"

lemma span_append:
  assumes "y \<notin> set l"
  shows "takeWhile (\<lambda>c. c \<noteq> y) (l @ y # r) = l" "dropWhile (\<lambda>c. c \<noteq> y) (l @ y # r) = y # r"
  using assms by (induction l) auto

lemma getline_line: "newline \<notin> set l \<Longrightarrow> getline (l @ newline # r) = Some (l, r)"
  by (simp add: getline_def span_append)

lemma separators: "equals \<noteq> newline" "equals \<noteq> carriageReturn" "newline \<noteq> carriageReturn"
  by (simp_all add: equals_def newline_def carriageReturn_def)

lemma parseLine_field:
  assumes "lineSafe v" "equals \<notin> set k"
  shows "parseLine (k @ equals # v) (rec, seen) =
    (if k \<in> set requiredKeys \<and> k \<in> set seen then None
     else map_option (\<lambda>rec'. (rec', if k \<in> set requiredKeys then k # seen else seen)) (assignField k v rec))"
proof -
  have "last (k @ equals # v) \<noteq> carriageReturn"
    using assms(1) separators by (cases v rule: rev_cases) (auto simp: lineSafe_def)
  then show ?thesis
    using assms(2) by (simp add: parseLine_def Let_def span_append)
qed

lemma parseJournal_line:
  assumes "lineSafe k" "lineSafe v" "equals \<notin> set k"
  shows "parseJournal (k @ equals # v @ newline # r) (rec, seen) =
    (if k \<in> set requiredKeys \<and> k \<in> set seen then None
     else case assignField k v rec of
       None \<Rightarrow> None
     | Some rec' \<Rightarrow> parseJournal r (rec', if k \<in> set requiredKeys then k # seen else seen))"
proof -
  have "getline ((k @ equals # v) @ newline # r) = Some (k @ equals # v, r)"
    by (rule getline_line) (use assms separators in \<open>auto simp: lineSafe_def\<close>)
  then show ?thesis
    by (subst parseJournal.simps) (simp add: parseLine_field assms split: option.splits)
qed

fun assignAll :: "(string \<times> string) list \<Rightarrow> LexiconJournalRecord \<Rightarrow> LexiconJournalRecord option" where
  "assignAll [] rec = Some rec"
| "assignAll ((k, v) # fs) rec = (case assignField k v rec of None \<Rightarrow> None | Some rec' \<Rightarrow> assignAll fs rec')"

lemma parseJournal_fields:
  assumes "list_all (\<lambda>(k, v). lineSafe k \<and> lineSafe v \<and> equals \<notin> set k \<and> k \<in> set requiredKeys) fs"
    "distinct (map fst fs @ seen)"
  shows "parseJournal (concat (map (\<lambda>(k, v). k @ [equals] @ v @ [newline]) fs)) (rec, seen) =
    map_option (\<lambda>rec'. (rec', rev (map fst fs) @ seen)) (assignAll fs rec)"
  using assms
proof (induction fs arbitrary: rec seen)
  case Nil
  then show ?case by (simp add: parseJournal.simps getline_def)
next
  case (Cons f fs)
  obtain k v where f: "f = (k, v)" by (cases f)
  then show ?case
    using Cons.prems Cons.IH[of "k # seen"]
    by (auto simp: parseJournal_line[where r = "concat _"] split: option.splits)
qed

subsection \<open>The values\<close>

lemma decimal_digits: "decimal n \<noteq> [] \<and> list_all isDigit (decimal n) \<and> digitsValue (decimal n) = n"
proof (induction n rule: decimal.induct)
  case (1 n)
  have d: "isDigit (char_of (48 + m))" "of_char (char_of (48 + m)) = 48 + m" if "m < 10" for m :: nat
    using that by (simp_all add: isDigit_def)
  show ?case
  proof (cases "n < 10")
    case True
    then show ?thesis using d[of n] by (simp add: digitsValue_def)
  next
    case False
    then show ?thesis using 1[OF False] d[of "n mod 10"] by (simp add: digitsValue_def del: decimal.simps)(subst decimal.simps, simp add: digitsValue_def)
  qed
qed

declare decimal.simps [simp del]

lemma digits_lineSafe: "list_all isDigit s \<Longrightarrow> lineSafe s"
  by (auto simp: lineSafe_def list_all_iff isDigit_def newline_def carriageReturn_def)

lemma parseGeneration_decimal: "parseGeneration (decimal (unat w)) = Some w"
proof -
  have "unat w \<le> 255" using unsigned_less[of w, where 'a = nat] by simp
  then show ?thesis using decimal_digits[of "unat w"] by (simp add: parseGeneration_def)
qed

lemma parseBoolean_digit: "parseBoolean (boolDigit b) = Some b"
  by (simp add: parseBoolean_def boolDigit_def)

lemma parseState_name: "s \<noteq> StateUnknown \<Longrightarrow> parseState (stateName s) = Some s"
  by (cases s) (simp_all add: parseState_def)

lemma hex16_lineSafe: "lineSafe (hex16 w) \<and> hex16 w \<noteq> []"
proof -
  have "list_all (\<lambda>d. hexDigit d \<noteq> newline \<and> hexDigit d \<noteq> carriageReturn) [0..<16]" by code_simp
  then have "hexDigit d \<noteq> newline \<and> hexDigit d \<noteq> carriageReturn" if "d < 16" for d using that by (simp add: list_all_iff)
  then have "newline \<noteq> hexDigit (n mod 16)" "carriageReturn \<noteq> hexDigit (n mod 16)" for n by (metis mod_less_divisor zero_less_numeral)+
  then show ?thesis by (auto simp: lineSafe_def hex16_def)
qed

lemma ComputeHash_lineSafe: "lineSafe (ComputeHash s)" "ComputeHash s \<noteq> []"
  using hex16_lineSafe by (simp_all add: ComputeHash_def)

section \<open>Property\<close>

lemma assignAll_fields: "jState r \<noteq> StateUnknown \<Longrightarrow> assignAll (recordFields r) emptyRecord = Some r"
  by (simp add: recordFields_def assignField_def parseState_name parseBoolean_digit parseGeneration_decimal emptyRecord_def)

lemma recordFields_safe:
  assumes "storable r"
  shows "list_all (\<lambda>(k, v). lineSafe k \<and> lineSafe v \<and> equals \<notin> set k \<and> k \<in> set requiredKeys) (recordFields r)"
proof -
  have "lineSafe (stateName s)" for s by (cases s) (simp_all add: lineSafe_def newline_def carriageReturn_def)
  moreover have "lineSafe (boolDigit b)" for b by (simp add: boolDigit_def lineSafe_def newline_def carriageReturn_def)
  moreover have "lineSafe (decimal n)" for n using decimal_digits digits_lineSafe by blast
  moreover have "list_all (\<lambda>k. lineSafe k \<and> equals \<notin> set k) requiredKeys"
    by (simp add: requiredKeys_def lineSafe_def newline_def carriageReturn_def equals_def)
  then have "lineSafe k \<and> equals \<notin> set k" if "k \<in> set requiredKeys" for k using that by (auto simp: list_all_iff)
  moreover have "map fst (recordFields r) = requiredKeys" by (simp add: recordFields_def requiredKeys_def)
  then have "k \<in> set requiredKeys" if "(k, v) \<in> set (recordFields r)" for k v
    using that by (metis fst_conv image_eqI set_map)
  moreover have "lineSafe v" if "(k, v) \<in> set (recordFields r)" for k v
    using that assms calculation by (auto simp: recordFields_def storable_def)
  ultimately show ?thesis by (auto simp: list_all_iff)
qed

lemma Deserialize_Serialize:
  assumes "storable r"
  shows "JournalDeserialize (JournalSerialize r) = Some r"
proof -
  have keys: "map fst (recordFields r) = requiredKeys" by (simp add: recordFields_def requiredKeys_def)
  have "distinct requiredKeys" by (simp add: requiredKeys_def)
  then have "parseJournal (concat (map (\<lambda>(k, v). k @ [equals] @ v @ [newline]) (recordFields r))) (emptyRecord, []) =
      Some (r, rev requiredKeys)"
    using parseJournal_fields[OF recordFields_safe[OF assms], of "[]" emptyRecord] assms keys
    by (simp add: assignAll_fields storable_def)
  moreover have "getline (journalHeader @ newline # t) = Some (journalHeader, t)" for t
    by (rule getline_line) (simp add: journalHeader_def newline_def)
  ultimately show ?thesis using assms by (simp add: JournalDeserialize_def JournalSerialize_def storable_def)
qed

end
