(* ===== verification/LexiconTxn.thy ===== *)
theory LexiconTxn
  imports LexiconJournal LexiconText "HOL-Library.State_Monad"
begin

text \<open>
  The journalled replacement of the configuration and the user dictionary,
  \<open>src/core/config/LexiconTransaction.cpp\<close>: rollback, recovery, commit and the locked reader, in the
  Windows branches of the sources.

  The operations run in the state monad over a \<open>World\<close>: the files (a map from paths to contents), the
  generation in the shared settings block, the snapshot in the shared memory of the lexicon, and the
  outcomes of the calls that change any of them.  A call works, fails, or is the last thing the process
  does; of a call that is not atomic anything may be left in its target.  After the end of the process
  nothing changes any more; \<open>restart\<close> is the next process.  The queries of the file system
  (\<open>exists\<close>, reading) do not fail.  Parsing TOML and the Unicode library are the parameter \<open>Env\<close>.
\<close>

section \<open>The world\<close>

datatype outcome = Works | Fails "string option" | Dies "string option"

record WireSnapshot =
  snapExclusions :: "u16string list"
  snapDictionary :: "u16string list"
  snapGeneration :: "64 word"
  snapSuggest :: bool

record World =
  files :: "string \<Rightarrow> string option"
  sharedGeneration :: "8 word option"
  wireManager :: bool
  wireWritable :: bool
  wire :: "WireSnapshot option"
  faults :: "outcome list"
  dead :: bool

type_synonym 'a io = "(World, 'a) state"

definition osCall :: "(World \<Rightarrow> World) \<Rightarrow> (string option \<Rightarrow> World \<Rightarrow> World) \<Rightarrow> bool io" where
  "osCall effect part = State (\<lambda>w.
     if dead w then (False, w)
     else case faults w of
       [] \<Rightarrow> (True, effect w)
     | Works # fs \<Rightarrow> (True, effect (w\<lparr>faults := fs\<rparr>))
     | Fails g # fs \<Rightarrow> (False, part g (w\<lparr>faults := fs\<rparr>))
     | Dies g # fs \<Rightarrow> (False, (part g (w\<lparr>faults := fs\<rparr>))\<lparr>dead := True\<rparr>))"

definition queries :: "(World \<Rightarrow> 'a) \<Rightarrow> 'a io" where
  "queries f = State (\<lambda>w. (f w, w))"

definition restart :: "outcome list \<Rightarrow> World \<Rightarrow> World" where
  "restart fs w = w\<lparr>faults := fs, dead := False\<rparr>"

definition put :: "string \<Rightarrow> string option \<Rightarrow> World \<Rightarrow> World" where
  "put p c w = w\<lparr>files := (files w)(p := c)\<rparr>"

section \<open>File operations\<close>

definition existsFile :: "string \<Rightarrow> bool io" where
  "existsFile p = queries (\<lambda>w. files w p \<noteq> None)"

definition ReadFileBytes :: "string \<Rightarrow> string io" where
  "ReadFileBytes p = queries (\<lambda>w. case files w p of None \<Rightarrow> [] | Some c \<Rightarrow> c)"

definition TryReadFileBytes :: "string \<Rightarrow> string option io" where
  "TryReadFileBytes p = queries (\<lambda>w. files w p)"

definition DurableWrite :: "string \<Rightarrow> string \<Rightarrow> bool io" where
  "DurableWrite p data = osCall (put p (Some data)) (put p)"

definition DurableAtomicRename :: "string \<Rightarrow> string \<Rightarrow> bool io" where
  "DurableAtomicRename src dst = do {
     content \<leftarrow> TryReadFileBytes src;
     case content of
       None \<Rightarrow> State_Monad.return False
     | Some c \<Rightarrow> osCall (\<lambda>w. put dst (Some c) (put src None w)) (\<lambda>_ w. w)
   }"

text \<open>\<open>copy_file\<close> with \<open>overwrite_existing\<close>.\<close>

definition copyFile :: "string \<Rightarrow> string \<Rightarrow> bool io" where
  "copyFile src dst = do {
     content \<leftarrow> TryReadFileBytes src;
     case content of
       None \<Rightarrow> State_Monad.return False
     | Some c \<Rightarrow> osCall (put dst (Some c)) (put dst)
   }"

definition removeFile :: "string \<Rightarrow> bool io" where
  "removeFile p = do {
     existed \<leftarrow> existsFile p;
     ok \<leftarrow> osCall (put p None) (\<lambda>_ w. w);
     State_Monad.return (existed \<and> ok)
   }"

fun removeEach :: "string list \<Rightarrow> unit io" where
  "removeEach [] = State_Monad.return ()"
| "removeEach (p # ps) = do { _ \<leftarrow> removeFile p; removeEach ps }"

text \<open>\<open>ReplaceFileW\<close>: the old file becomes the backup and the new one takes its place.  When it fails the
  old file can already stand under the name of the backup.\<close>

definition ReplaceFile :: "string \<Rightarrow> string \<Rightarrow> string \<Rightarrow> bool io" where
  "ReplaceFile dst tmp bak = do {
     old \<leftarrow> TryReadFileBytes dst;
     new \<leftarrow> TryReadFileBytes tmp;
     if old = None \<or> new = None then State_Monad.return False
     else osCall (\<lambda>w. put dst new (put tmp None (put bak old w)))
            (\<lambda>g w. if g = None then w else put dst None (put bak old w))
   }"

definition ReplaceOrMove :: "string \<Rightarrow> string \<Rightarrow> string \<Rightarrow> bool \<Rightarrow> bool io" where
  "ReplaceOrMove tmpPath dstPath bakPath dstExisted = do {
     replaced \<leftarrow> (if dstExisted then ReplaceFile dstPath tmpPath bakPath else State_Monad.return False);
     if replaced then State_Monad.return True else DurableAtomicRename tmpPath dstPath
   }"

section \<open>Paths\<close>

record Place =
  placeDir :: string
  placeName :: string

definition inDir :: "Place \<Rightarrow> string \<Rightarrow> string" where
  "inDir pl f = placeDir pl @ CHR 0x5C # f"

definition configFile :: "Place \<Rightarrow> string" where "configFile pl = inDir pl (placeName pl)"
definition configTmpFile :: "Place \<Rightarrow> string" where "configTmpFile pl = inDir pl (placeName pl @ ''.tmp'')"
definition configBakFile :: "Place \<Rightarrow> string" where "configBakFile pl = inDir pl (placeName pl @ ''.bak'')"
definition dictFile :: "Place \<Rightarrow> string" where "dictFile pl = inDir pl ''user_dictionary.txt''"
definition dictTmpFile :: "Place \<Rightarrow> string" where "dictTmpFile pl = inDir pl ''user_dictionary.txt.tmp''"
definition dictBakFile :: "Place \<Rightarrow> string" where "dictBakFile pl = inDir pl ''user_dictionary.txt.bak''"
definition GetJournalPath :: "Place \<Rightarrow> string" where "GetJournalPath pl = inDir pl ''lexicon_txn.journal''"
definition GetJournalTmpPath :: "Place \<Rightarrow> string" where "GetJournalTmpPath pl = inDir pl ''lexicon_txn.journal.tmp''"
definition corruptFile :: "Place \<Rightarrow> string" where "corruptFile pl = inDir pl ''lexicon_txn.journal.corrupt''"

section \<open>Rollback and journal\<close>

definition alreadyRestored :: "string \<Rightarrow> bool \<Rightarrow> string \<Rightarrow> bool io" where
  "alreadyRestored path existedBefore oldHash = do {
     ex \<leftarrow> existsFile path;
     if \<not> existedBefore then State_Monad.return (\<not> ex)
     else do {
       content \<leftarrow> ReadFileBytes path;
       State_Monad.return (ex \<and> oldHash \<noteq> [] \<and> ComputeHash content = oldHash)
     }
   }"

text \<open>The half of \<open>RollbackToBackup\<close> for one file.\<close>

definition rollbackOne :: "bool \<Rightarrow> string \<Rightarrow> string \<Rightarrow> string \<Rightarrow> bool io" where
  "rollbackOne existedBefore oldHash path bak =
    (if existedBefore then do {
       saved \<leftarrow> existsFile bak;
       if saved then DurableAtomicRename bak path else alreadyRestored path True oldHash
     } else do {
       removed \<leftarrow> removeFile path;
       still \<leftarrow> existsFile path;
       State_Monad.return (removed \<or> \<not> still)
     })"

definition RollbackToBackup :: "LexiconJournalRecord \<Rightarrow> string \<Rightarrow> string \<Rightarrow> string \<Rightarrow> string \<Rightarrow> bool io" where
  "RollbackToBackup jr configPath dictPath configBak dictBak = do {
     okConfig \<leftarrow> rollbackOne (configExistedBefore jr) (oldConfigHash jr) configPath configBak;
     okDict \<leftarrow> rollbackOne (dictExistedBefore jr) (oldDictHash jr) dictPath dictBak;
     State_Monad.return (okConfig \<and> okDict)
   }"

definition TransitionJournalState :: "Place \<Rightarrow> LexiconJournalRecord \<Rightarrow> LexiconJournalState \<Rightarrow> bool io" where
  "TransitionJournalState pl jr newState = do {
     written \<leftarrow> DurableWrite (GetJournalTmpPath pl) (JournalSerialize (jr\<lparr>jState := newState\<rparr>));
     if written then DurableAtomicRename (GetJournalTmpPath pl) (GetJournalPath pl) else State_Monad.return False
   }"

section \<open>Publication\<close>

definition PublishWireMapping :: "WireSnapshot \<Rightarrow> bool io" where
  "PublishWireMapping snap = do {
     ready \<leftarrow> queries (\<lambda>w. wireManager w \<and> wireWritable w);
     if ready then osCall (\<lambda>w. w\<lparr>wire := Some snap\<rparr>) (\<lambda>g w. if g = None then w else w\<lparr>wire := None\<rparr>)
     else State_Monad.return False
   }"

definition PublishGeneration :: "8 word \<Rightarrow> bool io" where
  "PublishGeneration g = do {
     current \<leftarrow> queries sharedGeneration;
     if current = None then State_Monad.return False
     else osCall (\<lambda>w. w\<lparr>sharedGeneration := Some g\<rparr>) (\<lambda>x w. if x = None then w else w\<lparr>sharedGeneration := Some g\<rparr>)
   }"

text \<open>What the code reads of a TOML document: \<open>features.spell_suggest\<close> and \<open>features.spell_exclusions\<close>
  (an element that is no string is \<open>None\<close>) and \<open>internal.wire_generation\<close>.  A syntax error is \<open>None\<close>.\<close>

record LexiconToml =
  tomlSuggest :: "bool option"
  tomlExclusions :: "string option list option"
  tomlWireGeneration :: "int option"

record Env =
  envNfc :: unicode
  envLower :: unicode
  envToml :: "string \<Rightarrow> LexiconToml option"
  envUpdate :: "string option \<Rightarrow> bool \<Rightarrow> u8string list \<Rightarrow> int \<Rightarrow> string"

definition u8bytes :: "string \<Rightarrow> u8string" where "u8bytes s = map of_char s"

definition wireGenerationOf :: "LexiconToml \<Rightarrow> 64 word \<Rightarrow> 64 word" where
  "wireGenerationOf t d = (case tomlWireGeneration t of Some n \<Rightarrow> if n > 0 then word_of_int n else d | None \<Rightarrow> d)"

definition suggestOf :: "LexiconToml \<Rightarrow> bool" where
  "suggestOf t = (case tomlSuggest t of Some b \<Rightarrow> b | None \<Rightarrow> True)"

text \<open>The exclusions of a configuration on disk: strings only, none when they are not canonical.\<close>

definition storedExclusions :: "Env \<Rightarrow> LexiconToml \<Rightarrow> u16string list" where
  "storedExclusions env t =
    (case tomlExclusions t of
       None \<Rightarrow> []
     | Some arr \<Rightarrow>
       (case CanonicalizeUtf8 (envNfc env) (envLower env) (map (u8bytes \<circ> the) (filter (\<lambda>x. x \<noteq> None) arr)) of
          Inl _ \<Rightarrow> []
        | Inr c \<Rightarrow> wideEntries c))"

definition parseDict :: "Env \<Rightarrow> string \<Rightarrow> LexiconError + LexiconImportResult" where
  "parseDict env content = ParseAndValidateUserDictText (envNfc env) (envLower env) (u8bytes content) None False"

definition storedWords :: "Env \<Rightarrow> string \<Rightarrow> u16string list" where
  "storedWords env content = (case parseDict env content of Inl _ \<Rightarrow> [] | Inr r \<Rightarrow> importEntries r)"

section \<open>Recovery\<close>

definition orDefault :: "string \<Rightarrow> string \<Rightarrow> string" where
  "orDefault p d = (if p = [] then d else p)"

definition recordConfigBak :: "Place \<Rightarrow> LexiconJournalRecord \<Rightarrow> string" where
  "recordConfigBak pl jr = orDefault (configBakPath jr) (configBakFile pl)"
definition recordDictBak :: "Place \<Rightarrow> LexiconJournalRecord \<Rightarrow> string" where
  "recordDictBak pl jr = orDefault (dictBakPath jr) (dictBakFile pl)"

definition recordArtifacts :: "Place \<Rightarrow> LexiconJournalRecord \<Rightarrow> string list" where
  "recordArtifacts pl jr =
    [orDefault (configTmpPath jr) (configTmpFile pl), orDefault (dictTmpPath jr) (dictTmpFile pl),
     recordConfigBak pl jr, recordDictBak pl jr]"

definition rollbackFiles :: "Place \<Rightarrow> LexiconJournalRecord \<Rightarrow> bool io" where
  "rollbackFiles pl jr = RollbackToBackup jr (configFile pl) (dictFile pl) (recordConfigBak pl jr) (recordDictBak pl jr)"

definition recoverPrepared :: "Place \<Rightarrow> LexiconJournalRecord \<Rightarrow> bool io" where
  "recoverPrepared pl jr = do {
     ok \<leftarrow> rollbackFiles pl jr;
     if \<not> ok then State_Monad.return False
     else do {
       _ \<leftarrow> removeEach (recordArtifacts pl jr @ [GetJournalPath pl]);
       State_Monad.return True
     }
   }"

text \<open>Rollback when a backup is left, else the comparison with the hashes of the old files.\<close>

definition restoreFiles :: "Place \<Rightarrow> LexiconJournalRecord \<Rightarrow> bool io" where
  "restoreFiles pl jr = do {
     configSaved \<leftarrow> existsFile (recordConfigBak pl jr);
     dictSaved \<leftarrow> existsFile (recordDictBak pl jr);
     if configSaved \<or> dictSaved then rollbackFiles pl jr
     else do {
       c \<leftarrow> ReadFileBytes (configFile pl);
       d \<leftarrow> ReadFileBytes (dictFile pl);
       State_Monad.return ((\<not> configExistedBefore jr \<or> ComputeHash c = oldConfigHash jr) \<and>
         (\<not> dictExistedBefore jr \<or> ComputeHash d = oldDictHash jr))
     }
   }"

definition publishIf :: "bool \<Rightarrow> 8 word \<Rightarrow> bool io" where
  "publishIf notify g = (if notify then PublishGeneration g else State_Monad.return True)"

definition recoverCommitted :: "Place \<Rightarrow> LexiconJournalRecord \<Rightarrow> bool io" where
  "recoverCommitted pl jr = do {
     _ \<leftarrow> removeEach (recordArtifacts pl jr @ [GetJournalPath pl]);
     State_Monad.return True
   }"

definition recoverGenerationPublished :: "Place \<Rightarrow> LexiconJournalRecord \<Rightarrow> bool io" where
  "recoverGenerationPublished pl jr = do {
     _ \<leftarrow> removeEach (recordArtifacts pl jr);
     ok \<leftarrow> TransitionJournalState pl jr Committed;
     if \<not> ok then State_Monad.return False
     else do { _ \<leftarrow> removeEach [GetJournalPath pl]; State_Monad.return True }
   }"

definition recoverFilesReplaced :: "Place \<Rightarrow> LexiconJournalRecord \<Rightarrow> bool io" where
  "recoverFilesReplaced pl jr = do {
     c \<leftarrow> ReadFileBytes (configFile pl);
     d \<leftarrow> ReadFileBytes (dictFile pl);
     if ComputeHash c \<noteq> newConfigHash jr \<or> ComputeHash d \<noteq> newDictHash jr then do {
       restored \<leftarrow> restoreFiles pl jr;
       if \<not> restored then State_Monad.return False
       else do {
         published \<leftarrow> publishIf (notifySharedState jr) (oldGeneration jr);
         if \<not> published then do {
           _ \<leftarrow> TransitionJournalState pl jr RollbackPending;
           State_Monad.return False
         } else recoverCommitted pl jr
       }
     } else do {
       published \<leftarrow> publishIf (notifySharedState jr) (newGeneration jr);
       if \<not> published then State_Monad.return False
       else do {
         ok \<leftarrow> TransitionJournalState pl jr GenerationPublished;
         if \<not> ok then State_Monad.return False else recoverGenerationPublished pl jr
       }
     }
   }"

definition recoverRollbackPending :: "Env \<Rightarrow> Place \<Rightarrow> LexiconJournalRecord \<Rightarrow> bool io" where
  "recoverRollbackPending env pl jr = do {
     restored \<leftarrow> restoreFiles pl jr;
     if \<not> restored then State_Monad.return False
     else do {
       published \<leftarrow> publishIf (notifySharedState jr) (oldGeneration jr);
       if \<not> published then State_Monad.return False
       else do {
         manager \<leftarrow> queries wireManager;
         c \<leftarrow> ReadFileBytes (configFile pl);
         d \<leftarrow> ReadFileBytes (dictFile pl);
         dictExists \<leftarrow> existsFile (dictFile pl);
         wireRestored \<leftarrow>
           (if \<not> manager then State_Monad.return True
            else case envToml env c of
              None \<Rightarrow> State_Monad.return False
            | Some t \<Rightarrow> PublishWireMapping
                \<lparr>snapExclusions = storedExclusions env t,
                 snapDictionary = (if dictExists then storedWords env d else []),
                 snapGeneration = wireGenerationOf t (ucast (oldGeneration jr)), snapSuggest = suggestOf t\<rparr>);
         if wireRestored then recoverCommitted pl jr else State_Monad.return False
       }
     }
   }"

definition RecoverIfNeeded :: "Env \<Rightarrow> Place \<Rightarrow> bool io" where
  "RecoverIfNeeded env pl = do {
     quarantined \<leftarrow> existsFile (corruptFile pl);
     pending \<leftarrow> existsFile (GetJournalPath pl);
     journalText \<leftarrow> ReadFileBytes (GetJournalPath pl);
     if quarantined then State_Monad.return False
     else if \<not> pending then State_Monad.return True
     else case JournalDeserialize journalText of
       None \<Rightarrow> do {
         moved \<leftarrow> DurableAtomicRename (GetJournalPath pl) (corruptFile pl);
         _ \<leftarrow> removeEach (if moved then [] else [GetJournalPath pl]);
         State_Monad.return False
       }
     | Some jr \<Rightarrow>
         (case jState jr of
            Prepared \<Rightarrow> recoverPrepared pl jr
          | FilesReplaced \<Rightarrow> recoverFilesReplaced pl jr
          | GenerationPublished \<Rightarrow> recoverGenerationPublished pl jr
          | Committed \<Rightarrow> recoverCommitted pl jr
          | RollbackPending \<Rightarrow> recoverRollbackPending env pl jr
          | StateUnknown \<Rightarrow> do { _ \<leftarrow> removeEach [GetJournalPath pl]; State_Monad.return True })
   }"

definition CleanStaleArtifacts :: "Place \<Rightarrow> unit io" where
  "CleanStaleArtifacts pl = removeEach
     [GetJournalPath pl, GetJournalTmpPath pl, corruptFile pl, configTmpFile pl, configBakFile pl,
      dictTmpFile pl, dictBakFile pl]"

section \<open>Commit\<close>

text \<open>The validation of the new configuration: the switch, the canonical exclusions and the generation
  of the image, 0 when the document has none.\<close>

definition preflightConfig :: "Env \<Rightarrow> string \<Rightarrow> (bool \<times> u16string list \<times> 64 word) option" where
  "preflightConfig env newConfigToml =
    (case envToml env newConfigToml of
       None \<Rightarrow> None
     | Some t \<Rightarrow>
       (case tomlExclusions t of
          None \<Rightarrow> Some (suggestOf t, [], wireGenerationOf t 0)
        | Some arr \<Rightarrow>
            if None \<in> set arr then None
            else if arr = [] then Some (suggestOf t, [], wireGenerationOf t 0)
            else (case CanonicalizeUtf8 (envNfc env) (envLower env) (map (u8bytes \<circ> the) arr) of
                    Inl _ \<Rightarrow> None
                  | Inr c \<Rightarrow> Some (suggestOf t, wideEntries c, wireGenerationOf t 0))))"

text \<open>The snapshot to publish again when the generation cannot be published.\<close>

definition oldSnapshot :: "Env \<Rightarrow> string option \<Rightarrow> string option \<Rightarrow> 8 word \<Rightarrow> WireSnapshot" where
  "oldSnapshot env oldConfig oldDict oldGen =
    (let t = (case oldConfig of None \<Rightarrow> None | Some c \<Rightarrow> envToml env c) in
     \<lparr>snapExclusions = (case t of None \<Rightarrow> [] | Some t' \<Rightarrow> storedExclusions env t'),
      snapDictionary = (case oldDict of None \<Rightarrow> [] | Some d \<Rightarrow> storedWords env d),
      snapGeneration = (case t of None \<Rightarrow> ucast oldGen | Some t' \<Rightarrow> wireGenerationOf t' (ucast oldGen)),
      snapSuggest = (case t of None \<Rightarrow> True | Some t' \<Rightarrow> suggestOf t')\<rparr>)"

definition hashOr :: "string option \<Rightarrow> string" where
  "hashOr c = (case c of None \<Rightarrow> [] | Some s \<Rightarrow> ComputeHash s)"

definition preparedRecord ::
    "Place \<Rightarrow> string option \<Rightarrow> string option \<Rightarrow> string \<Rightarrow> string \<Rightarrow> 8 word \<Rightarrow> 8 word \<Rightarrow> bool \<Rightarrow> LexiconJournalRecord" where
  "preparedRecord pl oldConfig oldDict newConfig newDict oldGen newGen notify =
    \<lparr>jState = Prepared, configExistedBefore = (oldConfig \<noteq> None), dictExistedBefore = (oldDict \<noteq> None),
     notifySharedState = notify, oldGeneration = oldGen, newGeneration = newGen,
     oldConfigHash = hashOr oldConfig, newConfigHash = ComputeHash newConfig,
     oldDictHash = hashOr oldDict, newDictHash = ComputeHash newDict,
     configBakPath = configBakFile pl, dictBakPath = dictBakFile pl,
     configTmpPath = configTmpFile pl, dictTmpPath = dictTmpFile pl\<rparr>"

text \<open>Steps 1 and 2: the new contents beside the files, and the backups.\<close>

definition writeCopies :: "Place \<Rightarrow> string \<Rightarrow> string \<Rightarrow> bool \<Rightarrow> bool \<Rightarrow> bool io" where
  "writeCopies pl newConfig newDict configExisted dictExisted = do {
     ok1 \<leftarrow> DurableWrite (configTmpFile pl) newConfig;
     ok2 \<leftarrow> (if ok1 then DurableWrite (dictTmpFile pl) newDict else State_Monad.return False);
     ok3 \<leftarrow> (if \<not> ok2 then State_Monad.return False
             else if configExisted then copyFile (configFile pl) (configBakFile pl) else State_Monad.return True);
     if \<not> ok3 then State_Monad.return False
     else if dictExisted then copyFile (dictFile pl) (dictBakFile pl) else State_Monad.return True
   }"

text \<open>Step 4; a failure rolls back at once, and the artifacts go only when that worked.\<close>

definition replaceFiles :: "Place \<Rightarrow> LexiconJournalRecord \<Rightarrow> bool io" where
  "replaceFiles pl jr = do {
     ok1 \<leftarrow> ReplaceOrMove (configTmpFile pl) (configFile pl) (configBakFile pl) (configExistedBefore jr);
     ok2 \<leftarrow> (if ok1 then ReplaceOrMove (dictTmpFile pl) (dictFile pl) (dictBakFile pl) (dictExistedBefore jr)
             else State_Monad.return False);
     if ok2 then State_Monad.return True
     else do {
       restored \<leftarrow> RollbackToBackup jr (configFile pl) (dictFile pl) (configBakFile pl) (dictBakFile pl);
       _ \<leftarrow> (if restored then CleanStaleArtifacts pl else State_Monad.return ());
       State_Monad.return False
     }
   }"

definition dropTransaction :: "Place \<Rightarrow> unit io" where
  "dropTransaction pl = removeEach
     [configTmpFile pl, dictTmpFile pl, configBakFile pl, dictBakFile pl, GetJournalPath pl, GetJournalTmpPath pl]"

text \<open>The three attempts to publish the old generation again.\<close>

fun republish :: "nat \<Rightarrow> 8 word \<Rightarrow> bool io" where
  "republish 0 g = State_Monad.return False"
| "republish (Suc n) g = do {
     ok \<leftarrow> PublishGeneration g;
     if ok then State_Monad.return True else republish n g
   }"

text \<open>Steps 6 and 7; \<open>snap\<close> is the new snapshot, \<open>old\<close> the one to go back to.\<close>

definition publishAll :: "Place \<Rightarrow> LexiconJournalRecord \<Rightarrow> WireSnapshot \<Rightarrow> WireSnapshot \<Rightarrow> bool io" where
  "publishAll pl jr snap old = do {
     manager \<leftarrow> queries wireManager;
     let wanted = notifySharedState jr \<and> manager;
     wirePublished \<leftarrow> (if wanted then PublishWireMapping snap else State_Monad.return False);
     if wanted \<and> \<not> wirePublished then do {
       pending \<leftarrow> TransitionJournalState pl jr RollbackPending;
       if \<not> pending then State_Monad.return False
       else do {
         restored \<leftarrow> RollbackToBackup jr (configFile pl) (dictFile pl) (configBakFile pl) (dictBakFile pl);
         _ \<leftarrow> (if restored then dropTransaction pl else State_Monad.return ());
         State_Monad.return False
       }
     } else do {
       published \<leftarrow> publishIf (notifySharedState jr) (newGeneration jr);
       if published then State_Monad.return True
       else do {
         pending \<leftarrow> TransitionJournalState pl jr RollbackPending;
         if \<not> pending then State_Monad.return False
         else do {
           wireRestored \<leftarrow> (if wirePublished then PublishWireMapping old else State_Monad.return True);
           oldGenRestored \<leftarrow> republish 3 (oldGeneration jr);
           filesRestored \<leftarrow> RollbackToBackup jr (configFile pl) (dictFile pl) (configBakFile pl) (dictBakFile pl);
           _ \<leftarrow> (if oldGenRestored \<and> filesRestored \<and> wireRestored then dropTransaction pl
                 else State_Monad.return ());
           State_Monad.return False
         }
       }
     }
   }"

text \<open>Steps 7 to 10.\<close>

definition finishCommit :: "Place \<Rightarrow> LexiconJournalRecord \<Rightarrow> bool io" where
  "finishCommit pl jr = do {
     ok1 \<leftarrow> TransitionJournalState pl jr GenerationPublished;
     if \<not> ok1 then State_Monad.return False
     else do {
       _ \<leftarrow> removeEach [configBakFile pl, dictBakFile pl];
       ok2 \<leftarrow> TransitionJournalState pl jr Committed;
       if \<not> ok2 then State_Monad.return False
       else do {
         _ \<leftarrow> removeEach [GetJournalPath pl, GetJournalTmpPath pl];
         State_Monad.return True
       }
     }
   }"

text \<open>The transaction proper, from the first write on.\<close>

definition runTransaction ::
    "Env \<Rightarrow> Place \<Rightarrow> string \<Rightarrow> string \<Rightarrow> 8 word \<Rightarrow> 8 word \<Rightarrow> bool \<Rightarrow> WireSnapshot \<Rightarrow> bool io" where
  "runTransaction env pl newConfig newDict oldGen newGen notify snap = do {
     oldConfig \<leftarrow> TryReadFileBytes (configFile pl);
     oldDict \<leftarrow> TryReadFileBytes (dictFile pl);
     copied \<leftarrow> writeCopies pl newConfig newDict (oldConfig \<noteq> None) (oldDict \<noteq> None);
     let jr = preparedRecord pl oldConfig oldDict newConfig newDict oldGen newGen notify;
     prepared \<leftarrow> (if copied then TransitionJournalState pl jr Prepared else State_Monad.return False);
     if \<not> prepared then do { _ \<leftarrow> CleanStaleArtifacts pl; State_Monad.return False }
     else do {
       replaced \<leftarrow> replaceFiles pl jr;
       if \<not> replaced then State_Monad.return False
       else do {
         recorded \<leftarrow> TransitionJournalState pl jr FilesReplaced;
         if \<not> recorded then do { _ \<leftarrow> RecoverIfNeeded env pl; State_Monad.return False }
         else do {
           published \<leftarrow> publishAll pl jr snap (oldSnapshot env oldConfig oldDict oldGen);
           if \<not> published then State_Monad.return False else finishCommit pl jr
         }
       }
     }
   }"

definition CommitTransactionImpl ::
    "Env \<Rightarrow> Place \<Rightarrow> string \<Rightarrow> string \<Rightarrow> 8 word \<Rightarrow> 8 word \<Rightarrow> bool \<Rightarrow> bool \<Rightarrow> bool io" where
  "CommitTransactionImpl env pl newConfig newDict oldGen newGen notify acquireLock = do {
     locked \<leftarrow> (if acquireLock then osCall (\<lambda>w. w) (\<lambda>_ w. w) else State_Monad.return True);
     if \<not> locked then State_Monad.return False
     else do {
       recovered \<leftarrow> RecoverIfNeeded env pl;
       shared \<leftarrow> queries sharedGeneration;
       manager \<leftarrow> queries (\<lambda>w. wireManager w \<and> wireWritable w);
       current \<leftarrow> queries wire;
       if \<not> recovered \<or> notify \<and> shared = None then State_Monad.return False
       else case (preflightConfig env newConfig, parseDict env newDict) of
         (Some (suggest, exclusions, gen), Inr dict) \<Rightarrow>
           runTransaction env pl newConfig newDict oldGen newGen notify
             \<lparr>snapExclusions = exclusions, snapDictionary = importEntries dict,
              snapGeneration =
                (if gen \<noteq> 0 then gen
                 else if manager then (case current of None \<Rightarrow> 0 | Some s \<Rightarrow> snapGeneration s) + 1
                 else ucast newGen),
              snapSuggest = suggest\<rparr>
       | _ \<Rightarrow> State_Monad.return False
     }
   }"

definition CommitTransaction ::
    "Env \<Rightarrow> Place \<Rightarrow> string \<Rightarrow> string \<Rightarrow> 8 word \<Rightarrow> 8 word \<Rightarrow> bool \<Rightarrow> bool io" where
  "CommitTransaction env pl newConfig newDict oldGen newGen notify =
    CommitTransactionImpl env pl newConfig newDict oldGen newGen notify True"

text \<open>The overload that takes the old generation from the shared block.\<close>

definition CommitNext :: "Env \<Rightarrow> Place \<Rightarrow> string \<Rightarrow> string \<Rightarrow> bool \<Rightarrow> bool io" where
  "CommitNext env pl newConfig newDict notify = do {
     shared \<leftarrow> queries sharedGeneration;
     let oldGen = (case shared of None \<Rightarrow> 0 | Some g \<Rightarrow> g);
     CommitTransaction env pl newConfig newDict oldGen (oldGen + 1) notify
   }"

text \<open>\<open>LoadUserDictionaryWordsLocked\<close>: \<open>None\<close> is a failure.\<close>

definition LoadUserDictionaryWordsLocked :: "Env \<Rightarrow> Place \<Rightarrow> u16string list option io" where
  "LoadUserDictionaryWordsLocked env pl = do {
     locked \<leftarrow> osCall (\<lambda>w. w) (\<lambda>_ w. w);
     if \<not> locked then State_Monad.return None
     else do {
       recovered \<leftarrow> RecoverIfNeeded env pl;
       content \<leftarrow> TryReadFileBytes (dictFile pl);
       State_Monad.return
         (if \<not> recovered then None
          else case content of
            None \<Rightarrow> Some []
          | Some c \<Rightarrow> (case parseDict env c of Inl _ \<Rightarrow> None | Inr r \<Rightarrow> Some (importEntries r)))
     }
   }"

text \<open>\<open>CommitLexiconUpdate\<close> merges its fields into the configuration on disk; \<open>envUpdate\<close> prints the
  document after the assignments.\<close>

definition currentWireGeneration :: "LexiconToml option \<Rightarrow> int" where
  "currentWireGeneration t =
    (case t of None \<Rightarrow> 1
     | Some t' \<Rightarrow> (case tomlWireGeneration t' of Some n \<Rightarrow> if n > 0 then n else 1 | None \<Rightarrow> 1))"

definition encodeRows :: "u16string list \<Rightarrow> u8string list option" where
  "encodeRows rows =
    (let encoded = map (\<lambda>w. Option.bind (Utf16ToUtf32 w) Utf32ToUtf8) rows in
     if None \<in> set encoded then None else Some (map the encoded))"

definition CommitLexiconUpdate :: "Env \<Rightarrow> Place \<Rightarrow> bool \<Rightarrow> u16string list \<Rightarrow> u16string list \<Rightarrow> bool io" where
  "CommitLexiconUpdate env pl suggest exclusions words = do {
     locked \<leftarrow> osCall (\<lambda>w. w) (\<lambda>_ w. w);
     if \<not> locked then State_Monad.return False
     else do {
       recovered \<leftarrow> RecoverIfNeeded env pl;
       content \<leftarrow> TryReadFileBytes (configFile pl);
       shared \<leftarrow> queries sharedGeneration;
       let t = (case content of None \<Rightarrow> None | Some c \<Rightarrow> envToml env c);
       let oldGen = (case shared of None \<Rightarrow> 0 | Some g \<Rightarrow> g);
       let g = currentWireGeneration t;
       if \<not> recovered \<or> content \<noteq> None \<and> t = None \<or> g \<ge> 2 ^ 63 - 1 then State_Monad.return False
       else case encodeRows exclusions of
         None \<Rightarrow> State_Monad.return False
       | Some rows \<Rightarrow>
           CommitTransactionImpl env pl (envUpdate env content suggest rows (g + 1))
             (map (\<lambda>b. char_of (unat b)) (FormatUserDictText words)) oldGen (oldGen + 1) False False
     }
   }"

end
