(* ===== verification/LexiconTxnProofs.thy ===== *)
theory LexiconTxnProofs
  imports LexiconTxn
begin

text \<open>
  What a crash can leave behind.  \<open>wp m Q C d\<close> says of a program started on the disk \<open>d\<close> that it ends
  with \<open>Q\<close>, or the process ends inside it with \<open>C\<close>, whatever the calls of the system do.
\<close>

named_theorems inert_intros \<open>operations leave the world alone after the end of the process\<close>
named_theorems wp_intros \<open>weakest preconditions of the operations\<close>

type_synonym disk = "string \<Rightarrow> string option"

section \<open>Programs after the end of the process\<close>

definition inert :: "'a io \<Rightarrow> bool" where
  "inert m \<longleftrightarrow> (\<forall>w. dead w \<longrightarrow> snd (run_state m w) = w)"

lemma inert_basic [inert_intros]:
  "inert (State_Monad.return x)" "inert (queries f)" "inert (osCall effect part)"
  by (simp_all add: inert_def queries_def osCall_def)

lemma inert_bind [inert_intros]:
  "inert m \<Longrightarrow> (\<And>x. inert (f x)) \<Longrightarrow> inert (State_Monad.bind m f)"
  by (auto simp: inert_def split: prod.split)

lemma inert_if [inert_intros]: "inert m \<Longrightarrow> inert n \<Longrightarrow> inert (if b then m else n)"
  by simp

lemma inert_option [inert_intros]: "inert m \<Longrightarrow> (\<And>x. inert (f x)) \<Longrightarrow> inert (case v of None \<Rightarrow> m | Some x \<Rightarrow> f x)"
  by (cases v) auto

lemma inert_files [inert_intros]:
  "inert (existsFile p)" "inert (ReadFileBytes p)" "inert (TryReadFileBytes p)" "inert (DurableWrite p c)"
  "inert (DurableAtomicRename p q)" "inert (copyFile p q)" "inert (removeFile p)" "inert (ReplaceFile p q r)"
  "inert (ReplaceOrMove p q r b)"
  unfolding existsFile_def ReadFileBytes_def TryReadFileBytes_def DurableWrite_def DurableAtomicRename_def copyFile_def
    removeFile_def ReplaceFile_def ReplaceOrMove_def
  by (intro inert_intros)+

lemma inert_removeEach [inert_intros]: "inert (removeEach ps)"
  by (induction ps) (auto intro!: inert_intros)

lemma inert_rollback [inert_intros]:
  "inert (alreadyRestored p b h)" "inert (rollbackOne b h p q)" "inert (RollbackToBackup jr p q r s)"
  "inert (rollbackFiles pl jr)" "inert (restoreFiles pl jr)" "inert (TransitionJournalState pl jr st)"
  "inert (PublishWireMapping snap)" "inert (PublishGeneration g)" "inert (publishIf b g)"
  unfolding alreadyRestored_def rollbackOne_def RollbackToBackup_def rollbackFiles_def restoreFiles_def
    TransitionJournalState_def PublishWireMapping_def PublishGeneration_def publishIf_def
  by (intro inert_intros)+

lemma inert_recover [inert_intros]:
  "inert (recoverPrepared pl jr)" "inert (recoverCommitted pl jr)" "inert (recoverGenerationPublished pl jr)"
  "inert (recoverFilesReplaced pl jr)" "inert (recoverRollbackPending env pl jr)" "inert (CleanStaleArtifacts pl)"
  "inert (dropTransaction pl)" "inert (finishCommit pl jr)" "inert (replaceFiles pl jr)"
  "inert (writeCopies pl a b x y)"
  unfolding recoverPrepared_def recoverCommitted_def recoverGenerationPublished_def recoverFilesReplaced_def
    recoverRollbackPending_def CleanStaleArtifacts_def dropTransaction_def finishCommit_def replaceFiles_def writeCopies_def
  by (intro inert_intros)+

lemma inert_state [inert_intros]:
  "inert a \<Longrightarrow> inert b \<Longrightarrow> inert c \<Longrightarrow> inert e \<Longrightarrow> inert f \<Longrightarrow> inert g \<Longrightarrow>
   inert (case st of Prepared \<Rightarrow> a | FilesReplaced \<Rightarrow> b | GenerationPublished \<Rightarrow> c | Committed \<Rightarrow> e
     | RollbackPending \<Rightarrow> f | StateUnknown \<Rightarrow> g)"
  by (cases st) simp_all

lemma inert_RecoverIfNeeded [inert_intros]: "inert (RecoverIfNeeded env pl)"
  unfolding RecoverIfNeeded_def by (intro inert_intros)

lemma inert_republish [inert_intros]: "inert (republish n g)"
  by (induction n) (auto intro!: inert_intros)

lemma inert_commit [inert_intros]:
  "inert (publishAll pl jr snap old)" "inert (runTransaction env pl a b x y n snap)"
  unfolding publishAll_def runTransaction_def Let_def by (intro inert_intros)+

section \<open>Weakest preconditions\<close>

definition wp :: "'a io \<Rightarrow> ('a \<Rightarrow> disk \<Rightarrow> bool) \<Rightarrow> (disk \<Rightarrow> bool) \<Rightarrow> disk \<Rightarrow> bool" where
  "wp m Q C d \<longleftrightarrow> (\<forall>w. files w = d \<and> \<not> dead w \<longrightarrow>
     (case run_state m w of (x, w') \<Rightarrow> if dead w' then C (files w') else Q x (files w')))"

lemma wpD:
  assumes "wp m Q C d" "files w = d" "\<not> dead w" "run_state m w = (x, w')"
  shows "if dead w' then C (files w') else Q x (files w')"
  using assms(1)[unfolded wp_def, rule_format, of w] assms(2-4) by simp

lemma wpI:
  assumes "\<And>w x w'. files w = d \<Longrightarrow> \<not> dead w \<Longrightarrow> run_state m w = (x, w') \<Longrightarrow>
    if dead w' then C (files w') else Q x (files w')"
  shows "wp m Q C d"
  using assms by (auto simp: wp_def split: prod.split)

lemma wp_return [wp_intros]: "Q x d \<Longrightarrow> wp (State_Monad.return x) Q C d"
  by (simp add: wp_def)

lemma wp_bind [wp_intros]:
  assumes "wp m (\<lambda>x. wp (f x) Q C) C d" "\<And>x. inert (f x)"
  shows "wp (State_Monad.bind m f) Q C d"
proof (rule wpI)
  fix w y w' assume w: "files w = d" "\<not> dead w" "run_state (State_Monad.bind m f) w = (y, w')"
  obtain x w1 where r: "run_state m w = (x, w1)" by (cases "run_state m w")
  then have f: "run_state (f x) w1 = (y, w')" using w(3) by simp
  note first = wpD[OF assms(1) w(1,2) r]
  show "if dead w' then C (files w') else Q y (files w')"
  proof (cases "dead w1")
    case True
    then have "w' = w1" using assms(2)[of x] f by (metis inert_def snd_conv)
    then show ?thesis using True first by simp
  next
    case False
    then show ?thesis using first wpD[OF _ refl False f, of Q C] by simp
  qed
qed

lemma wp_cons:
  assumes "wp m Q C d" "\<And>x d'. Q x d' \<Longrightarrow> Q' x d'" "\<And>d'. C d' \<Longrightarrow> C' d'"
  shows "wp m Q' C' d"
proof (rule wpI)
  fix w x w' assume "files w = d" "\<not> dead w" "run_state m w = (x, w')"
  from wpD[OF assms(1) this] show "if dead w' then C' (files w') else Q' x (files w')" using assms(2,3) by (simp split: if_splits)
qed

lemma wp_seq:
  assumes "wp m R C d" "\<And>x d'. R x d' \<Longrightarrow> wp (f x) Q C d'" "\<And>x. inert (f x)"
  shows "wp (State_Monad.bind m f) Q C d"
  using assms by (intro wp_bind wp_cons[OF assms(1)])

lemma wp_if [wp_intros]: "(b \<Longrightarrow> wp m Q C d) \<Longrightarrow> (\<not> b \<Longrightarrow> wp n Q C d) \<Longrightarrow> wp (if b then m else n) Q C d"
  by simp

lemma wp_option [wp_intros]:
  "(v = None \<Longrightarrow> wp m Q C d) \<Longrightarrow> (\<And>x. v = Some x \<Longrightarrow> wp (f x) Q C d) \<Longrightarrow>
   wp (case v of None \<Rightarrow> m | Some x \<Rightarrow> f x) Q C d"
  by (cases v) auto

lemma wp_existsFile [wp_intros]: "Q (d p \<noteq> None) d \<Longrightarrow> wp (existsFile p) Q C d"
  by (simp add: wp_def queries_def existsFile_def)

lemma wp_ReadFileBytes [wp_intros]: "Q (case d p of None \<Rightarrow> [] | Some c \<Rightarrow> c) d \<Longrightarrow> wp (ReadFileBytes p) Q C d"
  by (simp add: wp_def queries_def ReadFileBytes_def)

lemma wp_TryReadFileBytes [wp_intros]: "Q (d p) d \<Longrightarrow> wp (TryReadFileBytes p) Q C d"
  by (simp add: wp_def queries_def TryReadFileBytes_def)

lemma wp_osCall:
  assumes "\<And>w. \<not> dead w \<Longrightarrow> \<not> dead (effect w) \<and> files (effect w) = e (files w)"
    and "\<And>g w. \<not> dead w \<Longrightarrow> \<not> dead (part g w) \<and> files (part g w) = pf g (files w)"
    and "Q True (e d)" "\<And>g. Q False (pf g d) \<and> C (pf g d)"
  shows "wp (osCall effect part) Q C d"
  unfolding wp_def osCall_def using assms by (auto split: list.split outcome.split)

lemma wp_DurableWrite [wp_intros]:
  "Q True (d(p := Some c)) \<Longrightarrow> (\<And>g. Q False (d(p := g)) \<and> C (d(p := g))) \<Longrightarrow> wp (DurableWrite p c) Q C d"
  unfolding DurableWrite_def
  by (rule wp_osCall[where e = "\<lambda>d. d(p := Some c)" and pf = "\<lambda>g d. d(p := g)"]) (simp_all add: put_def)

lemma wp_DurableAtomicRename [wp_intros]:
  assumes "\<And>c. d p = Some c \<Longrightarrow> Q True (d(p := None, q := Some c))" "Q False d" "C d"
  shows "wp (DurableAtomicRename p q) Q C d"
  unfolding DurableAtomicRename_def
  by (intro wp_intros inert_intros)
    (use assms in \<open>auto intro!: wp_osCall[where e = "\<lambda>d. d(p := None, q := Some _)" and pf = "\<lambda>_ d. d"] simp: put_def\<close>)


lemma wp_copyFile [wp_intros]:
  assumes "\<And>c. d p = Some c \<Longrightarrow> Q True (d(q := Some c))" "\<And>g. Q False (d(q := g)) \<and> C (d(q := g))" "Q False d"
  shows "wp (copyFile p q) Q C d"
  unfolding copyFile_def
  by (intro wp_intros inert_intros)
    (use assms in \<open>auto intro!: wp_osCall[where e = "\<lambda>d. d(q := Some _)" and pf = "\<lambda>g d. d(q := g)"] simp: put_def\<close>)

lemma wp_removeFile [wp_intros]:
  assumes "Q (d p \<noteq> None) (d(p := None))" "Q False d" "C d"
  shows "wp (removeFile p) Q C d"
proof -
  have "wp (osCall (put p None) (\<lambda>_ w. w)) (\<lambda>ok. wp (State_Monad.return (d p \<noteq> None \<and> ok)) Q C) C d"
    by (rule wp_osCall[where e = "\<lambda>d. d(p := None)" and pf = "\<lambda>_ d. d"])
      (use assms in \<open>simp_all add: put_def wp_return\<close>)
  then show ?thesis unfolding removeFile_def by (intro wp_bind wp_existsFile inert_intros)
qed

lemma wp_ReplaceOrMove:
  assumes "d tmp = Some c" "tmp \<noteq> bak" "tmp \<noteq> dst" "bak \<noteq> dst"
    and "b \<Longrightarrow> d dst = Some o1"
    and "b \<Longrightarrow> Q True (d(bak := d dst, tmp := None, dst := Some c))"
    and "b \<Longrightarrow> Q True (d(bak := d dst, dst := Some c, tmp := None)) \<and> Q False (d(bak := d dst, dst := None)) \<and> C (d(bak := d dst, dst := None))"
    and "Q True (d(tmp := None, dst := Some c))" "Q False d" "C d"
  shows "wp (ReplaceOrMove tmp dst bak b) Q C d"
proof -
  have move: "wp (DurableAtomicRename tmp dst) Q C d'"
    if "d' = d \<or> b \<and> d' = d(bak := d dst, dst := None)" for d'
    using that assms by (auto intro!: wp_DurableAtomicRename simp: fun_upd_twist)
  let ?next = "\<lambda>ok. wp (if ok then State_Monad.return True else DurableAtomicRename tmp dst) Q C"
  have "wp (osCall (\<lambda>w. put dst (Some c) (put tmp None (put bak (Some o1) w)))
      (\<lambda>g w. if g = None then w else put dst None (put bak (Some o1) w))) ?next C d" if b
    by (rule wp_osCall[where e = "\<lambda>e. e(bak := Some o1, tmp := None, dst := Some c)"
          and pf = "\<lambda>g e. if g = None then e else e(bak := Some o1, dst := None)"])
      (use assms that move in \<open>auto simp: put_def wp_return\<close>)
  then have "b \<Longrightarrow> wp (ReplaceFile dst tmp bak) ?next C d"
    using assms(1,5) unfolding ReplaceFile_def
    by (intro wp_bind wp_TryReadFileBytes inert_intros) (simp add: assms(1) cong: if_cong)
  moreover have "wp (State_Monad.return False) ?next C d" using move by (simp add: wp_return)
  ultimately show ?thesis unfolding ReplaceOrMove_def by (intro wp_bind inert_intros wp_if) simp_all
qed

lemma wp_queries [wp_intros]: "(\<And>x. Q x d) \<Longrightarrow> wp (queries f) Q C d"
  by (simp add: wp_def queries_def)

lemma wp_off_disk:
  assumes "\<And>w. files (effect w) = files w \<and> dead (effect w) = dead w"
    "\<And>g w. files (part g w) = files w \<and> dead (part g w) = dead w" "\<And>x. Q x d" "C d"
  shows "wp (osCall effect part) Q C d"
  by (rule wp_osCall[where e = "\<lambda>d. d" and pf = "\<lambda>_ d. d"]) (use assms in auto)

lemma wp_PublishWireMapping [wp_intros]: "(\<And>x. Q x d) \<Longrightarrow> C d \<Longrightarrow> wp (PublishWireMapping snap) Q C d"
  unfolding PublishWireMapping_def by (intro wp_bind wp_queries wp_if wp_return wp_off_disk inert_intros) auto

lemma wp_PublishGeneration [wp_intros]: "(\<And>x. Q x d) \<Longrightarrow> C d \<Longrightarrow> wp (PublishGeneration g) Q C d"
  unfolding PublishGeneration_def by (intro wp_bind wp_queries wp_if wp_return wp_off_disk inert_intros) auto

lemma wp_publishIf [wp_intros]: "(\<And>x. Q x d) \<Longrightarrow> C d \<Longrightarrow> wp (publishIf b g) Q C d"
  unfolding publishIf_def by (intro wp_if wp_PublishGeneration wp_return)

lemma wp_republish [wp_intros]: "(\<And>x. Q x d) \<Longrightarrow> C d \<Longrightarrow> wp (republish n g) Q C d"
  by (induction n) (auto intro!: wp_intros inert_intros)

lemma wp_removeEach:
  assumes "\<And>p d'. p \<in> set ps \<Longrightarrow> I d' \<Longrightarrow> I (d'(p := None))" "I d"
  shows "wp (removeEach ps) (\<lambda>_. I) I d"
  using assms
proof (induction ps arbitrary: d)
  case Nil
  then show ?case by (simp add: wp_return)
next
  case (Cons p ps)
  have "wp (removeEach ps) (\<lambda>_. I) I d'" if "I d'" for d' using Cons.IH[of d'] Cons.prems(1) that by simp
  moreover have "I (d(p := None))" by (rule Cons.prems(1)) (simp_all add: Cons.prems(2))
  ultimately show ?case using Cons.prems(2) by (simp add: wp_bind wp_removeFile inert_intros)
qed


declare removeEach.simps [simp del]

lemma wp_TransitionJournalState:
  assumes "\<And>g. Q False (d(GetJournalTmpPath pl := g)) \<and> C (d(GetJournalTmpPath pl := g))"
    and "Q True (d(GetJournalTmpPath pl := None, GetJournalPath pl := Some (JournalSerialize (jr\<lparr>jState := st\<rparr>))))"
  shows "wp (TransitionJournalState pl jr st) Q C d"
  unfolding TransitionJournalState_def
  by (intro wp_intros inert_intros) (use assms in \<open>simp_all add: wp_return\<close>)

section \<open>The states of a transaction\<close>

text \<open>One replacement of two existing files.\<close>

record Replacement =
  rPlace :: Place
  oldConfig :: string
  oldDict :: string
  newConfig :: string
  newDict :: string
  oldGen :: "8 word"
  newGen :: "8 word"
  notifies :: bool

definition txnRecord :: "Replacement \<Rightarrow> LexiconJournalState \<Rightarrow> LexiconJournalRecord" where
  "txnRecord T st = (preparedRecord (rPlace T) (Some (oldConfig T)) (Some (oldDict T)) (newConfig T) (newDict T)
     (oldGen T) (newGen T) (notifies T))\<lparr>jState := st\<rparr>"

definition allPaths :: "Place \<Rightarrow> string list" where
  "allPaths pl = [configFile pl, configTmpFile pl, configBakFile pl, dictFile pl, dictTmpFile pl, dictBakFile pl,
     GetJournalPath pl, GetJournalTmpPath pl, corruptFile pl]"

definition goodPlace :: "Place \<Rightarrow> bool" where
  "goodPlace pl \<longleftrightarrow> distinct (allPaths pl) \<and> lineSafe (placeDir pl) \<and> lineSafe (placeName pl)"

lemma goodPlace_paths: "goodPlace pl \<Longrightarrow> distinct (allPaths pl) \<and> distinct (rev (allPaths pl))"
  by (simp add: goodPlace_def)

lemmas path_simps = goodPlace_paths[unfolded allPaths_def, simplified]

lemma storable_txnRecord: "goodPlace (rPlace T) \<Longrightarrow> st \<noteq> StateUnknown \<Longrightarrow> storable (txnRecord T st)"
  using ComputeHash_lineSafe(1)
  by (auto simp: storable_def txnRecord_def preparedRecord_def goodPlace_def hashOr_def configBakFile_def dictBakFile_def
    configTmpFile_def dictTmpFile_def inDir_def lineSafe_def newline_def carriageReturn_def)

lemma txnRecord_paths:
  "recordConfigBak (rPlace T) (txnRecord T st) = configBakFile (rPlace T)"
  "recordDictBak (rPlace T) (txnRecord T st) = dictBakFile (rPlace T)"
  "recordArtifacts (rPlace T) (txnRecord T st) =
    [configTmpFile (rPlace T), dictTmpFile (rPlace T), configBakFile (rPlace T), dictBakFile (rPlace T)]"
  by (simp_all add: recordConfigBak_def recordDictBak_def recordArtifacts_def orDefault_def txnRecord_def preparedRecord_def
    configBakFile_def dictBakFile_def configTmpFile_def dictTmpFile_def inDir_def)

lemma txnRecord_simps [simp]:
  "jState (txnRecord T st) = st" "configExistedBefore (txnRecord T st) = True"
  "dictExistedBefore (txnRecord T st) = True"
  "oldConfigHash (txnRecord T st) = ComputeHash (oldConfig T)" "oldDictHash (txnRecord T st) = ComputeHash (oldDict T)"
  "newConfigHash (txnRecord T st) = ComputeHash (newConfig T)" "newDictHash (txnRecord T st) = ComputeHash (newDict T)"
  "notifySharedState (txnRecord T st) = notifies T" "oldGeneration (txnRecord T st) = oldGen T"
  "newGeneration (txnRecord T st) = newGen T" "(txnRecord T st)\<lparr>jState := st'\<rparr> = txnRecord T st'"
  by (simp_all add: txnRecord_def preparedRecord_def hashOr_def)

definition journalIs :: "Replacement \<Rightarrow> LexiconJournalState \<Rightarrow> disk \<Rightarrow> bool" where
  "journalIs T st d \<longleftrightarrow> d (GetJournalPath (rPlace T)) = Some (JournalSerialize (txnRecord T st)) \<and> d (corruptFile (rPlace T)) = None"

definition quiet :: "Replacement \<Rightarrow> disk \<Rightarrow> bool" where
  "quiet T d \<longleftrightarrow> d (GetJournalPath (rPlace T)) = None \<and> d (corruptFile (rPlace T)) = None"

definition oldPair :: "Replacement \<Rightarrow> disk \<Rightarrow> bool" where
  "oldPair T d \<longleftrightarrow> d (configFile (rPlace T)) = Some (oldConfig T) \<and> d (dictFile (rPlace T)) = Some (oldDict T)"

definition newPair :: "Replacement \<Rightarrow> disk \<Rightarrow> bool" where
  "newPair T d \<longleftrightarrow> d (configFile (rPlace T)) = Some (newConfig T) \<and> d (dictFile (rPlace T)) = Some (newDict T)"

definition saved :: "Replacement \<Rightarrow> disk \<Rightarrow> bool" where
  "saved T d \<longleftrightarrow> d (configBakFile (rPlace T)) = Some (oldConfig T) \<and> d (dictBakFile (rPlace T)) = Some (oldDict T)"

definition restorable :: "disk \<Rightarrow> string \<Rightarrow> string \<Rightarrow> string \<Rightarrow> bool" where
  "restorable d f bak old \<longleftrightarrow> d bak = Some old \<or> d bak = None \<and> d f = Some old"

definition rolling :: "Replacement \<Rightarrow> LexiconJournalState \<Rightarrow> disk \<Rightarrow> bool" where
  "rolling T st d \<longleftrightarrow> journalIs T st d \<and>
     restorable d (configFile (rPlace T)) (configBakFile (rPlace T)) (oldConfig T) \<and>
     restorable d (dictFile (rPlace T)) (dictBakFile (rPlace T)) (oldDict T)"

text \<open>The disks a crash can leave.\<close>

definition crashSafe :: "Replacement \<Rightarrow> disk \<Rightarrow> bool" where
  "crashSafe T d \<longleftrightarrow>
     quiet T d \<and> (oldPair T d \<or> newPair T d) \<or> rolling T Prepared d \<or> rolling T RollbackPending d \<or>
     journalIs T FilesReplaced d \<and> newPair T d \<and> saved T d \<or>
     journalIs T GenerationPublished d \<and> newPair T d \<or> journalIs T Committed d \<and> newPair T d"

lemmas disk_defs = journalIs_def quiet_def oldPair_def newPair_def saved_def restorable_def rolling_def

section \<open>Rollback\<close>

lemma wp_rollbackOne:
  assumes "restorable d p bak old" "p \<noteq> bak" "Q True (d(bak := None, p := Some old))" "Q False d" "C d"
  shows "wp (rollbackOne True (ComputeHash old) p bak) Q C d"
proof (cases "d bak")
  case None
  then have "d(bak := None, p := Some old) = d" using assms(1) by (auto simp: restorable_def)
  then show ?thesis
    using None assms ComputeHash_lineSafe(2)[of old]
    by (auto simp: rollbackOne_def alreadyRestored_def restorable_def intro!: wp_intros inert_intros)
next
  case (Some c)
  then show ?thesis
    using assms by (auto simp: rollbackOne_def restorable_def intro!: wp_intros inert_intros)
qed

lemma wp_RollbackToBackup:
  assumes "goodPlace (rPlace T)" "rolling T st d"
  shows "wp (RollbackToBackup (txnRecord T st') (configFile (rPlace T)) (dictFile (rPlace T)) (configBakFile (rPlace T))
      (dictBakFile (rPlace T)))
    (\<lambda>ok d'. rolling T st d' \<and> (ok \<longrightarrow> oldPair T d')) (rolling T st) d"
proof -
  note paths = path_simps[OF assms(1)]
  let ?mid = "\<lambda>ok d'. rolling T st d' \<and> (ok \<longrightarrow> d' (configFile (rPlace T)) = Some (oldConfig T))"
  have "wp (rollbackOne True (ComputeHash (oldConfig T)) (configFile (rPlace T)) (configBakFile (rPlace T))) ?mid (rolling T st) d"
    by (rule wp_rollbackOne) (use assms paths in \<open>auto simp: rolling_def restorable_def journalIs_def\<close>)
  note first = this
  have "wp (State_Monad.bind (rollbackOne True (ComputeHash (oldDict T)) (dictFile (rPlace T)) (dictBakFile (rPlace T)))
      (\<lambda>okDict. State_Monad.return (ok \<and> okDict)))
      (\<lambda>ok d'. rolling T st d' \<and> (ok \<longrightarrow> oldPair T d')) (rolling T st) d'" if "?mid ok d'" for ok d'
    by (intro wp_bind inert_intros wp_rollbackOne wp_return)
      (use that paths in \<open>auto simp: rolling_def restorable_def journalIs_def oldPair_def\<close>)
  note second = this
  show ?thesis
    unfolding RollbackToBackup_def txnRecord_simps
    by (rule wp_seq[OF first]) (use second in \<open>auto intro!: inert_intros\<close>)
qed


section \<open>Recovery\<close>

text \<open>A state that stays as it is when artifacts are removed.\<close>

definition settled :: "Replacement \<Rightarrow> disk \<Rightarrow> bool" where
  "settled T d \<longleftrightarrow> quiet T d \<and> (oldPair T d \<or> newPair T d) \<or>
     rolling T Prepared d \<and> oldPair T d \<or> rolling T RollbackPending d \<and> oldPair T d \<or>
     journalIs T GenerationPublished d \<and> newPair T d \<or> journalIs T Committed d \<and> newPair T d"

lemma settled_safe: "settled T d \<Longrightarrow> crashSafe T d"
  by (auto simp: settled_def crashSafe_def)

lemma settled_pair: "settled T d \<Longrightarrow> oldPair T d \<or> newPair T d"
  by (auto simp: settled_def)

definition artifacts :: "Place \<Rightarrow> string set" where
  "artifacts pl = {configTmpFile pl, dictTmpFile pl, configBakFile pl, dictBakFile pl, GetJournalPath pl,
     GetJournalTmpPath pl, corruptFile pl}"

lemma settled_remove:
  assumes "goodPlace (rPlace T)" "p \<in> artifacts (rPlace T)" "settled T d"
  shows "settled T (d(p := None))"
  using path_simps[OF assms(1)] assms(2,3)
  by (auto simp: artifacts_def settled_def disk_defs)

lemma newPair_remove:
  assumes "goodPlace (rPlace T)" "p \<in> artifacts (rPlace T)" "newPair T d"
  shows "newPair T (d(p := None))"
  using path_simps[OF assms(1)] assms(2,3) by (auto simp: artifacts_def disk_defs)

lemma wp_cleanup:
  assumes "goodPlace (rPlace T)" "set ps \<subseteq> artifacts (rPlace T)" "settled T d"
  shows "wp (removeEach ps) (\<lambda>_ d'. settled T d' \<and> (newPair T d \<longrightarrow> newPair T d')) (settled T) d"
proof -
  have "wp (removeEach ps) (\<lambda>_. settled T) (settled T) d"
    by (rule wp_removeEach) (use assms settled_remove in blast)+
  moreover have "wp (removeEach ps) (\<lambda>_ d'. settled T d' \<and> newPair T d') (\<lambda>d'. settled T d' \<and> newPair T d') d" if "newPair T d"
    by (rule wp_removeEach) (use assms that settled_remove newPair_remove in blast)+
  ultimately show ?thesis by (cases "newPair T d") (auto elim: wp_cons)
qed

text \<open>The end of most branches: remove, then answer.\<close>

lemma wp_cleanup_return:
  assumes "goodPlace (rPlace T)" "set ps \<subseteq> artifacts (rPlace T)" "settled T d"
  shows "wp (State_Monad.bind (removeEach ps) (\<lambda>_. State_Monad.return ok)) (\<lambda>ok' d'. settled T d' \<and> ok' = ok \<and> (newPair T d \<longrightarrow> newPair T d')) (crashSafe T) d"
  by (rule wp_seq[OF wp_cons[OF wp_cleanup[OF assms]]]) (auto intro: settled_safe wp_return inert_intros)

definition recovered :: "Replacement \<Rightarrow> bool \<Rightarrow> disk \<Rightarrow> bool" where
  "recovered T ok d \<longleftrightarrow> crashSafe T d \<and> (ok \<longrightarrow> settled T d)"

lemma recoveredI: "settled T d \<Longrightarrow> recovered T ok d" "crashSafe T d \<Longrightarrow> recovered T False d"
  by (simp_all add: recovered_def settled_safe)

lemma wp_recoverCommitted:
  assumes "goodPlace (rPlace T)" "settled T d"
  shows "wp (recoverCommitted (rPlace T) (txnRecord T st)) (recovered T) (crashSafe T) d"
  unfolding recoverCommitted_def txnRecord_paths
  by (rule wp_cons[OF wp_cleanup_return]) (use assms in \<open>auto simp: artifacts_def recoveredI\<close>)

lemma wp_rollbackFiles:
  assumes "goodPlace (rPlace T)" "rolling T st d"
  shows "wp (rollbackFiles (rPlace T) (txnRecord T st')) (\<lambda>ok d'. rolling T st d' \<and> (ok \<longrightarrow> oldPair T d')) (rolling T st) d"
  unfolding rollbackFiles_def txnRecord_paths by (rule wp_RollbackToBackup[OF assms])

lemma wp_restoreFiles:
  assumes "goodPlace (rPlace T)" "rolling T st d"
  shows "wp (restoreFiles (rPlace T) (txnRecord T st')) (\<lambda>ok d'. rolling T st d' \<and> (ok \<longrightarrow> oldPair T d')) (rolling T st) d"
  unfolding restoreFiles_def txnRecord_paths
  by (intro wp_bind wp_existsFile wp_if wp_rollbackFiles wp_ReadFileBytes wp_return inert_intros)
    (use assms in \<open>auto simp: rolling_def restorable_def oldPair_def\<close>)

lemma rolling_settled: "rolling T st d \<Longrightarrow> oldPair T d \<Longrightarrow> st = Prepared \<or> st = RollbackPending \<Longrightarrow> settled T d"
  by (auto simp: settled_def)

lemma rolling_safe: "rolling T st d \<Longrightarrow> st = Prepared \<or> st = RollbackPending \<Longrightarrow> crashSafe T d"
  by (auto simp: crashSafe_def)

lemma wp_recoverPrepared:
  assumes "goodPlace (rPlace T)" "rolling T Prepared d"
  shows "wp (recoverPrepared (rPlace T) (txnRecord T Prepared)) (recovered T) (crashSafe T) d"
  unfolding recoverPrepared_def recoverCommitted_def[symmetric]
  by (rule wp_seq[OF wp_cons[OF wp_rollbackFiles[OF assms]]])
    (auto intro!: wp_if wp_return wp_recoverCommitted inert_intros assms(1) recoveredI dest: rolling_safe rolling_settled)

lemma wp_transition:
  assumes "goodPlace (rPlace T)"
    and "\<And>g. Q False (d(GetJournalTmpPath (rPlace T) := g)) \<and> C (d(GetJournalTmpPath (rPlace T) := g))"
    and "Q True (d(GetJournalTmpPath (rPlace T) := None, GetJournalPath (rPlace T) := Some (JournalSerialize (txnRecord T st))))"
  shows "wp (TransitionJournalState (rPlace T) (txnRecord T st') st) Q C d"
  by (rule wp_TransitionJournalState) (use assms in \<open>simp_all\<close>)

lemma wp_recoverGenerationPublished:
  assumes "goodPlace (rPlace T)" "journalIs T GenerationPublished d" "newPair T d"
  shows "wp (recoverGenerationPublished (rPlace T) (txnRecord T st)) (recovered T) (crashSafe T) d"
proof -
  note paths = path_simps[OF assms(1)]
  let ?I = "\<lambda>d. journalIs T GenerationPublished d \<and> newPair T d"
  have safe: "crashSafe T d'" if "?I d'" for d' using that by (auto simp: crashSafe_def)
  have clean: "wp (removeEach (recordArtifacts (rPlace T) (txnRecord T st))) (\<lambda>_. ?I) (crashSafe T) d"
    by (rule wp_cons[OF wp_removeEach[where I = ?I]])
      (use assms paths safe in \<open>auto simp: txnRecord_paths disk_defs\<close>)
  have commit: "wp (TransitionJournalState (rPlace T) (txnRecord T st) Committed)
      (\<lambda>ok d'. crashSafe T d' \<and> (ok \<longrightarrow> settled T d')) (crashSafe T) d'" if "?I d'" for d'
    by (rule wp_transition) (use that assms(1) paths in \<open>auto simp: crashSafe_def settled_def disk_defs\<close>)
  have last: "wp (State_Monad.bind (removeEach [GetJournalPath (rPlace T)]) (\<lambda>_. State_Monad.return True))
      (recovered T) (crashSafe T) d'" if "settled T d'" for d'
    by (rule wp_cons[OF wp_cleanup_return[OF assms(1) _ that]]) (auto simp: artifacts_def recoveredI)
  show ?thesis
    unfolding recoverGenerationPublished_def
    by (rule wp_seq[OF clean], rule wp_seq[OF commit])
      (auto intro!: wp_if wp_return recoveredI last inert_intros)
qed

lemma wp_recoverFilesReplaced:
  assumes "goodPlace (rPlace T)" "journalIs T FilesReplaced d" "newPair T d" "saved T d"
  shows "wp (recoverFilesReplaced (rPlace T) (txnRecord T FilesReplaced)) (recovered T) (crashSafe T) d"
proof -
  note paths = path_simps[OF assms(1)]
  have safe: "crashSafe T d" using assms by (auto simp: crashSafe_def)
  have transition: "wp (TransitionJournalState (rPlace T) (txnRecord T FilesReplaced) GenerationPublished)
      (\<lambda>ok d'. crashSafe T d' \<and> (ok \<longrightarrow> journalIs T GenerationPublished d' \<and> newPair T d')) (crashSafe T) d"
    by (rule wp_transition) (use assms paths in \<open>auto simp: crashSafe_def disk_defs\<close>)
  have tail: "wp (State_Monad.bind (TransitionJournalState (rPlace T) (txnRecord T FilesReplaced) GenerationPublished)
      (\<lambda>ok. if \<not> ok then State_Monad.return False
        else recoverGenerationPublished (rPlace T) (txnRecord T FilesReplaced))) (recovered T) (crashSafe T) d"
    by (rule wp_seq[OF transition])
      (auto intro!: wp_if wp_return recoveredI wp_recoverGenerationPublished assms(1) inert_intros)
  have hashes: "\<not> (ComputeHash (newConfig T) \<noteq> newConfigHash (txnRecord T FilesReplaced) \<or>
      ComputeHash (newDict T) \<noteq> newDictHash (txnRecord T FilesReplaced))"
    by simp
  show ?thesis
    unfolding recoverFilesReplaced_def
    by (intro wp_bind wp_ReadFileBytes inert_intros)
      (use assms(3) hashes safe in \<open>auto simp: newPair_def intro!: wp_bind wp_publishIf wp_return recoveredI tail inert_intros\<close>)
qed

lemma wp_recoverRollbackPending:
  assumes "goodPlace (rPlace T)" "rolling T RollbackPending d"
  shows "wp (recoverRollbackPending env (rPlace T) (txnRecord T RollbackPending)) (recovered T) (crashSafe T) d"
proof -
  have pending: "crashSafe T d'" if "rolling T RollbackPending d'" for d' using that by (auto simp: crashSafe_def)
  show ?thesis
    unfolding recoverRollbackPending_def
    by (rule wp_seq[OF wp_cons[OF wp_restoreFiles[OF assms]]])
      (auto intro!: wp_if wp_return wp_bind wp_publishIf wp_queries wp_ReadFileBytes wp_existsFile wp_option
        wp_PublishWireMapping wp_recoverCommitted inert_intros assms(1) recoveredI pending intro: rolling_settled)
qed

lemma JournalDeserialize_txn:
  "goodPlace (rPlace T) \<Longrightarrow> st \<noteq> StateUnknown \<Longrightarrow> JournalDeserialize (JournalSerialize (txnRecord T st)) = Some (txnRecord T st)"
  by (rule Deserialize_Serialize[OF storable_txnRecord])

lemma wp_RecoverIfNeeded:
  assumes "goodPlace (rPlace T)" "crashSafe T d"
  shows "wp (RecoverIfNeeded env (rPlace T)) (recovered T) (crashSafe T) d"
proof -
  let ?j = "GetJournalPath (rPlace T)"
  let ?branch = "\<lambda>t. wp (case JournalDeserialize t of
      None \<Rightarrow> State_Monad.bind (DurableAtomicRename ?j (corruptFile (rPlace T))) (\<lambda>moved.
        State_Monad.bind (removeEach (if moved then [] else [?j])) (\<lambda>_. State_Monad.return False))
    | Some jr \<Rightarrow> (case jState jr of
        Prepared \<Rightarrow> recoverPrepared (rPlace T) jr
      | FilesReplaced \<Rightarrow> recoverFilesReplaced (rPlace T) jr
      | GenerationPublished \<Rightarrow> recoverGenerationPublished (rPlace T) jr
      | Committed \<Rightarrow> recoverCommitted (rPlace T) jr
      | RollbackPending \<Rightarrow> recoverRollbackPending env (rPlace T) jr
      | StateUnknown \<Rightarrow> State_Monad.bind (removeEach [?j]) (\<lambda>_. State_Monad.return True)))
    (recovered T) (crashSafe T) d"
  have corrupt: "d (corruptFile (rPlace T)) = None" using assms(2) by (auto simp: crashSafe_def disk_defs)
  have branch: "?branch t" if t: "d ?j = Some t" for t
  proof -
    consider (1) "rolling T Prepared d" | (2) "rolling T RollbackPending d"
      | (3) "journalIs T FilesReplaced d" "newPair T d" "saved T d"
      | (4) "journalIs T GenerationPublished d" "newPair T d" | (5) "journalIs T Committed d" "newPair T d"
      using assms(2) t by (auto simp: crashSafe_def quiet_def)
    then show ?thesis
    proof cases
      case 1
      then have "t = JournalSerialize (txnRecord T Prepared)" using t by (simp add: rolling_def journalIs_def)
      then show ?thesis by (simp add: JournalDeserialize_txn assms(1) wp_recoverPrepared[OF assms(1) 1])
    next
      case 2
      then have "t = JournalSerialize (txnRecord T RollbackPending)" using t by (simp add: rolling_def journalIs_def)
      then show ?thesis by (simp add: JournalDeserialize_txn assms(1) wp_recoverRollbackPending[OF assms(1) 2])
    next
      case 3
      then have "t = JournalSerialize (txnRecord T FilesReplaced)" using t by (simp add: journalIs_def)
      then show ?thesis by (simp add: JournalDeserialize_txn assms(1) wp_recoverFilesReplaced[OF assms(1) 3])
    next
      case 4
      then have "t = JournalSerialize (txnRecord T GenerationPublished)" using t by (simp add: journalIs_def)
      then show ?thesis by (simp add: JournalDeserialize_txn assms(1) wp_recoverGenerationPublished[OF assms(1) 4])
    next
      case 5
      then have "t = JournalSerialize (txnRecord T Committed)" "settled T d" using t by (simp_all add: journalIs_def settled_def)
      then show ?thesis by (simp add: JournalDeserialize_txn assms(1) wp_recoverCommitted)
    qed
  qed
  have quiet: "recovered T True d" if "d ?j = None"
    using assms(2) that by (auto simp: crashSafe_def rolling_def journalIs_def settled_def recovered_def)
  have some: "wp (if d (corruptFile (rPlace T)) \<noteq> None then State_Monad.return False
      else if \<not> d ?j \<noteq> None then State_Monad.return True else m) (recovered T) (crashSafe T) d"
    if "wp m (recovered T) (crashSafe T) d" "d ?j = Some t" for m t
    using that corrupt by simp
  have none: "wp (if d (corruptFile (rPlace T)) \<noteq> None then State_Monad.return False
      else if \<not> d ?j \<noteq> None then State_Monad.return True else m) (recovered T) (crashSafe T) d" if "d ?j = None" for m
    using that corrupt quiet by (simp add: wp_return)
  show ?thesis
  proof (cases "d ?j")
    case None
    show ?thesis unfolding RecoverIfNeeded_def by (intro wp_bind wp_existsFile wp_ReadFileBytes none None) (intro inert_intros)+
  next
    case (Some t)
    have t: "(case d ?j of None \<Rightarrow> [] | Some c \<Rightarrow> c) = t" using Some by simp
    show ?thesis unfolding RecoverIfNeeded_def
    proof (intro wp_bind wp_existsFile wp_ReadFileBytes, goal_cases)
      case 1
      show ?case unfolding t by (rule some[OF branch[OF Some] Some])
    qed (intro inert_intros)+
  qed
qed


section \<open>Commit\<close>

definition replaced :: "Replacement \<Rightarrow> disk \<Rightarrow> bool" where
  "replaced T d \<longleftrightarrow> journalIs T FilesReplaced d \<and> newPair T d \<and> saved T d"

lemma replaced_safe: "replaced T d \<Longrightarrow> crashSafe T d"
  by (auto simp: replaced_def crashSafe_def)

definition copied :: "Replacement \<Rightarrow> disk \<Rightarrow> bool" where
  "copied T d \<longleftrightarrow> saved T d \<and> d (configTmpFile (rPlace T)) = Some (newConfig T) \<and> d (dictTmpFile (rPlace T)) = Some (newDict T)"

lemma wp_writeCopies:
  assumes "goodPlace (rPlace T)" "quiet T d" "oldPair T d"
  shows "wp (writeCopies (rPlace T) (newConfig T) (newDict T) True True)
    (\<lambda>ok d'. (quiet T d' \<and> oldPair T d') \<and> (ok \<longrightarrow> copied T d')) (crashSafe T) d"
proof -
  note paths = path_simps[OF assms(1)]
  let ?pl = "rPlace T"
  let ?I = "\<lambda>d. quiet T d \<and> oldPair T d"
  have safe: "crashSafe T d'" if "?I d'" for d' using that by (auto simp: crashSafe_def)
  have keep: "?I (d'(p := c))" if "?I d'" "p \<in> {configTmpFile ?pl, dictTmpFile ?pl, configBakFile ?pl, dictBakFile ?pl}" for d' p c
    using that paths by (auto simp: quiet_def oldPair_def)
  have c1: "wp (DurableWrite (configTmpFile ?pl) (newConfig T))
      (\<lambda>ok d'. ?I d' \<and> (ok \<longrightarrow> d' (configTmpFile ?pl) = Some (newConfig T))) (crashSafe T) d"
    by (rule wp_DurableWrite) (use assms keep safe in auto)
  have c2: "wp (if ok then DurableWrite (dictTmpFile ?pl) (newDict T) else State_Monad.return False)
      (\<lambda>ok d'. ?I d' \<and> (ok \<longrightarrow> d' (configTmpFile ?pl) = Some (newConfig T) \<and> d' (dictTmpFile ?pl) = Some (newDict T)))
      (crashSafe T) d'" if "?I d' \<and> (ok \<longrightarrow> d' (configTmpFile ?pl) = Some (newConfig T))" for ok d'
    by (intro wp_if wp_DurableWrite wp_return) (use that paths keep[of d'] safe in auto)
  have c3: "wp (if \<not> ok then State_Monad.return False
        else if True then copyFile (configFile ?pl) (configBakFile ?pl) else State_Monad.return True)
      (\<lambda>ok d'. ?I d' \<and> (ok \<longrightarrow> d' (configTmpFile ?pl) = Some (newConfig T) \<and> d' (dictTmpFile ?pl) = Some (newDict T) \<and>
        d' (configBakFile ?pl) = Some (oldConfig T))) (crashSafe T) d'"
    if "?I d' \<and> (ok \<longrightarrow> d' (configTmpFile ?pl) = Some (newConfig T) \<and> d' (dictTmpFile ?pl) = Some (newDict T))" for ok d'
    by (intro wp_if wp_copyFile wp_return) (use that paths keep[of d'] safe in \<open>auto simp: oldPair_def\<close>)
  have c4: "wp (if \<not> ok then State_Monad.return False
        else if True then copyFile (dictFile ?pl) (dictBakFile ?pl) else State_Monad.return True)
      (\<lambda>ok d'. ?I d' \<and> (ok \<longrightarrow> copied T d')) (crashSafe T) d'"
    if "?I d' \<and> (ok \<longrightarrow> d' (configTmpFile ?pl) = Some (newConfig T) \<and> d' (dictTmpFile ?pl) = Some (newDict T) \<and>
        d' (configBakFile ?pl) = Some (oldConfig T))" for ok d'
    by (intro wp_if wp_copyFile wp_return) (use that paths keep[of d'] safe in \<open>auto simp: oldPair_def copied_def saved_def\<close>)
  show ?thesis
    unfolding writeCopies_def
    by (rule wp_seq[OF c1], rule wp_seq[OF c2], assumption, rule wp_seq[OF c3], assumption, rule c4, assumption)
      (intro inert_intros)+
qed

lemma wp_CleanStaleArtifacts:
  assumes "goodPlace (rPlace T)" "settled T d"
  shows "wp (CleanStaleArtifacts (rPlace T)) (\<lambda>_. settled T) (crashSafe T) d"
  unfolding CleanStaleArtifacts_def
  by (rule wp_cons[OF wp_cleanup]) (use assms in \<open>auto simp: artifacts_def settled_safe\<close>)

lemma wp_dropTransaction:
  assumes "goodPlace (rPlace T)" "settled T d"
  shows "wp (dropTransaction (rPlace T)) (\<lambda>_. settled T) (crashSafe T) d"
  unfolding dropTransaction_def
  by (rule wp_cons[OF wp_cleanup]) (use assms in \<open>auto simp: artifacts_def settled_safe\<close>)

text \<open>Rollback inside the commit, with what follows it.\<close>

lemma wp_rollback_then:
  assumes "goodPlace (rPlace T)" "rolling T st d" "st = Prepared \<or> st = RollbackPending"
    and "\<And>d'. settled T d' \<Longrightarrow> wp (clean True) (\<lambda>_. settled T) (crashSafe T) d'"
    and "clean False = State_Monad.return ()" "\<And>ok. inert (clean ok)"
  shows "wp (State_Monad.bind (RollbackToBackup (txnRecord T st') (configFile (rPlace T)) (dictFile (rPlace T))
        (configBakFile (rPlace T)) (dictBakFile (rPlace T)))
      (\<lambda>restored. State_Monad.bind (clean (restored \<and> b)) (\<lambda>_. State_Monad.return False)))
    (\<lambda>ok d'. \<not> ok \<and> crashSafe T d') (crashSafe T) d"
proof -
  have undo: "wp (RollbackToBackup (txnRecord T st') (configFile (rPlace T)) (dictFile (rPlace T)) (configBakFile (rPlace T))
      (dictBakFile (rPlace T))) (\<lambda>ok d'. crashSafe T d' \<and> (ok \<longrightarrow> settled T d')) (crashSafe T) d"
    by (rule wp_cons[OF wp_RollbackToBackup[OF assms(1,2)]])
      (use assms(3) in \<open>auto dest: rolling_safe rolling_settled\<close>)
  have clean: "wp (clean (restored \<and> b)) (\<lambda>_. crashSafe T) (crashSafe T) d'"
    if "crashSafe T d' \<and> (restored \<longrightarrow> settled T d')" for restored d'
    using that assms(5) wp_cons[OF assms(4), of d' "\<lambda>_. crashSafe T" "crashSafe T"]
    by (cases "restored \<and> b") (auto simp: settled_safe wp_return)
  show ?thesis
    by (rule wp_seq[OF undo], rule wp_seq[OF clean], assumption, rule wp_return, simp)
      (intro inert_intros assms(6))+
qed

lemma wp_replaceFiles:
  assumes "goodPlace (rPlace T)" "journalIs T Prepared d" "oldPair T d" "copied T d"
  shows "wp (replaceFiles (rPlace T) (txnRecord T Prepared))
    (\<lambda>ok d'. if ok then journalIs T Prepared d' \<and> newPair T d' \<and> saved T d' else crashSafe T d') (crashSafe T) d"
proof -
  note paths = path_simps[OF assms(1)]
  let ?pl = "rPlace T"
  let ?R1 = "\<lambda>ok d. rolling T Prepared d \<and> (ok \<longrightarrow> saved T d \<and> d (configFile ?pl) = Some (newConfig T) \<and>
    d (dictFile ?pl) = Some (oldDict T) \<and> d (dictTmpFile ?pl) = Some (newDict T))"
  let ?R2 = "\<lambda>ok d. rolling T Prepared d \<and> (ok \<longrightarrow> saved T d \<and> newPair T d)"
  have safe: "crashSafe T d'" if "rolling T Prepared d'" for d' using that by (simp add: rolling_safe)
  have r1: "wp (ReplaceOrMove (configTmpFile ?pl) (configFile ?pl) (configBakFile ?pl) (configExistedBefore (txnRecord T Prepared)))
      ?R1 (crashSafe T) d"
    unfolding txnRecord_simps
    by (rule wp_ReplaceOrMove) (use assms paths in \<open>auto simp: disk_defs copied_def crashSafe_def\<close>)
  have r2: "wp (if ok then ReplaceOrMove (dictTmpFile ?pl) (dictFile ?pl) (dictBakFile ?pl) (dictExistedBefore (txnRecord T Prepared))
      else State_Monad.return False) ?R2 (crashSafe T) d'" if "?R1 ok d'" for ok d'
  proof (cases ok)
    case True
    show ?thesis
      unfolding txnRecord_simps if_P[OF True]
      by (rule wp_ReplaceOrMove) (use that True paths in \<open>auto simp: disk_defs crashSafe_def\<close>)
  qed (use that in \<open>simp add: wp_return\<close>)
  have r3: "wp (if ok then State_Monad.return True
      else State_Monad.bind (RollbackToBackup (txnRecord T Prepared) (configFile ?pl) (dictFile ?pl) (configBakFile ?pl) (dictBakFile ?pl))
        (\<lambda>restored. State_Monad.bind (if restored then CleanStaleArtifacts ?pl else State_Monad.return ())
          (\<lambda>_. State_Monad.return False)))
      (\<lambda>ok d'. if ok then journalIs T Prepared d' \<and> newPair T d' \<and> saved T d' else crashSafe T d') (crashSafe T) d'"
    if "?R2 ok d'" for ok d'
  proof (cases ok)
    case True
    then show ?thesis using that by (simp add: wp_return rolling_def)
  next
    case False
    have "wp (State_Monad.bind (RollbackToBackup (txnRecord T Prepared) (configFile ?pl) (dictFile ?pl) (configBakFile ?pl) (dictBakFile ?pl))
        (\<lambda>restored. State_Monad.bind (if restored \<and> True then CleanStaleArtifacts ?pl else State_Monad.return ())
          (\<lambda>_. State_Monad.return False))) (\<lambda>ok d'. \<not> ok \<and> crashSafe T d') (crashSafe T) d'"
      by (rule wp_rollback_then[where st = Prepared])
        (use assms(1) that wp_CleanStaleArtifacts in \<open>auto intro: inert_intros\<close>)
    then show ?thesis using False by (auto elim!: wp_cons)
  qed
  show ?thesis
    unfolding replaceFiles_def
    by (rule wp_seq[OF r1], rule wp_seq[OF r2], assumption, rule r3, assumption) (intro inert_intros)+
qed

lemma wp_pendingTransition:
  assumes "goodPlace (rPlace T)" "replaced T d"
  shows "wp (TransitionJournalState (rPlace T) (txnRecord T st) RollbackPending)
    (\<lambda>ok d'. crashSafe T d' \<and> (ok \<longrightarrow> rolling T RollbackPending d')) (crashSafe T) d"
  by (rule wp_transition)
    (use assms path_simps[OF assms(1)] in \<open>auto simp: crashSafe_def replaced_def disk_defs\<close>)

lemma wp_publishAll:
  assumes "goodPlace (rPlace T)" "replaced T d"
  shows "wp (publishAll (rPlace T) (txnRecord T st) snap old)
    (\<lambda>ok d'. if ok then replaced T d' else crashSafe T d') (crashSafe T) d"
proof -
  let ?Q = "\<lambda>ok d'. if ok then replaced T d' else crashSafe T d'"
  let ?undo = "RollbackToBackup (txnRecord T st) (configFile (rPlace T)) (dictFile (rPlace T)) (configBakFile (rPlace T)) (dictBakFile (rPlace T))"
  note safe = replaced_safe[OF assms(2)]
  have drop: "wp (State_Monad.bind ?undo (\<lambda>restored.
      State_Monad.bind (if restored \<and> b then dropTransaction (rPlace T) else State_Monad.return ())
        (\<lambda>_. State_Monad.return False))) (\<lambda>ok d'. \<not> ok \<and> crashSafe T d') (crashSafe T) d'"
    if "rolling T RollbackPending d'" for b d'
    by (rule wp_rollback_then[where st = RollbackPending])
      (use assms(1) that wp_dropTransaction in \<open>auto intro: inert_intros\<close>)
  have wireFailed: "wp (State_Monad.bind (TransitionJournalState (rPlace T) (txnRecord T st) RollbackPending) (\<lambda>pending.
      if \<not> pending then State_Monad.return False
      else State_Monad.bind ?undo (\<lambda>restored.
        State_Monad.bind (if restored then dropTransaction (rPlace T) else State_Monad.return ())
          (\<lambda>_. State_Monad.return False)))) ?Q (crashSafe T) d"
    by (rule wp_seq[OF wp_pendingTransition[OF assms]], intro wp_if wp_return wp_cons[OF drop[where b = True, simplified]])
      (auto intro!: inert_intros)
  have generationFailed: "wp (State_Monad.bind (TransitionJournalState (rPlace T) (txnRecord T st) RollbackPending) (\<lambda>pending.
      if \<not> pending then State_Monad.return False
      else State_Monad.bind wireRestore (\<lambda>wireRestored.
        State_Monad.bind (republish 3 g) (\<lambda>oldGenRestored.
        State_Monad.bind ?undo (\<lambda>filesRestored.
        State_Monad.bind (if oldGenRestored \<and> filesRestored \<and> wireRestored then dropTransaction (rPlace T)
            else State_Monad.return ())
          (\<lambda>_. State_Monad.return False)))))) ?Q (crashSafe T) d"
    if "\<And>d' Q. (\<And>x. Q x d') \<Longrightarrow> crashSafe T d' \<Longrightarrow> wp wireRestore Q (crashSafe T) d'" "inert wireRestore" for g wireRestore
  proof (rule wp_seq[OF wp_pendingTransition[OF assms]], intro wp_if wp_return wp_bind[of wireRestore] wp_bind[of "republish 3 g"]
        wp_republish that(1) inert_intros that(2))
    fix pending d' wireRestored oldGenRestored
    assume d': "crashSafe T d' \<and> (pending \<longrightarrow> rolling T RollbackPending d')" "\<not> \<not> pending"
    have "wp (State_Monad.bind ?undo (\<lambda>filesRestored.
        State_Monad.bind (if filesRestored \<and> (oldGenRestored \<and> wireRestored) then dropTransaction (rPlace T) else State_Monad.return ())
          (\<lambda>_. State_Monad.return False))) ?Q (crashSafe T) d'"
      using d' by (intro wp_cons[OF drop]) auto
    then show "wp (State_Monad.bind ?undo (\<lambda>filesRestored.
        State_Monad.bind (if oldGenRestored \<and> filesRestored \<and> wireRestored then dropTransaction (rPlace T) else State_Monad.return ())
          (\<lambda>_. State_Monad.return False))) ?Q (crashSafe T) d'"
      by (simp only: conj_ac)
  qed (auto intro!: inert_intros that(2))
  have restore: "wp (if b then PublishWireMapping old else State_Monad.return True) Q (crashSafe T) d'"
    if "\<And>x. Q x d'" "crashSafe T d'" for b Q d'
    by (intro wp_if wp_PublishWireMapping wp_return that)
  show ?thesis
    unfolding publishAll_def Let_def
    by (intro wp_bind wp_queries wp_if wp_PublishWireMapping wp_publishIf wp_return wireFailed generationFailed restore
        inert_intros safe) (use assms(2) in auto)
qed


text \<open>The new pair, whatever the recoveries to come do.\<close>

definition sealed :: "Replacement \<Rightarrow> disk \<Rightarrow> bool" where
  "sealed T d \<longleftrightarrow> newPair T d \<and> (quiet T d \<or> journalIs T GenerationPublished d \<or> journalIs T Committed d)"

lemma sealed_settled: "sealed T d \<Longrightarrow> settled T d"
  by (auto simp: sealed_def settled_def)

lemma sealed_keeps:
  assumes "goodPlace (rPlace T)" "sealed T d"
  shows "p \<in> artifacts (rPlace T) \<Longrightarrow> sealed T (d(p := None))" "sealed T (d(GetJournalTmpPath (rPlace T) := g))"
  using path_simps[OF assms(1)] assms(2) by (auto simp: artifacts_def sealed_def disk_defs)

lemma wp_sealed_removeEach:
  assumes "goodPlace (rPlace T)" "sealed T d" "set ps \<subseteq> artifacts (rPlace T)"
  shows "wp (removeEach ps) (\<lambda>_. sealed T) (sealed T) d"
  by (rule wp_removeEach) (use assms sealed_keeps(1) in blast)+

lemma wp_sealed_Transition:
  assumes "goodPlace (rPlace T)" "sealed T d" "st = GenerationPublished \<or> st = Committed"
  shows "wp (TransitionJournalState (rPlace T) (txnRecord T st') st) (\<lambda>_. sealed T) (sealed T) d"
  by (rule wp_transition)
    (use assms path_simps[OF assms(1)] sealed_keeps(2) in \<open>auto simp: sealed_def disk_defs\<close>)

lemma wp_finishCommit:
  assumes "goodPlace (rPlace T)" "replaced T d"
  shows "wp (finishCommit (rPlace T) (txnRecord T st))
    (\<lambda>ok d'. crashSafe T d' \<and> (ok \<longrightarrow> sealed T d')) (crashSafe T) d"
proof -
  note paths = path_simps[OF assms(1)]
  note safe = settled_safe[OF sealed_settled]
  let ?rest = "State_Monad.bind (removeEach [configBakFile (rPlace T), dictBakFile (rPlace T)]) (\<lambda>_.
      State_Monad.bind (TransitionJournalState (rPlace T) (txnRecord T st) Committed) (\<lambda>ok2.
        if \<not> ok2 then State_Monad.return False
        else State_Monad.bind (removeEach [GetJournalPath (rPlace T), GetJournalTmpPath (rPlace T)])
          (\<lambda>_. State_Monad.return True)))"
  have t1: "wp (TransitionJournalState (rPlace T) (txnRecord T st) GenerationPublished)
      (\<lambda>ok d'. crashSafe T d' \<and> (ok \<longrightarrow> sealed T d')) (crashSafe T) d"
    by (rule wp_transition) (use assms paths in \<open>auto simp: crashSafe_def replaced_def sealed_def disk_defs\<close>)
  have rest: "wp ?rest (\<lambda>_. sealed T) (sealed T) d'" if "sealed T d'" for d'
    by (rule wp_seq[OF wp_sealed_removeEach[OF assms(1) that]], simp add: artifacts_def,
        rule wp_seq[OF wp_sealed_Transition[OF assms(1)]], assumption, simp, intro wp_if wp_return, assumption,
        rule wp_seq[OF wp_sealed_removeEach[OF assms(1)]], assumption, simp add: artifacts_def, intro wp_return, assumption)
      (intro inert_intros)+
  have body: "wp ?rest (\<lambda>ok d'. crashSafe T d' \<and> (ok \<longrightarrow> sealed T d')) (crashSafe T) d'" if "sealed T d'" for d'
    by (rule wp_cons[OF rest[OF that]]) (simp_all add: safe)
  show ?thesis
    unfolding finishCommit_def
    by (rule wp_seq[OF t1]) (auto intro!: wp_if wp_return body inert_intros)
qed

lemma wp_RecoverIfNeeded_sealed:
  assumes "goodPlace (rPlace T)" "sealed T d"
  shows "wp (RecoverIfNeeded env (rPlace T)) (\<lambda>_. sealed T) (sealed T) d"
proof -
  let ?pl = "rPlace T"
  have corrupt: "d (corruptFile ?pl) = None" using assms(2) by (auto simp: sealed_def disk_defs)
  have artifacts: "set (recordArtifacts ?pl (txnRecord T st)) \<subseteq> artifacts ?pl" "GetJournalPath ?pl \<in> artifacts ?pl" for st
    by (auto simp: txnRecord_paths artifacts_def)
  have clear: "wp (State_Monad.bind (removeEach ps) (\<lambda>_. State_Monad.return True)) (\<lambda>_. sealed T) (sealed T) d'"
    if "sealed T d'" "set ps \<subseteq> artifacts ?pl" for ps d'
    by (rule wp_seq[OF wp_sealed_removeEach[OF assms(1) that]]) (auto intro: wp_return inert_intros)
  have generation: "wp (recoverGenerationPublished ?pl (txnRecord T st)) (\<lambda>_. sealed T) (sealed T) d" for st
    unfolding recoverGenerationPublished_def
    by (rule wp_seq[OF wp_sealed_removeEach[OF assms artifacts(1)]], rule wp_seq[OF wp_sealed_Transition[OF assms(1)]],
        assumption, simp, intro wp_if wp_return, assumption, rule clear, assumption, simp add: artifacts)
      (intro inert_intros)+
  have committed: "wp (recoverCommitted ?pl (txnRecord T st)) (\<lambda>_. sealed T) (sealed T) d" for st
    unfolding recoverCommitted_def by (rule clear) (use assms artifacts in auto)
  consider "quiet T d" | "journalIs T GenerationPublished d" | "journalIs T Committed d"
    using assms(2) by (auto simp: sealed_def)
  then show ?thesis
    unfolding RecoverIfNeeded_def
    by cases ((intro wp_bind wp_existsFile wp_ReadFileBytes,
        use assms corrupt generation committed in \<open>auto simp: quiet_def journalIs_def JournalDeserialize_txn intro!: wp_return\<close>,
        (intro inert_intros)+)+)
qed

definition fresh :: "Replacement \<Rightarrow> disk \<Rightarrow> bool" where
  "fresh T d \<longleftrightarrow> quiet T d \<and> oldPair T d"

lemma fresh_settled: "fresh T d \<Longrightarrow> settled T d"
  by (simp add: fresh_def settled_def)

lemma wp_RecoverIfNeeded_fresh:
  assumes "fresh T d"
  shows "wp (RecoverIfNeeded env (rPlace T)) (\<lambda>ok d'. ok \<and> d' = d) (crashSafe T) d"
proof -
  have quiet: "d (corruptFile (rPlace T)) = None" "d (GetJournalPath (rPlace T)) = None"
    using assms by (auto simp: fresh_def quiet_def)
  have "wp (if d (corruptFile (rPlace T)) \<noteq> None then State_Monad.return False
      else if \<not> d (GetJournalPath (rPlace T)) \<noteq> None then State_Monad.return True else m)
      (\<lambda>ok d'. ok \<and> d' = d) (crashSafe T) d" for m
    using quiet by (simp add: wp_return)
  then show ?thesis
    unfolding RecoverIfNeeded_def by (intro wp_bind wp_existsFile wp_ReadFileBytes) (assumption, (intro inert_intros)+)
qed

definition committed :: "Replacement \<Rightarrow> bool \<Rightarrow> disk \<Rightarrow> bool" where
  "committed T ok d \<longleftrightarrow> crashSafe T d \<and> (ok \<longrightarrow> sealed T d)"

lemma committed_False: "crashSafe T d \<Longrightarrow> committed T False d"
  by (simp add: committed_def)

lemma wp_runTransaction:
  assumes "goodPlace (rPlace T)" "fresh T d"
  shows "wp (runTransaction env (rPlace T) (newConfig T) (newDict T) (oldGen T) (newGen T) (notifies T) snap)
    (committed T) (crashSafe T) d"
proof -
  note paths = path_simps[OF assms(1)]
  let ?pl = "rPlace T"
  let ?jr = "txnRecord T Prepared"
  have jr: "preparedRecord ?pl (Some (oldConfig T)) (Some (oldDict T)) (newConfig T) (newDict T) (oldGen T) (newGen T) (notifies T)
      = ?jr"
    by (simp add: txnRecord_def preparedRecord_def)
  have clean: "wp (State_Monad.bind (CleanStaleArtifacts ?pl) (\<lambda>_. State_Monad.return False)) (committed T) (crashSafe T) d'"
    if "fresh T d'" for d'
    by (rule wp_seq[OF wp_CleanStaleArtifacts[OF assms(1) fresh_settled[OF that]]])
      (auto intro!: wp_return committed_False settled_safe inert_intros)
  have copies: "wp (writeCopies ?pl (newConfig T) (newDict T) True True)
      (\<lambda>ok d'. fresh T d' \<and> (ok \<longrightarrow> copied T d')) (crashSafe T) d"
    using wp_writeCopies[OF assms(1)] assms(2) by (simp add: fresh_def)
  have prepare: "wp (if ok then TransitionJournalState ?pl ?jr Prepared else State_Monad.return False)
      (\<lambda>ok d'. if ok then journalIs T Prepared d' \<and> oldPair T d' \<and> copied T d' else fresh T d') (crashSafe T) d'"
    if "fresh T d' \<and> (ok \<longrightarrow> copied T d')" for ok d'
    by (intro wp_if wp_transition wp_return)
      (use that assms(1) paths in \<open>auto simp: crashSafe_def fresh_def copied_def disk_defs\<close>)
  have transition: "wp (TransitionJournalState ?pl ?jr FilesReplaced)
      (\<lambda>ok d'. crashSafe T d' \<and> (ok \<longrightarrow> replaced T d')) (crashSafe T) d'"
    if "journalIs T Prepared d' \<and> newPair T d' \<and> saved T d'" for d'
    by (rule wp_transition) (use that assms(1) paths in \<open>auto simp: crashSafe_def replaced_def disk_defs\<close>)
  have recover: "wp (State_Monad.bind (RecoverIfNeeded env ?pl) (\<lambda>_. State_Monad.return False)) (committed T) (crashSafe T) d'"
    if "crashSafe T d'" for d'
    by (rule wp_seq[OF wp_RecoverIfNeeded[OF assms(1) that]])
      (auto intro!: wp_return committed_False inert_intros simp: recovered_def)
  have finish: "wp (State_Monad.bind (publishAll ?pl ?jr snap old) (\<lambda>published.
      if \<not> published then State_Monad.return False else finishCommit ?pl ?jr)) (committed T) (crashSafe T) d'"
    if "replaced T d'" for d' old
    by (rule wp_seq[OF wp_publishAll[OF assms(1) that]], intro wp_if wp_return wp_cons[OF wp_finishCommit])
      (auto intro!: committed_False inert_intros assms(1) simp: committed_def)
  have tail: "wp (State_Monad.bind (TransitionJournalState ?pl ?jr FilesReplaced) (\<lambda>recorded.
      if \<not> recorded then State_Monad.bind (RecoverIfNeeded env ?pl) (\<lambda>_. State_Monad.return False)
      else State_Monad.bind (publishAll ?pl ?jr snap old) (\<lambda>published.
        if \<not> published then State_Monad.return False else finishCommit ?pl ?jr))) (committed T) (crashSafe T) d'"
    if "journalIs T Prepared d' \<and> newPair T d' \<and> saved T d'" for d' old
    by (rule wp_seq[OF transition[OF that]]) (auto intro!: wp_if recover finish inert_intros)
  have rest: "wp (State_Monad.bind (replaceFiles ?pl ?jr) (\<lambda>replaced.
      if \<not> replaced then State_Monad.return False
      else State_Monad.bind (TransitionJournalState ?pl ?jr FilesReplaced) (\<lambda>recorded.
        if \<not> recorded then State_Monad.bind (RecoverIfNeeded env ?pl) (\<lambda>_. State_Monad.return False)
        else State_Monad.bind (publishAll ?pl ?jr snap old) (\<lambda>published.
          if \<not> published then State_Monad.return False else finishCommit ?pl ?jr)))) (committed T) (crashSafe T) d'"
    if "journalIs T Prepared d' \<and> oldPair T d' \<and> copied T d'" for d' old
    by (rule wp_seq[OF wp_replaceFiles[OF assms(1)]])
      (use that in \<open>auto intro!: wp_if wp_return tail committed_False inert_intros\<close>)
  have start: "wp (State_Monad.bind (writeCopies ?pl (newConfig T) (newDict T) True True) (\<lambda>copied.
      State_Monad.bind (if copied then TransitionJournalState ?pl ?jr Prepared else State_Monad.return False) (\<lambda>prepared.
        if \<not> prepared then State_Monad.bind (CleanStaleArtifacts ?pl) (\<lambda>_. State_Monad.return False)
        else State_Monad.bind (replaceFiles ?pl ?jr) (\<lambda>replaced.
          if \<not> replaced then State_Monad.return False
          else State_Monad.bind (TransitionJournalState ?pl ?jr FilesReplaced) (\<lambda>recorded.
            if \<not> recorded then State_Monad.bind (RecoverIfNeeded env ?pl) (\<lambda>_. State_Monad.return False)
            else State_Monad.bind (publishAll ?pl ?jr snap old) (\<lambda>published.
              if \<not> published then State_Monad.return False else finishCommit ?pl ?jr)))))) (committed T) (crashSafe T) d"
    for old
    by (rule wp_seq[OF copies], rule wp_seq[OF prepare], assumption)
      (auto intro!: wp_if clean rest inert_intros)
  have files: "d (configFile ?pl) = Some (oldConfig T)" "d (dictFile ?pl) = Some (oldDict T)"
    using assms(2) by (auto simp: fresh_def oldPair_def)
  show ?thesis
    unfolding runTransaction_def Let_def
  proof (intro wp_bind[of "TryReadFileBytes _"] wp_TryReadFileBytes, goal_cases)
    case 1
    show ?case unfolding files jr using start by simp
  qed (intro inert_intros)+
qed

text \<open>Steps that leave the disk alone.\<close>

lemma wp_keep:
  assumes "wp m (\<lambda>x d'. P x \<and> d' = d) C d" "\<And>x. P x \<Longrightarrow> wp (f x) Q C d" "\<And>x. inert (f x)"
  shows "wp (State_Monad.bind m f) Q C d"
  by (rule wp_seq[OF assms(1)]) (use assms(2,3) in auto)

lemma inert_parsed [inert_intros]:
  "inert m \<Longrightarrow> (\<And>s e g r. inert (f s e g r)) \<Longrightarrow>
   inert (case p of (Some (s, e, g), Inr r) \<Rightarrow> f s e g r | _ \<Rightarrow> m)"
  by (auto split: prod.split option.split sum.split)

lemma wp_parsed:
  "wp m Q C d \<Longrightarrow> (\<And>s e g r. wp (f s e g r) Q C d) \<Longrightarrow>
   wp (case p of (Some (s, e, g), Inr r) \<Rightarrow> f s e g r | _ \<Rightarrow> m) Q C d"
  by (auto split: prod.split option.split sum.split)

lemma wp_CommitTransaction:
  assumes "goodPlace (rPlace T)" "fresh T d"
  shows "wp (CommitTransaction env (rPlace T) (newConfig T) (newDict T) (oldGen T) (newGen T) (notifies T))
    (committed T) (crashSafe T) d"
proof -
  have safe: "crashSafe T d" using assms(2) by (simp add: fresh_settled settled_safe)
  have lock: "wp (if True then osCall (\<lambda>w. w) (\<lambda>_ w. w) else State_Monad.return True) (\<lambda>_ d'. True \<and> d' = d) (crashSafe T) d"
    by (simp add: wp_off_disk safe)
  have no: "wp (State_Monad.return False) (committed T) (crashSafe T) d"
    by (rule wp_return) (simp add: committed_False safe)
  have same: "wp (queries f) (\<lambda>_ d'. True \<and> d' = d) (crashSafe T) d" for f :: "World \<Rightarrow> 'b"
    by (rule wp_queries) simp
  show ?thesis
    unfolding CommitTransaction_def CommitTransactionImpl_def
    by (rule wp_keep[OF lock], rule wp_if, rule no,
        rule wp_keep[OF wp_RecoverIfNeeded_fresh[OF assms(2)]],
        rule wp_keep[OF same], rule wp_keep[OF same], rule wp_keep[OF same], rule wp_if, rule no,
        rule wp_parsed, rule no, rule wp_runTransaction[OF assms])
      (intro inert_intros inert_parsed)+
qed

end
