(* ===== verification/LexiconTxnLive.thy ===== *)
theory LexiconTxnLive
  imports LexiconTxnProofs
begin

text \<open>
  The transaction when every call of the system works: recovery and commit run to their end, and what
  they leave on disk, in the shared settings block and in the image.
\<close>

section \<open>Undisturbed runs\<close>

definition calm :: "World \<Rightarrow> bool" where
  "calm w \<longleftrightarrow> faults w = [] \<and> \<not> dead w"

lemma calm_update [simp]:
  "calm (put p c w) = calm w" "calm (w\<lparr>sharedGeneration := g\<rparr>) = calm w" "calm (w\<lparr>wire := s\<rparr>) = calm w"
  "files (put p c w) = (files w)(p := c)" "sharedGeneration (put p c w) = sharedGeneration w"
  "wireManager (put p c w) = wireManager w" "wireWritable (put p c w) = wireWritable w"
  by (simp_all add: calm_def put_def)

lemma put_same: "files w p = c \<Longrightarrow> put p c w = w"
  by (cases w) (auto simp: put_def)

lemma run_queries [simp]:
  "run_state (queries f) w = (f w, w)" "run_state (existsFile p) w = (files w p \<noteq> None, w)"
  "run_state (ReadFileBytes p) w = (case files w p of None \<Rightarrow> [] | Some c \<Rightarrow> c, w)"
  "run_state (TryReadFileBytes p) w = (files w p, w)"
  by (simp_all add: queries_def existsFile_def ReadFileBytes_def TryReadFileBytes_def)

lemma run_osCall [simp]: "calm w \<Longrightarrow> run_state (osCall effect part) w = (True, effect w)"
  by (simp add: osCall_def calm_def)

lemma run_DurableWrite [simp]: "calm w \<Longrightarrow> run_state (DurableWrite p c) w = (True, put p (Some c) w)"
  by (simp add: DurableWrite_def)

lemma run_DurableAtomicRename [simp]:
  "calm w \<Longrightarrow> files w p = Some c \<Longrightarrow> run_state (DurableAtomicRename p q) w = (True, put q (Some c) (put p None w))"
  by (simp add: DurableAtomicRename_def)

lemma run_removeFile [simp]: "calm w \<Longrightarrow> run_state (removeFile p) w = (files w p \<noteq> None, put p None w)"
  by (simp add: removeFile_def)

lemma run_removeEach [simp]: "calm w \<Longrightarrow> run_state (removeEach ps) w = ((), fold (\<lambda>p. put p None) ps w)"
  by (induction ps arbitrary: w) (simp_all add: removeEach.simps)

lemma run_Transition [simp]:
  "calm w \<Longrightarrow> run_state (TransitionJournalState pl jr st) w =
    (True, put (GetJournalPath pl) (Some (JournalSerialize (jr\<lparr>jState := st\<rparr>)))
       (put (GetJournalTmpPath pl) None (put (GetJournalTmpPath pl) (Some (JournalSerialize (jr\<lparr>jState := st\<rparr>))) w)))"
  by (simp add: TransitionJournalState_def)

lemma run_publishIf [simp]:
  "calm w \<Longrightarrow> b \<longrightarrow> sharedGeneration w \<noteq> None \<Longrightarrow>
   run_state (publishIf b g) w = (True, if b then w\<lparr>sharedGeneration := Some g\<rparr> else w)"
  by (auto simp: publishIf_def PublishGeneration_def)

lemma run_PublishWireMapping [simp]:
  "calm w \<Longrightarrow> wireManager w \<Longrightarrow> wireWritable w \<Longrightarrow>
   run_state (PublishWireMapping snap) w = (True, w\<lparr>wire := Some snap\<rparr>)"
  by (simp add: PublishWireMapping_def)

lemma run_rollbackOne [simp]:
  assumes "calm w" "restorable (files w) p bak old" "p \<noteq> bak"
  shows "run_state (rollbackOne True (ComputeHash old) p bak) w = (True, put p (Some old) (put bak None w))"
proof (cases "files w bak")
  case None
  then have "files w p = Some old" using assms(2) by (simp add: restorable_def)
  then show ?thesis
    using None ComputeHash_lineSafe(2)[of old]
    by (simp add: rollbackOne_def alreadyRestored_def put_same)
next
  case (Some c)
  then show ?thesis using assms by (simp add: rollbackOne_def restorable_def)
qed

text \<open>Nothing the transaction does opens or closes the shared block or the image.\<close>

named_theorems steady_intros \<open>operations that leave the connections alone\<close>

definition connections :: "World \<Rightarrow> bool \<times> bool \<times> bool" where
  "connections w = (sharedGeneration w = None, wireManager w, wireWritable w)"

definition steady :: "'a io \<Rightarrow> bool" where
  "steady m \<longleftrightarrow> (\<forall>w. connections (snd (run_state m w)) = connections w)"

lemma steady_basic [steady_intros]: "steady (State_Monad.return x)" "steady (queries f)"
  by (simp_all add: steady_def)

lemma steady_osCall [steady_intros]:
  "(\<And>w. connections (effect w) = connections w) \<Longrightarrow> (\<And>g w. connections (part g w) = connections w) \<Longrightarrow>
   steady (osCall effect part)"
  by (auto simp: steady_def osCall_def connections_def split: list.split outcome.split)

lemma connections_simps [simp, steady_intros]:
  "connections (put p c w) = connections w" "connections (w\<lparr>wire := s\<rparr>) = connections w"
  "connections (if b then w else v) = (if b then connections w else connections v)"
  by (simp_all add: connections_def put_def)

lemma steady_bind [steady_intros]: "steady m \<Longrightarrow> (\<And>x. steady (f x)) \<Longrightarrow> steady (State_Monad.bind m f)"
  by (auto simp: steady_def split: prod.split) (metis snd_conv)

lemma steady_if [steady_intros]: "steady m \<Longrightarrow> steady n \<Longrightarrow> steady (if b then m else n)"
  by simp

lemma steady_option [steady_intros]: "steady m \<Longrightarrow> (\<And>x. steady (f x)) \<Longrightarrow> steady (case v of None \<Rightarrow> m | Some x \<Rightarrow> f x)"
  by (cases v) auto

lemma steady_files [steady_intros]:
  "steady (existsFile p)" "steady (ReadFileBytes p)" "steady (TryReadFileBytes p)" "steady (DurableWrite p c)"
  "steady (DurableAtomicRename p q)" "steady (copyFile p q)" "steady (removeFile p)" "steady (ReplaceFile p q r)"
  "steady (ReplaceOrMove p q r b)"
  unfolding existsFile_def ReadFileBytes_def TryReadFileBytes_def DurableWrite_def DurableAtomicRename_def copyFile_def
    removeFile_def ReplaceFile_def ReplaceOrMove_def
  by (intro steady_intros; simp)+

lemma steady_removeEach [steady_intros]: "steady (removeEach ps)"
  by (induction ps) (auto intro!: steady_intros simp: removeEach.simps)

lemma steady_PublishGeneration [steady_intros]: "steady (PublishGeneration g)"
  by (auto simp: steady_def PublishGeneration_def queries_def osCall_def connections_def split: list.split outcome.split)

lemma steady_rollback [steady_intros]:
  "steady (alreadyRestored p b h)" "steady (rollbackOne b h p q)" "steady (RollbackToBackup jr p q r s)"
  "steady (rollbackFiles pl jr)" "steady (restoreFiles pl jr)" "steady (TransitionJournalState pl jr st)"
  "steady (PublishWireMapping snap)" "steady (publishIf b g)"
  unfolding alreadyRestored_def rollbackOne_def RollbackToBackup_def rollbackFiles_def restoreFiles_def
    TransitionJournalState_def PublishWireMapping_def publishIf_def
  by (intro steady_intros; simp)+

lemma steady_recover [steady_intros]:
  "steady (recoverPrepared pl jr)" "steady (recoverCommitted pl jr)" "steady (recoverGenerationPublished pl jr)"
  "steady (recoverFilesReplaced pl jr)" "steady (recoverRollbackPending env pl jr)" "steady (CleanStaleArtifacts pl)"
  "steady (dropTransaction pl)" "steady (finishCommit pl jr)" "steady (replaceFiles pl jr)"
  "steady (writeCopies pl a b x y)"
  unfolding recoverPrepared_def recoverCommitted_def recoverGenerationPublished_def recoverFilesReplaced_def
    recoverRollbackPending_def CleanStaleArtifacts_def dropTransaction_def finishCommit_def replaceFiles_def writeCopies_def
  by (intro steady_intros)+

lemma steady_state [steady_intros]:
  "steady a \<Longrightarrow> steady b \<Longrightarrow> steady c \<Longrightarrow> steady e \<Longrightarrow> steady f \<Longrightarrow> steady g \<Longrightarrow>
   steady (case st of Prepared \<Rightarrow> a | FilesReplaced \<Rightarrow> b | GenerationPublished \<Rightarrow> c | Committed \<Rightarrow> e
     | RollbackPending \<Rightarrow> f | StateUnknown \<Rightarrow> g)"
  by (cases st) simp_all

lemma steady_RecoverIfNeeded [steady_intros]: "steady (RecoverIfNeeded env pl)"
  unfolding RecoverIfNeeded_def by (intro steady_intros)

lemma steady_republish [steady_intros]: "steady (republish n g)"
  by (induction n) (auto intro!: steady_intros)

lemma steady_parsed [steady_intros]:
  "steady m \<Longrightarrow> (\<And>s e g r. steady (f s e g r)) \<Longrightarrow>
   steady (case p of (Some (s, e, g), Inr r) \<Rightarrow> f s e g r | _ \<Rightarrow> m)"
  by (auto split: prod.split option.split sum.split)

lemma steady_commit [steady_intros]:
  "steady (publishAll pl jr snap old)" "steady (runTransaction env pl a b x y n snap)"
  "steady (CommitTransaction env pl a b x y n)"
  unfolding publishAll_def runTransaction_def CommitTransaction_def CommitTransactionImpl_def Let_def
  by (intro steady_intros; simp)+

text \<open>The answers a recovery needs from outside the disk.\<close>

definition outsideReady :: "Env \<Rightarrow> Replacement \<Rightarrow> World \<Rightarrow> bool" where
  "outsideReady env T w \<longleftrightarrow> calm w \<and> (notifies T \<longrightarrow> sharedGeneration w \<noteq> None) \<and>
     (wireManager w \<longrightarrow> wireWritable w \<and> envToml env (oldConfig T) \<noteq> None)"

definition undone :: "Place \<Rightarrow> Replacement \<Rightarrow> World \<Rightarrow> World" where
  "undone pl T w = put (dictFile pl) (Some (oldDict T)) (put (dictBakFile pl) None
     (put (configFile pl) (Some (oldConfig T)) (put (configBakFile pl) None w)))"

lemma run_rollback:
  assumes "goodPlace (rPlace T)" "rolling T st (files w)" "calm w"
  shows "run_state (RollbackToBackup (txnRecord T st') (configFile (rPlace T)) (dictFile (rPlace T))
      (configBakFile (rPlace T)) (dictBakFile (rPlace T))) w = (True, undone (rPlace T) T w)"
  using path_simps[OF assms(1)] assms(2,3)
  by (simp add: RollbackToBackup_def undone_def rolling_def restorable_def)

lemma undone_simps:
  "calm (undone pl T w) = calm w" "sharedGeneration (undone pl T w) = sharedGeneration w"
  "wireManager (undone pl T w) = wireManager w" "wireWritable (undone pl T w) = wireWritable w"
  by (simp_all add: undone_def)

definition ended :: "Replacement \<Rightarrow> bool \<Rightarrow> World \<Rightarrow> bool" where
  "ended T ok w \<longleftrightarrow> ok \<and> calm w \<and> files w (GetJournalPath (rPlace T)) = None \<and>
     (oldPair T (files w) \<or> newPair T (files w))"

lemma files_fold [simp]:
  "files (fold (\<lambda>p. put p None) ps w) q = (if q \<in> set ps then None else files w q)"
  "calm (fold (\<lambda>p. put p None) ps w) = calm w"
  by (induction ps arbitrary: w) simp_all

lemma run_recoverCommitted:
  assumes "goodPlace (rPlace T)" "calm w" "oldPair T (files w) \<or> newPair T (files w)"
  shows "case run_state (recoverCommitted (rPlace T) (txnRecord T st)) w of (ok, w') \<Rightarrow> ended T ok w'"
proof -
  note paths = path_simps[OF assms(1)]
  let ?ps = "recordArtifacts (rPlace T) (txnRecord T st) @ [GetJournalPath (rPlace T)]"
  have "files (fold (\<lambda>p. put p None) ?ps w) q = files w q" if "q = configFile (rPlace T) \<or> q = dictFile (rPlace T)" for q
    unfolding files_fold txnRecord_paths using that paths by auto
  moreover have "files (fold (\<lambda>p. put p None) ?ps w) (GetJournalPath (rPlace T)) = None"
    unfolding files_fold by simp
  moreover have "calm (fold (\<lambda>p. put p None) ?ps w)" using assms(2) by (simp only: files_fold)
  ultimately show ?thesis
    using assms(3) unfolding recoverCommitted_def
    by (simp add: run_removeEach[OF assms(2)] ended_def oldPair_def newPair_def del: files_fold fold_append fold_simps)
qed

lemma run_recoverPrepared:
  assumes "goodPlace (rPlace T)" "calm w" "rolling T Prepared (files w)"
  shows "case run_state (recoverPrepared (rPlace T) (txnRecord T Prepared)) w of (ok, w') \<Rightarrow> ended T ok w'"
proof -
  note paths = path_simps[OF assms(1)]
  have "oldPair T (files (undone (rPlace T) T w))" using paths by (simp add: undone_def oldPair_def)
  then show ?thesis
    using run_recoverCommitted[of T "undone (rPlace T) T w" Prepared] assms
    unfolding recoverPrepared_def recoverCommitted_def[symmetric]
    by (simp add: rollbackFiles_def txnRecord_paths run_rollback undone_simps)
qed

lemma restore_done:
  assumes "goodPlace (rPlace T)" "rolling T st (files w)" "calm w"
  shows "run_state (restoreFiles (rPlace T) (txnRecord T st')) w = (True, undone (rPlace T) T w)"
proof -
  have idle: "undone (rPlace T) T w = w"
    if "files w (configBakFile (rPlace T)) = None" "files w (dictBakFile (rPlace T)) = None"
    using that assms(2) by (simp add: undone_def put_same rolling_def restorable_def)
  show ?thesis
    using assms idle
    by (auto simp: restoreFiles_def rollbackFiles_def txnRecord_paths run_rollback rolling_def restorable_def)
qed

lemma run_recoverRollbackPending:
  assumes "goodPlace (rPlace T)" "outsideReady env T w" "rolling T RollbackPending (files w)"
  shows "case run_state (recoverRollbackPending env (rPlace T) (txnRecord T RollbackPending)) w of (ok, w') \<Rightarrow> ended T ok w'"
proof -
  note paths = path_simps[OF assms(1)]
  have w: "calm w" "notifies T \<longrightarrow> sharedGeneration w \<noteq> None"
    "wireManager w \<Longrightarrow> wireWritable w" "wireManager w \<Longrightarrow> \<exists>t. envToml env (oldConfig T) = Some t"
    using assms(2) by (auto simp: outsideReady_def)
  obtain u where u: "run_state (restoreFiles (rPlace T) (txnRecord T RollbackPending)) w = (True, u)" "calm u"
    "oldPair T (files u)" "sharedGeneration u = sharedGeneration w" "wireManager u = wireManager w" "wireWritable u = wireWritable w"
  proof
    show "run_state (restoreFiles (rPlace T) (txnRecord T RollbackPending)) w = (True, undone (rPlace T) T w)"
      by (rule restore_done[OF assms(1,3) w(1)])
  qed (use paths w(1) in \<open>simp_all add: undone_def oldPair_def\<close>)
  obtain v where v: "run_state (publishIf (notifies T) (oldGen T)) u = (True, v)" "calm v" "oldPair T (files v)"
    "wireManager v = wireManager w" "wireWritable v = wireWritable w"
  proof
    show "run_state (publishIf (notifies T) (oldGen T)) u =
        (True, if notifies T then u\<lparr>sharedGeneration := Some (oldGen T)\<rparr> else u)"
      using w(2) u by simp
  qed (use u in simp_all)
  have finish: "case run_state (recoverCommitted (rPlace T) (txnRecord T RollbackPending)) v' of (ok, w') \<Rightarrow> ended T ok w'"
    if "calm v'" "files v' = files v" for v'
    by (rule run_recoverCommitted[OF assms(1)]) (use that v(3) in simp_all)
  have old: "files v (configFile (rPlace T)) = Some (oldConfig T)" using v(3) by (simp add: oldPair_def)
  show ?thesis
  proof (cases "wireManager w")
    case True
    then obtain t where t: "envToml env (oldConfig T) = Some t" using w(4) by auto
    have "calm (v\<lparr>wire := Some snap\<rparr>)" "files (v\<lparr>wire := Some snap\<rparr>) = files v" for snap using v(2) by simp_all
    then show ?thesis
      using True t w(3) finish
      by (simp add: recoverRollbackPending_def u(1) v old del: run_publishIf)
  next
    case False
    then show ?thesis
      using finish[OF v(2) refl]
      by (simp add: recoverRollbackPending_def u(1) v old del: run_publishIf)
  qed
qed


lemma run_recoverGenerationPublished:
  assumes "goodPlace (rPlace T)" "calm w" "newPair T (files w)"
  shows "case run_state (recoverGenerationPublished (rPlace T) (txnRecord T st)) w of (ok, w') \<Rightarrow> ended T ok w'"
proof -
  note paths = path_simps[OF assms(1)]
  obtain u where u: "run_state (removeEach (recordArtifacts (rPlace T) (txnRecord T st))) w = ((), u)" "calm u" "newPair T (files u)"
  proof
    show "newPair T (files (fold (\<lambda>p. put p None) (recordArtifacts (rPlace T) (txnRecord T st)) w))"
      using assms(3) paths unfolding newPair_def files_fold txnRecord_paths by auto
  qed (use assms(2) in simp_all)
  obtain v where v: "run_state (TransitionJournalState (rPlace T) (txnRecord T st) Committed) u = (True, v)" "calm v" "newPair T (files v)"
  proof
    show "run_state (TransitionJournalState (rPlace T) (txnRecord T st) Committed) u =
        (True, put (GetJournalPath (rPlace T)) (Some (JournalSerialize (txnRecord T Committed)))
           (put (GetJournalTmpPath (rPlace T)) None
             (put (GetJournalTmpPath (rPlace T)) (Some (JournalSerialize (txnRecord T Committed))) u)))"
      using u(2) by simp
  qed (use u paths in \<open>auto simp: newPair_def\<close>)
  show ?thesis
    using v paths
    by (simp add: recoverGenerationPublished_def u(1) v(1) ended_def newPair_def del: run_Transition)
qed

lemma run_recoverFilesReplaced:
  assumes "goodPlace (rPlace T)" "outsideReady env T w" "newPair T (files w)"
  shows "case run_state (recoverFilesReplaced (rPlace T) (txnRecord T FilesReplaced)) w of (ok, w') \<Rightarrow> ended T ok w'"
proof -
  note paths = path_simps[OF assms(1)]
  obtain u where u: "run_state (publishIf (notifies T) (newGen T)) w = (True, u)" "calm u" "newPair T (files u)"
  proof
    show "run_state (publishIf (notifies T) (newGen T)) w =
        (True, if notifies T then w\<lparr>sharedGeneration := Some (newGen T)\<rparr> else w)"
      using assms(2) by (simp add: outsideReady_def)
  qed (use assms in \<open>simp_all add: outsideReady_def\<close>)
  obtain v where v: "run_state (TransitionJournalState (rPlace T) (txnRecord T FilesReplaced) GenerationPublished) u = (True, v)"
    "calm v" "newPair T (files v)"
  proof
    show "run_state (TransitionJournalState (rPlace T) (txnRecord T FilesReplaced) GenerationPublished) u =
        (True, put (GetJournalPath (rPlace T)) (Some (JournalSerialize (txnRecord T GenerationPublished)))
           (put (GetJournalTmpPath (rPlace T)) None
             (put (GetJournalTmpPath (rPlace T)) (Some (JournalSerialize (txnRecord T GenerationPublished))) u)))"
      using u(2) by simp
  qed (use u paths in \<open>auto simp: newPair_def\<close>)
  have w: "files w (configFile (rPlace T)) = Some (newConfig T)" "files w (dictFile (rPlace T)) = Some (newDict T)"
    using assms(3) by (simp_all add: newPair_def)
  show ?thesis
    using run_recoverGenerationPublished[OF assms(1) v(2,3), of FilesReplaced]
    by (simp add: recoverFilesReplaced_def u(1) v(1) w del: run_Transition run_publishIf)
qed

lemma run_RecoverIfNeeded:
  assumes "goodPlace (rPlace T)" "outsideReady env T w" "crashSafe T (files w)"
  shows "case run_state (RecoverIfNeeded env (rPlace T)) w of (ok, w') \<Rightarrow> ended T ok w'"
proof -
  let ?j = "GetJournalPath (rPlace T)"
  let ?m = "\<lambda>jr. (case jState jr of
        Prepared \<Rightarrow> recoverPrepared (rPlace T) jr
      | FilesReplaced \<Rightarrow> recoverFilesReplaced (rPlace T) jr
      | GenerationPublished \<Rightarrow> recoverGenerationPublished (rPlace T) jr
      | Committed \<Rightarrow> recoverCommitted (rPlace T) jr
      | RollbackPending \<Rightarrow> recoverRollbackPending env (rPlace T) jr
      | StateUnknown \<Rightarrow> State_Monad.bind (removeEach [?j]) (\<lambda>_. State_Monad.return True))"
  have calm: "calm w" using assms(2) by (simp add: outsideReady_def)
  have corrupt: "files w (corruptFile (rPlace T)) = None" using assms(3) by (auto simp: crashSafe_def disk_defs)
  have go: "run_state (RecoverIfNeeded env (rPlace T)) w = run_state (?m (txnRecord T st)) w"
    if "journalIs T st (files w)" "st \<noteq> StateUnknown" for st
    using that corrupt by (simp add: RecoverIfNeeded_def journalIs_def JournalDeserialize_txn assms(1))
  consider (quiet) "quiet T (files w)" "oldPair T (files w) \<or> newPair T (files w)"
    | (prepared) "rolling T Prepared (files w)" | (pending) "rolling T RollbackPending (files w)"
    | (filesIn) "journalIs T FilesReplaced (files w)" "newPair T (files w)"
    | (published) "journalIs T GenerationPublished (files w)" "newPair T (files w)"
    | (committed) "journalIs T Committed (files w)" "newPair T (files w)"
    using assms(3) by (auto simp: crashSafe_def)
  then show ?thesis
  proof cases
    case quiet
    then show ?thesis using calm by (auto simp: RecoverIfNeeded_def quiet_def ended_def)
  next
    case prepared
    then have "journalIs T Prepared (files w)" by (simp add: rolling_def)
    from go[OF this] show ?thesis using run_recoverPrepared[OF assms(1) calm prepared] by simp
  next
    case pending
    then have "journalIs T RollbackPending (files w)" by (simp add: rolling_def)
    from go[OF this] show ?thesis using run_recoverRollbackPending[OF assms(1,2) pending] by simp
  next
    case filesIn
    then show ?thesis using go[OF filesIn(1)] run_recoverFilesReplaced[OF assms(1,2) filesIn(2)] by simp
  next
    case published
    then show ?thesis using go[OF published(1)] run_recoverGenerationPublished[OF assms(1) calm published(2), of GenerationPublished] by simp
  next
    case committed
    then show ?thesis using go[OF committed(1)] run_recoverCommitted[OF assms(1) calm, of Committed] by simp
  qed
qed

section \<open>An undisturbed commit\<close>

lemma run_copyFile [simp]:
  "calm w \<Longrightarrow> files w p = Some c \<Longrightarrow> run_state (copyFile p q) w = (True, put q (Some c) w)"
  by (simp add: copyFile_def)

lemma run_ReplaceOrMove [simp]:
  "calm w \<Longrightarrow> files w dst = Some old \<Longrightarrow> files w tmp = Some new \<Longrightarrow>
   run_state (ReplaceOrMove tmp dst bak True) w = (True, put dst (Some new) (put tmp None (put bak (Some old) w)))"
  by (simp add: ReplaceOrMove_def ReplaceFile_def)

definition outside :: "World \<Rightarrow> 8 word option \<times> bool \<times> bool \<times> WireSnapshot option" where
  "outside w = (sharedGeneration w, wireManager w, wireWritable w, wire w)"

lemma outside_update [simp]:
  "outside (put p c w) = outside w" "outside (fold (\<lambda>p. put p None) ps w) = outside w"
proof -
  show put: "outside (put p c w) = outside w" for p c w by (simp add: outside_def put_def)
  show "outside (fold (\<lambda>p. put p None) ps w) = outside w" by (induction ps arbitrary: w) (simp_all add: put)
qed

lemma run_writeCopies:
  assumes "goodPlace (rPlace T)" "calm w" "oldPair T (files w)"
  obtains u where "run_state (writeCopies (rPlace T) (newConfig T) (newDict T) True True) w = (True, u)"
    "calm u" "oldPair T (files u)" "copied T (files u)" "outside u = outside w"
proof
  let ?pl = "rPlace T"
  show "run_state (writeCopies ?pl (newConfig T) (newDict T) True True) w =
      (True, put (dictBakFile ?pl) (Some (oldDict T)) (put (configBakFile ?pl) (Some (oldConfig T))
        (put (dictTmpFile ?pl) (Some (newDict T)) (put (configTmpFile ?pl) (Some (newConfig T)) w))))"
    using assms path_simps[OF assms(1)] by (simp add: writeCopies_def oldPair_def)
qed (use assms path_simps[OF assms(1)] in \<open>auto simp: oldPair_def copied_def saved_def\<close>)

lemma run_replaceFiles:
  assumes "goodPlace (rPlace T)" "calm w" "oldPair T (files w)" "copied T (files w)"
  obtains u where "run_state (replaceFiles (rPlace T) (txnRecord T st)) w = (True, u)"
    "calm u" "newPair T (files u)" "outside u = outside w"
proof
  let ?pl = "rPlace T"
  show "run_state (replaceFiles ?pl (txnRecord T st)) w =
      (True, put (dictFile ?pl) (Some (newDict T)) (put (dictTmpFile ?pl) None (put (dictBakFile ?pl) (Some (oldDict T))
        (put (configFile ?pl) (Some (newConfig T)) (put (configTmpFile ?pl) None (put (configBakFile ?pl) (Some (oldConfig T)) w))))))"
    using assms path_simps[OF assms(1)] by (simp add: replaceFiles_def oldPair_def copied_def)
qed (use assms path_simps[OF assms(1)] in \<open>auto simp: newPair_def\<close>)

lemma run_journal:
  assumes "goodPlace (rPlace T)" "calm w"
  obtains u where "run_state (TransitionJournalState (rPlace T) (txnRecord T st) st') w = (True, u)"
    "calm u" "outside u = outside w" "oldPair T (files u) = oldPair T (files w)" "newPair T (files u) = newPair T (files w)"
    "copied T (files u) = copied T (files w)"
proof
  let ?pl = "rPlace T"
  let ?c = "Some (JournalSerialize (txnRecord T st'))"
  show "run_state (TransitionJournalState ?pl (txnRecord T st) st') w =
      (True, put (GetJournalPath ?pl) ?c (put (GetJournalTmpPath ?pl) None (put (GetJournalTmpPath ?pl) ?c w)))"
    using assms(2) by simp
qed (use assms path_simps[OF assms(1)] in \<open>auto simp: oldPair_def newPair_def copied_def saved_def\<close>)

lemma run_publishAll:
  assumes "calm w" "notifies T \<Longrightarrow> sharedGeneration w \<noteq> None" "notifies T \<Longrightarrow> wireManager w \<Longrightarrow> wireWritable w"
  obtains u where "run_state (publishAll (rPlace T) (txnRecord T st) snap old) w = (True, u)" "calm u" "files u = files w"
    "notifies T \<Longrightarrow> sharedGeneration u = Some (newGen T)" "notifies T \<Longrightarrow> wireManager w \<Longrightarrow> wire u = Some snap"
proof
  let ?v = "if notifies T \<and> wireManager w then w\<lparr>wire := Some snap\<rparr> else w"
  show "run_state (publishAll (rPlace T) (txnRecord T st) snap old) w =
      (True, if notifies T then ?v\<lparr>sharedGeneration := Some (newGen T)\<rparr> else ?v)"
    using assms by (auto simp: publishAll_def Let_def)
qed (use assms in \<open>auto\<close>)

lemma run_finishCommit:
  assumes "goodPlace (rPlace T)" "calm w" "newPair T (files w)"
  obtains u where "run_state (finishCommit (rPlace T) (txnRecord T st)) w = (True, u)" "calm u" "newPair T (files u)"
    "files u (GetJournalPath (rPlace T)) = None" "outside u = outside w"
proof -
  let ?pl = "rPlace T"
  note paths = path_simps[OF assms(1)]
  obtain u where u: "run_state (TransitionJournalState ?pl (txnRecord T st) GenerationPublished) w = (True, u)"
    "calm u" "outside u = outside w" "newPair T (files u)"
    using run_journal[OF assms(1,2)] assms(3) by metis
  let ?v = "put (dictBakFile ?pl) None (put (configBakFile ?pl) None u)"
  have v: "calm ?v" "newPair T (files ?v)" using u paths by (auto simp: newPair_def)
  obtain x where x: "run_state (TransitionJournalState ?pl (txnRecord T st) Committed) ?v = (True, x)"
    "calm x" "outside x = outside ?v" "newPair T (files x)"
    using run_journal[OF assms(1) v(1)] v(2) by metis
  show thesis
  proof
    show "run_state (finishCommit ?pl (txnRecord T st)) w =
        (True, put (GetJournalTmpPath ?pl) None (put (GetJournalPath ?pl) None x))"
      using u(2) x(2) by (simp add: finishCommit_def u(1) x(1) del: run_Transition)
  qed (use x u paths in \<open>auto simp: newPair_def\<close>)
qed

lemma run_runTransaction:
  assumes "goodPlace (rPlace T)" "calm w" "oldPair T (files w)"
    "notifies T \<Longrightarrow> sharedGeneration w \<noteq> None" "notifies T \<Longrightarrow> wireManager w \<Longrightarrow> wireWritable w"
  obtains u where "run_state (runTransaction env (rPlace T) (newConfig T) (newDict T) (oldGen T) (newGen T) (notifies T) snap) w
      = (True, u)" "calm u" "newPair T (files u)" "files u (GetJournalPath (rPlace T)) = None"
    "notifies T \<Longrightarrow> sharedGeneration u = Some (newGen T)" "notifies T \<Longrightarrow> wireManager w \<Longrightarrow> wire u = Some snap"
proof -
  let ?pl = "rPlace T"
  let ?jr = "txnRecord T Prepared"
  let ?old = "oldSnapshot env (Some (oldConfig T)) (Some (oldDict T)) (oldGen T)"
  have jr: "preparedRecord ?pl (Some (oldConfig T)) (Some (oldDict T)) (newConfig T) (newDict T) (oldGen T) (newGen T) (notifies T)
      = ?jr"
    by (simp add: txnRecord_def preparedRecord_def)
  have old: "files w (configFile ?pl) = Some (oldConfig T)" "files w (dictFile ?pl) = Some (oldDict T)"
    using assms(3) by (simp_all add: oldPair_def)
  obtain a where a: "run_state (writeCopies ?pl (newConfig T) (newDict T) True True) w = (True, a)"
    "calm a" "oldPair T (files a)" "copied T (files a)" "outside a = outside w"
    using run_writeCopies[OF assms(1-3)] .
  obtain b where b: "run_state (TransitionJournalState ?pl ?jr Prepared) a = (True, b)"
    "calm b" "outside b = outside w" "oldPair T (files b)" "copied T (files b)"
    using run_journal[OF assms(1) a(2)] a(3-5) by metis
  obtain c where c: "run_state (replaceFiles ?pl ?jr) b = (True, c)" "calm c" "newPair T (files c)" "outside c = outside w"
    using run_replaceFiles[OF assms(1) b(2,4,5)] b(3) by metis
  obtain d where d: "run_state (TransitionJournalState ?pl ?jr FilesReplaced) c = (True, d)"
    "calm d" "outside d = outside w" "newPair T (files d)"
    using run_journal[OF assms(1) c(2)] c(3,4) by metis
  have dw: "sharedGeneration d = sharedGeneration w" "wireManager d = wireManager w" "wireWritable d = wireWritable w"
    using d(3) by (simp_all add: outside_def)
  obtain e where e: "run_state (publishAll ?pl ?jr snap ?old) d = (True, e)" "calm e" "files e = files d"
    "notifies T \<Longrightarrow> sharedGeneration e = Some (newGen T)" "notifies T \<Longrightarrow> wireManager w \<Longrightarrow> wire e = Some snap"
    using run_publishAll[OF d(2), of T Prepared snap ?old] assms(4,5) unfolding dw by metis
  obtain f where f: "run_state (finishCommit ?pl ?jr) e = (True, f)" "calm f" "newPair T (files f)"
    "files f (GetJournalPath ?pl) = None" "outside f = outside e"
    using run_finishCommit[OF assms(1) e(2), of Prepared] e(3) d(4) by metis
  show thesis
  proof
    show "run_state (runTransaction env ?pl (newConfig T) (newDict T) (oldGen T) (newGen T) (notifies T) snap) w = (True, f)"
      by (simp add: runTransaction_def Let_def old jr a(1) b(1) c(1) d(1) e(1) f(1) del: run_Transition)
  qed (use f e in \<open>simp_all add: outside_def\<close>)
qed

end
