(* ===== verification/LexiconTxnProps.thy ===== *)
theory LexiconTxnProps
  imports LexiconTxnLive
begin

text \<open>
  The promises of the lexicon transaction: the journal reads back as written, a commit with the
  recoveries after it is atomic under every crash and every failure, recovery ends once the calls of the
  system work again, and the case the journal does not cover.
\<close>

section \<open>Crashes\<close>

text \<open>One more process that runs the recovery, with its own faults.\<close>

definition recoverWith :: "Env \<Rightarrow> Place \<Rightarrow> outcome list \<Rightarrow> World \<Rightarrow> World" where
  "recoverWith env pl fs w = snd (run_state (RecoverIfNeeded env pl) (restart fs w))"

lemma restart_simps [simp]: "files (restart fs w) = files w" "\<not> dead (restart fs w)"
  by (simp_all add: restart_def)

lemma wp_safe:
  assumes "wp m Q C (files w)" "\<not> dead w" "\<And>x d. Q x d \<Longrightarrow> P d" "\<And>d. C d \<Longrightarrow> P d"
  shows "P (files (snd (run_state m w)))"
  using wpD[OF assms(1) refl assms(2), of "fst (run_state m w)" "snd (run_state m w)"] assms(3,4) by (auto split: if_splits)

lemma recoverWith_safe:
  assumes "goodPlace (rPlace T)" "crashSafe T (files w)"
  shows "crashSafe T (files (recoverWith env (rPlace T) fs w))"
  unfolding recoverWith_def
  by (rule wp_safe[where Q = "recovered T" and C = "crashSafe T"])
    (use wp_RecoverIfNeeded[OF assms] in \<open>auto simp: recovered_def\<close>)

lemma recoveries_safe:
  "goodPlace (rPlace T) \<Longrightarrow> crashSafe T (files w) \<Longrightarrow> crashSafe T (files (fold (recoverWith env (rPlace T)) crashes w))"
  by (induction crashes arbitrary: w) (simp_all add: recoverWith_safe)


lemma recoveries_sealed:
  "goodPlace (rPlace T) \<Longrightarrow> sealed T (files w) \<Longrightarrow> sealed T (files (fold (recoverWith env (rPlace T)) crashes w))"
proof (induction crashes arbitrary: w)
  case (Cons fs crashes)
  have "sealed T (files (recoverWith env (rPlace T) fs w))"
    unfolding recoverWith_def
    by (rule wp_safe[where Q = "\<lambda>_. sealed T" and C = "sealed T"])
      (use wp_RecoverIfNeeded_sealed[OF Cons.prems(1)] Cons.prems(2) in simp_all)
  then show ?case using Cons.IH[OF Cons.prems(1)] by simp
qed simp

text \<open>The commit of one pair over another as a \<open>Replacement\<close>, and what it leaves.\<close>

abbreviation replacement where
  "replacement pl oc od nc nd og ng n \<equiv>
    \<lparr>rPlace = pl, oldConfig = oc, oldDict = od, newConfig = nc, newDict = nd, oldGen = og, newGen = ng, notifies = n\<rparr>"

lemma commit_leaves:
  assumes "goodPlace pl" "files w (configFile pl) = Some oc" "files w (dictFile pl) = Some od"
    "files w (GetJournalPath pl) = None" "files w (corruptFile pl) = None" "\<not> dead w"
    "run_state (CommitTransaction env pl nc nd og ng n) w = (ok, w1)"
  shows "crashSafe (replacement pl oc od nc nd og ng n) (files w1)"
    "ok \<Longrightarrow> \<not> dead w1 \<Longrightarrow> sealed (replacement pl oc od nc nd og ng n) (files w1)"
proof -
  let ?T = "replacement pl oc od nc nd og ng n"
  have "fresh ?T (files w)" using assms(2-5) by (simp add: fresh_def quiet_def oldPair_def)
  from wpD[OF wp_CommitTransaction[of ?T, OF _ this] refl assms(6)] assms(1,7)
  have "if dead w1 then crashSafe ?T (files w1) else committed ?T ok (files w1)" by simp
  then show "crashSafe ?T (files w1)" "ok \<Longrightarrow> \<not> dead w1 \<Longrightarrow> sealed ?T (files w1)"
    by (auto simp: committed_def split: if_splits)
qed

lemma recoverWith_connections: "connections (fold (recoverWith env pl) crashes w) = connections w"
proof (induction crashes arbitrary: w)
  case (Cons fs crashes)
  have "connections (recoverWith env pl fs w) = connections w"
    using steady_RecoverIfNeeded[of env pl] unfolding recoverWith_def steady_def by (simp add: connections_def restart_def)
  then show ?case using Cons.IH by simp
qed simp

lemma recovers:
  assumes "goodPlace pl"
    and "files w (configFile pl) = Some oldC" "files w (dictFile pl) = Some oldD"
    and "files w (GetJournalPath pl) = None" "files w (corruptFile pl) = None" "\<not> dead w"
    and "run_state (CommitTransaction env pl newC newD og ng notify) w = (ok, w1)"
    and "notify \<Longrightarrow> sharedGeneration w \<noteq> None" "wireManager w \<Longrightarrow> wireWritable w \<and> envToml env oldC \<noteq> None"
  obtains w2 where "run_state (RecoverIfNeeded env pl) (restart [] (fold (recoverWith env pl) crashes w1)) = (True, w2)"
    "\<not> dead w2" "files w2 (GetJournalPath pl) = None"
    "(files w2 (configFile pl), files w2 (dictFile pl)) \<in> {(Some oldC, Some oldD), (Some newC, Some newD)}"
proof -
  let ?T = "replacement pl oldC oldD newC newD og ng notify"
  let ?v = "fold (recoverWith env pl) crashes w1"
  have safe: "crashSafe ?T (files (restart [] ?v))"
    using recoveries_safe[of ?T] commit_leaves(1)[OF assms(1-7)] assms(1) by simp
  have "connections w1 = connections w"
    using steady_commit(3)[of env pl newC newD og ng notify] assms(7) unfolding steady_def by (metis snd_conv)
  then have "connections ?v = connections w" by (simp only: recoverWith_connections)
  then have "connections (restart [] ?v) = connections w" by (simp add: connections_def restart_def)
  then have ready: "outsideReady env ?T (restart [] ?v)"
    using assms(8,9) by (simp add: outsideReady_def calm_def restart_def connections_def)
  show thesis
    using run_RecoverIfNeeded[of ?T, OF _ ready safe] assms(1) that
    by (cases "run_state (RecoverIfNeeded env pl) (restart [] ?v)") (auto simp: ended_def calm_def oldPair_def newPair_def)
qed

lemma commits:
  assumes "goodPlace pl"
    and "files w (configFile pl) = Some oldC" "files w (dictFile pl) = Some oldD"
    and "files w (GetJournalPath pl) = None" "files w (corruptFile pl) = None" "\<not> dead w" "faults w = []"
    and "notify \<Longrightarrow> sharedGeneration w \<noteq> None" "notify \<Longrightarrow> wireManager w \<Longrightarrow> wireWritable w"
    and "preflightConfig env newC = Some (suggest, exclusions, g)" "parseDict env newD = Inr dict"
  obtains w1 where "run_state (CommitTransaction env pl newC newD og ng notify) w = (True, w1)" "\<not> dead w1"
    "files w1 (configFile pl) = Some newC" "files w1 (dictFile pl) = Some newD" "files w1 (GetJournalPath pl) = None"
    "notify \<longrightarrow> sharedGeneration w1 = Some ng"
    "notify \<and> wireManager w \<longrightarrow> wire w1 = Some \<lparr>snapExclusions = exclusions, snapDictionary = importEntries dict,
       snapGeneration = (if g \<noteq> 0 then g else (case wire w of None \<Rightarrow> 0 | Some s \<Rightarrow> snapGeneration s) + 1), snapSuggest = suggest\<rparr>"
proof -
  let ?T = "replacement pl oldC oldD newC newD og ng notify"
  let ?snap = "\<lparr>snapExclusions = exclusions, snapDictionary = importEntries dict,
    snapGeneration = (if g \<noteq> 0 then g else if wireManager w \<and> wireWritable w
      then (case wire w of None \<Rightarrow> 0 | Some s \<Rightarrow> snapGeneration s) + 1 else ucast ng), snapSuggest = suggest\<rparr>"
  have calm: "calm w" using assms(6,7) by (simp add: calm_def)
  have "oldPair ?T (files w)" using assms(2,3) by (simp add: oldPair_def)
  then obtain u where u: "run_state (runTransaction env (rPlace ?T) (newConfig ?T) (newDict ?T) (oldGen ?T) (newGen ?T) (notifies ?T) ?snap) w
      = (True, u)" "calm u" "newPair ?T (files u)" "files u (GetJournalPath (rPlace ?T)) = None"
    "notifies ?T \<Longrightarrow> sharedGeneration u = Some (newGen ?T)" "notifies ?T \<Longrightarrow> wireManager w \<Longrightarrow> wire u = Some ?snap"
    by (rule run_runTransaction[of ?T w env ?snap, rotated 2]) (use assms(1,8,9) calm in simp_all)
  note u = u[unfolded Replacement.select_convs]
  have "run_state (RecoverIfNeeded env pl) w = (True, w)"
    using assms(4,5) by (simp add: RecoverIfNeeded_def)
  then have "run_state (CommitTransaction env pl newC newD og ng notify) w = (True, u)"
    using calm assms(8,10,11) u(1) by (auto simp: CommitTransaction_def CommitTransactionImpl_def)
  then show thesis by (rule that) (use u assms(9) in \<open>auto simp: newPair_def calm_def\<close>)
qed

section \<open>An installation\<close>

definition exampleEnv :: Env where
  "exampleEnv = \<lparr>envNfc = Some, envLower = Some,
     envToml = (\<lambda>_. Some \<lparr>tomlSuggest = Some True, tomlExclusions = None, tomlWireGeneration = Some 5\<rparr>),
     envUpdate = (\<lambda>_ _ _ _. [])\<rparr>"

definition examplePlace :: Place where
  "examplePlace = \<lparr>placeDir = ''VKey'', placeName = ''config.toml''\<rparr>"

definition exampleWorld :: "outcome list \<Rightarrow> World" where
  "exampleWorld fs = \<lparr>files = [configFile examplePlace \<mapsto> ''a=1'', dictFile examplePlace \<mapsto> ''ba''],
     sharedGeneration = Some 7, wireManager = True, wireWritable = True, wire = None, faults = fs, dead = False\<rparr>"

lemma goodPlace_example: "goodPlace examplePlace"
  by code_simp

lemma exampleWorld_simps [simp]:
  "files (exampleWorld fs) (configFile examplePlace) = Some ''a=1''"
  "files (exampleWorld fs) (dictFile examplePlace) = Some ''ba''"
  "files (exampleWorld fs) (GetJournalPath examplePlace) = None" "files (exampleWorld fs) (corruptFile examplePlace) = None"
  "\<not> dead (exampleWorld fs)" "faults (exampleWorld fs) = fs" "sharedGeneration (exampleWorld fs) = Some 7"
  "wireManager (exampleWorld fs)" "wireWritable (exampleWorld fs)" "wire (exampleWorld fs) = None"
  using path_simps[OF goodPlace_example] by (simp_all add: exampleWorld_def)

lemma example_config: "preflightConfig exampleEnv ''a=2'' = Some (True, [], 5)"
  by (simp add: preflightConfig_def exampleEnv_def suggestOf_def wireGenerationOf_def)

lemma example_dict: "parseDict exampleEnv [] = Inr \<lparr>importEntries = [], addedCount = 0, duplicateCount = 0\<rparr>"
  by (simp add: parseDict_def u8bytes_def ParseAndValidateUserDictText_def SplitLines_def stdSort_def)

section \<open>Properties\<close>

text \<open>C19. The journal is read back as it was written: every record whose numbers, hashes and paths fit
  on their lines survives the round trip through its text, state and flags included.\<close>

theorem journal_round_trip:
  assumes "storable r"
  shows "JournalDeserialize (JournalSerialize r) = Some r"
  by (rule Deserialize_Serialize[OF assms])

theorem journal_round_trip_witness:
  "JournalDeserialize (JournalSerialize (emptyRecord\<lparr>jState := Prepared, oldGeneration := 255, configBakPath := ''a=b''\<rparr>))
    = Some (emptyRecord\<lparr>jState := Prepared, oldGeneration := 255, configBakPath := ''a=b''\<rparr>)"
  by (rule journal_round_trip) (simp add: storable_def emptyRecord_def lineSafe_def newline_def carriageReturn_def)

text \<open>C15. A commit is atomic under crashes.  Whatever calls of the system fail during the commit, wherever
  the process ends in it, and however often a recovery after it is itself cut short: the first recovery
  that reports success leaves both old files or both new ones.\<close>

theorem commit_crash_atomic:
  assumes "goodPlace pl"
    and "files w (configFile pl) = Some oldC" "files w (dictFile pl) = Some oldD"
    and "files w (GetJournalPath pl) = None" "files w (corruptFile pl) = None" "\<not> dead w"
    and "run_state (CommitTransaction env pl newC newD og ng notify) w = (ok, w1)"
    and "run_state (RecoverIfNeeded env pl) (restart fs (fold (recoverWith env pl) crashes w1)) = (True, w2)" "\<not> dead w2"
  shows "(files w2 (configFile pl), files w2 (dictFile pl)) \<in> {(Some oldC, Some oldD), (Some newC, Some newD)}"
proof -
  let ?T = "replacement pl oldC oldD newC newD og ng notify"
  have "crashSafe ?T (files (fold (recoverWith env pl) crashes w1))"
    using recoveries_safe[of ?T] commit_leaves(1)[OF assms(1-7)] assms(1) by simp
  then have "wp (RecoverIfNeeded env pl) (recovered ?T) (crashSafe ?T) (files (fold (recoverWith env pl) crashes w1))"
    using wp_RecoverIfNeeded[of ?T] assms(1) by simp
  from wpD[OF this _ _ assms(8)] assms(9) have "settled ?T (files w2)" by (simp add: recovered_def)
  from settled_pair[OF this] show ?thesis by (auto simp: oldPair_def newPair_def)
qed

text \<open>The process ends while the dictionary is replaced, and the recovery works.\<close>

theorem commit_crash_atomic_witness:
  "\<exists>w2. run_state (RecoverIfNeeded exampleEnv examplePlace) (restart []
      (snd (run_state (CommitTransaction exampleEnv examplePlace ''a=2'' [] 7 8 True)
        (exampleWorld (replicate 8 Works @ [Dies (Some [])]))))) = (True, w2) \<and>
    (files w2 (configFile examplePlace), files w2 (dictFile examplePlace)) \<in>
      {(Some ''a=1'', Some ''ba''), (Some ''a=2'', Some [])}"
proof -
  let ?w = "exampleWorld (replicate 8 Works @ [Dies (Some [])])"
  obtain ok w1 where w1: "run_state (CommitTransaction exampleEnv examplePlace ''a=2'' [] 7 8 True) ?w = (ok, w1)" by fastforce
  obtain w2 where w2: "run_state (RecoverIfNeeded exampleEnv examplePlace)
      (restart [] (fold (recoverWith exampleEnv examplePlace) [] w1)) = (True, w2)" "\<not> dead w2"
    by (rule recovers[OF goodPlace_example _ _ _ _ _ w1, of "''a=1''" "''ba''" "[]"]) (simp_all add: exampleEnv_def)
  have "(files w2 (configFile examplePlace), files w2 (dictFile examplePlace)) \<in>
      {(Some ''a=1'', Some ''ba''), (Some ''a=2'', Some [])}"
    by (rule commit_crash_atomic[OF goodPlace_example _ _ _ _ _ w1 w2]) simp_all
  then show ?thesis using w1 w2(1) by auto
qed

text \<open>C16. A commit that reported success is durable: the new pair is on disk, and no recovery that runs
  later, complete or cut short, takes it away.\<close>

theorem commit_durable:
  assumes "goodPlace pl"
    and "files w (configFile pl) = Some oldC" "files w (dictFile pl) = Some oldD"
    and "files w (GetJournalPath pl) = None" "files w (corruptFile pl) = None" "\<not> dead w"
    and "run_state (CommitTransaction env pl newC newD og ng notify) w = (True, w1)" "\<not> dead w1"
  shows "files (fold (recoverWith env pl) crashes w1) (configFile pl) = Some newC \<and>
    files (fold (recoverWith env pl) crashes w1) (dictFile pl) = Some newD"
  using recoveries_sealed[of "replacement pl oldC oldD newC newD og ng notify" w1 env crashes] assms(1,8)
    commit_leaves(2)[OF assms(1-7)]
  by (simp add: sealed_def newPair_def)

theorem commit_durable_witness:
  "\<exists>w1. run_state (CommitTransaction exampleEnv examplePlace ''a=2'' [] 7 8 True) (exampleWorld []) = (True, w1) \<and>
    files (fold (recoverWith exampleEnv examplePlace) [[Dies None], []] w1) (configFile examplePlace) = Some ''a=2''"
proof -
  obtain w1 where w1: "run_state (CommitTransaction exampleEnv examplePlace ''a=2'' [] 7 8 True) (exampleWorld []) = (True, w1)"
    "\<not> dead w1"
    by (rule commits[OF goodPlace_example _ _ _ _ _ _ _ _ example_config example_dict, of "exampleWorld []" "''a=1''" "''ba''" True 7 8]) simp_all
  then show ?thesis
    using commit_durable[OF goodPlace_example _ _ _ _ _ w1, of "''a=1''" "''ba''" "[[Dies None], []]"] by auto
qed



text \<open>C18. An undisturbed commit of a valid pair succeeds: the new files are in place, no journal is left, and
  with notification the shared block has the new generation and the image the new snapshot.\<close>

theorem commit_completes:
  assumes "goodPlace pl"
    and "files w (configFile pl) = Some oldC" "files w (dictFile pl) = Some oldD"
    and "files w (GetJournalPath pl) = None" "files w (corruptFile pl) = None" "\<not> dead w" "faults w = []"
    and "notify \<Longrightarrow> sharedGeneration w \<noteq> None" "notify \<Longrightarrow> wireManager w \<Longrightarrow> wireWritable w"
    and "preflightConfig env newC = Some (suggest, exclusions, g)" "parseDict env newD = Inr dict"
  shows "\<exists>w1. run_state (CommitTransaction env pl newC newD og ng notify) w = (True, w1) \<and>
    files w1 (configFile pl) = Some newC \<and> files w1 (dictFile pl) = Some newD \<and> files w1 (GetJournalPath pl) = None \<and>
    (notify \<longrightarrow> sharedGeneration w1 = Some ng) \<and>
    (notify \<and> wireManager w \<longrightarrow> wire w1 = Some \<lparr>snapExclusions = exclusions, snapDictionary = importEntries dict,
       snapGeneration = (if g \<noteq> 0 then g else (case wire w of None \<Rightarrow> 0 | Some s \<Rightarrow> snapGeneration s) + 1), snapSuggest = suggest\<rparr>)"
  by (rule commits[OF assms]) auto

theorem commit_completes_witness:
  "\<exists>w1. run_state (CommitTransaction exampleEnv examplePlace ''a=2'' [] 7 8 True) (exampleWorld []) = (True, w1) \<and>
    sharedGeneration w1 = Some 8"
  using commit_completes[OF goodPlace_example _ _ _ _ _ _ _ _ example_config example_dict, of "exampleWorld []" "''a=1''" "''ba''" True 7 8]
  by auto



end
