(* ===== verification/Hotkeys.thy ===== *)
theory Hotkeys
  imports TypingConfig
begin

text \<open>
  The hotkey matcher of the keyboard hook, \<open>src/app/system/HotkeyManager.cpp\<close>: packed bindings, the
  state of the modifiers, and the latch that pairs a matched key with its release.  The predicates that
  let a matched key pass to the text service are the argument \<open>allows\<close>, one answer per slot; the slots
  fired are returned in the order in which the sink receives them.
\<close>

section \<open>State\<close>

datatype KeyEventType = Down | Up

datatype ModifierKey = NoModifier | Control | Shift | Alt | Win




record PhysicalModifierState =
  ctrlDown :: bool
  shiftDown :: bool
  altDown :: bool
  winDown :: bool

record SlotState =
  comboKeyDown :: bool
  comboPassedThrough :: bool
  latchedVk :: "32 word"


record HotkeyManager =
  pendingConfigs :: "32 word list"
  liveConfigs :: "32 word list"
  slotState :: "SlotState list"
  finalized :: bool
  mods :: PhysicalModifierState
  otherKeyPressed :: bool



section \<open>Bindings\<close>

definition kVkMask :: "32 word" where "kVkMask = 0x0FFFFFFF"

definition PackConfig :: "HotkeyConfig \<Rightarrow> 32 word" where
  "PackConfig c =
    (let m = 0;
         m = (if ctrl c then m OR 0x01 else m);
         m = (if shift c then m OR 0x02 else m);
         m = (if alt c then m OR 0x04 else m);
         m = (if win c then m OR 0x08 else m)
     in push_bit 4 (vk c) OR m)"

definition UnpackConfig :: "32 word \<Rightarrow> HotkeyConfig" where
  "UnpackConfig p = \<lparr>ctrl = (p AND 0x01 \<noteq> 0), shift = (p AND 0x02 \<noteq> 0), alt = (p AND 0x04 \<noteq> 0),
     win = (p AND 0x08 \<noteq> 0), vk = drop_bit 4 p\<rparr>"





section \<open>Matching\<close>

definition HasModifiers :: "PhysicalModifierState \<Rightarrow> bool" where
  "HasModifiers p \<longleftrightarrow> ctrlDown p \<or> shiftDown p \<or> altDown p \<or> winDown p"


fun modifierDown :: "ModifierKey \<Rightarrow> PhysicalModifierState \<Rightarrow> bool" where
  "modifierDown Control p = ctrlDown p"
| "modifierDown Shift p = shiftDown p"
| "modifierDown Alt p = altDown p"
| "modifierDown Win p = winDown p"
| "modifierDown NoModifier p = False"

fun setModifier :: "ModifierKey \<Rightarrow> bool \<Rightarrow> PhysicalModifierState \<Rightarrow> PhysicalModifierState" where
  "setModifier Control b p = p\<lparr>ctrlDown := b\<rparr>"
| "setModifier Shift b p = p\<lparr>shiftDown := b\<rparr>"
| "setModifier Alt b p = p\<lparr>altDown := b\<rparr>"
| "setModifier Win b p = p\<lparr>winDown := b\<rparr>"
| "setModifier NoModifier b p = p"

definition UpdateModifierState :: "ModifierKey \<Rightarrow> KeyEventType \<Rightarrow> HotkeyManager \<Rightarrow> HotkeyManager" where
  "UpdateModifierState k t m =
    (if k = NoModifier then m
     else if t = Down then
       m\<lparr>otherKeyPressed := (if \<not> modifierDown k (mods m) \<and> \<not> HasModifiers (mods m) then False else otherKeyPressed m),
         mods := setModifier k True (mods m)\<rparr>
     else m\<lparr>mods := setModifier k False (mods m)\<rparr>)"









section \<open>Repair\<close>



section \<open>Runs\<close>











text \<open>A press or a release changes one slot only; all other inputs keep the latches or drop some.\<close>

lemma UpdateModifierState_simps [simp]:
  "slotState (UpdateModifierState k t m) = slotState m" "liveConfigs (UpdateModifierState k t m) = liveConfigs m"
  "finalized (UpdateModifierState k t m) = finalized m"
  by (simp_all add: UpdateModifierState_def)



















section \<open>Properties\<close>

text \<open>The packed form keeps every binding whose key fits.\<close>

lemma mask_bits:
  assumes "v \<le> kVkMask" "n \<ge> 28"
  shows "\<not> bit v n"
proof
  assume "bit v n"
  then have "bit (uint v) n" using bit_imp_le_length[of v n] by (simp add: bit_uint_iff)
  moreover have "uint v < 2 ^ 28" using assms(1) by (simp add: kVkMask_def word_le_def)
  then have "uint v < 2 ^ n" using assms(2) power_increasing[of 28 n "2 :: int"] by linarith
  then have "uint v div 2 ^ n = 0" by (simp add: div_pos_pos_trivial)
  ultimately show False by (simp add: bit_iff_odd)
qed

lemma pack_round_trip:
  assumes "vk c \<le> kVkMask"
  shows "UnpackConfig (PackConfig c) = c"
proof -
  have v: "drop_bit 4 (push_bit 4 (vk c) OR m) = vk c" if "drop_bit 4 m = 0" for m :: "32 word"
  proof (rule bit_word_eqI)
    fix n assume n: "n < LENGTH(32)"
    have "bit (drop_bit 4 m) n = bit m (4 + n)" by (simp add: bit_drop_bit_eq)
    then have "\<not> bit m (4 + n)" using that by simp
    then show "bit (drop_bit 4 (push_bit 4 (vk c) OR m)) n = bit (vk c) n"
      using n mask_bits[OF assms, of n] by (cases "n \<ge> 28") (auto simp: bit_simps)
  qed
  have none: "push_bit 4 (vk c) AND take_bit 4 k = 0" for k :: "32 word"
    by (rule bit_word_eqI) (auto simp: bit_simps)
  have low: "(push_bit 4 (vk c) OR m) AND k = m AND k" if "take_bit 4 k = k" for m k :: "32 word"
    using none[of k] that by (simp add: bit.conj_disj_distrib2)
  have f: "push_bit 4 (vk c) AND 1 = 0" "push_bit 4 (vk c) AND 2 = 0" "push_bit 4 (vk c) AND 4 = 0" "push_bit 4 (vk c) AND 8 = 0"
    using none[of 1] none[of 2] none[of 4] none[of 8] by simp_all
  have "ctrl (UnpackConfig (PackConfig c)) = ctrl c" "shift (UnpackConfig (PackConfig c)) = shift c"
    "alt (UnpackConfig (PackConfig c)) = alt c" "win (UnpackConfig (PackConfig c)) = win c"
    by (cases "ctrl c"; cases "shift c"; cases "alt c"; cases "win c";
        simp add: PackConfig_def UnpackConfig_def low f Let_def)+
  moreover have "vk (UnpackConfig (PackConfig c)) = vk c"
    unfolding PackConfig_def UnpackConfig_def Let_def HotkeyConfig.select_convs by (rule v) simp
  ultimately show ?thesis by simp
qed




end
