(* ===== verification/Mailbox.thy ===== *)
theory Mailbox
  imports Prelude "HOL-Library.Word"
begin

unbundle bit_operations_syntax

text \<open>
  The command mailbox of the hook thread, \<open>src/app/system/HookCommandMailbox.cpp\<close>, and its drain in
  \<open>HookEngine::DrainHookCommands\<close>.  Each access to an atomic is one step; the accesses that carry the
  protocol are sequentially consistent in the code, so producers and the hook thread interleave.  The
  contents of a focus snapshot play no role and are a type parameter.  A wake is a message in the
  queue of the hook thread; posting it is taken to succeed.
\<close>

section \<open>The mailbox\<close>

definition kFocusChanged :: "32 word" where "kFocusChanged = 0x01"
definition kConfigApply :: "32 word" where "kConfigApply = 0x02"
definition kTickPoll :: "32 word" where "kTickPoll = 0x04"
definition kToggleVN :: "32 word" where "kToggleVN = 0x08"

record 'c HookCommandMailbox =
  bits :: "32 word"
  pendingFocus :: "'c option"
  wakePosted :: bool
  inDrain :: bool

definition newMailbox :: "'c HookCommandMailbox" where
  "newMailbox = \<lparr>bits = 0, pendingFocus = None, wakePosted = False, inDrain = False\<rparr>"

text \<open>The three accesses of \<open>Post\<close>.\<close>

definition storeFocus :: "'c option \<Rightarrow> 'c HookCommandMailbox \<Rightarrow> 'c HookCommandMailbox" where
  "storeFocus cls m = (case cls of None \<Rightarrow> m | Some c \<Rightarrow> m\<lparr>pendingFocus := Some c\<rparr>)"

definition fetchOr :: "32 word \<Rightarrow> 'c HookCommandMailbox \<Rightarrow> 'c HookCommandMailbox" where
  "fetchOr b m = m\<lparr>bits := bits m OR b\<rparr>"

definition exchangeWake :: "'c HookCommandMailbox \<Rightarrow> bool \<times> 'c HookCommandMailbox" where
  "exchangeWake m = (wakePosted m, m\<lparr>wakePosted := True\<rparr>)"

text \<open>\<open>Post\<close> without interference: the flag says whether the wake function is called.\<close>

definition Post :: "32 word \<Rightarrow> 'c option \<Rightarrow> 'c HookCommandMailbox \<Rightarrow> bool \<times> 'c HookCommandMailbox" where
  "Post b cls m = (case exchangeWake (fetchOr b (storeFocus cls m)) of (old, m') \<Rightarrow> (\<not> old, m'))"

definition clearWake :: "'c HookCommandMailbox \<Rightarrow> 'c HookCommandMailbox" where
  "clearWake m = m\<lparr>wakePosted := False\<rparr>"

definition takeBits :: "'c HookCommandMailbox \<Rightarrow> 32 word \<times> 'c HookCommandMailbox" where
  "takeBits m = (bits m, m\<lparr>bits := 0\<rparr>)"

definition DrainBits :: "'c HookCommandMailbox \<Rightarrow> 32 word \<times> 'c HookCommandMailbox" where
  "DrainBits m = takeBits (clearWake m)"

definition ConsumePendingFocus :: "'c HookCommandMailbox \<Rightarrow> 'c option \<times> 'c HookCommandMailbox" where
  "ConsumePendingFocus m = (pendingFocus m, m\<lparr>pendingFocus := None\<rparr>)"

definition ResetLatch :: "'c HookCommandMailbox \<Rightarrow> 'c HookCommandMailbox" where
  "ResetLatch m = m\<lparr>bits := 0, wakePosted := False\<rparr>"

definition enterDrain :: "'c HookCommandMailbox \<Rightarrow> bool \<times> 'c HookCommandMailbox" where
  "enterDrain m = (inDrain m, m\<lparr>inDrain := True\<rparr>)"

definition leaveDrain :: "'c HookCommandMailbox \<Rightarrow> 'c HookCommandMailbox" where
  "leaveDrain m = m\<lparr>inDrain := False\<rparr>"

section \<open>The drain of the hook thread\<close>

datatype 'c DrainAction = LatchConfig | RouteFocus "'c option" | TryDeferredFocus | TickPoll | ToggleVN | ApplyConfig

text \<open>What \<open>DrainHookCommands\<close> calls, in its order.  \<open>engineEmpty\<close> is the emptiness of the engine when the
  deferred configuration is considered.\<close>

definition DrainHookCommands ::
    "bool \<Rightarrow> bool \<Rightarrow> bool \<Rightarrow> 'c HookCommandMailbox \<Rightarrow> 'c DrainAction list \<times> 'c HookCommandMailbox" where
  "DrainHookCommands hadDeferredConfig hadDeferredFocus engineEmpty m =
    (case DrainBits (snd (enterDrain m)) of (b, m1) \<Rightarrow>
       if b = 0 \<and> \<not> hadDeferredConfig \<and> \<not> hadDeferredFocus then ([], leaveDrain m1)
       else
         let config = hadDeferredConfig \<or> b AND kConfigApply \<noteq> 0 in
         case (if b AND kFocusChanged \<noteq> 0 then ConsumePendingFocus m1 else (None, m1)) of (c, m2) \<Rightarrow>
           ((if b AND kConfigApply \<noteq> 0 then [LatchConfig] else []) @
            (if b AND kFocusChanged \<noteq> 0 then [RouteFocus c] else []) @
            [TryDeferredFocus] @
            (if b AND kTickPoll \<noteq> 0 then [TickPoll] else []) @
            (if b AND kToggleVN \<noteq> 0 then [ToggleVN] else []) @
            (if config \<and> engineEmpty then [ApplyConfig] else []),
            leaveDrain m2))"

section \<open>Producers and the hook thread\<close>

text \<open>A producer between the accesses of \<open>Post\<close>, and the hook thread between those of a drain.\<close>

datatype Producer = AtRest | AtOr "32 word" | AtExchange | AtWake

datatype Hook = Pumping | AtClear | AtTake | AtConsume

datatype 'c Event = Posted "32 word" | Drained "32 word" | Stored 'c | Consumed "'c option"

record 'c System =
  box :: "'c HookCommandMailbox"
  producers :: "nat \<Rightarrow> Producer"
  hook :: Hook
  wakes :: nat
  events :: "'c Event list"

definition newSystem :: "'c System" where
  "newSystem = \<lparr>box = newMailbox, producers = (\<lambda>_. AtRest), hook = Pumping, wakes = 0, events = []\<rparr>"

definition setProducer :: "nat \<Rightarrow> Producer \<Rightarrow> 'c System \<Rightarrow> 'c System" where
  "setProducer p pc s = s\<lparr>producers := (producers s)(p := pc)\<rparr>"

text \<open>The steps of the hook thread: a wake message starts a drain.\<close>

definition hookStep :: "'c System \<Rightarrow> 'c System option" where
  "hookStep s =
    (case hook s of
       Pumping \<Rightarrow> if wakes s = 0 then None else Some (s\<lparr>wakes := wakes s - 1, hook := AtClear\<rparr>)
     | AtClear \<Rightarrow> Some (s\<lparr>box := clearWake (box s), hook := AtTake\<rparr>)
     | AtTake \<Rightarrow>
         (case takeBits (box s) of (b, m) \<Rightarrow>
            Some (s\<lparr>box := m, hook := (if b AND kFocusChanged \<noteq> 0 then AtConsume else Pumping), events := events s @ [Drained b]\<rparr>))
     | AtConsume \<Rightarrow>
         (case ConsumePendingFocus (box s) of (c, m) \<Rightarrow>
            Some (s\<lparr>box := m, hook := Pumping, events := events s @ [Consumed c]\<rparr>)))"

text \<open>A focus snapshot is posted with the bit of the focus only.  A key press starts a drain without a
  wake message.\<close>

inductive mailStep :: "'c System \<Rightarrow> 'c System \<Rightarrow> bool" where
  post: "producers s p = AtRest \<Longrightarrow> cls \<noteq> None \<longrightarrow> b = kFocusChanged \<Longrightarrow>
    mailStep s (setProducer p (AtOr b) (s\<lparr>box := storeFocus cls (box s),
      events := events s @ (case cls of None \<Rightarrow> [] | Some c \<Rightarrow> [Stored c])\<rparr>))"
| or: "producers s p = AtOr b \<Longrightarrow>
    mailStep s (setProducer p AtExchange (s\<lparr>box := fetchOr b (box s), events := events s @ [Posted b]\<rparr>))"
| exchange: "producers s p = AtExchange \<Longrightarrow> exchangeWake (box s) = (old, m) \<Longrightarrow>
    mailStep s (setProducer p (if old then AtRest else AtWake) (s\<lparr>box := m\<rparr>))"
| wake: "producers s p = AtWake \<Longrightarrow> mailStep s (setProducer p AtRest (s\<lparr>wakes := wakes s + 1\<rparr>))"
| key: "hook s = Pumping \<Longrightarrow> mailStep s (s\<lparr>hook := AtClear\<rparr>)"
| hook: "hookStep s = Some s' \<Longrightarrow> mailStep s s'"

inductive mailReach :: "'c System \<Rightarrow> bool" where
  new: "mailReach newSystem"
| more: "mailReach s \<Longrightarrow> mailStep s s' \<Longrightarrow> mailReach s'"

lemmas mailbox_simps = storeFocus_def fetchOr_def exchangeWake_def clearWake_def takeBits_def ConsumePendingFocus_def
  setProducer_def newMailbox_def newSystem_def

section \<open>Invariant\<close>

definition someAt :: "Producer \<Rightarrow> 'c System \<Rightarrow> bool" where
  "someAt pc s \<longleftrightarrow> (\<exists>p. producers s p = pc)"

text \<open>A set bit has a latch or somebody about to see to it, and a latch has a wake.\<close>

definition bitsCovered :: "'c System \<Rightarrow> bool" where
  "bitsCovered s \<longleftrightarrow> (bits (box s) \<noteq> 0 \<longrightarrow> wakePosted (box s) \<or> someAt AtExchange s \<or> hook s = AtTake)"

definition latchCovered :: "'c System \<Rightarrow> bool" where
  "latchCovered s \<longleftrightarrow> (wakePosted (box s) \<longrightarrow> wakes s > 0 \<or> someAt AtWake s \<or> hook s = AtClear)"

definition focusCovered :: "'c System \<Rightarrow> bool" where
  "focusCovered s \<longleftrightarrow> (pendingFocus (box s) \<noteq> None \<longrightarrow>
     bits (box s) AND kFocusChanged \<noteq> 0 \<or> someAt (AtOr kFocusChanged) s \<or> hook s = AtConsume)"

lemma someAt_set: "someAt pc (setProducer p pc' s) \<longleftrightarrow> pc = pc' \<or> (\<exists>q. q \<noteq> p \<and> producers s q = pc)"
  by (auto simp: someAt_def setProducer_def)

lemma someAt_update [simp]:
  "someAt pc (s\<lparr>box := m\<rparr>) = someAt pc s" "someAt pc (s\<lparr>events := l\<rparr>) = someAt pc s" "someAt pc (s\<lparr>wakes := n\<rparr>) = someAt pc s"
  "someAt pc (s\<lparr>hook := h\<rparr>) = someAt pc s"
  by (simp_all add: someAt_def)

lemma setProducer_simps [simp]:
  "box (setProducer p pc s) = box s" "hook (setProducer p pc s) = hook s" "wakes (setProducer p pc s) = wakes s"
  "events (setProducer p pc s) = events s"
  by (simp_all add: setProducer_def)

lemma or_bit:
  "x AND kFocusChanged \<noteq> 0 \<Longrightarrow> (x OR b) AND kFocusChanged \<noteq> 0" "(x OR kFocusChanged) AND kFocusChanged \<noteq> 0"
proof -
  have "(x OR kFocusChanged) AND kFocusChanged = kFocusChanged" by (auto simp: bit_eq_iff bit_simps)
  then show "(x OR kFocusChanged) AND kFocusChanged \<noteq> 0" by (simp add: kFocusChanged_def)
  show "x AND kFocusChanged \<noteq> 0 \<Longrightarrow> (x OR b) AND kFocusChanged \<noteq> 0" by (auto simp: bit_eq_iff bit_simps)
qed

lemma someAt_other: "someAt pc s \<Longrightarrow> producers s p = pc' \<Longrightarrow> pc \<noteq> pc' \<Longrightarrow> someAt pc (setProducer p pc'' s)"
  by (auto simp: someAt_def setProducer_def)

lemma someAt_new: "someAt pc (setProducer p pc s)"
  by (auto simp: someAt_def setProducer_def)

definition covered :: "'c System \<Rightarrow> bool" where
  "covered s \<longleftrightarrow> bitsCovered s \<and> latchCovered s \<and> focusCovered s"

lemmas covered_defs = covered_def bitsCovered_def latchCovered_def focusCovered_def

lemma covered_hook:
  assumes "covered s" "hookStep s = Some s'"
  shows "covered s'"
  using assms by (cases "hook s") (auto simp: hookStep_def covered_defs mailbox_simps someAt_def split: if_splits)

lemma covered_step:
  assumes "mailStep s s'" "covered s"
  shows "covered s'"
  using assms
proof cases
  case (post p cls b)
  have "someAt pc s \<Longrightarrow> pc \<noteq> AtRest \<Longrightarrow> someAt pc s'" for pc
    unfolding post(1) by (rule someAt_other) (use post in simp_all)
  moreover have "someAt (AtOr b) s'" unfolding post(1) by (rule someAt_new)
  ultimately show ?thesis using assms(2) post by (auto simp: covered_defs storeFocus_def split: option.splits)
next
  case (or p b)
  have "someAt pc s \<Longrightarrow> pc \<noteq> AtOr b \<Longrightarrow> someAt pc s'" for pc
    unfolding or(1) by (rule someAt_other) (use or in simp_all)
  moreover have "someAt AtExchange s'" unfolding or(1) by (rule someAt_new)
  moreover have "b = kFocusChanged \<or> someAt (AtOr kFocusChanged) s \<longrightarrow> b = kFocusChanged \<or> someAt (AtOr kFocusChanged) s'"
    using calculation(1) by blast
  ultimately show ?thesis using assms(2) or or_bit by (auto simp: covered_defs fetchOr_def)
next
  case (exchange p old m)
  have "someAt pc s \<Longrightarrow> pc \<noteq> AtExchange \<Longrightarrow> someAt pc s'" for pc
    unfolding exchange(1) by (rule someAt_other) (use exchange in simp_all)
  moreover have "\<not> old \<Longrightarrow> someAt AtWake s'" unfolding exchange(1) by (simp add: someAt_new)
  ultimately show ?thesis using assms(2) exchange by (auto simp: covered_defs exchangeWake_def)
next
  case (wake p)
  have "someAt pc s \<Longrightarrow> pc \<noteq> AtWake \<Longrightarrow> someAt pc s'" for pc
    unfolding wake(1) by (rule someAt_other) (use wake in simp_all)
  then show ?thesis using assms(2) wake by (auto simp: covered_defs)
next
  case key
  then show ?thesis using assms(2) by (auto simp: covered_defs someAt_def)
next
  case hook
  then show ?thesis using covered_hook assms(2) by blast
qed

lemma mailReach_covered: "mailReach s \<Longrightarrow> covered s"
proof (induction rule: mailReach.induct)
  case new
  then show ?case by (simp add: covered_defs mailbox_simps)
next
  case (more s s')
  then show ?case using covered_step by blast
qed

section \<open>The mailbox as one atomic object\<close>

text \<open>The specification: posts join the bits, a drain hands over all of them, a snapshot replaces the one
  before it.\<close>

fun mailSpec :: "'c Event list \<Rightarrow> 32 word \<times> 'c option \<Rightarrow> (32 word \<times> 'c option) option" where
  "mailSpec [] bc = Some bc"
| "mailSpec (Posted b' # es) (b, c) = mailSpec es (b OR b', c)"
| "mailSpec (Drained b' # es) (b, c) = (if b' = b then mailSpec es (0, c) else None)"
| "mailSpec (Stored c' # es) (b, c) = mailSpec es (b, Some c')"
| "mailSpec (Consumed c' # es) (b, c) = (if c' = c then mailSpec es (b, None) else None)"

lemma mailSpec_append: "mailSpec (es @ es') bc = Option.bind (mailSpec es bc) (mailSpec es')"
  by (induction es bc rule: mailSpec.induct) auto

definition linear :: "'c System \<Rightarrow> bool" where
  "linear s \<longleftrightarrow> mailSpec (events s) (0, None) = Some (bits (box s), pendingFocus (box s))"

lemma linear_step: "mailStep s s' \<Longrightarrow> linear s \<Longrightarrow> linear s'"
  by (induction rule: mailStep.induct)
    (auto simp: linear_def mailSpec_append mailbox_simps hookStep_def split: option.splits Hook.splits if_splits)

lemma mailReach_linear: "mailReach s \<Longrightarrow> linear s"
proof (induction rule: mailReach.induct)
  case new
  then show ?case by (simp add: linear_def mailbox_simps)
next
  case (more s s')
  then show ?case using linear_step by blast
qed

lemma spec_bits:
  "mailSpec es (B, c) = Some (B', c') \<Longrightarrow> b AND B = b \<Longrightarrow> (\<exists>w. Drained w \<in> set es \<and> b AND w = b) \<or> b AND B' = b"
proof (induction es "(B, c)" arbitrary: B c rule: mailSpec.induct)
  case (2 b' es B c)
  have "b AND (B OR b') = b" using 2(3) by (auto simp: bit_eq_iff bit_simps)
  then show ?case using 2 by auto
qed (auto split: if_splits)

lemma spec_focus:
  "mailSpec es (B, Some c) = Some (B', c') \<Longrightarrow> \<forall>d. Stored d \<notin> set es \<Longrightarrow> Consumed (Some c) \<in> set es \<or> c' = Some c"
proof (induction es "(B, Some c)" arbitrary: B c rule: mailSpec.induct)
qed (auto split: if_splits)

section \<open>The pump\<close>

fun pump :: "nat \<Rightarrow> 'c System \<Rightarrow> 'c System" where
  "pump 0 s = s"
| "pump (Suc n) s = (case hookStep s of None \<Rightarrow> s | Some s' \<Rightarrow> pump n s')"

fun rank :: "Hook \<Rightarrow> nat" where
  "rank Pumping = 0" | "rank AtConsume = 1" | "rank AtTake = 2" | "rank AtClear = 3"

definition work :: "'c System \<Rightarrow> nat" where "work s = 4 * wakes s + rank (hook s)"

lemma hookStep_work: "hookStep s = Some s' \<Longrightarrow> work s' < work s"
  by (cases "hook s") (auto simp: hookStep_def work_def mailbox_simps split: if_splits)

lemma pump_stops: "work s \<le> n \<Longrightarrow> hookStep (pump n s) = None"
proof (induction n s rule: pump.induct)
  case (1 s)
  then show ?case by (cases "hook s") (auto simp: work_def hookStep_def)
next
  case (2 n s)
  then show ?case using hookStep_work[of s] by (fastforce split: option.splits)
qed

lemma pump_reach: "mailReach s \<Longrightarrow> mailReach (pump n s)"
  by (induction n s rule: pump.induct) (auto split: option.splits intro: mailReach.more mailStep.hook)

lemma hookStep_events: "hookStep s = Some s' \<Longrightarrow> \<exists>es. events s' = events s @ es \<and> (\<forall>d. Stored d \<notin> set es)"
  by (cases "hook s") (auto simp: hookStep_def mailbox_simps split: if_splits)

lemma pump_keeps: "producers (pump n s) = producers s \<and> (\<exists>es. events (pump n s) = events s @ es \<and> (\<forall>d. Stored d \<notin> set es))"
proof (induction n s rule: pump.induct)
  case (2 n s)
  show ?case
  proof (cases "hookStep s")
    case (Some s')
    then have "producers s' = producers s" by (cases "hook s") (auto simp: hookStep_def mailbox_simps split: if_splits)
    moreover obtain es where "events s' = events s @ es" "\<forall>d. Stored d \<notin> set es" using hookStep_events[OF Some] by blast
    moreover obtain es' where "events (pump n s') = events s' @ es'" "\<forall>d. Stored d \<notin> set es'" using 2[OF Some] by blast
    ultimately show ?thesis using 2[OF Some] Some by auto
  qed simp
qed simp

lemma stopped_empty:
  assumes "covered s" "hookStep s = None" "\<And>p. producers s p = AtRest"
  shows "bits (box s) = 0 \<and> pendingFocus (box s) = None"
proof -
  have "hook s = Pumping" "wakes s = 0"
    using assms(2) by (cases "hook s"; auto simp: hookStep_def mailbox_simps split: if_splits)+
  then show ?thesis using assms(1,3) by (auto simp: covered_defs someAt_def)
qed

text \<open>A whole \<open>Post\<close> without interference.\<close>

definition postNow :: "nat \<Rightarrow> 32 word \<Rightarrow> 'c option \<Rightarrow> 'c System \<Rightarrow> 'c System" where
  "postNow p b cls s =
    (case Post b cls (box s) of (fire, m) \<Rightarrow>
       s\<lparr>box := m, wakes := wakes s + (if fire then 1 else 0),
         events := events s @ (case cls of None \<Rightarrow> [] | Some c \<Rightarrow> [Stored c]) @ [Posted b]\<rparr>)"

lemma mailReach_postNow:
  assumes "mailReach s" "producers s p = AtRest" "cls \<noteq> None \<longrightarrow> b = kFocusChanged"
  shows "mailReach (postNow p b cls s)"
proof -
  let ?e = "case cls of None \<Rightarrow> [] | Some c \<Rightarrow> [Stored c]"
  let ?s1 = "setProducer p (AtOr b) (s\<lparr>box := storeFocus cls (box s), events := events s @ ?e\<rparr>)"
  let ?s2 = "setProducer p AtExchange (?s1\<lparr>box := fetchOr b (box ?s1), events := events ?s1 @ [Posted b]\<rparr>)"
  let ?s3 = "setProducer p (if wakePosted (box ?s2) then AtRest else AtWake) (?s2\<lparr>box := snd (exchangeWake (box ?s2))\<rparr>)"
  have "mailReach ?s1" by (rule mailReach.more[OF assms(1) mailStep.post[OF assms(2,3)]])
  then have "mailReach ?s2" by (rule mailReach.more) (rule mailStep.or, simp add: setProducer_def)
  then have s3: "mailReach ?s3"
    by (rule mailReach.more) (rule mailStep.exchange, simp_all add: setProducer_def exchangeWake_def)
  have rest: "(producers s)(p := AtRest) = producers s" using assms(2) by auto
  show ?thesis
  proof (cases "wakePosted (box ?s2)")
    case True
    then have "postNow p b cls s = ?s3"
      using rest by (cases cls) (simp_all add: postNow_def Post_def mailbox_simps)
    then show ?thesis using s3 by simp
  next
    case False
    then have "mailStep ?s3 (setProducer p AtRest (?s3\<lparr>wakes := wakes ?s3 + 1\<rparr>))"
      by (intro mailStep.wake) (simp add: setProducer_def)
    moreover have "postNow p b cls s = setProducer p AtRest (?s3\<lparr>wakes := wakes ?s3 + 1\<rparr>)"
      using False rest by (cases cls) (simp_all add: postNow_def Post_def mailbox_simps)
    ultimately show ?thesis using s3 mailReach.more by metis
  qed
qed

section \<open>Properties\<close>

text \<open>C9. However producers and the hook thread interleave, the mailbox behaves like one atomic object:
  each drain returns exactly the bits posted since the drain before it, and each consumption the
  last snapshot stored since the one before it, or nothing.\<close>

theorem mailbox_refines:
  assumes "mailReach s"
  shows "mailSpec (events s) (0, None) = Some (bits (box s), pendingFocus (box s))"
  using mailReach_linear[OF assms] by (simp add: linear_def)

theorem mailbox_refines_witness:
  "mailSpec (events (postNow 1 kTickPoll None (postNow 0 kToggleVN None newSystem))) (0, None) = Some (0x0C, None)"
  using mailbox_refines[OF mailReach_postNow[OF mailReach_postNow[OF mailReach.new, of 0 None kToggleVN], of 1 None kTickPoll]]
  by (simp add: postNow_def Post_def mailbox_simps kTickPoll_def kToggleVN_def)

text \<open>C10. No command is stranded.  Once the producers have returned from \<open>Post\<close>, the wake messages already
  in the queue make the hook thread empty the mailbox in a bounded number of steps, without any key
  press: every bit posted is in a drain after its post, and the last focus snapshot is consumed.\<close>

theorem no_stranded_command:
  assumes "mailReach s" "\<And>p. producers s p = AtRest"
  defines "s' \<equiv> pump (work s) s"
  shows "hookStep s' = None \<and> bits (box s') = 0 \<and> pendingFocus (box s') = None \<and>
    (\<forall>xs b ys. events s = xs @ Posted b # ys \<and> b \<noteq> 0 \<longrightarrow>
       (\<exists>w. Drained w \<in> set (drop (Suc (length xs)) (events s')) \<and> b AND w = b)) \<and>
    (\<forall>xs c ys. events s = xs @ Stored c # ys \<and> (\<forall>d. Stored d \<notin> set ys) \<longrightarrow>
       Consumed (Some c) \<in> set (drop (Suc (length xs)) (events s')))"
proof -
  have stop: "hookStep s' = None" unfolding s'_def by (rule pump_stops) simp
  have reach: "mailReach s'" unfolding s'_def by (rule pump_reach[OF assms(1)])
  have keep: "producers s' = producers s" "\<exists>es. events s' = events s @ es \<and> (\<forall>d. Stored d \<notin> set es)"
    unfolding s'_def using pump_keeps by blast+
  have empty: "bits (box s') = 0" "pendingFocus (box s') = None"
    using stopped_empty[OF mailReach_covered[OF reach] stop] keep(1) assms(2) by auto
  have spec: "mailSpec (events s') (0, None) = Some (0, None)"
    using mailReach_linear[OF reach] empty by (simp add: linear_def)
  obtain es where es: "events s' = events s @ es" "\<forall>d. Stored d \<notin> set es" using keep(2) by blast
  have at: "mailSpec (xs @ e # (ys @ es)) (0, None) = Some (0, None)" if "events s = xs @ e # ys" for xs e ys
    using spec that es(1) by simp
  have drained: "\<exists>w. Drained w \<in> set (drop (Suc (length xs)) (events s')) \<and> b AND w = b"
    if "events s = xs @ Posted b # ys" "b \<noteq> 0" for xs b ys
  proof -
    note here = at[OF that(1)]
    obtain B c where "mailSpec (ys @ es) (B OR b, c) = Some (0, None)"
      using here by (auto simp: mailSpec_append[of xs] split: bind_splits)
    moreover have "b AND (B OR b) = b" by (auto simp: bit_eq_iff bit_simps)
    ultimately show ?thesis using spec_bits[of "ys @ es" "B OR b" c 0 None b] that es(1) by auto
  qed
  have routed: "Consumed (Some c) \<in> set (drop (Suc (length xs)) (events s'))"
    if "events s = xs @ Stored c # ys" "\<forall>d. Stored d \<notin> set ys" for xs c ys
  proof -
    note here = at[OF that(1)]
    obtain B where "mailSpec (ys @ es) (B, Some c) = Some (0, None)"
      using here by (auto simp: mailSpec_append[of xs] split: bind_splits)
    then show ?thesis using spec_focus[of "ys @ es" B c 0 None] that es by auto
  qed
  show ?thesis using stop empty drained routed by blast
qed

theorem no_stranded_command_witness:
  "\<exists>w. Drained w \<in> set (events (pump 8 (postNow 1 kToggleVN None (postNow 0 kFocusChanged (Some (7 :: nat)) newSystem)))) \<and>
    kToggleVN AND w = kToggleVN"
proof -
  let ?s = "postNow 1 kToggleVN None (postNow 0 kFocusChanged (Some (7 :: nat)) newSystem)"
  have reach: "mailReach ?s"
    by (intro mailReach_postNow mailReach.new) (simp_all add: postNow_def Post_def mailbox_simps)
  have rest: "producers ?s p = AtRest" for p by (simp add: postNow_def Post_def mailbox_simps)
  have work: "work ?s = 4" by (simp add: postNow_def Post_def mailbox_simps work_def)
  have "events ?s = [Stored (7 :: nat), Posted kFocusChanged] @ Posted kToggleVN # []" "kToggleVN \<noteq> 0"
    by (simp_all add: postNow_def Post_def mailbox_simps kToggleVN_def)
  with no_stranded_command[OF reach rest] obtain w where
    "Drained w \<in> set (drop (Suc (length [Stored (7 :: nat), Posted kFocusChanged])) (events (pump (work ?s) ?s)))" "kToggleVN AND w = kToggleVN"
    by meson
  moreover have "pump 8 ?s = pump (work ?s) ?s"
    unfolding work by (simp add: numeral_eq_Suc postNow_def Post_def mailbox_simps hookStep_def kFocusChanged_def kToggleVN_def)
  ultimately show ?thesis by (metis in_set_dropD)
qed

text \<open>The comment of \<open>Post\<close> says that a consumer that sees the bit of the focus also sees a snapshot.
  With two producers it may not: the first drain takes the snapshot of the second post, whose bit comes
  later.\<close>

lemma focus_bit_without_snapshot: "\<exists>s :: 'c System. mailReach s \<and> Consumed None \<in> set (events s)"
proof -
  fix c c' :: 'c
  let ?s0 = "postNow 0 kFocusChanged (Some c) newSystem"
  let ?s1 = "setProducer 1 (AtOr kFocusChanged) (pump 3 ?s0\<lparr>box := storeFocus (Some c') (box (pump 3 ?s0)),
    events := events (pump 3 ?s0) @ [Stored c']\<rparr>)"
  let ?s2 = "pump 1 ?s1"
  let ?s3 = "setProducer 1 AtExchange (?s2\<lparr>box := fetchOr kFocusChanged (box ?s2), events := events ?s2 @ [Posted kFocusChanged]\<rparr>)"
  let ?s4 = "?s3\<lparr>hook := AtClear\<rparr>"
  note run = numeral_eq_Suc postNow_def Post_def mailbox_simps hookStep_def kFocusChanged_def
  have "mailReach (pump 3 ?s0)"
    by (intro pump_reach mailReach_postNow mailReach.new) (simp_all add: run)
  then have "mailReach ?s1"
    by (rule mailReach.more) (use mailStep.post[of "pump 3 ?s0" 1 "Some c'" kFocusChanged] in \<open>simp add: run\<close>)
  then have "mailReach ?s2" by (rule pump_reach)
  then have "mailReach ?s3" by (rule mailReach.more) (rule mailStep.or, simp add: run)
  then have "mailReach ?s4" by (rule mailReach.more) (rule mailStep.key, simp add: run)
  then have "mailReach (pump 3 ?s4)" by (rule pump_reach)
  moreover have "Consumed None \<in> set (events (pump 3 ?s4))" by (simp add: run)
  ultimately show ?thesis by blast
qed

end
