(* ===== verification/BrowserContext.thy ===== *)
theory BrowserContext
  imports Prelude "HOL-Library.Word"
begin

text \<open>
  The shared context of the browser extension: \<open>src/core/ipc/BrowserContextState.h\<close> and the writers of
  \<open>BrowserContextManager.cpp\<close>.  Text in shared memory is a buffer of fixed size; what counts of it is
  the part before the first zero byte.  The mutex around a write is an argument of the writer (whether
  it was obtained); the system time too.
\<close>

section \<open>The block\<close>

text \<open>A byte of shared memory need not be an enumerator: another process of the user may have written it.\<close>

datatype BrowserRoute = RouteDefault | ForceEnglish | ForceTsf | RouteOther "8 word"

datatype BrowserMode = ModeDefault | Vietnamese | English | ModeOther "8 word"

definition kBrowserContextMagic :: "32 word" where "kBrowserContextMagic = 0x42594B56"
definition kBrowserContextVersion :: "16 word" where "kBrowserContextVersion = 2"
definition kBrowserContextTtlMs :: "64 word" where "kBrowserContextTtlMs = 5000"

text \<open>The size of the structure: fields of 4, 4, 2, 2, 4, 8, 8, 4, 4, 8, 1, 1, 1, 1 and 4 bytes and buffers of
  32, 256 and 256.\<close>

definition sizeofBrowserContextState :: "16 word" where "sizeofBrowserContextState = 600"

record BrowserContextState =
  generation :: "32 word"
  contextMagic :: "32 word"
  contextVersion :: "16 word"
  structSize :: "16 word"
  ownerProcessId :: "32 word"
  ownerNonce :: "64 word"
  updatedTickMs :: "64 word"
  modeEventSequence :: "32 word"
  modeEventOwnerProcessId :: "32 word"
  modeEventOwnerNonce :: "64 word"
  focused :: bool
  route :: BrowserRoute
  browserMode :: BrowserMode
  modeEventMode :: BrowserMode
  browserExe :: string
  hostname :: string
  modeEventHostname :: string

definition nul :: char where "nul = CHR 0x00"

definition cstr :: "string \<Rightarrow> string" where
  "cstr b = takeWhile (\<lambda>c. c \<noteq> nul) b"

definition toBuffer :: "nat \<Rightarrow> string \<Rightarrow> string" where
  "toBuffer n s = s @ replicate (n - length s) nul"

definition newBrowserContextState :: BrowserContextState where
  "newBrowserContextState =
    \<lparr>generation = 0, contextMagic = kBrowserContextMagic, contextVersion = kBrowserContextVersion,
     structSize = sizeofBrowserContextState, ownerProcessId = 0, ownerNonce = 0, updatedTickMs = 0,
     modeEventSequence = 0, modeEventOwnerProcessId = 0, modeEventOwnerNonce = 0, focused = False,
     route = RouteDefault, browserMode = ModeDefault, modeEventMode = ModeDefault,
     browserExe = toBuffer 32 [], hostname = toBuffer 256 [], modeEventHostname = toBuffer 256 []\<rparr>"

definition HasValidHeader :: "BrowserContextState \<Rightarrow> bool" where
  "HasValidHeader s \<longleftrightarrow> contextMagic s = kBrowserContextMagic \<and> contextVersion s = kBrowserContextVersion \<and>
     structSize s = sizeofBrowserContextState"

section \<open>Reading\<close>

text \<open>What the reader keeps of a copy: the last byte of every buffer is overwritten.\<close>

definition terminated :: "BrowserContextState \<Rightarrow> BrowserContextState" where
  "terminated s = s\<lparr>browserExe := (browserExe s)[31 := nul], hostname := (hostname s)[255 := nul],
     modeEventHostname := (modeEventHostname s)[255 := nul]\<rparr>"

text \<open>An attempt sees the generation before the copy, the copy, and the generation after it.  There are
  three.\<close>

fun readAttempts :: "(32 word \<times> BrowserContextState \<times> 32 word) list \<Rightarrow> BrowserContextState option" where
  "readAttempts [] = None"
| "readAttempts ((before, copy, after) # rest) =
    (if odd before then readAttempts rest
     else if before = after then
       (let out = terminated (copy\<lparr>generation := before\<rparr>) in if HasValidHeader out then Some out else None)
     else readAttempts rest)"

definition ReadBrowserContextSeqlock :: "(32 word \<times> BrowserContextState \<times> 32 word) list option \<Rightarrow> BrowserContextState option" where
  "ReadBrowserContextSeqlock source = (case source of None \<Rightarrow> None | Some obs \<Rightarrow> readAttempts (take 3 obs))"

section \<open>Decisions\<close>

definition IsBrowserContextFocusedForExe :: "BrowserContextState \<Rightarrow> string option \<Rightarrow> 64 word \<Rightarrow> bool" where
  "IsBrowserContextFocusedForExe s foregroundExe nowTickMs =
    (case foregroundExe of
       None \<Rightarrow> False
     | Some exe \<Rightarrow>
         if \<not> HasValidHeader s \<or> \<not> focused s then False
         else if nowTickMs < updatedTickMs s \<or> nowTickMs - updatedTickMs s > kBrowserContextTtlMs then False
         else cstr (browserExe s) = exe)"

definition IsBrowserContextApplicable :: "BrowserContextState \<Rightarrow> string option \<Rightarrow> 64 word \<Rightarrow> bool" where
  "IsBrowserContextApplicable s exe now \<longleftrightarrow>
     IsBrowserContextFocusedForExe s exe now \<and> (route s \<noteq> RouteDefault \<or> browserMode s \<noteq> ModeDefault)"

definition IsBrowserContextOwnedBy :: "BrowserContextState \<Rightarrow> 32 word \<Rightarrow> 64 word \<Rightarrow> bool" where
  "IsBrowserContextOwnedBy s pid nonce \<longleftrightarrow> pid \<noteq> 0 \<and> nonce \<noteq> 0 \<and> ownerProcessId s = pid \<and> ownerNonce s = nonce"

definition ResolveEffectiveTsf :: "bool \<Rightarrow> bool \<Rightarrow> bool \<Rightarrow> BrowserRoute \<Rightarrow> bool" where
  "ResolveEffectiveTsf configuredTsf excluded tsfFeatureEnabled r =
    (if excluded \<or> r = ForceEnglish then False
     else if r = ForceTsf then tsfFeatureEnabled
     else configuredTsf)"

definition ResolveBrowserModeTarget :: "bool \<Rightarrow> bool \<Rightarrow> BrowserRoute \<Rightarrow> BrowserMode \<Rightarrow> int" where
  "ResolveBrowserModeTarget excluded forcedVietnamese r m =
    (if excluded \<or> forcedVietnamese \<or> r = ForceEnglish \<or> m = ModeDefault then - 1
     else if m = Vietnamese then 1
     else if m = English then 0
     else - 1)"

definition ResolveBrowserModeForRestore :: "BrowserContextState \<Rightarrow> BrowserMode" where
  "ResolveBrowserModeForRestore s =
    (if browserMode s \<noteq> ModeDefault \<and> browserMode s \<noteq> Vietnamese \<and> browserMode s \<noteq> English then ModeDefault
     else
     let pendingEcho =
       modeEventSequence s \<noteq> 0 \<and> modeEventOwnerProcessId s = ownerProcessId s \<and>
       modeEventOwnerNonce s = ownerNonce s \<and> modeEventMode s \<noteq> ModeDefault \<and> modeEventMode s \<noteq> browserMode s \<and>
       cstr (modeEventHostname s) = cstr (hostname s)
     in if pendingEcho then ModeDefault else browserMode s)"

section \<open>Writing\<close>

definition BeginSeqlockWrite :: "BrowserContextState \<Rightarrow> BrowserContextState" where
  "BeginSeqlockWrite s = (if even (generation s) then s\<lparr>generation := generation s + 1\<rparr> else s)"

definition EndSeqlockWrite :: "BrowserContextState \<Rightarrow> BrowserContextState" where
  "EndSeqlockWrite s = s\<lparr>generation := generation s + 1\<rparr>"

definition Publish ::
    "bool \<Rightarrow> 32 word \<Rightarrow> 64 word \<Rightarrow> 64 word \<Rightarrow> bool \<Rightarrow> BrowserRoute \<Rightarrow> BrowserMode \<Rightarrow> string \<Rightarrow> string \<Rightarrow>
     BrowserContextState \<Rightarrow> bool \<times> BrowserContextState" where
  "Publish locked pid nonce tick focus r m exe host s =
    (if pid = 0 \<or> nonce = 0 \<or> exe = [] \<or> length exe \<ge> 32 \<or> length host \<ge> 256 then (False, s)
     else if \<not> locked then (False, s)
     else
       (True, EndSeqlockWrite ((BeginSeqlockWrite s)\<lparr>contextMagic := kBrowserContextMagic,
          contextVersion := kBrowserContextVersion, structSize := sizeofBrowserContextState,
          ownerProcessId := pid, ownerNonce := nonce, updatedTickMs := tick, focused := focus,
          route := (if focus then r else RouteDefault), browserMode := (if focus then m else ModeDefault),
          browserExe := toBuffer 32 exe, hostname := toBuffer 256 host\<rparr>)))"

definition PublishModeEvent :: "bool \<Rightarrow> bool \<Rightarrow> BrowserContextState \<Rightarrow> bool \<times> BrowserContextState" where
  "PublishModeEvent locked vietnamese s =
    (if \<not> locked then (False, s)
     else
       let canPublish = HasValidHeader s \<and> focused s \<and> ownerProcessId s \<noteq> 0 \<and> ownerNonce s \<noteq> 0 \<and> hostname s ! 0 \<noteq> nul in
       if canPublish then
         (let sq = modeEventSequence s + 1 in
          (True, EndSeqlockWrite ((BeginSeqlockWrite s)\<lparr>modeEventSequence := (if sq = 0 then 1 else sq),
             modeEventOwnerProcessId := ownerProcessId s, modeEventOwnerNonce := ownerNonce s,
             modeEventMode := (if vietnamese then Vietnamese else English),
             modeEventHostname := toBuffer 256 (take 255 (hostname s))\<rparr>)))
       else (False, s))"

definition ClearIfOwned :: "bool \<Rightarrow> 32 word \<Rightarrow> 64 word \<Rightarrow> 64 word \<Rightarrow> BrowserContextState \<Rightarrow> BrowserContextState" where
  "ClearIfOwned locked pid nonce tick s =
    (if locked \<and> IsBrowserContextOwnedBy s pid nonce then
       EndSeqlockWrite ((BeginSeqlockWrite s)\<lparr>focused := False, route := RouteDefault, browserMode := ModeDefault,
         updatedTickMs := tick\<rparr>)
     else s)"

end
