(* ===== verification/NativeMessaging.thy ===== *)
theory NativeMessaging
  imports BrowserContext
begin

unbundle bit_operations_syntax

text \<open>
  The native-messaging host of the browser extension, \<open>src/browser_host\<close>: the parser of its messages,
  the frames on its pipes, and the loop that publishes them (\<open>main.cpp\<close>).  The position in the text is the
  rest of the text.  Bytes are characters.
\<close>

section \<open>Scanning\<close>

definition byte :: "char \<Rightarrow> nat" where "byte c = of_char c"

definition isSpaceByte :: "char \<Rightarrow> bool" where
  "isSpaceByte c \<longleftrightarrow> byte c = 32 \<or> 9 \<le> byte c \<and> byte c \<le> 13"

definition isDigitByte :: "char \<Rightarrow> bool" where
  "isDigitByte c \<longleftrightarrow> 48 \<le> byte c \<and> byte c \<le> 57"

definition quote :: char where "quote = CHR 0x22"
definition backslash :: char where "backslash = CHR 0x5C"

definition SkipSpace :: "string \<Rightarrow> string" where
  "SkipSpace s = dropWhile isSpaceByte s"

fun scanString :: "string \<Rightarrow> string \<Rightarrow> (string \<times> string) option" where
  "scanString acc [] = None"
| "scanString acc (c # s) =
    (if c = quote then Some (acc, s)
     else if c = backslash \<or> byte c < 0x20 then None
     else scanString (acc @ [c]) s)"

definition ReadString :: "string \<Rightarrow> (string \<times> string) option" where
  "ReadString s =
    (case SkipSpace s of
       [] \<Rightarrow> None
     | c # r \<Rightarrow> if c \<noteq> quote then None else scanString [] r)"

definition ReadLiteral :: "string \<Rightarrow> string \<Rightarrow> string option" where
  "ReadLiteral literal s =
    (let r = SkipSpace s in if take (length literal) r = literal then Some (drop (length literal) r) else None)"

definition browsers :: "string list" where
  "browsers = [''chrome.exe'', ''msedge.exe'', ''brave.exe'', ''firefox.exe'', ''vivaldi.exe'', ''opera.exe'']"

definition IsAllowedBrowser :: "string \<Rightarrow> bool" where
  "IsAllowedBrowser v \<longleftrightarrow> v \<in> set browsers"

definition hostnameByte :: "char \<Rightarrow> bool" where
  "hostnameByte c \<longleftrightarrow> 97 \<le> byte c \<and> byte c \<le> 122 \<or> 48 \<le> byte c \<and> byte c \<le> 57 \<or> c = CHR ''.'' \<or> c = CHR ''-'' \<or> c = CHR '':''"

definition IsSafeHostname :: "string \<Rightarrow> bool" where
  "IsSafeHostname v \<longleftrightarrow> length v < 256 \<and> list_all hostnameByte v"

section \<open>Messages\<close>

definition kMaxNativeMessageBytes :: nat where "kMaxNativeMessageBytes = 8 * 1024"

record NativeMessage =
  protocol :: nat
  msgBrowser :: string
  msgHostname :: string
  msgRoute :: BrowserRoute
  msgMode :: BrowserMode
  msgFocused :: bool

datatype NativeError =
    MessageSize | JsonObject | JsonKey | JsonColon | JsonSeparator | DuplicateField | UnknownField | RequiredFields
  | BadProtocol | BadBrowser | BadHostname | BadRoute | BadMode | BadFocused
  | BrowserAllowlist | HostnameChars | HostnameEmpty

text \<open>The fields read so far; a field is present when its flag \<open>have...\<close> is set.\<close>

record Fields =
  haveProtocol :: "nat option"
  haveBrowser :: "string option"
  haveHostname :: "string option"
  haveRoute :: "BrowserRoute option"
  haveMode :: "BrowserMode option"
  haveFocused :: "bool option"

definition noFields :: Fields where
  "noFields = \<lparr>haveProtocol = None, haveBrowser = None, haveHostname = None, haveRoute = None, haveMode = None,
     haveFocused = None\<rparr>"

definition decimalValue :: "string \<Rightarrow> nat" where
  "decimalValue s = foldl (\<lambda>n c. n * 10 + (byte c - 48)) 0 s"

definition routeOf :: "string \<Rightarrow> BrowserRoute option" where
  "routeOf s = (if s = ''default'' then Some RouteDefault else if s = ''english'' then Some ForceEnglish
     else if s = ''tsf'' then Some ForceTsf else None)"

definition modeOf :: "string \<Rightarrow> BrowserMode option" where
  "modeOf s = (if s = ''default'' then Some ModeDefault else if s = ''vietnamese'' then Some Vietnamese
     else if s = ''english'' then Some English else None)"

text \<open>The value of the field \<open>key\<close>.\<close>

definition readProtocol :: "Fields \<Rightarrow> string \<Rightarrow> NativeError + Fields \<times> string" where
  "readProtocol f s =
    (if haveProtocol f \<noteq> None then Inl DuplicateField
     else
       let r = SkipSpace s; ds = takeWhile isDigitByte r; v = decimalValue ds in
       if ds = [] \<or> v \<noteq> 1 \<and> v \<noteq> 2 then Inl BadProtocol
       else Inr (f\<lparr>haveProtocol := Some v\<rparr>, dropWhile isDigitByte r))"

definition readFocused :: "Fields \<Rightarrow> string \<Rightarrow> NativeError + Fields \<times> string" where
  "readFocused f s =
    (if haveFocused f \<noteq> None then Inl DuplicateField
     else case ReadLiteral ''true'' s of
       Some r \<Rightarrow> Inr (f\<lparr>haveFocused := Some True\<rparr>, r)
     | None \<Rightarrow>
         (case ReadLiteral ''false'' s of
            Some r \<Rightarrow> Inr (f\<lparr>haveFocused := Some False\<rparr>, r)
          | None \<Rightarrow> Inl BadFocused))"

definition readText ::
    "bool \<Rightarrow> NativeError \<Rightarrow> (string \<Rightarrow> 'a option) \<Rightarrow> ('a \<Rightarrow> Fields) \<Rightarrow> string \<Rightarrow> NativeError + Fields \<times> string" where
  "readText present err conv upd s =
    (if present then Inl DuplicateField
     else case ReadString s of
       None \<Rightarrow> Inl err
     | Some (v, r) \<Rightarrow> (case conv v of None \<Rightarrow> Inl err | Some x \<Rightarrow> Inr (upd x, r)))"

definition readField :: "string \<Rightarrow> Fields \<Rightarrow> string \<Rightarrow> NativeError + Fields \<times> string" where
  "readField key f s =
    (if key = ''protocol'' then readProtocol f s
     else if key = ''browser'' then readText (haveBrowser f \<noteq> None) BadBrowser Some (\<lambda>v. f\<lparr>haveBrowser := Some v\<rparr>) s
     else if key = ''hostname'' then readText (haveHostname f \<noteq> None) BadHostname Some (\<lambda>v. f\<lparr>haveHostname := Some v\<rparr>) s
     else if key = ''route'' then readText (haveRoute f \<noteq> None) BadRoute routeOf (\<lambda>v. f\<lparr>haveRoute := Some v\<rparr>) s
     else if key = ''mode'' then readText (haveMode f \<noteq> None) BadMode modeOf (\<lambda>v. f\<lparr>haveMode := Some v\<rparr>) s
     else if key = ''focused'' then readFocused f s
     else Inl UnknownField)"

text \<open>One field with its key, and what follows it: the end of the object or a comma.\<close>

definition readMember :: "Fields \<Rightarrow> string \<Rightarrow> NativeError + Fields \<times> string" where
  "readMember f s =
    (case ReadString s of
       None \<Rightarrow> Inl JsonKey
     | Some (key, r) \<Rightarrow>
         (case SkipSpace r of
            [] \<Rightarrow> Inl JsonColon
          | c # r' \<Rightarrow> if c \<noteq> CHR '':'' then Inl JsonColon else readField key f r'))"

lemma SkipSpace_length: "length (SkipSpace s) \<le> length s"
  by (simp add: SkipSpace_def length_dropWhile_le)

lemma scanString_length: "scanString acc s = Some (v, r) \<Longrightarrow> length r < length s"
  by (induction acc s rule: scanString.induct) (auto split: if_splits)

lemma ReadString_length:
  assumes "ReadString s = Some (v, r)"
  shows "length r < length s"
proof -
  obtain x where "SkipSpace s = quote # x" "scanString [] x = Some (v, r)"
    using assms by (auto simp: ReadString_def split: list.splits if_splits)
  then show ?thesis using SkipSpace_length[of s] scanString_length[of "[]" x v r] by simp
qed

lemma readProtocol_length: "readProtocol f s = Inr (f', r) \<Longrightarrow> length r \<le> length s"
  using SkipSpace_length[of s] length_dropWhile_le[of isDigitByte "SkipSpace s"]
  by (auto simp: readProtocol_def Let_def split: if_splits)

lemma ReadLiteral_length: "ReadLiteral l s = Some r \<Longrightarrow> length r \<le> length s"
  using SkipSpace_length[of s] by (auto simp: ReadLiteral_def Let_def split: if_splits)

lemma readFocused_length: "readFocused f s = Inr (f', r) \<Longrightarrow> length r \<le> length s"
  by (auto simp: readFocused_def dest: ReadLiteral_length split: if_splits option.splits)

lemma readText_length: "readText p e conv u s = Inr (f', r) \<Longrightarrow> length r \<le> length s"
  by (auto simp: readText_def dest!: ReadString_length split: if_splits option.splits)

lemma readField_length: "readField key f s = Inr (f', r) \<Longrightarrow> length r \<le> length s"
  unfolding readField_def
  by (auto dest: readProtocol_length readFocused_length readText_length split: if_splits)

lemma readMember_length:
  assumes "readMember f s = Inr (f', r)"
  shows "length r < length s"
proof -
  obtain key r1 c r2 where read: "ReadString s = Some (key, r1)" "SkipSpace r1 = c # r2" "readField key f r2 = Inr (f', r)"
    using assms by (auto simp: readMember_def split: if_splits option.splits list.splits)
  have "length r2 < length r1" using read(2) SkipSpace_length[of r1] by simp
  then show ?thesis using ReadString_length[OF read(1)] readField_length[OF read(3)] by simp
qed

function readMembers :: "Fields \<Rightarrow> string \<Rightarrow> NativeError + Fields \<times> string" where
  "readMembers f s =
    (let s = SkipSpace s in
     if s \<noteq> [] \<and> hd s = CHR ''}'' then Inr (f, tl s)
     else case readMember f s of
       Inl e \<Rightarrow> Inl e
     | Inr (f', r) \<Rightarrow>
         let r = SkipSpace r in
         if r \<noteq> [] \<and> hd r = CHR '','' then readMembers f' (tl r)
         else if r \<noteq> [] \<and> hd r = CHR ''}'' then Inr (f', tl r)
         else Inl JsonSeparator)"
  by pat_completeness auto
termination
proof (relation "measure (length \<circ> snd)", goal_cases)
  case (2 f s s1 p f' r r1)
  then have "length r < length s1" using readMember_length[of f s1 f' r] by auto
  moreover have "length r1 \<le> length r" "length s1 \<le> length s" using 2 SkipSpace_length by auto
  ultimately show ?case by simp
qed simp

declare readMembers.simps [simp del]

definition checkMessage :: "Fields \<Rightarrow> NativeError + NativeMessage" where
  "checkMessage f =
    (case (haveProtocol f, haveBrowser f, haveHostname f, haveRoute f, haveFocused f) of
       (Some p, Some b, Some h, Some r, Some fo) \<Rightarrow>
         if p = 2 \<and> haveMode f = None \<or> p = 1 \<and> haveMode f \<noteq> None then Inl RequiredFields
         else if \<not> IsAllowedBrowser b then Inl BrowserAllowlist
         else if \<not> IsSafeHostname h then Inl HostnameChars
         else if fo \<and> h = [] then Inl HostnameEmpty
         else Inr \<lparr>protocol = p, msgBrowser = b, msgHostname = h, msgRoute = r,
                   msgMode = (case haveMode f of None \<Rightarrow> ModeDefault | Some m \<Rightarrow> m), msgFocused = fo\<rparr>
     | _ \<Rightarrow> Inl RequiredFields)"

definition ParseNativeMessage :: "string \<Rightarrow> NativeError + NativeMessage" where
  "ParseNativeMessage json =
    (if json = [] \<or> length json > kMaxNativeMessageBytes then Inl MessageSize
     else case SkipSpace json of
       [] \<Rightarrow> Inl JsonObject
     | c # r \<Rightarrow>
         if c \<noteq> CHR ''{'' then Inl JsonObject
         else case readMembers noFields r of
           Inl e \<Rightarrow> Inl e
         | Inr (f, rest) \<Rightarrow> if SkipSpace rest \<noteq> [] then Inl RequiredFields else checkMessage f)"

section \<open>Mode events\<close>

record NativeModeEvent =
  eventSequence :: "32 word"
  eventHostname :: string
  eventMode :: BrowserMode

definition TryReadModeEvent :: "BrowserContextState \<Rightarrow> 32 word \<Rightarrow> 64 word \<Rightarrow> 32 word \<Rightarrow> NativeModeEvent option" where
  "TryReadModeEvent s pid nonce lastSequence =
    (if \<not> HasValidHeader s \<or> modeEventSequence s = 0 \<or> modeEventSequence s = lastSequence \<or>
        modeEventOwnerProcessId s \<noteq> pid \<or> modeEventOwnerNonce s \<noteq> nonce \<or>
        modeEventMode s \<noteq> Vietnamese \<and> modeEventMode s \<noteq> English then None
     else
       let host = cstr (modeEventHostname s) in
       if host = [] \<or> \<not> IsSafeHostname host then None
       else Some \<lparr>eventSequence = modeEventSequence s, eventHostname = host, eventMode = modeEventMode s\<rparr>)"

definition quoted :: "string \<Rightarrow> string" where "quoted s = quote # s @ [quote]"

definition SerializeModeEvent :: "NativeModeEvent \<Rightarrow> string" where
  "SerializeModeEvent e =
    CHR ''{'' # quoted ''ok'' @ '':true,'' @ quoted ''protocol'' @ '':2,'' @ quoted ''event'' @ '':'' @ quoted ''mode-changed'' @
    '','' @ quoted ''hostname'' @ '':'' @ quoted (eventHostname e) @ '','' @ quoted ''mode'' @ '':'' @
    quoted (if eventMode e = Vietnamese then ''vietnamese'' else ''english'') @ ''}''"

section \<open>Frames and the loop of the host\<close>

definition byteOf :: "nat \<Rightarrow> char" where "byteOf n = char_of n"

definition sizeBytes :: "nat \<Rightarrow> string" where
  "sizeBytes n = [byteOf n, byteOf (n div 2 ^ 8), byteOf (n div 2 ^ 16), byteOf (n div 2 ^ 24)]"

definition bytesSize :: "string \<Rightarrow> nat" where
  "bytesSize bs = byte (bs ! 0) + byte (bs ! 1) * 2 ^ 8 + byte (bs ! 2) * 2 ^ 16 + byte (bs ! 3) * 2 ^ 24"

text \<open>The input is the bytes that are still to come before the pipe closes.\<close>

definition ReadFrame :: "string \<Rightarrow> (string \<times> string) option" where
  "ReadFrame input =
    (if length input < 4 then None
     else
       let size = bytesSize (take 4 input); rest = drop 4 input in
       if size = 0 \<or> size > kMaxNativeMessageBytes \<or> length rest < size then None
       else Some (take size rest, drop size rest))"

definition WriteFrame :: "string \<Rightarrow> string" where
  "WriteFrame payload = sizeBytes (length payload mod 2 ^ 32) @ payload"

fun errorName :: "NativeError \<Rightarrow> string" where
  "errorName MessageSize = ''message_size''"
| "errorName JsonObject = ''json_object''"
| "errorName JsonKey = ''json_key''"
| "errorName JsonColon = ''json_colon''"
| "errorName JsonSeparator = ''json_separator''"
| "errorName DuplicateField = ''duplicate_field''"
| "errorName UnknownField = ''unknown_field''"
| "errorName RequiredFields = ''required_fields''"
| "errorName BadProtocol = ''protocol''"
| "errorName BadBrowser = ''browser''"
| "errorName BadHostname = ''hostname''"
| "errorName BadRoute = ''route''"
| "errorName BadMode = ''mode''"
| "errorName BadFocused = ''focused''"
| "errorName BrowserAllowlist = ''browser_allowlist''"
| "errorName HostnameChars = ''hostname_chars''"
| "errorName HostnameEmpty = ''hostname_empty''"

definition refusal :: "string \<Rightarrow> string" where
  "refusal e = CHR ''{'' # quoted ''ok'' @ '':false,'' @ quoted ''error'' @ '':'' @ quoted e @ ''}''"

definition acceptance :: string where
  "acceptance = CHR ''{'' # quoted ''ok'' @ '':true}''"

text \<open>What the system does while a message is handled: whether the mutex is obtained, the clock, what the
  three attempts of a read see of the block, and what the other processes do to the block before the message
  arrives.\<close>

record HostEnv =
  locks :: bool
  tick :: "64 word"
  observe :: "BrowserContextState \<Rightarrow> (32 word \<times> BrowserContextState \<times> 32 word) list"
  others :: "BrowserContextState \<Rightarrow> BrowserContextState"

text \<open>The host: its identity, the last mode event it has sent on, and the block.\<close>

record Host =
  processId :: "32 word"
  hostNonce :: "64 word"
  lastModeEventSequence :: "32 word"
  shared :: BrowserContextState

definition newHost :: "32 word \<Rightarrow> 64 word \<Rightarrow> BrowserContextState \<Rightarrow> Host" where
  "newHost pid counter s =
    \<lparr>processId = pid, hostNonce = counter XOR push_bit 32 (ucast pid), lastModeEventSequence = 0, shared = s\<rparr>"

definition handleMessage :: "HostEnv \<Rightarrow> string \<Rightarrow> Host \<Rightarrow> string \<times> Host" where
  "handleMessage e payload h =
    (case ParseNativeMessage payload of
       Inl err \<Rightarrow> (refusal (errorName err), h)
     | Inr m \<Rightarrow>
         let (ok, s) =
           (if msgFocused m then
              Publish (locks e) (processId h) (hostNonce h) (tick e) True (msgRoute m) (msgMode m) (msgBrowser m)
                (msgHostname m) (shared h)
            else (True, ClearIfOwned (locks e) (processId h) (hostNonce h) (tick e) (shared h)));
           h = h\<lparr>shared := s\<rparr> in
         if \<not> ok then (refusal ''publish'', h)
         else
           (case (if protocol m \<ge> 2 then ReadBrowserContextSeqlock (Some (observe e s)) else None) of
              None \<Rightarrow> (acceptance, h)
            | Some st \<Rightarrow>
                (case TryReadModeEvent st (processId h) (hostNonce h) (lastModeEventSequence h) of
                   None \<Rightarrow> (acceptance, h)
                 | Some ev \<Rightarrow> (SerializeModeEvent ev, h\<lparr>lastModeEventSequence := eventSequence ev\<rparr>))))"

lemma ReadFrame_length: "ReadFrame input = Some (p, rest) \<Longrightarrow> length rest < length input"
  by (auto simp: ReadFrame_def Let_def split: if_splits)

function hostLoop :: "(nat \<Rightarrow> HostEnv) \<Rightarrow> nat \<Rightarrow> string \<Rightarrow> Host \<Rightarrow> string \<times> Host" where
  "hostLoop env k input h =
    (let h = h\<lparr>shared := others (env k) (shared h)\<rparr> in
     case ReadFrame input of
       None \<Rightarrow> ([], h\<lparr>shared := ClearIfOwned (locks (env k)) (processId h) (hostNonce h) (tick (env k)) (shared h)\<rparr>)
     | Some (payload, rest) \<Rightarrow>
         let (reply, h) = handleMessage (env k) payload h; (out, h) = hostLoop env (k + 1) rest h in
         (WriteFrame reply @ out, h))"
  by pat_completeness auto
termination by (relation "measure (\<lambda>(_, _, input, _). length input)") (auto dest: ReadFrame_length)

declare hostLoop.simps [simp del]

end
