(* ===== verification/NativeMessagingProofs.thy ===== *)
theory NativeMessagingProofs
  imports NativeMessaging
begin

text \<open>
  What the parser of the native messages accepts, what it does with a message as the extension writes it, and
  what the host and the hook keep of the shared block.
\<close>

section \<open>Tokens\<close>

definition plain :: "string \<Rightarrow> bool" where
  "plain v \<longleftrightarrow> list_all (\<lambda>c. c \<noteq> quote \<and> c \<noteq> backslash \<and> \<not> byte c < 0x20) v"

definition blank :: "string \<Rightarrow> bool" where
  "blank w \<longleftrightarrow> list_all isSpaceByte w"

lemma blank_Nil [simp]: "blank []"
  by (simp add: blank_def)

lemma SkipSpace_blank: "blank w \<Longrightarrow> SkipSpace (w @ s) = SkipSpace s"
  by (induction w) (auto simp: blank_def SkipSpace_def)

lemma SkipSpace_stop: "\<not> isSpaceByte c \<Longrightarrow> SkipSpace (c # s) = c # s"
  by (simp add: SkipSpace_def)

lemma scanString_plain: "plain v \<Longrightarrow> scanString acc (v @ quote # s) = Some (acc @ v, s)"
  by (induction v arbitrary: acc) (auto simp: plain_def)

lemma not_space: "\<not> isSpaceByte quote" "\<not> isSpaceByte CHR '':''" "\<not> isSpaceByte CHR '',''" "\<not> isSpaceByte CHR ''}''"
  "\<not> isSpaceByte CHR ''{''" "\<not> isSpaceByte CHR ''t''" "\<not> isSpaceByte CHR ''f''" "\<not> isSpaceByte CHR ''1''" "\<not> isSpaceByte CHR ''2''"
  by (simp_all add: isSpaceByte_def byte_def quote_def)

lemma ReadString_quoted:
  assumes "blank w" "plain v"
  shows "ReadString (w @ quoted v @ s) = Some (v, s)"
  using assms scanString_plain[of v "[]" s]
  by (simp add: ReadString_def SkipSpace_blank quoted_def SkipSpace_stop not_space)

lemma space_not_digit: "isSpaceByte c \<Longrightarrow> \<not> isDigitByte c"
  by (auto simp: isSpaceByte_def isDigitByte_def)

section \<open>A message as text\<close>

datatype FieldName = FProtocol | FBrowser | FHostname | FRoute | FMode | FFocused

fun keyOf :: "FieldName \<Rightarrow> string" where
  "keyOf FProtocol = ''protocol''"
| "keyOf FBrowser = ''browser''"
| "keyOf FHostname = ''hostname''"
| "keyOf FRoute = ''route''"
| "keyOf FMode = ''mode''"
| "keyOf FFocused = ''focused''"

fun routeText :: "BrowserRoute \<Rightarrow> string" where
  "routeText RouteDefault = ''default''"
| "routeText ForceEnglish = ''english''"
| "routeText ForceTsf = ''tsf''"
| "routeText (RouteOther b) = []"

fun modeText :: "BrowserMode \<Rightarrow> string" where
  "modeText ModeDefault = ''default''"
| "modeText Vietnamese = ''vietnamese''"
| "modeText English = ''english''"
| "modeText (ModeOther b) = []"

fun valueText :: "NativeMessage \<Rightarrow> FieldName \<Rightarrow> string" where
  "valueText m FProtocol = (if protocol m = 1 then ''1'' else ''2'')"
| "valueText m FBrowser = quoted (msgBrowser m)"
| "valueText m FHostname = quoted (msgHostname m)"
| "valueText m FRoute = quoted (routeText (msgRoute m))"
| "valueText m FMode = quoted (modeText (msgMode m))"
| "valueText m FFocused = (if msgFocused m then ''true'' else ''false'')"

text \<open>The fields in the order \<open>ks\<close>, with the blanks \<open>w\<close> before and after every token.\<close>

fun membersText :: "string \<Rightarrow> NativeMessage \<Rightarrow> FieldName list \<Rightarrow> string" where
  "membersText w m [] = []"
| "membersText w m (k # ks) =
    w @ quoted (keyOf k) @ w @ CHR '':'' # w @ valueText m k @ w @ (if ks = [] then [] else CHR '','' # membersText w m ks)"

definition messageText :: "string \<Rightarrow> NativeMessage \<Rightarrow> FieldName list \<Rightarrow> string" where
  "messageText w m ks = w @ CHR ''{'' # membersText w m ks @ CHR ''}'' # w"

definition requiredNames :: "NativeMessage \<Rightarrow> FieldName set" where
  "requiredNames m = {FProtocol, FBrowser, FHostname, FRoute, FFocused} \<union> (if protocol m = 2 then {FMode} else {})"

definition knownRoute :: "BrowserRoute \<Rightarrow> bool" where
  "knownRoute r \<longleftrightarrow> r = RouteDefault \<or> r = ForceEnglish \<or> r = ForceTsf"

definition knownMode :: "BrowserMode \<Rightarrow> bool" where
  "knownMode r \<longleftrightarrow> r = ModeDefault \<or> r = Vietnamese \<or> r = English"

text \<open>What the rest of the program may rely on.\<close>

definition validMessage :: "NativeMessage \<Rightarrow> bool" where
  "validMessage m \<longleftrightarrow> (protocol m = 1 \<or> protocol m = 2) \<and> IsAllowedBrowser (msgBrowser m) \<and> IsSafeHostname (msgHostname m) \<and>
     knownRoute (msgRoute m) \<and> knownMode (msgMode m) \<and> (protocol m = 1 \<longrightarrow> msgMode m = ModeDefault) \<and>
     (msgFocused m \<longrightarrow> msgHostname m \<noteq> [])"

section \<open>Reading what was written\<close>

fun present :: "FieldName \<Rightarrow> Fields \<Rightarrow> bool" where
  "present FProtocol f = (haveProtocol f \<noteq> None)"
| "present FBrowser f = (haveBrowser f \<noteq> None)"
| "present FHostname f = (haveHostname f \<noteq> None)"
| "present FRoute f = (haveRoute f \<noteq> None)"
| "present FMode f = (haveMode f \<noteq> None)"
| "present FFocused f = (haveFocused f \<noteq> None)"

fun setField :: "NativeMessage \<Rightarrow> FieldName \<Rightarrow> Fields \<Rightarrow> Fields" where
  "setField m FProtocol f = f\<lparr>haveProtocol := Some (protocol m)\<rparr>"
| "setField m FBrowser f = f\<lparr>haveBrowser := Some (msgBrowser m)\<rparr>"
| "setField m FHostname f = f\<lparr>haveHostname := Some (msgHostname m)\<rparr>"
| "setField m FRoute f = f\<lparr>haveRoute := Some (msgRoute m)\<rparr>"
| "setField m FMode f = f\<lparr>haveMode := Some (msgMode m)\<rparr>"
| "setField m FFocused f = f\<lparr>haveFocused := Some (msgFocused m)\<rparr>"

lemma present_setField: "present k (setField m j f) \<longleftrightarrow> k = j \<or> present k f"
  by (cases k; cases j) simp_all

lemma fields_after:
  "haveProtocol (fold (setField m) ks f) = (if FProtocol \<in> set ks then Some (protocol m) else haveProtocol f)"
  "haveBrowser (fold (setField m) ks f) = (if FBrowser \<in> set ks then Some (msgBrowser m) else haveBrowser f)"
  "haveHostname (fold (setField m) ks f) = (if FHostname \<in> set ks then Some (msgHostname m) else haveHostname f)"
  "haveRoute (fold (setField m) ks f) = (if FRoute \<in> set ks then Some (msgRoute m) else haveRoute f)"
  "haveMode (fold (setField m) ks f) = (if FMode \<in> set ks then Some (msgMode m) else haveMode f)"
  "haveFocused (fold (setField m) ks f) = (if FFocused \<in> set ks then Some (msgFocused m) else haveFocused f)"
proof -
  have step: "haveProtocol (setField m k f) = (if k = FProtocol then Some (protocol m) else haveProtocol f)"
    "haveBrowser (setField m k f) = (if k = FBrowser then Some (msgBrowser m) else haveBrowser f)"
    "haveHostname (setField m k f) = (if k = FHostname then Some (msgHostname m) else haveHostname f)"
    "haveRoute (setField m k f) = (if k = FRoute then Some (msgRoute m) else haveRoute f)"
    "haveMode (setField m k f) = (if k = FMode then Some (msgMode m) else haveMode f)"
    "haveFocused (setField m k f) = (if k = FFocused then Some (msgFocused m) else haveFocused f)" for k f
    by (cases k; simp)+
  show "haveProtocol (fold (setField m) ks f) = (if FProtocol \<in> set ks then Some (protocol m) else haveProtocol f)"
    by (induction ks arbitrary: f) (auto simp: step)
  show "haveBrowser (fold (setField m) ks f) = (if FBrowser \<in> set ks then Some (msgBrowser m) else haveBrowser f)"
    by (induction ks arbitrary: f) (auto simp: step)
  show "haveHostname (fold (setField m) ks f) = (if FHostname \<in> set ks then Some (msgHostname m) else haveHostname f)"
    by (induction ks arbitrary: f) (auto simp: step)
  show "haveRoute (fold (setField m) ks f) = (if FRoute \<in> set ks then Some (msgRoute m) else haveRoute f)"
    by (induction ks arbitrary: f) (auto simp: step)
  show "haveMode (fold (setField m) ks f) = (if FMode \<in> set ks then Some (msgMode m) else haveMode f)"
    by (induction ks arbitrary: f) (auto simp: step)
  show "haveFocused (fold (setField m) ks f) = (if FFocused \<in> set ks then Some (msgFocused m) else haveFocused f)"
    by (induction ks arbitrary: f) (auto simp: step)
qed

lemma hostname_plain: "IsSafeHostname v \<Longrightarrow> plain v"
  by (auto simp: IsSafeHostname_def plain_def list_all_iff hostnameByte_def byte_def quote_def backslash_def)

lemma plain_words: "plain ''default''" "plain ''english''" "plain ''tsf''" "plain ''vietnamese''"
  by (simp_all add: plain_def byte_def quote_def backslash_def)

lemma browser_plain: "IsAllowedBrowser v \<Longrightarrow> plain v"
  by (auto simp: IsAllowedBrowser_def browsers_def plain_def byte_def quote_def backslash_def)

lemma keyOf_plain: "plain (keyOf k)"
  by (cases k) (simp_all add: plain_def byte_def quote_def backslash_def)

lemma route_text: "knownRoute r \<Longrightarrow> plain (routeText r) \<and> routeOf (routeText r) = Some r"
  by (auto simp: knownRoute_def plain_words routeOf_def)

lemma mode_text: "knownMode r \<Longrightarrow> plain (modeText r) \<and> modeOf (modeText r) = Some r"
  by (auto simp: knownMode_def plain_words modeOf_def)

lemma readText_quoted:
  assumes "blank w" "plain v" "conv v = Some x" "\<not> p"
  shows "readText p e conv u (w @ quoted v @ s) = Inr (u x, s)"
  using assms by (simp add: readText_def ReadString_quoted)

text \<open>A digit ends where a blank, a comma or a bracket follows.\<close>

definition endsDigits :: "string \<Rightarrow> bool" where
  "endsDigits s \<longleftrightarrow> s = [] \<or> \<not> isDigitByte (hd s)"

lemma readProtocol_digit:
  assumes "blank w" "protocol m = 1 \<or> protocol m = 2" "haveProtocol f = None" "endsDigits s"
  shows "readProtocol f (w @ valueText m FProtocol @ s) = Inr (setField m FProtocol f, s)"
proof -
  have tail: "takeWhile isDigitByte s = []" "dropWhile isDigitByte s = s"
    using assms(4) by (cases s; simp add: endsDigits_def)+
  have digits: "isDigitByte CHR ''1''" "isDigitByte CHR ''2''" "decimalValue ''1'' = 1" "decimalValue ''2'' = 2"
    by (simp_all add: isDigitByte_def byte_def decimalValue_def)
  show ?thesis
    using assms(1-3) tail digits by (auto simp: readProtocol_def SkipSpace_blank SkipSpace_stop not_space)
qed

lemma readFocused_word:
  assumes "blank w" "haveFocused f = None"
  shows "readFocused f (w @ valueText m FFocused @ s) = Inr (setField m FFocused f, s)"
  using assms by (auto simp: readFocused_def ReadLiteral_def SkipSpace_blank SkipSpace_stop not_space)

lemma readField_value:
  assumes "blank w" "validMessage m" "\<not> present k f" "endsDigits s"
  shows "readField (keyOf k) f (w @ valueText m k @ s) = Inr (setField m k f, s)"
  using assms readProtocol_digit[of w m f s] readFocused_word[of w f m s]
    hostname_plain browser_plain route_text mode_text
  by (cases k) (simp_all add: readField_def validMessage_def readText_quoted)

lemma readMember_text:
  assumes "blank w" "validMessage m" "\<not> present k f" "endsDigits s"
  shows "readMember f (w @ quoted (keyOf k) @ w @ CHR '':'' # w @ valueText m k @ s) = Inr (setField m k f, s)"
  using assms
  by (simp add: readMember_def ReadString_quoted keyOf_plain SkipSpace_blank SkipSpace_stop not_space readField_value
      del: valueText.simps keyOf.simps)

lemma endsDigits_blank: "blank w \<Longrightarrow> \<not> isDigitByte c \<Longrightarrow> endsDigits (w @ c # s)"
  by (cases w) (auto simp: endsDigits_def blank_def space_not_digit)

lemma comma_not_digit: "\<not> isDigitByte CHR '',''" "\<not> isDigitByte CHR ''}''"
  by (simp_all add: isDigitByte_def byte_def)

lemma readMembers_step:
  assumes "SkipSpace s = quote # x" "readMember f (quote # x) = Inr (f', r)" "SkipSpace r = c # r2"
  shows "readMembers f s = (if c = CHR '','' then readMembers f' r2 else if c = CHR ''}'' then Inr (f', r2) else Inl JsonSeparator)"
  using assms by (subst readMembers.simps) (simp add: quote_def Let_def)

lemma readMembers_text:
  assumes "blank w" "validMessage m" "distinct ks" "ks \<noteq> []" "\<forall>k\<in>set ks. \<not> present k f"
  shows "readMembers f (membersText w m ks @ CHR ''}'' # rest) = Inr (fold (setField m) ks f, rest)"
  using assms(3-5)
proof (induction ks arbitrary: f)
  case Nil
  then show ?case by simp
next
  case (Cons k ks)
  define tail where "tail = (if ks = [] then [] else CHR '','' # membersText w m ks) @ CHR ''}'' # rest"
  define item where "item = keyOf k @ quote # w @ CHR '':'' # w @ valueText m k @ w @ tail"
  have ends: "endsDigits (w @ tail)"
    using endsDigits_blank[OF assms(1)] comma_not_digit by (simp add: tail_def)
  have start: "SkipSpace (membersText w m (k # ks) @ CHR ''}'' # rest) = quote # item"
    using assms(1) by (simp add: item_def tail_def SkipSpace_blank SkipSpace_stop not_space quoted_def)
  have "readMember f (quote # item) = Inr (setField m k f, w @ tail)"
    using readMember_text[OF blank_Nil assms(2) _ ends, of k f] readMember_text[OF assms(1,2) _ ends, of k f] Cons.prems(3)
    by (simp add: item_def readMember_def ReadString_def SkipSpace_blank[OF assms(1)] SkipSpace_stop quoted_def not_space)
  note step = readMembers_step[OF start this]
  show ?case
  proof (cases "ks = []")
    case True
    have "SkipSpace (w @ tail) = CHR ''}'' # rest"
      using assms(1) True by (simp add: tail_def SkipSpace_blank SkipSpace_stop not_space)
    from step[OF this] show ?thesis using True by simp
  next
    case False
    have "SkipSpace (w @ tail) = CHR '','' # membersText w m ks @ CHR ''}'' # rest"
      using assms(1) False by (simp add: tail_def SkipSpace_blank SkipSpace_stop not_space)
    from step[OF this] show ?thesis
      using False Cons.IH[of "setField m k f"] Cons.prems by (auto simp: present_setField)
  qed
qed

lemma checkMessage_fields:
  assumes "validMessage m" "set ks = requiredNames m"
  shows "checkMessage (fold (setField m) ks noFields) = Inr m"
proof -
  have mode: "FMode \<in> set ks \<longleftrightarrow> protocol m = 2" using assms(2) by (auto simp: requiredNames_def)
  have others: "FProtocol \<in> set ks" "FBrowser \<in> set ks" "FHostname \<in> set ks" "FRoute \<in> set ks" "FFocused \<in> set ks"
    using assms(2) by (auto simp: requiredNames_def)
  show ?thesis
    using assms(1) others mode
    by (auto simp: checkMessage_def fields_after validMessage_def noFields_def)
qed

lemma ParseNativeMessage_text:
  assumes "validMessage m" "blank w" "distinct ks" "set ks = requiredNames m"
    "length (messageText w m ks) \<le> kMaxNativeMessageBytes"
  shows "ParseNativeMessage (messageText w m ks) = Inr m"
proof -
  have "ks \<noteq> []" using assms(4) by (auto simp: requiredNames_def)
  moreover have "\<not> present k noFields" for k by (cases k) (simp_all add: noFields_def)
  ultimately have "readMembers noFields (membersText w m ks @ CHR ''}'' # w) = Inr (fold (setField m) ks noFields, w)"
    using readMembers_text[OF assms(2,1,3), of noFields w] by simp
  moreover have "SkipSpace (messageText w m ks) = CHR ''{'' # membersText w m ks @ CHR ''}'' # w"
    using assms(2) by (simp add: messageText_def SkipSpace_blank SkipSpace_stop not_space)
  moreover have "SkipSpace w = []" using SkipSpace_blank[OF assms(2), of "[]"] by (simp add: SkipSpace_def)
  moreover have "messageText w m ks \<noteq> []" by (simp add: messageText_def)
  ultimately show ?thesis
    using assms(5) checkMessage_fields[OF assms(1,4)] by (simp add: ParseNativeMessage_def)
qed

section \<open>What is accepted\<close>

definition goodFields :: "Fields \<Rightarrow> bool" where
  "goodFields f \<longleftrightarrow> (\<forall>p. haveProtocol f = Some p \<longrightarrow> p = 1 \<or> p = 2) \<and> (\<forall>r. haveRoute f = Some r \<longrightarrow> knownRoute r) \<and>
     (\<forall>r. haveMode f = Some r \<longrightarrow> knownMode r)"

lemma routeOf_known: "routeOf v = Some r \<Longrightarrow> knownRoute r"
  by (auto simp: routeOf_def knownRoute_def split: if_splits)

lemma modeOf_known: "modeOf v = Some r \<Longrightarrow> knownMode r"
  by (auto simp: modeOf_def knownMode_def split: if_splits)

lemma readText_good:
  assumes "readText p e conv u s = Inr (f', r)" "\<And>v x. conv v = Some x \<Longrightarrow> goodFields (u x)"
  shows "goodFields f'"
  using assms by (auto simp: readText_def split: if_splits option.splits)

lemma readField_good:
  assumes "readField key f s = Inr (f', r)" "goodFields f"
  shows "goodFields f'"
proof -
  have protocol: "goodFields f'" if "readProtocol f s = Inr (f', r)"
    using that assms(2) by (auto simp: readProtocol_def Let_def goodFields_def split: if_splits)
  have focus: "goodFields f'" if "readFocused f s = Inr (f', r)"
    using that assms(2) by (auto simp: readFocused_def goodFields_def split: if_splits option.splits)
  have strings: "goodFields (f\<lparr>haveBrowser := Some v\<rparr>)" "goodFields (f\<lparr>haveHostname := Some v\<rparr>)" for v
    using assms(2) by (simp_all add: goodFields_def)
  have routes: "goodFields (f\<lparr>haveRoute := Some x\<rparr>)" if "routeOf v = Some x" for v x
    using assms(2) routeOf_known[OF that] by (simp add: goodFields_def)
  have modes: "goodFields (f\<lparr>haveMode := Some x\<rparr>)" if "modeOf v = Some x" for v x
    using assms(2) modeOf_known[OF that] by (simp add: goodFields_def)
  show ?thesis
    using assms(1) unfolding readField_def
    by (auto split: if_splits intro: protocol focus strings routes modes elim!: readText_good)
qed

lemma readMember_good: "readMember f s = Inr (f', r) \<Longrightarrow> goodFields f \<Longrightarrow> goodFields f'"
  by (auto simp: readMember_def split: if_splits option.splits list.splits elim: readField_good)

lemma readMembers_cases:
  assumes "readMembers f s = Inr (f', r)"
  obtains "f' = f"
  | f1 r1 where "readMember f (SkipSpace s) = Inr (f1, r1)" "f' = f1"
  | f1 r1 where "readMember f (SkipSpace s) = Inr (f1, r1)" "\<not> (SkipSpace s \<noteq> [] \<and> hd (SkipSpace s) = CHR ''}'')"
      "SkipSpace r1 \<noteq> [] \<and> hd (SkipSpace r1) = CHR '',''" "readMembers f1 (tl (SkipSpace r1)) = Inr (f', r)"
  using assms unfolding readMembers.simps[of f s] by (auto simp: Let_def split: if_splits sum.splits prod.splits)

lemma readMembers_good: "readMembers f s = Inr (f', r) \<Longrightarrow> goodFields f \<Longrightarrow> goodFields f'"
proof (induction f s rule: readMembers.induct)
  case (1 f s)
  from 1(2) show ?case
  proof (cases rule: readMembers_cases)
    case (3 f1 r1)
    show ?thesis using 1(1)[OF refl 3(2,1) refl refl 3(3,4)] readMember_good[OF 3(1) 1(3)] by blast
  qed (use 1(3) readMember_good in blast)+
qed

lemma ParseNativeMessage_valid:
  assumes "ParseNativeMessage json = Inr m"
  shows "validMessage m"
proof -
  obtain c r f rest where parts: "readMembers noFields r = Inr (f, rest)" "checkMessage f = Inr m"
    using assms by (auto simp: ParseNativeMessage_def split: if_splits list.splits sum.splits prod.splits)
  have "goodFields f" using readMembers_good[OF parts(1)] by (simp add: goodFields_def noFields_def)
  then show ?thesis
    using parts(2) by (auto simp: checkMessage_def validMessage_def goodFields_def knownMode_def split: option.splits if_splits)
qed

end
