(* ===== verification/NativeMessagingProps.thy ===== *)
theory NativeMessagingProps
  imports NativeMessagingProofs
begin

text \<open>
  The host and the hook around the shared block: the frames on the pipes, the block that every party keeps,
  and the delivery of a mode event to the extension.
\<close>

section \<open>Frames\<close>

lemma byte_byteOf: "byte (byteOf n) = n mod 256"
  by (simp add: byte_def byteOf_def)

lemma bytesSize_sizeBytes:
  assumes "n < 2 ^ 32"
  shows "bytesSize (sizeBytes n) = n"
proof -
  have "n = n mod 256 + n div 256 * 256" by simp
  moreover have "n div 256 = n div 256 mod 256 + n div 65536 * 256"
    using div_mult_mod_eq[of "n div 256" 256] div_mult2_eq[of n 256 256] by simp
  moreover have "n div 65536 = n div 65536 mod 256 + n div 16777216 * 256"
    using div_mult_mod_eq[of "n div 65536" 256] div_mult2_eq[of n 65536 256] by simp
  moreover have "n div 16777216 mod 256 = n div 16777216"
    using assms by simp
  moreover have "bytesSize (sizeBytes n) =
      n mod 256 + n div 256 mod 256 * 256 + n div 65536 mod 256 * 65536 + n div 16777216 mod 256 * 16777216"
    by (simp add: bytesSize_def sizeBytes_def byte_byteOf)
  ultimately show ?thesis by linarith
qed

lemma ReadFrame_WriteFrame:
  assumes "p \<noteq> []" "length p \<le> kMaxNativeMessageBytes"
  shows "ReadFrame (WriteFrame p @ rest) = Some (p, rest)"
proof -
  have small: "length p < 2 ^ 32" using assms(2) by (simp add: kMaxNativeMessageBytes_def)
  have four: "length (sizeBytes (length p)) = 4" by (simp add: sizeBytes_def)
  then have "take 4 (WriteFrame p @ rest) = sizeBytes (length p)" "drop 4 (WriteFrame p @ rest) = p @ rest"
    using small by (simp_all add: WriteFrame_def)
  moreover have "bytesSize (sizeBytes (length p)) = length p"
    using bytesSize_sizeBytes[OF small] .
  ultimately show ?thesis using assms four small by (simp add: ReadFrame_def WriteFrame_def)
qed

text \<open>The messages one after another, with what the other processes do before each.\<close>

fun handleAll :: "(nat \<Rightarrow> HostEnv) \<Rightarrow> nat \<Rightarrow> string list \<Rightarrow> Host \<Rightarrow> string list \<times> Host" where
  "handleAll env k [] h =
    (let h = h\<lparr>shared := others (env k) (shared h)\<rparr> in
     ([], h\<lparr>shared := ClearIfOwned (locks (env k)) (processId h) (hostNonce h) (tick (env k)) (shared h)\<rparr>))"
| "handleAll env k (p # ps) h =
    (let (reply, h) = handleMessage (env k) p (h\<lparr>shared := others (env k) (shared h)\<rparr>);
         (out, h) = handleAll env (k + 1) ps h in
     (reply # out, h))"

lemma handleAll_length: "length (fst (handleAll env k ps h)) = length ps"
  by (induction ps arbitrary: k h) (simp_all add: Let_def case_prod_beta)

lemma hostLoop_frames:
  assumes "\<forall>p\<in>set ps. p \<noteq> [] \<and> length p \<le> kMaxNativeMessageBytes"
  shows "hostLoop env k (concat (map WriteFrame ps)) h =
     (concat (map WriteFrame (fst (handleAll env k ps h))), snd (handleAll env k ps h))"
  using assms
proof (induction ps arbitrary: k h)
  case Nil
  then show ?case by (simp add: hostLoop.simps ReadFrame_def Let_def)
next
  case (Cons p ps)
  then have "ReadFrame (concat (map WriteFrame (p # ps))) = Some (p, concat (map WriteFrame ps))"
    using ReadFrame_WriteFrame[of p] by simp
  then show ?case using Cons by (subst hostLoop.simps) (simp add: Let_def case_prod_beta)
qed

section \<open>The block\<close>

definition safeText :: "nat \<Rightarrow> string \<Rightarrow> bool" where
  "safeText n b \<longleftrightarrow> length b = n \<and> last b = nul"

definition safeBlock :: "BrowserContextState \<Rightarrow> bool" where
  "safeBlock s \<longleftrightarrow> HasValidHeader s \<and> even (generation s) \<and>
     safeText 32 (browserExe s) \<and> safeText 256 (hostname s) \<and> safeText 256 (modeEventHostname s) \<and>
     (cstr (browserExe s) = [] \<or> IsAllowedBrowser (cstr (browserExe s))) \<and>
     IsSafeHostname (cstr (hostname s)) \<and> IsSafeHostname (cstr (modeEventHostname s)) \<and>
     knownRoute (route s) \<and> knownMode (browserMode s) \<and> knownMode (modeEventMode s) \<and>
     (focused s \<longrightarrow> cstr (browserExe s) \<noteq> [] \<and> cstr (hostname s) \<noteq> []) \<and>
     (\<not> focused s \<longrightarrow> route s = RouteDefault \<and> browserMode s = ModeDefault)"

lemma cstr_toBuffer [simp]: "cstr (toBuffer n b) = cstr b"
  by (simp add: cstr_def toBuffer_def takeWhile_append takeWhile_replicate)
     (metis (mono_tags, lifting) takeWhile_eq_all_conv)

lemma cstr_take: "cstr (take n b) = take n (cstr b)"
  by (induction b arbitrary: n) (auto simp: cstr_def take_Cons split: nat.splits)

lemma cstr_plain: "nul \<notin> set v \<Longrightarrow> cstr v = v"
  by (auto simp: cstr_def takeWhile_eq_all_conv)

lemma safeText_toBuffer: "length b < n \<Longrightarrow> safeText n (toBuffer n b)"
  by (simp add: safeText_def toBuffer_def)

lemma hostname_nul: "IsSafeHostname v \<Longrightarrow> nul \<notin> set v"
  by (auto simp: IsSafeHostname_def list_all_iff hostnameByte_def nul_def byte_def)

lemma browser_facts: "IsAllowedBrowser v \<Longrightarrow> nul \<notin> set v \<and> v \<noteq> [] \<and> length v < 32"
  by (auto simp: IsAllowedBrowser_def browsers_def nul_def)

lemma hostname_length: "IsSafeHostname v \<Longrightarrow> length v < 256"
  by (simp add: IsSafeHostname_def)

text \<open>A write leaves an even generation, also when the previous writer died with the block half written.\<close>

lemma write_even: "generation t = generation (BeginSeqlockWrite s) \<Longrightarrow> even (generation (EndSeqlockWrite t))"
  by (auto simp: EndSeqlockWrite_def BeginSeqlockWrite_def)

lemma safe_new: "safeBlock newBrowserContextState"
  by (simp add: safeBlock_def newBrowserContextState_def HasValidHeader_def safeText_toBuffer knownRoute_def knownMode_def
      cstr_def[of "[]"] IsSafeHostname_def)

lemma safe_Publish:
  assumes "validMessage m" "msgFocused m" "safeBlock s"
  shows "safeBlock (snd (Publish b pid nonce t True (msgRoute m) (msgMode m) (msgBrowser m) (msgHostname m) s))"
proof -
  have exe: "IsAllowedBrowser (msgBrowser m)" and host: "IsSafeHostname (msgHostname m)" "msgHostname m \<noteq> []"
    and known: "knownRoute (msgRoute m)" "knownMode (msgMode m)"
    using assms(1,2) by (auto simp: validMessage_def)
  show ?thesis
    using assms(3) exe host known browser_facts[OF exe] hostname_nul[OF host(1)] hostname_length[OF host(1)]
    by (auto simp: Publish_def safeBlock_def HasValidHeader_def EndSeqlockWrite_def BeginSeqlockWrite_def cstr_plain
        safeText_toBuffer)
qed

lemma safe_ClearIfOwned: "safeBlock s \<Longrightarrow> safeBlock (ClearIfOwned b pid nonce t s)"
  by (auto simp: ClearIfOwned_def safeBlock_def HasValidHeader_def EndSeqlockWrite_def BeginSeqlockWrite_def
      knownRoute_def knownMode_def)

lemma safe_PublishModeEvent: "safeBlock s \<Longrightarrow> safeBlock (snd (PublishModeEvent b v s))"
  using hostname_length[of "cstr (hostname s)"]
  by (auto simp: PublishModeEvent_def Let_def safeBlock_def HasValidHeader_def EndSeqlockWrite_def BeginSeqlockWrite_def
      knownMode_def cstr_take safeText_toBuffer)

lemma safe_handleMessage: "safeBlock (shared h) \<Longrightarrow> safeBlock (shared (snd (handleMessage e p h)))"
  using safe_Publish[OF ParseNativeMessage_valid] safe_ClearIfOwned
  by (auto simp: handleMessage_def Let_def case_prod_beta split: sum.splits option.splits)

lemma safe_hostLoop:
  assumes "\<And>j s. safeBlock s \<Longrightarrow> safeBlock (others (env j) s)" "safeBlock (shared h)"
  shows "safeBlock (shared (snd (hostLoop env k input h)))"
  using assms(2)
proof (induction "length input" arbitrary: k input h rule: less_induct)
  case less
  define h1 where "h1 = h\<lparr>shared := others (env k) (shared h)\<rparr>"
  have safe: "safeBlock (shared h1)" using assms(1) less(2) by (simp add: h1_def)
  show ?case
  proof (cases "ReadFrame input")
    case None
    then show ?thesis
      using safe_ClearIfOwned[OF safe] by (subst hostLoop.simps) (simp add: Let_def h1_def)
  next
    case (Some x)
    obtain p r where x: "x = (p, r)" by (cases x)
    have "safeBlock (shared (snd (hostLoop env (k + 1) r (snd (handleMessage (env k) p h1)))))"
      using less(1) ReadFrame_length Some x safe_handleMessage[OF safe] by blast
    then show ?thesis using Some x by (subst hostLoop.simps) (simp add: Let_def case_prod_beta h1_def)
  qed
qed

section \<open>Mode events\<close>













section \<open>Properties\<close>

definition sampleMessage :: "nat \<Rightarrow> NativeMessage" where
  "sampleMessage p =
    \<lparr>protocol = p, msgBrowser = ''chrome.exe'', msgHostname = ''vnexpress.net'', msgRoute = ForceTsf,
     msgMode = (if p = 2 then Vietnamese else ModeDefault), msgFocused = True\<rparr>"

definition sampleText :: string where
  "sampleText = messageText [] (sampleMessage 2) [FFocused, FMode, FProtocol, FBrowser, FRoute, FHostname]"

definition sampleEnv :: HostEnv where
  "sampleEnv = \<lparr>locks = True, tick = 77, observe = (\<lambda>s. [(generation s, s, generation s)]), others = (\<lambda>s. s)\<rparr>"

lemma sample_facts:
  "validMessage (sampleMessage 2)" "blank ''  ''"
  "length (messageText ''  '' (sampleMessage 2) [FFocused, FMode, FProtocol, FBrowser, FRoute, FHostname]) \<le> kMaxNativeMessageBytes"
  "length sampleText \<le> kMaxNativeMessageBytes" "sampleText \<noteq> []"
  "set [FFocused, FMode, FProtocol, FBrowser, FRoute, FHostname] = requiredNames (sampleMessage 2)"
  by (auto simp: sampleMessage_def sampleText_def validMessage_def IsAllowedBrowser_def browsers_def IsSafeHostname_def
      hostnameByte_def byte_def knownRoute_def knownMode_def blank_def isSpaceByte_def messageText_def quoted_def
      kMaxNativeMessageBytes_def requiredNames_def)




text \<open>C33. Whatever bytes arrive on the pipe of the host, the block it shares with the hook stays safe: a valid
  header, an even generation, terminated strings, only a browser of the allow-list, only host names of lower-case
  letters, digits, dots, dashes and colons, and no route and no mode without focus.  The other processes have to
  keep the block safe themselves, as the mode events of the hook do.\<close>

theorem shared_block_stays_safe:
  assumes "\<And>j s. safeBlock s \<Longrightarrow> safeBlock (others (env j) s)" "safeBlock (shared h)"
  shows "safeBlock (shared (snd (hostLoop env k input h))) \<and>
    (\<forall>s b v. safeBlock s \<longrightarrow> safeBlock (snd (PublishModeEvent b v s)))"
  using safe_hostLoop[of env, OF assms] safe_PublishModeEvent by simp

theorem shared_block_stays_safe_witness:
  "safeBlock (shared (snd (hostLoop (\<lambda>_. sampleEnv\<lparr>others := \<lambda>s. snd (PublishModeEvent True True s)\<rparr>) 0
     (WriteFrame sampleText @ WriteFrame ''{,}'') (newHost 5 7 newBrowserContextState))))"
  by (rule shared_block_stays_safe[THEN conjunct1]) (simp_all add: safe_PublishModeEvent newHost_def safe_new)

text \<open>C34. The host answers every message with exactly one frame, in the order of the messages: over a pipe
  that carries the frames of any messages of legal size, the loop over bytes does what the messages handled one
  after another do, and it ends with the pipe.\<close>

theorem host_answers_in_order:
  assumes "\<forall>p\<in>set ps. p \<noteq> [] \<and> length p \<le> kMaxNativeMessageBytes"
  shows "hostLoop env k (concat (map WriteFrame ps)) h =
      (concat (map WriteFrame (fst (handleAll env k ps h))), snd (handleAll env k ps h)) \<and>
    length (fst (handleAll env k ps h)) = length ps"
  using hostLoop_frames[OF assms] handleAll_length by simp

theorem host_answers_in_order_witness:
  "length (fst (handleAll (\<lambda>_. sampleEnv) 0 [sampleText, ''{}''] (newHost 5 7 newBrowserContextState))) = 2"
  using host_answers_in_order[of "[sampleText, ''{}'']" "\<lambda>_. sampleEnv" 0 "newHost 5 7 newBrowserContextState"] sample_facts(4,5)
  by (simp add: kMaxNativeMessageBytes_def)



end
