(* ===== verification/HotkeyRegistry.thy ===== *)
theory HotkeyRegistry
  imports Prelude "HOL-Library.Word"
begin

text \<open>
  The registry of rebindable hotkeys, \<open>src/core/hotkey/HotkeyRegistry.cpp\<close>: the triggers of an intent, their
  matching, and their rows in the configuration file.  A value of the TOML library is given by what the
  accessors of the code find in it: \<open>None\<close> where a key is missing or has another type.
\<close>

section \<open>Registry\<close>

datatype HotkeyIntent = CancelComposition | SkipMacro | ToggleEnabled | ToggleGameMode

definition kAllIntents :: "HotkeyIntent list" where
  "kAllIntents = [CancelComposition, SkipMacro, ToggleEnabled, ToggleGameMode]"

record Trigger =
  trigVk :: "32 word"
  trigMods :: "32 word"
  doubleTap :: bool

record HotkeyRegistry =
  triggers :: "HotkeyIntent \<Rightarrow> Trigger list"
  enabledFlags :: "HotkeyIntent \<Rightarrow> bool option"

definition newHotkeyRegistry :: HotkeyRegistry where
  "newHotkeyRegistry = \<lparr>triggers = (\<lambda>_. []), enabledFlags = (\<lambda>_. None)\<rparr>"

definition kVkShift :: "32 word" where "kVkShift = 0x10"
definition kVkControl :: "32 word" where "kVkControl = 0x11"
definition kVkMenu :: "32 word" where "kVkMenu = 0x12"
definition kVkLwin :: "32 word" where "kVkLwin = 0x5B"
definition kVkRwin :: "32 word" where "kVkRwin = 0x5C"
definition kVkEscape :: "32 word" where "kVkEscape = 0x1B"

definition IsModifierKey :: "32 word \<Rightarrow> bool" where
  "IsModifierKey v \<longleftrightarrow> v = kVkShift \<or> v = kVkControl \<or> v = kVkMenu \<or> v = kVkLwin \<or> v = kVkRwin"

definition TriggersFor :: "HotkeyIntent \<Rightarrow> HotkeyRegistry \<Rightarrow> Trigger list" where
  "TriggersFor i r = triggers r i"

definition AddTrigger :: "HotkeyIntent \<Rightarrow> Trigger \<Rightarrow> HotkeyRegistry \<Rightarrow> HotkeyRegistry" where
  "AddTrigger i t r = r\<lparr>triggers := (triggers r)(i := triggers r i @ [t])\<rparr>"

definition IsEnabled :: "HotkeyIntent \<Rightarrow> HotkeyRegistry \<Rightarrow> bool" where
  "IsEnabled i r = (case enabledFlags r i of None \<Rightarrow> True | Some b \<Rightarrow> b)"

definition SetEnabled :: "HotkeyIntent \<Rightarrow> bool \<Rightarrow> HotkeyRegistry \<Rightarrow> HotkeyRegistry" where
  "SetEnabled i b r = r\<lparr>enabledFlags := (enabledFlags r)(i := Some b)\<rparr>"

definition Clear :: "HotkeyRegistry \<Rightarrow> HotkeyRegistry" where
  "Clear r = newHotkeyRegistry"

definition triggerFires :: "32 word \<Rightarrow> 32 word \<Rightarrow> bool \<Rightarrow> bool \<Rightarrow> Trigger \<Rightarrow> bool" where
  "triggerFires v mods isDoubleTap keyUp t =
    (if trigVk t \<noteq> v then False
     else if doubleTap t then isDoubleTap \<and> mods = trigMods t
     else if IsModifierKey (trigVk t) then keyUp \<and> \<not> isDoubleTap \<and> mods = trigMods t
     else \<not> keyUp \<and> \<not> isDoubleTap \<and> mods = trigMods t)"

definition Matches :: "HotkeyRegistry \<Rightarrow> HotkeyIntent \<Rightarrow> 32 word \<Rightarrow> 32 word \<Rightarrow> bool \<Rightarrow> bool \<Rightarrow> bool" where
  "Matches r i v mods isDoubleTap keyUp =
    (if \<not> IsEnabled i r then False else list_ex (triggerFires v mods isDoubleTap keyUp) (triggers r i))"

section \<open>Factory bindings and migration\<close>

definition trigger :: "32 word \<Rightarrow> 32 word \<Rightarrow> bool \<Rightarrow> Trigger" where
  "trigger v m d = \<lparr>trigVk = v, trigMods = m, doubleTap = d\<rparr>"

definition Defaults :: HotkeyRegistry where
  "Defaults =
    SetEnabled ToggleGameMode False (SetEnabled ToggleEnabled False (SetEnabled SkipMacro False (SetEnabled CancelComposition False
      (AddTrigger ToggleEnabled (trigger kVkMenu 0 True) (AddTrigger ToggleEnabled (trigger kVkControl 0 False)
        (AddTrigger SkipMacro (trigger kVkEscape 0 False) (AddTrigger CancelComposition (trigger kVkEscape 0 False)
          newHotkeyRegistry)))))))"

definition FromLegacyFields :: "bool \<Rightarrow> bool \<Rightarrow> 8 word \<Rightarrow> HotkeyRegistry" where
  "FromLegacyFields escRestoreRawEnabled tempOffMacroByEsc tempOffMethodValue =
    (let r = newHotkeyRegistry;
         r = (if escRestoreRawEnabled then AddTrigger CancelComposition (trigger kVkEscape 0 False) r else r);
         r = (if tempOffMacroByEsc then AddTrigger SkipMacro (trigger kVkEscape 0 False) r else r);
         r = (if tempOffMethodValue = 1 then AddTrigger ToggleEnabled (trigger kVkMenu 0 True) r
              else if tempOffMethodValue = 2 then AddTrigger ToggleEnabled (trigger kVkControl 0 False) r else r)
     in SetEnabled ToggleGameMode False (SetEnabled ToggleEnabled (tempOffMethodValue \<noteq> 0)
          (SetEnabled SkipMacro tempOffMacroByEsc (SetEnabled CancelComposition escRestoreRawEnabled r))))"

section \<open>Rows of the configuration file\<close>

fun IntentToString :: "HotkeyIntent \<Rightarrow> string" where
  "IntentToString CancelComposition = ''cancel-composition''"
| "IntentToString SkipMacro = ''skip-macro''"
| "IntentToString ToggleEnabled = ''toggle-enabled''"
| "IntentToString ToggleGameMode = ''toggle-game-mode''"

definition ParseIntent :: "string \<Rightarrow> HotkeyIntent option" where
  "ParseIntent s =
    (if s = ''cancel-composition'' then Some CancelComposition
     else if s = ''skip-macro'' then Some SkipMacro
     else if s = ''toggle-enabled'' then Some ToggleEnabled
     else if s = ''toggle-game-mode'' then Some ToggleGameMode
     else None)"

fun IntentStateKey :: "HotkeyIntent \<Rightarrow> string" where
  "IntentStateKey CancelComposition = ''cancel_composition''"
| "IntentStateKey SkipMacro = ''skip_macro''"
| "IntentStateKey ToggleEnabled = ''toggle_enabled''"
| "IntentStateKey ToggleGameMode = ''toggle_game_mode''"

record TriggerTable =
  tomlVk :: "int option"
  tomlMods :: "int option"
  tomlDoubleTap :: "bool option"

text \<open>A row is a table with the keys \<open>intent\<close> and \<open>trigger\<close>; \<open>None\<close> is an element that is no table.\<close>

type_synonym HotkeyRow = "(string option \<times> TriggerTable option) option"

definition loadRow :: "HotkeyRow \<Rightarrow> HotkeyRegistry \<Rightarrow> HotkeyRegistry" where
  "loadRow row r =
    (case row of
       Some (Some s, Some t) \<Rightarrow>
         (case (ParseIntent s, tomlVk t) of
            (Some i, Some v) \<Rightarrow>
              if word_of_int v = (0 :: 32 word) then r
              else AddTrigger i
                (trigger (word_of_int v) (case tomlMods t of None \<Rightarrow> 0 | Some m \<Rightarrow> word_of_int m)
                   (case tomlDoubleTap t of None \<Rightarrow> False | Some d \<Rightarrow> d)) r
          | _ \<Rightarrow> r)
     | _ \<Rightarrow> r)"

definition Load :: "HotkeyRow list \<Rightarrow> HotkeyRegistry \<Rightarrow> HotkeyRegistry" where
  "Load rows r = fold loadRow rows (r\<lparr>triggers := \<lambda>_. []\<rparr>)"

definition saveRow :: "HotkeyIntent \<Rightarrow> Trigger \<Rightarrow> HotkeyRow" where
  "saveRow i t =
    Some (Some (IntentToString i),
      Some \<lparr>tomlVk = Some (uint (trigVk t)), tomlMods = Some (uint (trigMods t)),
            tomlDoubleTap = (if doubleTap t then Some True else None)\<rparr>)"

definition Save :: "HotkeyRegistry \<Rightarrow> HotkeyRow list" where
  "Save r = concat (map (\<lambda>i. map (saveRow i) (triggers r i)) kAllIntents)"

definition LoadEnabled :: "(string \<Rightarrow> bool option) \<Rightarrow> HotkeyRegistry \<Rightarrow> HotkeyRegistry" where
  "LoadEnabled tbl r = r\<lparr>enabledFlags := \<lambda>i. tbl (IntentStateKey i)\<rparr>"

definition SaveEnabled :: "HotkeyRegistry \<Rightarrow> (string \<Rightarrow> bool option) \<Rightarrow> string \<Rightarrow> bool option" where
  "SaveEnabled r tbl = fold (\<lambda>i t. t(IntentStateKey i := Some (IsEnabled i r))) kAllIntents tbl"

section \<open>Round trip\<close>

lemma ParseIntent_string: "ParseIntent (IntentToString i) = Some i"
  by (cases i) (simp_all add: ParseIntent_def)

lemma loadRow_saveRow: "trigVk t \<noteq> 0 \<Longrightarrow> loadRow (saveRow i t) r = AddTrigger i t r"
  by (cases t) (simp add: loadRow_def saveRow_def ParseIntent_string trigger_def)

lemma load_triggers:
  assumes "\<forall>t\<in>set ts. trigVk t \<noteq> 0"
  shows "fold loadRow (map (saveRow i) ts) r = r\<lparr>triggers := (triggers r)(i := triggers r i @ ts)\<rparr>"
  using assms
proof (induction ts arbitrary: r)
  case (Cons t ts)
  then show ?case by (cases r) (auto simp: loadRow_saveRow AddTrigger_def fun_upd_def)
qed simp

lemma Load_Save:
  assumes "\<And>i. \<forall>t\<in>set (triggers r i). trigVk t \<noteq> 0"
  shows "triggers (Load (Save r) r') = triggers r"
proof
  fix i
  show "triggers (Load (Save r) r') i = triggers r i"
    using assms by (cases i) (simp_all add: Load_def Save_def kAllIntents_def load_triggers)
qed

lemma LoadEnabled_SaveEnabled: "IsEnabled i (LoadEnabled (SaveEnabled r tbl) r') = IsEnabled i r"
  by (cases i) (simp_all add: LoadEnabled_def SaveEnabled_def kAllIntents_def IsEnabled_def)

text \<open>C36. A registry whose triggers all have a key matches exactly the same events after it has been written
  to the configuration file and read back, whatever registry the reader started from.\<close>

theorem hotkey_registry_round_trip:
  assumes "\<And>i. \<forall>t\<in>set (triggers r i). trigVk t \<noteq> 0"
  shows "Matches (LoadEnabled (SaveEnabled r tbl) (Load (Save r) r')) = Matches r"
proof (intro ext)
  fix i v mods d u
  have "triggers (LoadEnabled (SaveEnabled r tbl) (Load (Save r) r')) = triggers r"
    using Load_Save[OF assms] by (simp add: LoadEnabled_def)
  then show "Matches (LoadEnabled (SaveEnabled r tbl) (Load (Save r) r')) i v mods d u = Matches r i v mods d u"
    by (simp add: Matches_def LoadEnabled_SaveEnabled)
qed

theorem hotkey_registry_round_trip_witness:
  "Matches (LoadEnabled (SaveEnabled (FromLegacyFields True False 2) Map.empty) (Load (Save (FromLegacyFields True False 2)) Defaults))
     CancelComposition kVkEscape 0 False False"
  by (subst hotkey_registry_round_trip)
    (auto simp: FromLegacyFields_def AddTrigger_def SetEnabled_def trigger_def newHotkeyRegistry_def Matches_def IsEnabled_def
      triggerFires_def IsModifierKey_def kVkEscape_def kVkShift_def kVkControl_def kVkMenu_def kVkLwin_def kVkRwin_def)

end
