(* ===== verification/HookState.thy ===== *)
theory HookState
  imports Pipeline CommittedText Macro MacroPrefix CodeTable Decisions HotkeyRegistry
begin

text \<open>
  The state of the keyboard hook that one key may change, and what it sends: \<open>src/app/system/CommitState.h\<close>,
  the word state of \<open>HookEngine.h\<close> and \<open>OutputDispatcher.cpp\<close>.  The record extends the host of the key
  pipeline.  Everything the hook reads from the system and from the published settings while it handles a
  key is an environment.  What the injector does to the document is a list of outputs; the environment says
  which of them were delivered.
\<close>

section \<open>Commit state (CommitState.h)\<close>

datatype CommitFsm = CsIdle | CsReady | CsPrimed

record CommitEntry =
  history :: "wchar list"
  entryText :: wstring
  entryRaw :: wstring
  entryWidths :: "8 word list"
  extraLeadingTriggers :: "8 word"

text \<open>The top of the stack is its last element.\<close>

record CommitState =
  fsm :: CommitFsm
  stack :: "CommitEntry list"
  pushedToStack :: bool
  gapEndsInGlyph :: bool
  prevKeyGlyph :: wchar
  wordOpenGlyph :: wchar
  pendingTriggerCount :: "8 word"
  leadingTriggersForCurrentWord :: "8 word"
  readyTime :: "32 word"
  inputHistory :: "wchar list"

definition newCommitState :: CommitState where
  "newCommitState = \<lparr>fsm = CsIdle, stack = [], pushedToStack = False, gapEndsInGlyph = False, prevKeyGlyph = 0,
     wordOpenGlyph = 0, pendingTriggerCount = 0, leadingTriggersForCurrentWord = 0, readyTime = 0, inputHistory = []\<rparr>"

definition kBackspaceMarker :: wchar where "kBackspaceMarker = 0x08"
definition kMaxStack :: nat where "kMaxStack = 3"
definition kReadyTimeoutMs :: "32 word" where "kReadyTimeoutMs = 4000"

definition SetIdle :: "CommitState \<Rightarrow> CommitState" where "SetIdle c = c\<lparr>fsm := CsIdle\<rparr>"

definition SetReady :: "32 word \<Rightarrow> CommitState \<Rightarrow> CommitState" where
  "SetReady t c = c\<lparr>fsm := CsReady, readyTime := t\<rparr>"

definition SetPrimed :: "CommitState \<Rightarrow> CommitState" where "SetPrimed c = c\<lparr>fsm := CsPrimed\<rparr>"

definition IncrementPendingTriggers :: "CommitState \<Rightarrow> CommitState" where
  "IncrementPendingTriggers c =
    (if pendingTriggerCount c < 0xFF then c\<lparr>pendingTriggerCount := pendingTriggerCount c + 1\<rparr> else c)"

definition DecrementPendingTriggers :: "CommitState \<Rightarrow> CommitState" where
  "DecrementPendingTriggers c =
    (if pendingTriggerCount c > 0 then c\<lparr>pendingTriggerCount := pendingTriggerCount c - 1\<rparr> else c)"

definition AppendHistory :: "wchar \<Rightarrow> CommitState \<Rightarrow> CommitState" where
  "AppendHistory ch c = c\<lparr>inputHistory := inputHistory c @ [ch]\<rparr>"

definition ClearHistory :: "CommitState \<Rightarrow> CommitState" where "ClearHistory c = c\<lparr>inputHistory := []\<rparr>"

definition PushEntry :: "CommitEntry \<Rightarrow> CommitState \<Rightarrow> CommitState" where
  "PushEntry e c = c\<lparr>stack := (if length (stack c) \<ge> kMaxStack then tl (stack c) else stack c) @ [e]\<rparr>"

definition PopStackTop :: "CommitState \<Rightarrow> CommitState" where "PopStackTop c = c\<lparr>stack := butlast (stack c)\<rparr>"

definition Cancel :: "CommitState \<Rightarrow> CommitState" where
  "Cancel c = c\<lparr>fsm := CsIdle, pendingTriggerCount := 0, leadingTriggersForCurrentWord := 0, gapEndsInGlyph := False,
     stack := []\<rparr>"

definition DiscardReplayContext :: "CommitState \<Rightarrow> CommitState" where
  "DiscardReplayContext c = (Cancel c)\<lparr>inputHistory := [], pushedToStack := False\<rparr>"

section \<open>State of the hook\<close>

text \<open>What the hook sends: a replacement through the injector or the \<open>SendInput\<close> fallback (count, text, key
  re-injected before it, delivered or not), a key, an edit message that succeeded, and the backspaces and the
  pasted text of the clipboard path.\<close>

datatype Output =
    OReplace nat wstring "16 word" bool
  | OSendKey "16 word"
  | OEdit nat wstring
  | OBackspaces nat
  | OPaste wstring
  | OGameModeRequest

record MacroUndoState =
  undoShortcut :: wstring
  expansionLength :: nat
  hasTrailingTrigger :: bool
  undoTimestamp :: "32 word"
  undoActive :: bool

text \<open>The fields \<open>vnMode\<close> (\<open>vietnameseMode_\<close>) and \<open>hostEngine\<close> (\<open>engine_\<close>) are those of the pipeline's host.\<close>

record HookEngine = Host +
  commitState :: CommitState
  previous :: wstring
  previousWidths :: "8 word list"
  autoCapState :: AutoCapState
  suppressAutoCap :: bool
  macroBuffer :: wstring
  crossCommit :: bool
  firstCharAutoCapped :: bool
  tempMacroOff :: bool
  macroUndoState :: MacroUndoState
  tempEngineOff :: bool
  digitLedWord :: bool
  synthPending :: int
  hadSynthInWord :: bool
  lastSynthSendTime :: "32 word"
  lastRealSynthTime :: "32 word"
  outputs :: "Output list"

text \<open>The engine exists from the start of the hook on.\<close>

definition engine :: "HookEngine \<Rightarrow> TypingEngine" where "engine h = the (hostEngine h)"

definition setEngine :: "TypingEngine \<Rightarrow> HookEngine \<Rightarrow> HookEngine" where "setEngine e h = h\<lparr>hostEngine := Some e\<rparr>"

definition onCommit :: "(CommitState \<Rightarrow> CommitState) \<Rightarrow> HookEngine \<Rightarrow> HookEngine" where
  "onCommit f h = h\<lparr>commitState := f (commitState h)\<rparr>"

text \<open>The defaults of \<open>IInputEngine\<close>, which the modelled engine does not override.\<close>

definition ClearContext :: "TypingEngine \<Rightarrow> TypingEngine" where "ClearContext e = e"
definition ShouldReplayCommittedKey :: "TypingEngine \<Rightarrow> wstring \<Rightarrow> wchar \<Rightarrow> bool" where
  "ShouldReplayCommittedKey e raw ch = False"
definition LastCommitWasCorrected :: "TypingEngine \<Rightarrow> bool" where "LastCommitWasCorrected e = False"

section \<open>Environment of a key\<close>

record ConfigSnapshot =
  macroEntries :: "(wstring \<times> wstring) list"
  macroPrefixIndex :: "MacroPrefixIndex option"

record KeyEnv =
  now :: "32 word"
  currentMethod :: InputMethod
  currentTable :: CodeTable
  typingConfig :: TypingConfig
  macroOn :: bool
  macroInEn :: bool
  autoCapsOn :: bool
  snapshot :: "ConfigSnapshot option"
  registry :: "HotkeyRegistry option"
  toChar :: "32 word \<Rightarrow> wchar"
  caseUp :: bufMap
  caseLow :: bufMap
  isSpaceChar :: "wchar \<Rightarrow> bool"
  isPunctChar :: "wchar \<Rightarrow> bool"
  hasTarget :: bool
  anchorCaps :: "bool option"
  passwordFocused :: bool
  effectiveTsf :: bool
  browserEnglish :: bool
  excludedHere :: bool
  lockstep :: bool
  baitPrefix :: bool
  settleMs :: "32 word"
  syncChannel :: bool
  skipEmptyChar :: bool
  gameReinject :: bool
  clipboardHost :: bool
  editCompatible :: bool
  editPasteOk :: bool
  delivers :: "nat \<Rightarrow> bool"
  retryLate :: "nat \<Rightarrow> bool"
  eventCount :: "Output \<Rightarrow> nat"

section \<open>Sending (OutputDispatcher.cpp)\<close>

definition emit :: "KeyEnv \<Rightarrow> Output \<Rightarrow> HookEngine \<Rightarrow> HookEngine" where
  "emit env o1 h = h\<lparr>outputs := outputs h @ [o1], synthPending := synthPending h + int (eventCount env o1)\<rparr>"

definition RecordSynthDispatch :: "KeyEnv \<Rightarrow> HookEngine \<Rightarrow> HookEngine" where
  "RecordSynthDispatch env h = h\<lparr>lastSynthSendTime := now env, lastRealSynthTime := now env\<rparr>"

definition noteSynthInWord :: "HookEngine \<Rightarrow> HookEngine" where
  "noteSynthInWord h = (if synthPending h > 0 then h\<lparr>hadSynthInWord := True\<rparr> else h)"

text \<open>One call of \<open>Replace\<close> on an injector.\<close>

definition injectReplace :: "KeyEnv \<Rightarrow> nat \<Rightarrow> wstring \<Rightarrow> 16 word \<Rightarrow> HookEngine \<Rightarrow> bool \<times> HookEngine" where
  "injectReplace env bs s v h =
    (let ok = delivers env (length (outputs h)) in (ok, emit env (OReplace bs s v ok) h))"

definition ReplaceRaw :: "KeyEnv \<Rightarrow> nat \<Rightarrow> wstring \<Rightarrow> HookEngine \<Rightarrow> bool \<times> HookEngine" where
  "ReplaceRaw env bs s h =
    (if bs = 0 \<and> s = [] then (True, h)
     else case injectReplace env bs s 0 h of (ok, h1) \<Rightarrow> (ok, RecordSynthDispatch env h1))"

definition SendBackspaces :: "KeyEnv \<Rightarrow> nat \<Rightarrow> HookEngine \<Rightarrow> HookEngine" where
  "SendBackspaces env n h = (if n = 0 then h else snd (ReplaceRaw env n [] h))"

definition InjectKey :: "KeyEnv \<Rightarrow> 32 word \<Rightarrow> HookEngine \<Rightarrow> HookEngine" where
  "InjectKey env v h = (emit env (OSendKey (ucast v)) h)\<lparr>lastSynthSendTime := now env\<rparr>"

definition kAsyncRenderMaxWaitMs :: nat where "kAsyncRenderMaxWaitMs = 30"

text \<open>The retry loop of the edit-message path after \<open>waited\<close> milliseconds; \<open>retryLate\<close> tells for every attempt
  whether the deadline has passed.\<close>

function retryReplace :: "KeyEnv \<Rightarrow> nat \<Rightarrow> wstring \<Rightarrow> nat \<Rightarrow> HookEngine \<Rightarrow> bool \<times> HookEngine" where
  "retryReplace env bs s waited h =
    (case injectReplace env bs s 0 h of (ok, h1) \<Rightarrow>
       if ok then (True, noteSynthInWord h1)
       else if waited \<ge> kAsyncRenderMaxWaitMs \<or> retryLate env waited then (False, h1)
       else retryReplace env bs s (waited + 1) h1)"
  by pat_completeness auto
termination by (relation "measure (\<lambda>(_, _, _, waited, _). 31 - waited)") (auto simp: kAsyncRenderMaxWaitMs_def)

declare retryReplace.simps [simp del]

definition ClipboardPaste :: "KeyEnv \<Rightarrow> wstring \<Rightarrow> HookEngine \<Rightarrow> HookEngine" where
  "ClipboardPaste env s h = (if s = [] then h else RecordSynthDispatch env (emit env (OPaste s) h))"

definition SendBackspaceEvents :: "KeyEnv \<Rightarrow> nat \<Rightarrow> HookEngine \<Rightarrow> HookEngine" where
  "SendBackspaceEvents env n h = (if n = 0 then h else RecordSynthDispatch env (emit env (OBackspaces n) h))"

definition ReplaceUnicode :: "KeyEnv \<Rightarrow> nat \<Rightarrow> wstring \<Rightarrow> 16 word \<Rightarrow> HookEngine \<Rightarrow> HookEngine" where
  "ReplaceUnicode env bs s v h =
    (if v = 0 \<and> syncChannel env then
       (case (if editCompatible env then retryReplace env bs s 0 h else (False, h)) of (replaced, h1) \<Rightarrow>
          if replaced then h1
          else noteSynthInWord (RecordSynthDispatch env (snd (injectReplace env bs s 0 h1))))
     else if clipboardHost env then
       (let n = (if v \<noteq> 0 \<and> bs > 0 then bs - 1 else bs) in
        noteSynthInWord
          (if editPasteOk env then (if n = 0 \<and> s = [] then h else emit env (OEdit n s) h)
           else ClipboardPaste env s (SendBackspaceEvents env n h)))
     else
       noteSynthInWord
         (if bs > 0 \<or> s \<noteq> [] \<or> v \<noteq> 0 then RecordSynthDispatch env (snd (injectReplace env bs s v h)) else h))"

section \<open>Small operations of the hook\<close>

definition ClearMacroBuffer :: "HookEngine \<Rightarrow> HookEngine" where
  "ClearMacroBuffer h = h\<lparr>macroBuffer := [], firstCharAutoCapped := False, crossCommit := False\<rparr>"

definition noMacroUndo :: "MacroUndoState \<Rightarrow> MacroUndoState" where
  "noMacroUndo u = u\<lparr>undoActive := False, undoShortcut := [], expansionLength := 0, hasTrailingTrigger := False\<rparr>"

definition ClearMacroUndo :: "HookEngine \<Rightarrow> HookEngine" where
  "ClearMacroUndo h = h\<lparr>macroUndoState := noMacroUndo (macroUndoState h)\<rparr>"

definition ClearWordState :: "HookEngine \<Rightarrow> HookEngine" where
  "ClearWordState h =
    (ClearMacroBuffer (onCommit ClearHistory ((setEngine (Reset (engine h)) h)\<lparr>previous := [], previousWidths := []\<rparr>)))
      \<lparr>crossCommit := False, tempMacroOff := False, hadSynthInWord := False, digitLedWord := False\<rparr>"

definition CancelCommitUndo :: "HookEngine \<Rightarrow> HookEngine" where
  "CancelCommitUndo h = onCommit Cancel h"

definition ResetComposition :: "HookEngine \<Rightarrow> HookEngine" where
  "ResetComposition h =
    (ClearMacroUndo (CancelCommitUndo (ClearWordState (setEngine (ClearContext (engine h)) h))))
      \<lparr>autoCapState := Idle, synthPending := 0, lastRealSynthTime := 0\<rparr>"

definition SetCommitUndoReady :: "KeyEnv \<Rightarrow> HookEngine \<Rightarrow> HookEngine" where
  "SetCommitUndoReady env h =
    onCommit (\<lambda>c. SetReady (now env)
      (c\<lparr>pendingTriggerCount := leadingTriggersForCurrentWord c, leadingTriggersForCurrentWord := 0,
         gapEndsInGlyph := False\<rparr>)) h"

definition newHookEngine :: "TypingConfig \<Rightarrow> HookEngine" where
  "newHookEngine cfg =
    \<lparr>vnMode = True, hostEngine = Some (newTypingEngine cfg), commitState = newCommitState, previous = [],
     previousWidths = [], autoCapState = Idle, suppressAutoCap = False, macroBuffer = [], crossCommit = False,
     firstCharAutoCapped = False, tempMacroOff = False,
     macroUndoState = \<lparr>undoShortcut = [], expansionLength = 0, hasTrailingTrigger = False, undoTimestamp = 0,
       undoActive = False\<rparr>,
     tempEngineOff = False, digitLedWord = False, synthPending = 0, hadSynthInWord = False,
     lastSynthSendTime = 0, lastRealSynthTime = 0, outputs = []\<rparr>"

end
