(* ===== verification/HookWord.thy ===== *)
theory HookWord
  imports HookState
begin

text \<open>
  The word being typed in the keyboard hook (\<open>HookEngine.cpp\<close>, \<open>HookEngineCommitUndo.cpp\<close>): replacing the
  text on the screen, letters, backspaces, commits, and the return into a committed word.
\<close>

section \<open>Replacing the shown text\<close>

definition encodedText :: "CodeTable \<Rightarrow> wstring \<Rightarrow> wstring" where
  "encodedText ct s = concat (map (\<lambda>c. encUnits (ConvertChar c ct)) s)"

definition encodedWidths :: "CodeTable \<Rightarrow> wstring \<Rightarrow> 8 word list" where
  "encodedWidths ct s = map (\<lambda>c. word_of_nat (unitCount (ConvertChar c ct))) s"

text \<open>\<open>resize(n)\<close> of a vector: entries that did not exist are zero.\<close>

definition resized :: "nat \<Rightarrow> 8 word list \<Rightarrow> 8 word list" where
  "resized n ws = take n ws @ replicate (n - length ws) 0"

definition ReplaceComposition :: "KeyEnv \<Rightarrow> wstring \<Rightarrow> 16 word \<Rightarrow> HookEngine \<Rightarrow> HookEngine" where
  "ReplaceComposition env newText v h =
    (if \<not> hasTarget env then h\<lparr>previous := newText\<rparr>
     else
       let common = commonPrefixLength (previous h) newText; ct = currentTable env in
       if ct \<noteq> Unicode then
         (let bs = sum_list (map unat (drop common (previousWidths h)));
              sent = encodedText ct (drop common newText);
              h1 = (if bs > 0 \<or> sent \<noteq> [] then snd (ReplaceRaw env bs sent h) else h) in
          h1\<lparr>previousWidths := resized common (previousWidths h) @ encodedWidths ct (drop common newText),
             previous := newText\<rparr>)
       else
         (ReplaceUnicode env (length (previous h) - common) (drop common newText) v h)\<lparr>previous := newText\<rparr>)"

text \<open>At the stage after the engine the coordinator only knows the backward edit; the other executors are
  those of the stage before it.\<close>

definition backwardEdit :: "KeyEnv \<Rightarrow> HookEngine Executors" where
  "backwardEdit env =
    \<lparr>HandleCommitUndo = (\<lambda>_ _ _ _ _ _ h. (h, CuFallthrough)), HandleMacro = (\<lambda>_ _ _ _ _ _ h. (h, MNoOp)),
     TryEscRestore = (\<lambda>_ _ _ _ _ h. (h, EscFallthrough)), ExecuteReplace = ReplaceComposition env\<rparr>"

definition DispatchCoordinator :: "KeyEnv \<Rightarrow> 32 word \<Rightarrow> 16 word \<Rightarrow> wstring \<Rightarrow> HookEngine \<Rightarrow> HookEngine" where
  "DispatchCoordinator env vkCode v composition h =
    fst (HandleKeyAtStage (hookCoordinator (backwardEdit env)) PostEngine
      \<lparr>kVk = ucast vkCode, kKeyChar = 0, kShift = False, kCapsLock = False, kCtrl = False, kAlt = False, kWin = False,
       previousRendered = previous h, engineRendered = composition, sessionRawInput = PeekRaw (engine h),
       reinjectVk = v\<rparr> (h, newOutputChannel))"

section \<open>Letters\<close>

text \<open>The first letter of a word at the start of a sentence: the letter pushed, and whether it was raised.\<close>

definition autoCapitalize :: "KeyEnv \<Rightarrow> wchar \<Rightarrow> HookEngine \<Rightarrow> wchar \<times> bool \<times> HookEngine" where
  "autoCapitalize env originalCh h =
    (if autoCapsOn env \<and> Count (engine h) = 0 \<and> \<not> suppressAutoCap h then
       (let keystrokePending = (autoCapState h = ReadyToCapitalize);
            anchorUsed = (anchorCaps env \<noteq> None);
            shouldCap = (case anchorCaps env of None \<Rightarrow> keystrokePending | Some b \<Rightarrow> b);
            refused = (shouldCap \<and> passwordFocused env);
            ch = (if shouldCap \<and> \<not> passwordFocused env then towupper originalCh else originalCh);
            autoCapped = (ch \<noteq> originalCh);
            h1 = h\<lparr>suppressAutoCap := suppressAutoCap h \<or> refused,
                   autoCapState := (if anchorUsed \<or> keystrokePending then Idle else autoCapState h),
                   firstCharAutoCapped := (if autoCapped \<and> length (macroBuffer h) = 1 then True else firstCharAutoCapped h)\<rparr>
        in (ch, autoCapped, h1))
     else (originalCh, False, h))"

definition letterOf :: "32 word \<Rightarrow> bool \<Rightarrow> bool \<Rightarrow> wchar" where
  "letterOf vkCode sh capsLock = (if sh \<noteq> capsLock then unat vkCode else towlower (unat vkCode))"

definition isSimpleAppend :: "wstring \<Rightarrow> wchar \<Rightarrow> wstring \<Rightarrow> bool" where
  "isSimpleAppend prev originalCh composition \<longleftrightarrow>
     length composition = length prev + 1 \<and> last composition = originalCh \<and> take (length prev) composition = prev"

definition HandleAlphaKey :: "KeyEnv \<Rightarrow> 32 word \<Rightarrow> bool \<Rightarrow> bool \<Rightarrow> HookEngine \<Rightarrow> bool \<times> HookEngine" where
  "HandleAlphaKey env vkCode sh capsLock h =
    (let originalCh = letterOf vkCode sh capsLock;
         (ch, autoCapped, h1) = autoCapitalize env originalCh h;
         h2 = (if Count (engine h1) = 0 \<and> previous h1 \<noteq> [] then h1\<lparr>previous := [], previousWidths := []\<rparr> else h1);
         h3 = onCommit (AppendHistory ch) h2;
         h4 = setEngine (PushChar ch (engine h3)) h3;
         composition = Peek (engine h4) in
     if \<not> autoCapped \<and> currentTable env = Unicode \<and> \<not> (hadSynthInWord h4 \<and> lockstep env) \<and> \<not> syncChannel env \<and>
        synthPending h4 = 0 \<and> isSimpleAppend (previous h4) originalCh composition
     then (False, h4\<lparr>previous := composition\<rparr>)
     else if gameReinject env \<and> \<not> isSimpleAppend (previous h4) originalCh composition \<and> \<not> autoCapped \<and>
        currentTable env = Unicode \<and> \<not> baitPrefix env \<and> \<not> skipEmptyChar env \<and> \<not> syncChannel env
     then (True, DispatchCoordinator env vkCode (ucast vkCode) composition (h4\<lparr>previous := previous h4 @ [originalCh]\<rparr>))
     else (True, DispatchCoordinator env vkCode 0 composition h4))"

text \<open>A key that the engine takes as the character \<open>ch\<close>: digits of VNI, brackets, bound punctuation.\<close>

definition pushAndShow :: "KeyEnv \<Rightarrow> 32 word \<Rightarrow> wchar \<Rightarrow> (TypingEngine \<Rightarrow> TypingEngine) \<Rightarrow> HookEngine \<Rightarrow> HookEngine" where
  "pushAndShow env vkCode ch push h =
    (let h1 = onCommit (AppendHistory ch) h; h2 = setEngine (push (engine h1)) h1 in
     DispatchCoordinator env vkCode 0 (Peek (engine h2)) h2)"

definition HandleVniDigitKey :: "KeyEnv \<Rightarrow> 32 word \<Rightarrow> HookEngine \<Rightarrow> HookEngine" where
  "HandleVniDigitKey env vkCode h = pushAndShow env vkCode (unat vkCode) (PushChar (unat vkCode)) h"

section \<open>Backspace and commit\<close>

definition shownWidth :: "KeyEnv \<Rightarrow> wstring \<Rightarrow> 8 word list \<Rightarrow> nat" where
  "shownWidth env s ws = (if currentTable env \<noteq> Unicode then sum_list (map unat ws) else length s)"

definition HandleBackspace :: "KeyEnv \<Rightarrow> HookEngine \<Rightarrow> HookEngine" where
  "HandleBackspace env h =
    (let h1 = onCommit (AppendHistory kBackspaceMarker) h; h2 = setEngine (Backspace (engine h1)) h1 in
     if Count (engine h2) > 0 then DispatchCoordinator env 0x08 0 (Peek (engine h2)) h2
     else
       let h3 = (if previous h2 \<noteq> [] then
                   (SendBackspaces env (shownWidth env (previous h2) (previousWidths h2)) h2)\<lparr>previous := [], previousWidths := []\<rparr>
                 else h2) in
       if stack (commitState h3) \<noteq> [] then SetCommitUndoReady env h3 else h3)"

definition CommitComposition :: "KeyEnv \<Rightarrow> bool \<Rightarrow> HookEngine \<Rightarrow> bool \<times> HookEngine" where
  "CommitComposition env verbatim h =
    (let wasQuickConsonant = HasActiveQuickConsonant (engine h);
         rawSnapshot = PeekRaw (engine h);
         rendered = (if verbatim then Peek (engine h) else []);
         (e1, committed0) = Commit (engine h);
         committed = (if LastCommitWasCorrected e1 \<and> verbatim then rendered else committed0);
         h1 = setEngine e1 h;
         restored = (previous h1 \<noteq> [] \<and> committed \<noteq> previous h1);
         h2 = (if restored then DispatchCoordinator env 0 0 committed h1 else h1);
         h3 = onCommit (\<lambda>c. c\<lparr>pushedToStack := False\<rparr>) h2;
         h4 = (if \<not> wasQuickConsonant \<and> inputHistory (commitState h3) \<noteq> [] then
                 onCommit (\<lambda>c. (PushEntry
                     \<lparr>history = inputHistory c, entryText = (if restored then committed else previous h3),
                      entryRaw = rawSnapshot, entryWidths = previousWidths h3,
                      extraLeadingTriggers = leadingTriggersForCurrentWord c\<rparr>
                     (c\<lparr>leadingTriggersForCurrentWord := 0\<rparr>))\<lparr>pushedToStack := True\<rparr>) h3
               else h3)
     in (restored, ClearWordState h4))"

section \<open>Return into a committed word\<close>

definition replayHistory :: "wchar list \<Rightarrow> TypingEngine \<Rightarrow> TypingEngine" where
  "replayHistory hist e = fold (\<lambda>ch e. if ch = kBackspaceMarker then Backspace e else PushChar ch e) hist e"

definition ReplayCommittedChars :: "bool \<Rightarrow> HookEngine \<Rightarrow> bool \<times> HookEngine" where
  "ReplayCommittedChars preferVisibleText h =
    (if stack (commitState h) = [] then (False, onCommit SetIdle h)
     else
       let entry = last (stack (commitState h));
           h1 = onCommit PopStackTop h;
           (e1, restored) = RestoreCommittedText (engine h1) (entryText entry) (replayHistory (history entry))
              (if preferVisibleText then VisibleText else ReplayHistory);
           h2 = setEngine e1 h1 in
       if restored = Failed then (False, onCommit SetIdle (onCommit ClearHistory h2))
       else
         (True,
          onCommit (\<lambda>c. SetIdle (c\<lparr>inputHistory := (if restored = SeededVisibleText then entryText entry else history entry),
                leadingTriggersForCurrentWord := extraLeadingTriggers entry\<rparr>))
            (h2\<lparr>previous := entryText entry, previousWidths := entryWidths entry\<rparr>)))"

datatype KeyOutcome = KeyEat | KeyPass | KeyFallthrough

definition eatIf :: "bool \<times> HookEngine \<Rightarrow> KeyOutcome \<times> HookEngine" where
  "eatIf r = ((if fst r then KeyEat else KeyPass), snd r)"

text \<open>Restoring the raw keys: of the word being typed, or of the committed word whose trigger was deleted.\<close>

definition TryEscRestoreRaw :: "KeyEnv \<Rightarrow> HookEngine \<Rightarrow> KeyOutcome \<times> HookEngine" where
  "TryEscRestoreRaw env h =
    (if Count (engine h) > 0 then
       (let raw = PeekRaw (engine h) in
        if raw = [] then (KeyFallthrough, h)
        else case injectReplace env (Count (engine h)) raw 0 h of (ok, h1) \<Rightarrow>
          if \<not> ok then (KeyFallthrough, h1)
          else (KeyEat, (ClearMacroBuffer (setEngine (Reset (engine h1)) h1))\<lparr>tempMacroOff := False\<rparr>))
     else if fsm (commitState h) \<noteq> CsPrimed \<or> stack (commitState h) = [] then (KeyFallthrough, h)
     else if now env - readyTime (commitState h) > kReadyTimeoutMs then (KeyFallthrough, CancelCommitUndo h)
     else
       let top = last (stack (commitState h)) in
       if entryRaw top = [] then (KeyFallthrough, h)
       else case injectReplace env (shownWidth env (entryText top) (entryWidths top)) (entryRaw top) 0 h of (ok, h1) \<Rightarrow>
         if \<not> ok then (KeyFallthrough, h1)
         else (KeyEat, (ClearMacroBuffer (CancelCommitUndo h1))\<lparr>tempMacroOff := False\<rparr>))"

end
