(* ===== verification/HookKeys.thy ===== *)
theory HookKeys
  imports HookWord
begin

text \<open>
  A key in the keyboard hook (\<open>HookEngine::ProcessKeyDown\<close> and the handlers it calls): the state machine of
  commit undo, macros, the restore of raw keys, and the dispatch of an ordinary key.  Modifier tracking and
  hotkeys on release are in theory \<open>Hotkeys\<close>; the synchronisation with the shared settings happens before the
  key and is part of the environment.
\<close>

section \<open>Virtual keys\<close>

definition isLetterKey :: "32 word \<Rightarrow> bool" where "isLetterKey v \<longleftrightarrow> 0x41 \<le> v \<and> v \<le> 0x5A"
definition isDigitKey :: "32 word \<Rightarrow> bool" where "isDigitKey v \<longleftrightarrow> 0x30 \<le> v \<and> v \<le> 0x39"

definition VK_BACK :: "32 word" where "VK_BACK = 0x08"
definition VK_TAB :: "32 word" where "VK_TAB = 0x09"
definition VK_RETURN :: "32 word" where "VK_RETURN = 0x0D"
definition VK_ESCAPE :: "32 word" where "VK_ESCAPE = 0x1B"
definition VK_SPACE :: "32 word" where "VK_SPACE = 0x20"
definition VK_DELETE :: "32 word" where "VK_DELETE = 0x2E"
definition VK_OEM_1 :: "32 word" where "VK_OEM_1 = 0xBA"
definition VK_OEM_3 :: "32 word" where "VK_OEM_3 = 0xC0"
definition VK_OEM_4 :: "32 word" where "VK_OEM_4 = 0xDB"
definition VK_OEM_6 :: "32 word" where "VK_OEM_6 = 0xDD"
definition VK_OEM_8 :: "32 word" where "VK_OEM_8 = 0xDF"

lemmas vk_defs = VK_BACK_def VK_TAB_def VK_RETURN_def VK_ESCAPE_def VK_SPACE_def VK_DELETE_def VK_OEM_1_def VK_OEM_3_def
  VK_OEM_4_def VK_OEM_6_def VK_OEM_8_def

definition IsOemPunctVk :: "32 word \<Rightarrow> bool" where
  "IsOemPunctVk v \<longleftrightarrow>
     (VK_OEM_1 \<le> v \<and> v \<le> VK_OEM_3) \<or> (VK_OEM_4 \<le> v \<and> v \<le> VK_OEM_8) \<or>
     v = 0xBB \<or> v = 0xBC \<or> v = 0xBD \<or> v = 0xBE"

definition IsMacroTrigger :: "KeyEnv \<Rightarrow> 32 word \<Rightarrow> bool" where
  "IsMacroTrigger env v =
    ShouldTrigger v (macroTriggerSpace (typingConfig env)) (macroTriggerEnter (typingConfig env))
      (macroTriggerTab (typingConfig env)) (macroTriggerDir (typingConfig env))"

definition ComputeModMask :: "bool \<Rightarrow> bool \<Rightarrow> bool \<Rightarrow> bool \<Rightarrow> 32 word" where
  "ComputeModMask ct sh al wi =
    (if ct then 0x01 else 0) + (if sh then 0x02 else 0) + (if al then 0x04 else 0) + (if wi then 0x08 else 0)"

definition CanonicalModifierVk :: "32 word \<Rightarrow> 32 word" where
  "CanonicalModifierVk v =
    (if v = 0xA2 \<or> v = 0xA3 then 0x11
     else if v = 0xA4 \<or> v = 0xA5 then 0x12
     else if v = 0xA0 \<or> v = 0xA1 then 0x10
     else if v = 0x5C then 0x5B
     else v)"

definition registryMatches :: "KeyEnv \<Rightarrow> HotkeyIntent \<Rightarrow> 32 word \<Rightarrow> 32 word \<Rightarrow> bool" where
  "registryMatches env i v mods =
    (case registry env of None \<Rightarrow> False | Some r \<Rightarrow> Matches r i v mods False False)"

section \<open>Commit undo (HookEngineCommitUndo.cpp)\<close>

definition noteGlyphs :: "KeyEnv \<Rightarrow> 32 word \<Rightarrow> HookEngine \<Rightarrow> HookEngine" where
  "noteGlyphs env vkCode h =
    onCommit (\<lambda>c.
      (if isLetterKey vkCode \<and> Count (engine h) = 0 then c\<lparr>wordOpenGlyph := prevKeyGlyph c\<rparr> else c)
        \<lparr>prevKeyGlyph := (if VK_OEM_1 \<le> vkCode \<and> IsCommitTrigger vkCode then toChar env vkCode else 0)\<rparr>) h"

definition cancelStale :: "KeyEnv \<Rightarrow> 32 word \<Rightarrow> bool \<Rightarrow> HookEngine \<Rightarrow> HookEngine" where
  "cancelStale env vkCode modifierHeld h =
    (let h1 = (if fsm (commitState h) \<noteq> CsIdle \<and> modifierHeld then CancelCommitUndo h else h);
         h2 = (if vkCode = VK_RETURN \<and> (fsm (commitState h1) \<noteq> CsIdle \<or> stack (commitState h1) \<noteq> [])
               then CancelCommitUndo h1 else h1)
     in if fsm (commitState h2) = CsReady \<and> now env - readyTime (commitState h2) > kReadyTimeoutMs
        then CancelCommitUndo h2 else h2)"

text \<open>A key that reaches the document through the injector, behind the pending events, or by itself.\<close>

definition passOrdered :: "KeyEnv \<Rightarrow> 32 word \<Rightarrow> nat \<Rightarrow> wstring \<Rightarrow> HookEngine \<Rightarrow> KeyOutcome \<times> HookEngine" where
  "passOrdered env vkCode bs s h =
    (if synthPending h > 0 then (KeyEat, InjectKey env vkCode h)
     else if syncChannel env then
       (case injectReplace env bs s 0 h of (ok, h1) \<Rightarrow> ((if ok then KeyEat else KeyPass), h1))
     else (KeyPass, h))"

definition readyBackspace :: "KeyEnv \<Rightarrow> HookEngine \<Rightarrow> KeyOutcome \<times> HookEngine" where
  "readyBackspace env h =
    (if pendingTriggerCount (commitState h) > 0 then (KeyPass, onCommit DecrementPendingTriggers h)
     else passOrdered env VK_BACK 1 [] (ClearMacroBuffer ((onCommit SetPrimed h)\<lparr>crossCommit := False\<rparr>)))"

definition isExemptKey :: "KeyEnv \<Rightarrow> 32 word \<Rightarrow> bool \<Rightarrow> bool" where
  "isExemptKey env vkCode sh =
    (let ch = toChar env vkCode;
         isCustomModifier = (currentMethod env = UserDefined \<and> ch \<noteq> 0 \<and> ch < 128 \<and>
           IsCommitUndoExemptAction (customKeyMap (typingConfig env) ! ch))
     in IsCommitUndoExemptKey vkCode (currentMethod env) sh (registryMatches env CancelComposition VK_ESCAPE 0) isCustomModifier)"

definition replaysWord :: "KeyEnv \<Rightarrow> 32 word \<Rightarrow> bool \<Rightarrow> bool \<Rightarrow> HookEngine \<Rightarrow> bool" where
  "replaysWord env vkCode sh capsLock h =
    (isExemptKey env vkCode sh \<or>
     isLetterKey vkCode \<and> stack (commitState h) \<noteq> [] \<and>
       ShouldReplayCommittedKey (engine h) (entryRaw (last (stack (commitState h))))
         (if sh = capsLock then towlower (unat vkCode) else unat vkCode))"

definition takesDigits :: "InputMethod \<Rightarrow> bool" where
  "takesDigits m \<longleftrightarrow> m = VNI \<or> m = Combined \<or> m = UserDefined"

text \<open>A key in the state Primed; \<open>None\<close> goes on.\<close>

definition primedKey :: "KeyEnv \<Rightarrow> 32 word \<Rightarrow> bool \<Rightarrow> bool \<Rightarrow> HookEngine \<Rightarrow> KeyOutcome option \<times> HookEngine" where
  "primedKey env vkCode sh capsLock h =
    (let replays = replaysWord env vkCode sh capsLock h in
     if synthPending h > 0 \<and> now env - lastRealSynthTime h < settleMs env \<and> \<not> replays then (None, CancelCommitUndo h)
     else if isLetterKey vkCode then
       (if \<not> replays then (Some KeyFallthrough, onCommit (SetIdle \<circ> PopStackTop) h)
        else case ReplayCommittedChars False h of (ok, h1) \<Rightarrow>
          if \<not> ok then (Some KeyPass, h1)
          else apfst Some (eatIf (HandleAlphaKey env vkCode sh capsLock h1)))
     else if takesDigits (currentMethod env) \<and> isDigitKey vkCode \<and> \<not> sh then
       (case ReplayCommittedChars False h of (ok, h1) \<Rightarrow>
          if \<not> ok \<or> Count (engine h1) = 0 then (Some KeyPass, onCommit SetIdle h1)
          else (Some KeyEat, HandleVniDigitKey env vkCode h1))
     else if vkCode = VK_BACK then
       (case ReplayCommittedChars True h of (ok, h1) \<Rightarrow>
          if \<not> ok then (Some KeyPass, h1) else (Some KeyEat, HandleBackspace env h1))
     else if \<not> isExemptKey env vkCode sh then
       (let isTrigger = IsCommitTrigger vkCode;
            ch = (if vkCode = VK_SPACE then 0x20 else if isTrigger then toChar env vkCode else 0) in
        case DecidePrimedTriggerAction isTrigger ch of
          PrimedCancel \<Rightarrow> (None, CancelCommitUndo h)
        | ReEnterReady \<Rightarrow>
            apfst Some (passOrdered env vkCode 0 [0x20]
              (onCommit (\<lambda>c. SetReady (now env) (c\<lparr>pendingTriggerCount := 0, gapEndsInGlyph := False\<rparr>)) h))
        | PrimedIdle \<Rightarrow> (None, onCommit SetIdle h))
     else (None, h))"

text \<open>A key in the state Ready.\<close>

definition startWord :: "CommitState \<Rightarrow> CommitState" where
  "startWord c = SetIdle (c\<lparr>leadingTriggersForCurrentWord := pendingTriggerCount c, pendingTriggerCount := 0,
     gapEndsInGlyph := False\<rparr>)"

definition readyKey :: "KeyEnv \<Rightarrow> 32 word \<Rightarrow> HookEngine \<Rightarrow> HookEngine" where
  "readyKey env vkCode h =
    (if fsm (commitState h) \<noteq> CsReady then h
     else if IsCaretNavigationKey vkCode \<or> vkCode = VK_DELETE then CancelCommitUndo h
     else
       let isTrigger = (IsCommitTrigger vkCode \<and> Count (engine h) = 0);
           ch = (if isTrigger then toChar env vkCode else 0) in
       case DecideReadyGapKey isTrigger ch (pendingTriggerCount (commitState h)) (gapEndsInGlyph (commitState h)) of
         TrackSpace \<Rightarrow> onCommit IncrementPendingTriggers h
       | GapCancel \<Rightarrow> CancelCommitUndo h
       | StartWord \<Rightarrow> onCommit startWord h)"

definition HandleCommitUndoFsm ::
    "KeyEnv \<Rightarrow> 32 word \<Rightarrow> bool \<Rightarrow> bool \<Rightarrow> bool \<Rightarrow> bool \<Rightarrow> HookEngine \<Rightarrow> KeyOutcome \<times> HookEngine" where
  "HandleCommitUndoFsm env vkCode vn sh capsLock modifierHeld h =
    (let h1 = cancelStale env vkCode modifierHeld (noteGlyphs env vkCode h) in
     if fsm (commitState h1) = CsReady \<and> vkCode = VK_BACK \<and> Count (engine h1) = 0 then readyBackspace env h1
     else
       case (if fsm (commitState h1) = CsPrimed \<and> Count (engine h1) = 0 \<and> vn
             then primedKey env vkCode sh capsLock h1 else (None, h1)) of
         (Some r, h2) \<Rightarrow> (r, h2)
       | (None, h2) \<Rightarrow> (KeyFallthrough, readyKey env vkCode h2))"

section \<open>Macros\<close>

datatype MacroResult = NoMatch | ExpandedEatTrigger | ExpandedPassTrigger

definition kMacroClipboardThreshold :: nat where "kMacroClipboardThreshold = 200"
definition kMaxRawMacroBuffer :: nat where "kMaxRawMacroBuffer = 128"
definition kMacroUndoTimeoutMs :: "32 word" where "kMacroUndoTimeoutMs = 4000"

text \<open>The segments of an expansion; the backspaces go with the first thing sent.\<close>

fun sendSegments :: "KeyEnv \<Rightarrow> Segment list \<Rightarrow> nat \<Rightarrow> bool \<Rightarrow> nat \<Rightarrow> HookEngine \<Rightarrow> bool \<times> nat \<times> HookEngine" where
  "sendSegments env [] bs ok len h =
    (if bs > 0 then (case ReplaceRaw env bs [] h of (ok1, h1) \<Rightarrow> (ok1 \<and> ok, len, h1)) else (ok, len, h))"
| "sendSegments env (s # ss) bs ok len h =
    (if isReturn s then
       (case (if bs > 0 then ReplaceRaw env bs [] h else (True, h)) of (ok1, h1) \<Rightarrow>
          sendSegments env ss 0 (ok1 \<and> ok) (len + 1) (InjectKey env VK_RETURN h1))
     else if segText s \<noteq> [] then
       (case ReplaceRaw env bs (segText s) h of (ok1, h1) \<Rightarrow>
          sendSegments env ss 0 (ok1 \<and> ok) (len + length (segText s)) h1)
     else sendSegments env ss bs ok len h)"

definition macroPlan :: "KeyEnv \<Rightarrow> ConfigSnapshot \<Rightarrow> wchar \<Rightarrow> HookEngine \<Rightarrow> MacroPlan" where
  "macroPlan env snap trig h =
    Plan (caseUp env) (caseLow env) (isSpaceChar env) (isPunctChar env)
      \<lparr>rawMacroBuffer = macroBuffer h, previousComposition = previous h, previousEncodedWidths = previousWidths h,
       macroTable = map_of (macroEntries snap), macroCrossCommit = crossCommit h, currentCodeTable = currentTable env,
       autoCapsEnabled = autoCapsMacro (typingConfig env), titleCaseEnabled = macroTitleCase (typingConfig env),
       wasFirstCharAutoCapped = firstCharAutoCapped h, triggerChar = trig, clipboardThreshold = kMacroClipboardThreshold\<rparr>"

definition TryExpandMacro :: "KeyEnv \<Rightarrow> ConfigSnapshot \<Rightarrow> wchar \<Rightarrow> HookEngine \<Rightarrow> MacroResult \<times> HookEngine" where
  "TryExpandMacro env snap trig h =
    (let plan = macroPlan env snap trig h in
     if \<not> matched plan then (NoMatch, h)
     else
       let (delivered, len, h1) =
             (if useClipboard plan then
                (let h1 = (if bsCount plan > 0 then snd (ReplaceRaw env (bsCount plan) [] h) else h);
                     clip = ExpandEscapesForClipboard (expansion plan) in
                 (True, length clip, ClipboardPaste env clip h1))
              else sendSegments env (BuildSegments (expansion plan) (currentTable env)) (bsCount plan) True 0 h);
           h2 = CancelCommitUndo (ClearWordState h1);
           h3 = (if macroUndoOnBackspace (typingConfig env) \<and> delivered \<and> shortcut plan \<noteq> [] \<and> trig \<ge> 0x20 \<and>
                    \<not> useClipboard plan \<and> currentTable env = Unicode \<and> CanUndoWithBackspaces (expansion plan) then
                   h2\<lparr>macroUndoState := \<lparr>undoShortcut = shortcut plan, expansionLength = len,
                        hasTrailingTrigger = (\<not> isPartOfMacro plan), undoTimestamp = now env, undoActive = True\<rparr>\<rparr>
                 else ClearMacroUndo h2)
       in ((if isPartOfMacro plan then ExpandedEatTrigger else ExpandedPassTrigger), h3))"

text \<open>What is sent at most 60 units at a time when an expansion is taken back.\<close>

function eraseChunks :: "KeyEnv \<Rightarrow> nat \<Rightarrow> HookEngine \<Rightarrow> bool \<times> HookEngine" where
  "eraseChunks env n h =
    (if n = 0 then (True, h)
     else case ReplaceRaw env (min n 60) [] h of (ok, h1) \<Rightarrow>
       if \<not> ok then (False, h1) else eraseChunks env (n - min n 60) h1)"
  by pat_completeness auto
termination by (relation "measure (\<lambda>(_, n, _). n)") auto

function sendChunks :: "KeyEnv \<Rightarrow> wstring \<Rightarrow> HookEngine \<Rightarrow> bool \<times> HookEngine" where
  "sendChunks env s h =
    (if s = [] then (True, h)
     else case ReplaceRaw env 0 (take 60 s) h of (ok, h1) \<Rightarrow>
       if \<not> ok then (False, h1) else sendChunks env (drop 60 s) h1)"
  by pat_completeness auto
termination by (relation "measure (\<lambda>(_, s, _). length s)") auto

declare eraseChunks.simps [simp del] sendChunks.simps [simp del]

definition undoMacro :: "KeyEnv \<Rightarrow> HookEngine \<Rightarrow> HookEngine" where
  "undoMacro env h =
    (let u = macroUndoState h; n = expansionLength u + (if hasTrailingTrigger u then 1 else 0);
         (ok, h1) = eraseChunks env n (ClearMacroUndo h) in
     if \<not> ok then ResetComposition h1
     else case sendChunks env (undoShortcut u) h1 of (ok2, h2) \<Rightarrow>
       if \<not> ok2 then ResetComposition h2
       else h2\<lparr>macroBuffer := undoShortcut u, crossCommit := True, tempMacroOff := True\<rparr>)"

definition appendMacroLetter :: "32 word \<Rightarrow> bool \<Rightarrow> bool \<Rightarrow> HookEngine \<Rightarrow> HookEngine" where
  "appendMacroLetter vkCode sh capsLock h =
    (let h1 = h\<lparr>macroBuffer := macroBuffer h @ [letterOf vkCode sh capsLock]\<rparr> in
     if length (macroBuffer h1) > kMaxRawMacroBuffer then ClearMacroBuffer h1 else h1)"

definition popMacroLetter :: "HookEngine \<Rightarrow> HookEngine" where
  "popMacroLetter h =
    (let h1 = h\<lparr>macroBuffer := butlast (macroBuffer h)\<rparr> in if macroBuffer h1 = [] then ClearMacroBuffer h1 else h1)"

definition endMacroWord :: "HookEngine \<Rightarrow> HookEngine" where
  "endMacroWord h = (ClearMacroBuffer h)\<lparr>tempMacroOff := False\<rparr>"

definition expandOutcome :: "KeyEnv \<Rightarrow> 32 word \<Rightarrow> MacroResult \<times> HookEngine \<Rightarrow> MacroOutcome option \<times> HookEngine" where
  "expandOutcome env vkCode r =
    (case r of
       (NoMatch, h) \<Rightarrow> (None, h)
     | (ExpandedEatTrigger, h) \<Rightarrow> (Some MEat, h)
     | (ExpandedPassTrigger, h) \<Rightarrow>
         if synthPending h > 0 then (Some MEat, InjectKey env vkCode h) else (Some MPass, h))"

definition englishMacro ::
    "KeyEnv \<Rightarrow> ConfigSnapshot \<Rightarrow> 32 word \<Rightarrow> bool \<Rightarrow> bool \<Rightarrow> 32 word \<Rightarrow> HookEngine \<Rightarrow> HookEngine \<times> MacroOutcome" where
  "englishMacro env snap vkCode sh capsLock mods h =
    (if isLetterKey vkCode then (appendMacroLetter vkCode sh capsLock h, MPass)
     else if registryMatches env SkipMacro vkCode mods \<and> macroBuffer h = [] then (h\<lparr>tempMacroOff := True\<rparr>, MPass)
     else if IsCommitTrigger vkCode \<and> \<not> tempMacroOff h then
       (let trig = toChar env vkCode;
            h1 = (if trig > 0x20 then h\<lparr>macroBuffer := macroBuffer h @ [trig]\<rparr> else h) in
        if macroBuffer h1 \<noteq> [] \<and> IsMacroTrigger env vkCode then
          (case expandOutcome env vkCode (TryExpandMacro env snap trig h1) of
             (Some out, h2) \<Rightarrow> (h2, out)
           | (None, h2) \<Rightarrow> (h2, MPass))
        else if \<not> IsMacroTrigger env vkCode then (endMacroWord h1, MPass)
        else (h1, MPass))
     else if vkCode = VK_BACK \<and> macroBuffer h \<noteq> [] then (popMacroLetter h, MPass)
     else if \<not> IsCommitTrigger vkCode then (endMacroWord h, MPass)
     else (h, MPass))"

definition vietnameseMacro ::
    "KeyEnv \<Rightarrow> ConfigSnapshot \<Rightarrow> 32 word \<Rightarrow> bool \<Rightarrow> bool \<Rightarrow> 32 word \<Rightarrow> HookEngine \<Rightarrow> HookEngine \<times> MacroOutcome" where
  "vietnameseMacro env snap vkCode sh capsLock mods h =
    (let h1 = (if isLetterKey vkCode then appendMacroLetter vkCode sh capsLock h
               else if IsCommitTrigger vkCode \<and> toChar env vkCode > 0x20
                 then h\<lparr>macroBuffer := macroBuffer h @ [toChar env vkCode]\<rparr> else h) in
     if registryMatches env SkipMacro vkCode mods \<and> Count (engine h1) = 0 \<and> macroBuffer h1 = []
     then (h1\<lparr>tempMacroOff := True\<rparr>, MPass)
     else
       case (if \<not> tempMacroOff h1 \<and> IsMacroTrigger env vkCode \<and> macroBuffer h1 \<noteq> []
             then expandOutcome env vkCode (TryExpandMacro env snap (toChar env vkCode) h1) else (None, h1)) of
         (Some out, h2) \<Rightarrow> (h2, out)
       | (None, h2) \<Rightarrow>
           if vkCode = VK_BACK \<and> macroBuffer h2 \<noteq> [] then (popMacroLetter h2, MFallthrough)
           else if IsCommitTrigger vkCode then
             (let preserve =
                (if vkCode = VK_SPACE
                 then ContainsPrefix iswupper towlower (macroPrefixIndex snap) (macroBuffer h2 @ [0x20])
                 else if IsMacroTrigger env vkCode then toChar env vkCode > 0x20 else False)
              in ((if preserve then h2 else endMacroWord h2), MFallthrough))
           else if \<not> isLetterKey vkCode then (endMacroWord h2, MFallthrough)
           else (h2, MFallthrough))"

definition noSnapshot :: ConfigSnapshot where "noSnapshot = \<lparr>macroEntries = [], macroPrefixIndex = None\<rparr>"

definition HookHandleMacro ::
    "KeyEnv \<Rightarrow> 32 word \<Rightarrow> bool \<Rightarrow> bool \<Rightarrow> bool \<Rightarrow> bool \<Rightarrow> bool \<Rightarrow> HookEngine \<Rightarrow> HookEngine \<times> MacroOutcome" where
  "HookHandleMacro env vkCode sh capsLock ct al wi h =
    (let snap = (case snapshot env of None \<Rightarrow> noSnapshot | Some s \<Rightarrow> s);
         hasMacros = (macroEntries snap \<noteq> []);
         mods = ComputeModMask ct sh al wi; u = macroUndoState h in
     if undoActive u \<and> vkCode = VK_BACK \<and> \<not> ct \<and> \<not> al \<and> \<not> wi \<and> now env - undoTimestamp u \<le> kMacroUndoTimeoutMs
     then (undoMacro env h, MEat)
     else
       let h1 = (if undoActive u \<and> vkCode \<noteq> VK_BACK then ClearMacroUndo h else h) in
       if \<not> vnMode h1 then
         (if \<not> (macroOn env \<and> macroInEn env) then (h1, MFallthrough)
          else englishMacro env snap vkCode sh capsLock mods h1)
       else if macroOn env \<and> hasMacros then vietnameseMacro env snap vkCode sh capsLock mods h1
       else (h1, MFallthrough))"

end
