(* ===== verification/HookDispatch.thy ===== *)
theory HookDispatch
  imports HookKeys
begin

text \<open>
  The dispatch of a key in the keyboard hook: \<open>TryEscRestore\<close>, \<open>RunTopGuards\<close>, \<open>HandlePreDispatch\<close>,
  \<open>DispatchKeyAction\<close> and \<open>ProcessKeyDown\<close> of \<open>HookEngine.cpp\<close>, which runs the coordinator of the pipeline with the
  hook's own executors.
\<close>

section \<open>Executors\<close>

definition HookTryEscRestore ::
    "KeyEnv \<Rightarrow> 32 word \<Rightarrow> bool \<Rightarrow> bool \<Rightarrow> bool \<Rightarrow> bool \<Rightarrow> HookEngine \<Rightarrow> HookEngine \<times> EscRestoreOutcome" where
  "HookTryEscRestore env vkCode sh ct al wi h =
    (let live = (Count (engine h) > 0); c = commitState h;
         primed = (fsm c = CsPrimed \<and> stack c \<noteq> [] \<and> entryRaw (last (stack c)) \<noteq> []) in
     if registryMatches env CancelComposition vkCode (ComputeModMask ct sh al wi) \<and> (live \<or> primed) then
       (case TryEscRestoreRaw env h of (r, h1) \<Rightarrow> (h1, if r = KeyEat then EscEat else EscFallthrough))
     else (h, EscFallthrough))"

definition HookHandleCommitUndo ::
    "KeyEnv \<Rightarrow> 32 word \<Rightarrow> bool \<Rightarrow> bool \<Rightarrow> bool \<Rightarrow> bool \<Rightarrow> bool \<Rightarrow> HookEngine \<Rightarrow> HookEngine \<times> CommitUndoOutcome" where
  "HookHandleCommitUndo env vkCode sh capsLock ct al wi h =
    (case HandleCommitUndoFsm env vkCode (vnMode h) sh capsLock (ct \<or> al \<or> wi) h of
       (r, h1) \<Rightarrow> (h1, case r of KeyEat \<Rightarrow> CuEat | KeyPass \<Rightarrow> CuPass | KeyFallthrough \<Rightarrow> CuFallthrough))"

definition hookExecutors :: "KeyEnv \<Rightarrow> HookEngine Executors" where
  "hookExecutors env =
    \<lparr>HandleCommitUndo = (\<lambda>v. HookHandleCommitUndo env (ucast v)),
     HandleMacro = (\<lambda>v. HookHandleMacro env (ucast v)),
     TryEscRestore = (\<lambda>v. HookTryEscRestore env (ucast v)),
     ExecuteReplace = ReplaceComposition env\<rparr>"

section \<open>Guards\<close>

definition isModifierVk :: "32 word \<Rightarrow> bool" where
  "isModifierVk v \<longleftrightarrow> 0xA0 \<le> v \<and> v \<le> 0xA5 \<or> v = 0x5B \<or> v = 0x5C"

definition isLockKey :: "32 word \<Rightarrow> bool" where "isLockKey v \<longleftrightarrow> v = 0x14 \<or> v = 0x90 \<or> v = 0x91"

definition RunTopGuards :: "KeyEnv \<Rightarrow> 32 word \<Rightarrow> KeyOutcome" where
  "RunTopGuards env vkCode =
    (if effectiveTsf env then KeyPass
     else if isModifierVk vkCode then KeyPass
     else if isLockKey vkCode then KeyPass
     else if browserEnglish env then KeyPass
     else if excludedHere env then KeyPass
     else KeyFallthrough)"

definition clearContextOnNav :: "32 word \<Rightarrow> HookEngine \<Rightarrow> HookEngine" where
  "clearContextOnNav vkCode h = (if IsCaretNavigationKey vkCode then setEngine (ClearContext (engine h)) h else h)"

section \<open>Before the dispatch\<close>

definition HandlePreDispatch ::
    "KeyEnv \<Rightarrow> 32 word \<Rightarrow> bool \<Rightarrow> bool \<Rightarrow> bool \<Rightarrow> bool \<Rightarrow> bool \<Rightarrow> HookEngine \<Rightarrow> KeyOutcome \<times> HookEngine" where
  "HandlePreDispatch env vkCode vn sh ct al wi h =
    (let mods = ComputeModMask ct sh al wi; plainKey = (\<not> IsModifierKey (CanonicalModifierVk vkCode)) in
     if \<not> vn then (KeyPass, h)
     else
       let h1 = (if autoCapsOn env
                 then h\<lparr>autoCapState := ComputeAutoCapStateTransition (autoCapState h) vkCode sh ct al wi\<rparr> else h) in
       if plainKey \<and> registryMatches env ToggleEnabled vkCode mods then
         (let h2 = (if Count (engine h1) > 0 then snd (CommitComposition env True h1) else h1) in
          (KeyEat, CancelCommitUndo (h2\<lparr>tempEngineOff := \<not> tempEngineOff h2\<rparr>)))
       else if plainKey \<and> registryMatches env ToggleGameMode vkCode mods then
         (KeyFallthrough, h1\<lparr>outputs := outputs h1 @ [OGameModeRequest]\<rparr>)
       else (KeyFallthrough, h1))"

section \<open>The dispatch\<close>

definition bypassEngine :: "32 word \<Rightarrow> HookEngine \<Rightarrow> HookEngine" where
  "bypassEngine vkCode h =
    clearContextOnNav vkCode
      (if IsCommitTrigger vkCode \<or> vkCode = VK_BACK \<and> Count (engine h) = 0
       then h\<lparr>tempEngineOff := False, digitLedWord := False\<rparr> else h)"

text \<open>Punctuation that the user has bound to an action: the character pushed, and its case when it is a bracket.\<close>

definition boundPunctuation ::
    "KeyEnv \<Rightarrow> 32 word \<Rightarrow> bool \<Rightarrow> bool \<Rightarrow> HookEngine \<Rightarrow> (wchar \<times> bool option) option" where
  "boundPunctuation env vkCode sh capsLock h =
    (let ch = toChar env vkCode; keyMap = customKeyMap (typingConfig env); canonical = CanonicalBracketKey ch in
     if \<not> (ch \<noteq> 0 \<and> ch < 128) then None
     else
       let action0 = keyMap ! ch;
           action = (if action0 = NoAction \<and> canonical \<noteq> ch then keyMap ! canonical else action0) in
       if action \<noteq> NoAction \<and> (Count (engine h) > 0 \<or> IsInsertTypeAction action) then
         (if (action = HornInsertO \<or> action = HornInsertU) \<and> (vkCode = VK_OEM_4 \<or> vkCode = VK_OEM_6) then
            (let key = ResolveBracketKey canonical sh capsLock in Some (character key, Some (uppercase key)))
          else Some (ch, None))
       else None)"

text \<open>The part of the macro buffer that survives a commit.\<close>

definition savedMacroBuffer :: "KeyEnv \<Rightarrow> 32 word \<Rightarrow> HookEngine \<Rightarrow> wstring" where
  "savedMacroBuffer env vkCode h =
    (case snapshot env of
       None \<Rightarrow> []
     | Some snap \<Rightarrow>
         if macroOn env \<and> macroEntries snap \<noteq> [] \<and> \<not> tempMacroOff h \<and> macroBuffer h \<noteq> [] then
           (let ch = toChar env vkCode in
            if ch > 0x20 then macroBuffer h
            else if ch = 0x20 \<and> ContainsPrefix iswupper towlower (macroPrefixIndex snap) (macroBuffer h @ [0x20])
            then macroBuffer h @ [0x20] else [])
         else [])"

definition armUndo :: "KeyEnv \<Rightarrow> 32 word \<Rightarrow> HookEngine \<Rightarrow> HookEngine" where
  "armUndo env vkCode h =
    (if \<not> pushedToStack (commitState h) then h
     else case DecideCommitUndoArm vkCode of
       UndoArm \<Rightarrow>
         (let open1 = wordOpenGlyph (commitState h) in
          if open1 \<noteq> 0 \<and> IsHostReplacedWord open1 (toChar env vkCode) then CancelCommitUndo h
          else onCommit (\<lambda>c. c\<lparr>gapEndsInGlyph := (vkCode \<noteq> VK_SPACE)\<rparr>) (SetCommitUndoReady env h))
     | UndoClear \<Rightarrow> CancelCommitUndo h
     | UndoSkip \<Rightarrow> h)"

definition commitTrigger :: "KeyEnv \<Rightarrow> 32 word \<Rightarrow> HookEngine \<Rightarrow> KeyOutcome \<times> HookEngine" where
  "commitTrigger env vkCode h =
    (let saved = savedMacroBuffer env vkCode h; savedAutoCapped = firstCharAutoCapped h;
         (restored, h1) = CommitComposition env (IsVerbatimCommitTrigger (toChar env vkCode)) h;
         h2 = clearContextOnNav vkCode h1;
         h3 = (if saved \<noteq> [] then h2\<lparr>macroBuffer := saved, crossCommit := True, firstCharAutoCapped := savedAutoCapped\<rparr> else h2);
         h4 = armUndo env vkCode h3 in
     if restored \<or> synthPending h4 > 0 then (KeyEat, InjectKey env vkCode h4)
     else if syncChannel env \<and> toChar env vkCode \<ge> 0x20 then
       (case injectReplace env 0 [toChar env vkCode] 0 h4 of (ok, h5) \<Rightarrow> ((if ok then KeyEat else KeyPass), h5))
     else (KeyPass, h4))"

definition DispatchKeyAction ::
    "KeyEnv \<Rightarrow> 32 word \<Rightarrow> bool \<Rightarrow> bool \<Rightarrow> bool \<Rightarrow> HookEngine \<Rightarrow> KeyOutcome \<times> HookEngine" where
  "DispatchKeyAction env vkCode sh capsLock modifierHeld h0 =
    (if tempEngineOff h0 then (KeyPass, bypassEngine vkCode h0)
     else if modifierHeld then (KeyPass, ResetComposition h0)
     else
       let led = DecideDigitLed \<lparr>dlVkCode = vkCode, dlShift = sh, engineEmpty = (Count (engine h0) = 0),
                   dlMethod = currentMethod env, currentlyArmed = digitLedWord h0\<rparr>;
           h = (if led = DlArm then h0\<lparr>digitLedWord := True\<rparr>
                else if led = DlReset \<or> led = DlResetAndContinue then h0\<lparr>digitLedWord := False\<rparr> else h0);
           empty = (Count (engine h) = 0) in
       if led = DlArm \<or> led = DlBypass \<or> led = DlReset then (KeyPass, h)
       else if isLetterKey vkCode then eatIf (HandleAlphaKey env vkCode sh capsLock h)
       else if currentMethod env = Telex \<and> (vkCode = VK_OEM_4 \<or> vkCode = VK_OEM_6) then
         (let key = ResolveBracketKey (if vkCode = VK_OEM_4 then L_lbracket else L_rbracket) sh capsLock in
          (KeyEat, pushAndShow env vkCode (character key) (PushKey (character key) (uppercase key)) h))
       else if takesDigits (currentMethod env) \<and> isDigitKey vkCode \<and> \<not> empty \<and> \<not> sh then
         (KeyEat, HandleVniDigitKey env vkCode h)
       else
         case (if currentMethod env = UserDefined \<and> IsOemPunctVk vkCode
               then boundPunctuation env vkCode sh capsLock h else None) of
           Some (ch, up) \<Rightarrow>
             (KeyEat, pushAndShow env vkCode ch (case up of None \<Rightarrow> PushChar ch | Some u \<Rightarrow> PushKey ch u) h)
         | None \<Rightarrow>
             if vkCode = VK_BACK \<and> \<not> empty then (KeyEat, HandleBackspace env h)
             else if vkCode = VK_ESCAPE then
               (let pend = synthPending h;
                    h1 = (if \<not> empty then ResetComposition h else setEngine (ClearContext (engine h)) h) in
                if pend > 0 then (KeyEat, InjectKey env vkCode h1) else (KeyPass, h1))
             else if IsCommitTrigger vkCode \<and> \<not> empty then commitTrigger env vkCode h
             else
               let (restored, h1) = (if \<not> empty then CommitComposition env False h else (False, h)) in
               if \<not> empty \<and> (restored \<or> synthPending h1 > 0) then (KeyEat, InjectKey env vkCode h1)
               else
                 let h2 = clearContextOnNav vkCode h1 in
                 if vkCode = VK_BACK \<and> synthPending h2 > 0 then (KeyEat, InjectKey env VK_BACK h2) else (KeyPass, h2))"

section \<open>A key\<close>

text \<open>The verdict of the batch the coordinator left: the first intent about the key decides.\<close>

fun batchVerdict :: "Intent list \<Rightarrow> bool option" where
  "batchVerdict [] = None"
| "batchVerdict (ConsumeKey # is') = Some True"
| "batchVerdict (PassThrough # is') = Some False"
| "batchVerdict (_ # is') = batchVerdict is'"

definition preEngine ::
    "KeyEnv \<Rightarrow> 32 word \<Rightarrow> bool \<Rightarrow> bool \<Rightarrow> bool \<Rightarrow> bool \<Rightarrow> bool \<Rightarrow> HookEngine \<Rightarrow> bool option \<times> HookEngine" where
  "preEngine env vkCode sh capsLock ct al wi h =
    (let (h1, ch) = HandleKeyAtStage (hookCoordinator (hookExecutors env)) PreEngine
       \<lparr>kVk = ucast vkCode, kKeyChar = 0, kShift = sh, kCapsLock = capsLock, kCtrl = ct, kAlt = al, kWin = wi,
        previousRendered = previous h, engineRendered = Peek (engine h), sessionRawInput = PeekRaw (engine h),
        reinjectVk = 0\<rparr> (h, newOutputChannel)
     in (batchVerdict (snd (DrainBatch ch)), h1))"

definition dropMacroUndo :: "KeyEnv \<Rightarrow> 32 word \<Rightarrow> bool \<Rightarrow> HookEngine \<Rightarrow> HookEngine" where
  "dropMacroUndo env vkCode modifierHeld h =
    (let u = macroUndoState h in
     if undoActive u \<and> (vkCode \<noteq> VK_BACK \<or> modifierHeld \<or> \<not> macroEnabled (typingConfig env) \<or>
        \<not> macroUndoOnBackspace (typingConfig env) \<or> now env - undoTimestamp u > kMacroUndoTimeoutMs)
     then ClearMacroUndo h else h)"

definition watchdog :: "KeyEnv \<Rightarrow> HookEngine \<Rightarrow> HookEngine" where
  "watchdog env h =
    (if synthPending h > 0 \<and> now env - lastSynthSendTime h > 500 then h\<lparr>synthPending := 0\<rparr> else h)"

definition ProcessKeyDown ::
    "KeyEnv \<Rightarrow> 32 word \<Rightarrow> bool \<Rightarrow> bool \<Rightarrow> bool \<Rightarrow> bool \<Rightarrow> bool \<Rightarrow> HookEngine \<Rightarrow> bool \<times> HookEngine" where
  "ProcessKeyDown env vkCode sh capsLock ct al wi h =
    (let h1 = dropMacroUndo env vkCode (ct \<or> al \<or> wi) h;
         h2 = (if IsReplayContextBoundary vkCode then onCommit DiscardReplayContext h1 else h1);
         h3 = (if vkCode = VK_TAB then h2\<lparr>suppressAutoCap := False\<rparr> else h2) in
     if RunTopGuards env vkCode \<noteq> KeyFallthrough then (False, h3)
     else
       let h4 = watchdog env h3 in
       if \<not> vnMode h4 \<and> fsm (commitState h4) = CsIdle \<and> \<not> undoActive (macroUndoState h4) \<and> \<not> (macroOn env \<and> macroInEn env)
       then (False, clearContextOnNav vkCode h4)
       else
         case preEngine env vkCode sh capsLock ct al wi h4 of
           (Some eaten, h5) \<Rightarrow> (eaten, h5)
         | (None, h5) \<Rightarrow>
             (case HandlePreDispatch env vkCode (vnMode h4) sh ct al wi h5 of
                (KeyEat, h6) \<Rightarrow> (True, h6)
              | (KeyPass, h6) \<Rightarrow> (False, h6)
              | (KeyFallthrough, h6) \<Rightarrow>
                  (case DispatchKeyAction env vkCode sh capsLock (ct \<or> al \<or> wi) h6 of
                     (r, h7) \<Rightarrow> (r = KeyEat, h7))))"

end
