(* ===== verification/HookDoc.thy ===== *)
theory HookDoc
  imports HookDispatch
begin

text \<open>
  The document behind the keyboard hook: what the outputs of the hook and the keys it lets pass do to the text
  before the caret, and the basic facts that the proofs about whole keys use.
\<close>

section \<open>The document\<close>

text \<open>A key that reaches the application; only letters, the space and the backspace occur.\<close>

definition nativeKey :: "bool \<Rightarrow> bool \<Rightarrow> 32 word \<Rightarrow> wstring \<Rightarrow> wstring" where
  "nativeKey sh capsLock v doc =
    (if v = VK_BACK then butlast doc
     else if isLetterKey v then doc @ [letterOf v sh capsLock]
     else if v = VK_SPACE then doc @ [0x20]
     else doc)"

definition cutBack :: "nat \<Rightarrow> wstring \<Rightarrow> wstring" where "cutBack n doc = take (length doc - n) doc"

fun applyOutput :: "bool \<Rightarrow> bool \<Rightarrow> Output \<Rightarrow> wstring \<Rightarrow> wstring" where
  "applyOutput sh capsLock (OReplace n s v ok) doc =
    (if \<not> ok then doc else cutBack n (if v = 0 then doc else nativeKey sh capsLock (ucast v) doc) @ s)"
| "applyOutput sh capsLock (OSendKey v) doc = nativeKey sh capsLock (ucast v) doc"
| "applyOutput sh capsLock (OEdit n s) doc = cutBack n doc @ s"
| "applyOutput sh capsLock (OBackspaces n) doc = cutBack n doc"
| "applyOutput sh capsLock (OPaste s) doc = doc @ s"
| "applyOutput sh capsLock OGameModeRequest doc = doc"

definition screen :: "bool \<Rightarrow> bool \<Rightarrow> HookEngine \<Rightarrow> wstring \<Rightarrow> wstring" where
  "screen sh capsLock h doc = fold (applyOutput sh capsLock) (outputs h) doc"

text \<open>A host that takes what it is sent.\<close>

definition takesAll :: "KeyEnv \<Rightarrow> bool" where
  "takesAll env \<longleftrightarrow> hasTarget env \<and> (\<forall>i. delivers env i) \<and> (clipboardHost env \<longrightarrow> \<not> gameReinject env)"

text \<open>The text as it stands in the document.\<close>

definition encoded :: "CodeTable \<Rightarrow> wstring \<Rightarrow> wstring" where
  "encoded ct s = (if ct = Unicode then s else encodedText ct s)"

definition widthsOk :: "CodeTable \<Rightarrow> HookEngine \<Rightarrow> bool" where
  "widthsOk ct h \<longleftrightarrow> ct = Unicode \<or> previousWidths h = encodedWidths ct (previous h)"

text \<open>Everything but what a replacement changes.\<close>

definition rest :: "HookEngine \<Rightarrow> HookEngine" where
  "rest h = h\<lparr>previous := [], previousWidths := [], outputs := [], synthPending := 0, hadSynthInWord := False,
     lastSynthSendTime := 0, lastRealSynthTime := 0\<rparr>"

definition flags :: "HookEngine \<Rightarrow> bool \<times> bool \<times> bool \<times> bool" where
  "flags h = (vnMode h, tempEngineOff h, digitLedWord h, undoActive (macroUndoState h))"

lemma restD:
  assumes "rest h' = rest h"
  shows "commitState h' = commitState h" "engine h' = engine h" "flags h' = flags h" "vnMode h' = vnMode h"
proof -
  note f = arg_cong[OF assms, where f = commitState] arg_cong[OF assms, where f = hostEngine]
    arg_cong[OF assms, where f = vnMode] arg_cong[OF assms, where f = tempEngineOff]
    arg_cong[OF assms, where f = digitLedWord] arg_cong[OF assms, where f = macroUndoState]
  show "commitState h' = commitState h" "engine h' = engine h" "flags h' = flags h" "vnMode h' = vnMode h"
    using f by (simp_all add: rest_def engine_def flags_def)
qed

section \<open>Sending\<close>

lemma screen_emit: "screen sh cl (emit env o1 h) d = applyOutput sh cl o1 (screen sh cl h d)"
  by (simp add: screen_def emit_def)

lemma screen_same: "outputs h' = outputs h \<Longrightarrow> screen sh cl h' d = screen sh cl h d"
  by (simp add: screen_def)

lemma outputs_same [simp]:
  "outputs (RecordSynthDispatch env h) = outputs h" "outputs (noteSynthInWord h) = outputs h"
  by (simp_all add: RecordSynthDispatch_def noteSynthInWord_def)

lemma screen_record [simp]:
  "screen sh cl (RecordSynthDispatch env h) d = screen sh cl h d"
  "screen sh cl (noteSynthInWord h) d = screen sh cl h d"
  by (rule screen_same; simp)+

lemma rest_simps [simp]:
  "rest (emit env o1 h) = rest h" "rest (RecordSynthDispatch env h) = rest h" "rest (noteSynthInWord h) = rest h"
  "rest (h\<lparr>previous := p\<rparr>) = rest h" "rest (h\<lparr>previousWidths := ws\<rparr>) = rest h"
  "rest (h\<lparr>lastSynthSendTime := t\<rparr>) = rest h" "rest (h\<lparr>synthPending := n\<rparr>) = rest h"
  by (simp_all add: rest_def emit_def RecordSynthDispatch_def noteSynthInWord_def)

lemma previous_simps [simp]:
  "previous (emit env o1 h) = previous h" "previousWidths (emit env o1 h) = previousWidths h"
  "previous (RecordSynthDispatch env h) = previous h" "previousWidths (RecordSynthDispatch env h) = previousWidths h"
  "previous (noteSynthInWord h) = previous h" "previousWidths (noteSynthInWord h) = previousWidths h"
  by (simp_all add: emit_def RecordSynthDispatch_def noteSynthInWord_def)

lemma injectReplace_ok:
  assumes "takesAll env"
  shows "injectReplace env bs s v h = (True, emit env (OReplace bs s v True) h)"
  using assms by (simp add: injectReplace_def takesAll_def Let_def)

lemma retryReplace_ok:
  assumes "takesAll env"
  shows "retryReplace env bs s w h = (True, noteSynthInWord (emit env (OReplace bs s 0 True) h))"
  by (subst retryReplace.simps) (simp add: injectReplace_ok[OF assms])

lemma cutBack_0 [simp]: "cutBack 0 d = d"
  by (simp add: cutBack_def)

lemma cutBack_append: "cutBack (length s) (d @ s) = d"
  by (simp add: cutBack_def)

lemma ReplaceRaw_facts:
  assumes "takesAll env"
  shows "screen sh cl (snd (ReplaceRaw env bs s h)) d = cutBack bs (screen sh cl h d) @ s"
    "rest (snd (ReplaceRaw env bs s h)) = rest h"
    "previous (snd (ReplaceRaw env bs s h)) = previous h" "previousWidths (snd (ReplaceRaw env bs s h)) = previousWidths h"
  by (auto simp: ReplaceRaw_def injectReplace_ok[OF assms] screen_emit)

lemma SendBackspaces_facts:
  assumes "takesAll env"
  shows "screen sh cl (SendBackspaces env n h) d = cutBack n (screen sh cl h d)"
    "rest (SendBackspaces env n h) = rest h"
    "previous (SendBackspaces env n h) = previous h" "previousWidths (SendBackspaces env n h) = previousWidths h"
  by (auto simp: SendBackspaces_def ReplaceRaw_facts[OF assms])

lemma InjectKey_facts:
  "screen sh cl (InjectKey env v h) d = nativeKey sh cl (ucast (ucast v :: 16 word)) (screen sh cl h d)"
  "rest (InjectKey env v h) = rest h"
  "previous (InjectKey env v h) = previous h" "previousWidths (InjectKey env v h) = previousWidths h"
  by (simp_all add: InjectKey_def screen_emit screen_same[of "_\<lparr>lastSynthSendTime := _\<rparr>"])

lemma ReplaceUnicode_facts:
  assumes "takesAll env" "v \<noteq> 0 \<longrightarrow> gameReinject env"
  shows "screen sh cl (ReplaceUnicode env bs s v h) d =
      cutBack bs (if v = 0 then screen sh cl h d else nativeKey sh cl (ucast v) (screen sh cl h d)) @ s"
    "rest (ReplaceUnicode env bs s v h) = rest h"
    "previous (ReplaceUnicode env bs s v h) = previous h" "previousWidths (ReplaceUnicode env bs s v h) = previousWidths h"
proof -
  have clip: "clipboardHost env \<Longrightarrow> v = 0" using assms by (auto simp: takesAll_def)
  show "screen sh cl (ReplaceUnicode env bs s v h) d =
      cutBack bs (if v = 0 then screen sh cl h d else nativeKey sh cl (ucast v) (screen sh cl h d)) @ s"
    using clip
    by (auto simp: ReplaceUnicode_def retryReplace_ok[OF assms(1)] injectReplace_ok[OF assms(1)] screen_emit Let_def
        ClipboardPaste_def SendBackspaceEvents_def)
  show "rest (ReplaceUnicode env bs s v h) = rest h"
    "previous (ReplaceUnicode env bs s v h) = previous h" "previousWidths (ReplaceUnicode env bs s v h) = previousWidths h"
    by (auto simp: ReplaceUnicode_def retryReplace_ok[OF assms(1)] injectReplace_ok[OF assms(1)] Let_def
        ClipboardPaste_def SendBackspaceEvents_def)
qed

section \<open>Replacing the shown text\<close>

lemma unitCount_ConvertChar: "unitCount (ConvertChar c ct) = 1 \<or> unitCount (ConvertChar c ct) = 2"
proof -
  have lohi: "unitCount (DecodeLoHi v) = 1 \<or> unitCount (DecodeLoHi v) = 2" for v
    by (simp add: DecodeLoHi_def single_def Let_def)
  have compound: "unitCount (DecodeCompound v) = 1 \<or> unitCount (DecodeCompound v) = 2" for v
    by (simp add: DecodeCompound_def single_def Let_def)
  show ?thesis
    by (cases ct) (use lohi compound in \<open>auto simp: ConvertChar_def single_def split: option.split\<close>)
qed

lemma encodedWidths_sum: "sum_list (map unat (encodedWidths ct s)) = length (encodedText ct s)"
proof (induction s)
  case (Cons c s)
  have "unat (word_of_nat (unitCount (ConvertChar c ct)) :: 8 word) = length (encUnits (ConvertChar c ct))"
    using unitCount_ConvertChar[of c ct] by (auto simp: encUnits_def)
  then show ?case using Cons by (simp add: encodedWidths_def encodedText_def)
qed (simp add: encodedWidths_def encodedText_def)

lemma encodedText_append: "encodedText ct (s @ t) = encodedText ct s @ encodedText ct t"
  by (simp add: encodedText_def)

lemma encoded_append: "encoded ct (s @ t) = encoded ct s @ encoded ct t"
  by (simp add: encoded_def encodedText_append)

lemma encoded_Nil [simp]: "encoded ct [] = []"
  by (simp add: encoded_def encodedText_def)

lemma commonPrefixLength_le:
  "commonPrefixLength s t \<le> length s" "commonPrefixLength s t \<le> length t"
  by (induction s t rule: commonPrefixLength.induct) auto

text \<open>A replacement, alone or behind the key \<open>v\<close> sent again.\<close>

lemma ReplaceComposition_facts:
  fixes h :: HookEngine
  assumes "takesAll env" "widthsOk (currentTable env) h" "v \<noteq> 0 \<longrightarrow> gameReinject env \<and> currentTable env = Unicode"
    and shown: "(if v = 0 then screen sh cl h d else nativeKey sh cl (ucast v) (screen sh cl h d)) = pre @ encoded (currentTable env) (previous h)"
  shows "screen sh cl (ReplaceComposition env new v h) d = pre @ encoded (currentTable env) new \<and>
    widthsOk (currentTable env) (ReplaceComposition env new v h) \<and> previous (ReplaceComposition env new v h) = new \<and>
    rest (ReplaceComposition env new v h) = rest h"
proof -
  define k where "k = commonPrefixLength (previous h) new"
  have k: "take k (previous h) = take k new" "k \<le> length (previous h)" "k \<le> length new"
    using commonPrefixLength_take[of "previous h" new] commonPrefixLength_le[of "previous h" new] by (simp_all add: k_def)
  have old: "previous h = take k new @ drop k (previous h)" using k(1) append_take_drop_id[of k "previous h"] by simp
  have new: "new = take k new @ drop k new" by simp
  have target: "hasTarget env" using assms(1) by (simp add: takesAll_def)
  show ?thesis
  proof (cases "currentTable env = Unicode")
    case True
    let ?doc = "if v = 0 then screen sh cl h d else nativeKey sh cl (ucast v) (screen sh cl h d)"
    have "?doc = (pre @ take k new) @ drop k (previous h)"
      using shown old True by (simp add: encoded_def)
    then have "cutBack (length (previous h) - k) ?doc = pre @ take k new"
      using cutBack_append[of "drop k (previous h)" "pre @ take k new"] by (simp del: append_assoc)
    then have "cutBack (length (previous h) - k) ?doc @ drop k new = pre @ new" by simp
    moreover have "v \<noteq> 0 \<longrightarrow> gameReinject env" using assms(3) by simp
    ultimately show ?thesis
      using True target
      by (simp add: ReplaceComposition_def k_def[symmetric] Let_def encoded_def widthsOk_def
          screen_same[of "_\<lparr>previous := _\<rparr>"] ReplaceUnicode_facts[OF assms(1)])
  next
    case False
    define ws where "ws = encodedWidths (currentTable env)"
    have v: "v = 0" using assms(3) False by blast
    have widths: "previousWidths h = ws (previous h)" using assms(2) False by (simp add: widthsOk_def ws_def)
    have drops: "drop k (ws s) = ws (drop k s)" "take k (ws s) = ws (take k s)" "length (ws s) = length s" for s
      by (simp_all add: ws_def encodedWidths_def drop_map take_map)
    have resize: "resized k (previousWidths h) @ encodedWidths (currentTable env) (drop k new) = encodedWidths (currentTable env) new"
    proof -
      have "resized k (previousWidths h) = ws (take k new)" using k by (simp add: resized_def widths drops)
      then show ?thesis using new by (simp add: ws_def encodedWidths_def flip: map_append)
    qed
    have bs: "sum_list (map unat (drop k (previousWidths h))) = length (encodedText (currentTable env) (drop k (previous h)))"
      by (simp add: widths drops) (simp add: ws_def encodedWidths_sum)
    have "screen sh cl h d = (pre @ encodedText (currentTable env) (take k new)) @ encodedText (currentTable env) (drop k (previous h))"
      using shown v old False by (simp add: encoded_def encodedText_append[symmetric])
    then have cut: "cutBack (length (encodedText (currentTable env) (drop k (previous h)))) (screen sh cl h d) =
        pre @ encodedText (currentTable env) (take k new)"
      by (simp only: cutBack_append)
    have both: "encodedText (currentTable env) (take k new) @ encodedText (currentTable env) (drop k new) = encodedText (currentTable env) new"
      by (simp add: encodedText_append[symmetric])
    show ?thesis
      using False target cut both resize
      by (auto simp: ReplaceComposition_def k_def[symmetric] Let_def encoded_def bs ReplaceRaw_facts[OF assms(1)] widthsOk_def
          screen_same[of "_\<lparr>previousWidths := _, previous := _\<rparr>"])
  qed
qed

end
