(* ===== verification/HookTyping.thy ===== *)
theory HookTyping
  imports HookDoc
begin

text \<open>
  One operation of the hook at a time: what a letter, a backspace, a commit and the return into a committed
  word do to the engine, to the text the hook believes is shown, and to the document.
\<close>

section \<open>Field access\<close>

lemma hook_fields [simp]:
  "commitState (onCommit f h) = f (commitState h)" "commitState (setEngine e h) = commitState h"
  "engine (onCommit f h) = engine h" "engine (setEngine e h) = e"
  "flags (onCommit f h) = flags h" "flags (setEngine e h) = flags h"
  "previous (onCommit f h) = previous h" "previous (setEngine e h) = previous h"
  "previousWidths (onCommit f h) = previousWidths h" "previousWidths (setEngine e h) = previousWidths h"
  "outputs (onCommit f h) = outputs h" "outputs (setEngine e h) = outputs h"
  "synthPending (onCommit f h) = synthPending h" "synthPending (setEngine e h) = synthPending h"
  "vnMode (onCommit f h) = vnMode h" "vnMode (setEngine e h) = vnMode h"
  by (simp_all add: onCommit_def setEngine_def engine_def flags_def)

lemma screen_fields [simp]:
  "screen sh cl (onCommit f h) d = screen sh cl h d" "screen sh cl (setEngine e h) d = screen sh cl h d"
  "screen sh cl (h\<lparr>previous := p\<rparr>) d = screen sh cl h d"
  "screen sh cl (h\<lparr>previousWidths := ws\<rparr>) d = screen sh cl h d"
  "screen sh cl (h\<lparr>autoCapState := a\<rparr>) d = screen sh cl h d"
  "screen sh cl (h\<lparr>suppressAutoCap := b\<rparr>) d = screen sh cl h d"
  "screen sh cl (h\<lparr>firstCharAutoCapped := b\<rparr>) d = screen sh cl h d"
  "screen sh cl (h\<lparr>macroBuffer := s\<rparr>) d = screen sh cl h d"
  "screen sh cl (h\<lparr>crossCommit := b\<rparr>) d = screen sh cl h d"
  "screen sh cl (h\<lparr>synthPending := n\<rparr>) d = screen sh cl h d"
  by (rule screen_same; simp)+

lemma engine_fields [simp]:
  "engine (h\<lparr>previous := p\<rparr>) = engine h" "engine (h\<lparr>previousWidths := ws\<rparr>) = engine h"
  "engine (h\<lparr>autoCapState := a\<rparr>) = engine h" "engine (h\<lparr>suppressAutoCap := b\<rparr>) = engine h"
  "engine (h\<lparr>firstCharAutoCapped := b\<rparr>) = engine h" "engine (h\<lparr>macroBuffer := s\<rparr>) = engine h"
  "engine (h\<lparr>crossCommit := b\<rparr>) = engine h" "engine (h\<lparr>synthPending := n\<rparr>) = engine h"
  "engine (h\<lparr>outputs := os\<rparr>) = engine h"
  by (simp_all add: engine_def)

lemma flags_fields [simp]:
  "flags (h\<lparr>previous := p\<rparr>) = flags h" "flags (h\<lparr>previousWidths := ws\<rparr>) = flags h"
  "flags (h\<lparr>autoCapState := a\<rparr>) = flags h" "flags (h\<lparr>suppressAutoCap := b\<rparr>) = flags h"
  "flags (h\<lparr>firstCharAutoCapped := b\<rparr>) = flags h" "flags (h\<lparr>macroBuffer := s\<rparr>) = flags h"
  "flags (h\<lparr>crossCommit := b\<rparr>) = flags h" "flags (h\<lparr>synthPending := n\<rparr>) = flags h"
  "flags (h\<lparr>outputs := os\<rparr>) = flags h"
  by (simp_all add: flags_def)

lemma Peek_Count_0: "Count e = 0 \<Longrightarrow> Peek e = []"
  by (simp add: Count_def Peek_def ComposeAll_def)

lemma Reset_engine [simp]: "Count (Reset e) = 0" "Peek (Reset e) = []"
  by (simp_all add: Count_def Peek_def ComposeAll_def Reset_def)

section \<open>The coordinator at the stage after the engine\<close>

lemma DispatchCoordinator_eq:
  "DispatchCoordinator env vkCode v composition h = (if vnMode h then ReplaceComposition env composition v h else h)"
proof -
  let ?co = "hookCoordinator (backwardEdit env)"
  have "GateMaskFor EnglishBias AND EvaluateGatesAll ?co ctx h \<noteq> 0 \<longleftrightarrow> \<not> vnMode h" for ctx
    by (rule hook_English_gate)
  then show ?thesis
    unfolding DispatchCoordinator_def HandleKeyAtStage_def hookCoordinator_buckets
    by (cases "vnMode h") (simp_all add: BackwardEditFeature_def BackwardEditFeature_Try_def backwardEdit_def and.commute)
qed

text \<open>What the document shows behind \<open>pre\<close> is what the hook believes, encoded in the code table.\<close>

definition shows1 :: "CodeTable \<Rightarrow> wstring \<Rightarrow> HookEngine \<Rightarrow> wstring \<Rightarrow> bool" where
  "shows1 ct pre h doc \<longleftrightarrow> doc = pre @ encoded ct (previous h) \<and> widthsOk ct h"

lemma DispatchCoordinator_facts:
  assumes "takesAll env" "vnMode h" "v \<noteq> 0 \<longrightarrow> gameReinject env \<and> currentTable env = Unicode"
    and "shows1 (currentTable env) pre h (if v = 0 then screen sh cl h d else nativeKey sh cl (ucast v) (screen sh cl h d))"
  shows "shows1 (currentTable env) pre (DispatchCoordinator env k v new h) (screen sh cl (DispatchCoordinator env k v new h) d) \<and>
    previous (DispatchCoordinator env k v new h) = new \<and> rest (DispatchCoordinator env k v new h) = rest h"
proof -
  have widths: "widthsOk (currentTable env) h" and
    doc: "(if v = 0 then screen sh cl h d else nativeKey sh cl (ucast v) (screen sh cl h d)) = pre @ encoded (currentTable env) (previous h)"
    using assms(4) by (auto simp: shows1_def)
  show ?thesis
    using ReplaceComposition_facts[OF assms(1) widths assms(3) doc, of new] assms(2)
    by (auto simp: DispatchCoordinator_eq shows1_def)
qed

section \<open>A letter\<close>

lemma autoCapitalize_facts:
  assumes "autoCapitalize env c h = (ch, capped, h1)"
  shows "commitState h1 = commitState h" "engine h1 = engine h" "flags h1 = flags h" "vnMode h1 = vnMode h"
    "previous h1 = previous h" "previousWidths h1 = previousWidths h" "outputs h1 = outputs h"
    "\<not> capped \<Longrightarrow> ch = c"
  using assms by (auto simp: autoCapitalize_def Let_def split: if_splits)

lemma letter_ucast:
  assumes "isLetterKey v"
  shows "ucast (ucast v :: 16 word) = v" "(ucast v :: 16 word) \<noteq> 0"
proof -
  have v: "unat v \<le> 0x5A" "unat v \<ge> 0x41" using assms by (auto simp: isLetterKey_def word_le_nat_alt)
  have u: "unat (ucast v :: 16 word) = unat v" using v by (simp add: unsigned_ucast_eq unsigned_take_bit_eq take_bit_nat_eq_self)
  then show "ucast (ucast v :: 16 word) = v" using v by (simp add: word_unat_eq_iff unsigned_ucast_eq unsigned_take_bit_eq take_bit_nat_eq_self)
  show "(ucast v :: 16 word) \<noteq> 0" using u v by auto
qed

lemma shows1_native:
  assumes "isLetterKey v" "shows1 Unicode pre h doc"
  shows "shows1 Unicode pre (h\<lparr>previous := previous h @ [letterOf v sh cl]\<rparr>) (nativeKey sh cl v doc)"
  using assms by (auto simp: shows1_def encoded_def widthsOk_def nativeKey_def isLetterKey_def VK_BACK_def)

lemma simpleAppend_eq: "isSimpleAppend prev c composition \<Longrightarrow> composition = prev @ [c]"
  unfolding isSimpleAppend_def by (metis append_butlast_last_id butlast_conv_take diff_add_inverse2 length_0_conv nat.simps(3) Suc_eq_plus1)

lemma HandleAlphaKey_facts:
  assumes "takesAll env" "isLetterKey v" "vnMode h" "Peek (engine h) = previous h"
    and "shows1 (currentTable env) pre h (screen sh cl h d)"
  shows "\<exists>ch. case HandleAlphaKey env v sh cl h of (eaten, h') \<Rightarrow>
    shows1 (currentTable env) pre h' (if eaten then screen sh cl h' d else nativeKey sh cl v (screen sh cl h' d)) \<and>
    Peek (engine h') = previous h' \<and> engine h' = PushChar ch (engine h) \<and>
    commitState h' = AppendHistory ch (commitState h) \<and> flags h' = flags h"
proof -
  obtain ch capped h1 where cap: "autoCapitalize env (letterOf v sh cl) h = (ch, capped, h1)" by (metis prod_cases3)
  note c = autoCapitalize_facts[OF cap]
  have skip: "(if Count (engine h1) = 0 \<and> previous h1 \<noteq> [] then h1\<lparr>previous := [], previousWidths := []\<rparr> else h1) = h1"
    using c assms(4) Peek_Count_0 by auto
  define h4 where "h4 = setEngine (PushChar ch (engine h1)) (onCommit (AppendHistory ch) h1)"
  define new where "new = Peek (PushChar ch (engine h))"
  have f: "previous h4 = previous h" "previousWidths h4 = previousWidths h" "vnMode h4" "engine h4 = PushChar ch (engine h)"
    "commitState h4 = AppendHistory ch (commitState h)" "flags h4 = flags h" "outputs h4 = outputs h"
    using c assms(3) by (simp_all add: h4_def)
  have doc4: "screen sh cl h4 d = screen sh cl h d" by (rule screen_same) (rule f)
  have s4: "shows1 (currentTable env) pre h4 (screen sh cl h4 d)"
    using assms(5) f doc4 by (simp add: shows1_def widthsOk_def)
  have run: "HandleAlphaKey env v sh cl h =
    (if \<not> capped \<and> currentTable env = Unicode \<and> \<not> (hadSynthInWord h4 \<and> lockstep env) \<and> \<not> syncChannel env \<and>
        synthPending h4 = 0 \<and> isSimpleAppend (previous h4) (letterOf v sh cl) new
     then (False, h4\<lparr>previous := new\<rparr>)
     else if gameReinject env \<and> \<not> isSimpleAppend (previous h4) (letterOf v sh cl) new \<and> \<not> capped \<and>
        currentTable env = Unicode \<and> \<not> baitPrefix env \<and> \<not> skipEmptyChar env \<and> \<not> syncChannel env
     then (True, DispatchCoordinator env v (ucast v) new (h4\<lparr>previous := previous h4 @ [letterOf v sh cl]\<rparr>))
     else (True, DispatchCoordinator env v 0 new h4))"
    unfolding HandleAlphaKey_def Let_def cap prod.case skip by (simp add: c(2) h4_def new_def)
  then have "HandleAlphaKey env v sh cl h = (False, h4\<lparr>previous := new\<rparr>) \<and> currentTable env = Unicode \<and>
        isSimpleAppend (previous h4) (letterOf v sh cl) new \<or>
      HandleAlphaKey env v sh cl h =
        (True, DispatchCoordinator env v (ucast v) new (h4\<lparr>previous := previous h4 @ [letterOf v sh cl]\<rparr>)) \<and>
        currentTable env = Unicode \<and> gameReinject env \<or>
      HandleAlphaKey env v sh cl h = (True, DispatchCoordinator env v 0 new h4)"
    by (simp only: split: if_split) blast
  then consider (append) "currentTable env = Unicode" "new = previous h4 @ [letterOf v sh cl]"
      "HandleAlphaKey env v sh cl h = (False, h4\<lparr>previous := new\<rparr>)"
    | (again) "currentTable env = Unicode" "gameReinject env"
      "HandleAlphaKey env v sh cl h =
        (True, DispatchCoordinator env v (ucast v) new (h4\<lparr>previous := previous h4 @ [letterOf v sh cl]\<rparr>))"
    | (edit) "HandleAlphaKey env v sh cl h = (True, DispatchCoordinator env v 0 new h4)"
    using simpleAppend_eq by blast
  then show ?thesis
  proof cases
    case append
    have "shows1 (currentTable env) pre (h4\<lparr>previous := new\<rparr>) (nativeKey sh cl v (screen sh cl h4 d))"
      using shows1_native[OF assms(2), of pre h4] s4 append by simp
    then show ?thesis using append f by (auto simp: new_def intro!: exI[of _ ch])
  next
    case again
    let ?h = "h4\<lparr>previous := previous h4 @ [letterOf v sh cl]\<rparr>"
    have "shows1 (currentTable env) pre ?h (nativeKey sh cl v (screen sh cl ?h d))"
      using shows1_native[OF assms(2), of pre h4] s4 again by simp
    then have "shows1 (currentTable env) pre (DispatchCoordinator env v (ucast v) new ?h)
        (screen sh cl (DispatchCoordinator env v (ucast v) new ?h) d) \<and>
      previous (DispatchCoordinator env v (ucast v) new ?h) = new \<and> rest (DispatchCoordinator env v (ucast v) new ?h) = rest ?h"
      using DispatchCoordinator_facts[OF assms(1), of ?h "ucast v"] again f letter_ucast[OF assms(2)] by simp
    moreover from this restD[of "DispatchCoordinator env v (ucast v) new ?h" ?h]
    have "engine (DispatchCoordinator env v (ucast v) new ?h) = engine h4 \<and>
        commitState (DispatchCoordinator env v (ucast v) new ?h) = commitState h4 \<and>
        flags (DispatchCoordinator env v (ucast v) new ?h) = flags h4"
      by simp
    ultimately show ?thesis using again f by (auto simp: new_def intro!: exI[of _ ch])
  next
    case edit
    have "shows1 (currentTable env) pre (DispatchCoordinator env v 0 new h4)
        (screen sh cl (DispatchCoordinator env v 0 new h4) d) \<and>
      previous (DispatchCoordinator env v 0 new h4) = new \<and> rest (DispatchCoordinator env v 0 new h4) = rest h4"
      using DispatchCoordinator_facts[OF assms(1), of h4 0] s4 f by simp
    moreover from this restD[of "DispatchCoordinator env v 0 new h4" h4]
    have "engine (DispatchCoordinator env v 0 new h4) = engine h4 \<and>
        commitState (DispatchCoordinator env v 0 new h4) = commitState h4 \<and> flags (DispatchCoordinator env v 0 new h4) = flags h4"
      by simp
    ultimately show ?thesis using edit f by (auto simp: new_def intro!: exI[of _ ch])
  qed
qed

section \<open>A backspace\<close>

lemma shownWidth_eq:
  assumes "widthsOk (currentTable env) h"
  shows "shownWidth env (previous h) (previousWidths h) = length (encoded (currentTable env) (previous h))"
  using assms by (auto simp: shownWidth_def encoded_def widthsOk_def encodedWidths_sum)

lemma HandleBackspace_facts:
  assumes "takesAll env" "vnMode h" "Peek (engine h) = previous h" "shows1 (currentTable env) pre h (screen sh cl h d)"
  shows "let h' = HandleBackspace env h; c = AppendHistory kBackspaceMarker (commitState h) in
    shows1 (currentTable env) pre h' (screen sh cl h' d) \<and> Peek (engine h') = previous h' \<and>
    engine h' = Backspace (engine h) \<and> flags h' = flags h \<and>
    commitState h' = (if Count (engine h') = 0 \<and> stack c \<noteq> [] then
        SetReady (now env) (c\<lparr>pendingTriggerCount := leadingTriggersForCurrentWord c, leadingTriggersForCurrentWord := 0,
          gapEndsInGlyph := False\<rparr>) else c)"
proof -
  define h2 where "h2 = setEngine (Backspace (engine h)) (onCommit (AppendHistory kBackspaceMarker) h)"
  define e where "e = Backspace (engine h)"
  have f: "previous h2 = previous h" "previousWidths h2 = previousWidths h" "vnMode h2" "engine h2 = e"
    "commitState h2 = AppendHistory kBackspaceMarker (commitState h)" "flags h2 = flags h" "outputs h2 = outputs h"
    using assms(2) by (simp_all add: h2_def e_def)
  have s2: "shows1 (currentTable env) pre h2 (screen sh cl h2 d)"
    using assms(4) f by (simp add: shows1_def widthsOk_def screen_def)
  show ?thesis
  proof (cases "Count e > 0")
    case True
    let ?h = "DispatchCoordinator env 0x08 0 (Peek e) h2"
    have run: "HandleBackspace env h = ?h"
      using True f(4) by (simp add: HandleBackspace_def h2_def e_def)
    have "shows1 (currentTable env) pre ?h (screen sh cl ?h d) \<and> previous ?h = Peek e \<and> rest ?h = rest h2"
      using DispatchCoordinator_facts[OF assms(1), of h2 0] s2 f by simp
    moreover from this restD[of ?h h2] have "engine ?h = e \<and> commitState ?h = commitState h2 \<and> flags ?h = flags h2"
      using f by simp
    ultimately show ?thesis using True f unfolding run by (simp add: Let_def e_def)
  next
    case False
    define h3 where "h3 = (if previous h2 \<noteq> [] then
        (SendBackspaces env (shownWidth env (previous h2) (previousWidths h2)) h2)\<lparr>previous := [], previousWidths := []\<rparr> else h2)"
    have run: "HandleBackspace env h = (if stack (commitState h3) \<noteq> [] then SetCommitUndoReady env h3 else h3)"
      using False f(4) by (simp add: HandleBackspace_def h2_def[symmetric] h3_def e_def Let_def)
    have doc: "screen sh cl h2 d = pre @ encoded (currentTable env) (previous h2)" "widthsOk (currentTable env) h2"
      using s2 by (auto simp: shows1_def)
    have "screen sh cl h3 d = pre" "previous h3 = []" "rest h3 = rest h2" "widthsOk (currentTable env) h3"
      using doc
      by (auto simp: h3_def SendBackspaces_facts[OF assms(1)] shownWidth_eq cutBack_append widthsOk_def encodedWidths_def)
    moreover from this restD[of h3 h2] have "engine h3 = e \<and> commitState h3 = commitState h2 \<and> flags h3 = flags h2"
      using f by simp
    ultimately show ?thesis
      unfolding run using False f Peek_Count_0[of e]
      by (simp add: Let_def e_def shows1_def SetCommitUndoReady_def widthsOk_def)
  qed
qed

section \<open>A commit\<close>

lemma ClearWordState_facts:
  "screen sh cl (ClearWordState h) d = screen sh cl h d" "previous (ClearWordState h) = []"
  "Peek (engine (ClearWordState h)) = []" "Count (engine (ClearWordState h)) = 0"
  "previousWidths (ClearWordState h) = []"
  "commitState (ClearWordState h) = ClearHistory (commitState h)"
  "flags (ClearWordState h) = (let (a, b, _, c) = flags h in (a, b, False, c))"
  by (simp_all add: ClearWordState_def ClearMacroBuffer_def screen_def engine_def setEngine_def onCommit_def flags_def
      Count_def Peek_def ComposeAll_def Reset_def)

definition pushOf :: "wstring \<Rightarrow> wstring \<Rightarrow> 8 word list \<Rightarrow> CommitState \<Rightarrow> CommitState" where
  "pushOf text1 raw ws c =
    (PushEntry \<lparr>history = inputHistory c, entryText = text1, entryRaw = raw, entryWidths = ws,
        extraLeadingTriggers = leadingTriggersForCurrentWord c\<rparr> (c\<lparr>leadingTriggersForCurrentWord := 0\<rparr>))\<lparr>pushedToStack := True\<rparr>"

lemma CommitComposition_facts:
  assumes "takesAll env" "vnMode h" "Peek (engine h) = previous h" "shows1 (currentTable env) pre h (screen sh cl h d)"
    "\<not> digitLedWord h"
  shows "\<exists>T ws. case CommitComposition env verbatim h of (restored, h') \<Rightarrow>
    screen sh cl h' d = pre @ encoded (currentTable env) T \<and>
    (currentTable env = Unicode \<or> ws = encodedWidths (currentTable env) T) \<and>
    previous h' = [] \<and> previousWidths h' = [] \<and> Peek (engine h') = [] \<and> Count (engine h') = 0 \<and> flags h' = flags h \<and>
    commitState h' = ClearHistory
      (if \<not> HasActiveQuickConsonant (engine h) \<and> inputHistory (commitState h) \<noteq> []
       then pushOf T (PeekRaw (engine h)) ws ((commitState h)\<lparr>pushedToStack := False\<rparr>)
       else (commitState h)\<lparr>pushedToStack := False\<rparr>)"
proof -
  obtain e1 committed where co: "Commit (engine h) = (e1, committed)" by force
  define h1 where "h1 = setEngine e1 h"
  define restored where "restored = (previous h \<noteq> [] \<and> committed \<noteq> previous h)"
  define h2 where "h2 = (if restored then DispatchCoordinator env 0 0 committed h1 else h1)"
  define T where "T = (if restored then committed else previous h)"
  have s1: "shows1 (currentTable env) pre h1 (screen sh cl h1 d)" using assms(4) by (simp add: h1_def shows1_def widthsOk_def)
  have h2: "shows1 (currentTable env) pre h2 (screen sh cl h2 d) \<and> previous h2 = T \<and> rest h2 = rest h1"
    using DispatchCoordinator_facts[OF assms(1), of h1 0 pre sh cl d 0 committed] s1 assms(2)
    by (auto simp: h2_def T_def h1_def)
  from this restD[of h2 h1] have r: "commitState h2 = commitState h \<and> flags h2 = flags h" by (simp add: h1_def)
  let ?ws = "previousWidths h2"
  define h4 where "h4 = (if \<not> HasActiveQuickConsonant (engine h) \<and> inputHistory (commitState h) \<noteq> []
      then onCommit (pushOf T (PeekRaw (engine h)) ?ws) (onCommit (\<lambda>c. c\<lparr>pushedToStack := False\<rparr>) h2)
      else onCommit (\<lambda>c. c\<lparr>pushedToStack := False\<rparr>) h2)"
  have run: "CommitComposition env verbatim h = (restored, ClearWordState h4)"
  proof -
    have fold1: "setEngine e1 h = h1" "(previous h1 \<noteq> [] \<and> committed \<noteq> previous h1) = restored"
      "(if restored then DispatchCoordinator env 0 0 committed h1 else h1) = h2" "(if restored then committed else T) = T"
      by (simp_all add: h1_def restored_def h2_def T_def)
    have push: "onCommit (\<lambda>c. (PushEntry \<lparr>history = inputHistory c, entryText = T, entryRaw = raw, entryWidths = ws,
        extraLeadingTriggers = leadingTriggersForCurrentWord c\<rparr> (c\<lparr>leadingTriggersForCurrentWord := 0\<rparr>))\<lparr>pushedToStack := True\<rparr>)
        = onCommit (pushOf T raw ws)" for raw ws
      by (rule arg_cong[of _ _ onCommit]) (simp add: pushOf_def fun_eq_iff)
    have snap: "inputHistory (commitState (onCommit (\<lambda>c. c\<lparr>pushedToStack := False\<rparr>) h2)) = inputHistory (commitState h)"
      "previous (onCommit (\<lambda>c. c\<lparr>pushedToStack := False\<rparr>) h2) = T"
      using r h2 by simp_all
    show ?thesis
      unfolding CommitComposition_def Let_def co prod.case LastCommitWasCorrected_def simp_thms if_False fold1 snap push
      by (simp add: h4_def)
  qed
  show ?thesis
  proof (intro exI[of _ T] exI[of _ ?ws])
    have doc: "screen sh cl h2 d = pre @ encoded (currentTable env) T"
      "currentTable env = Unicode \<or> ?ws = encodedWidths (currentTable env) T"
      using h2 by (auto simp: shows1_def widthsOk_def)
    have "flags h4 = flags h" using r by (simp add: h4_def)
    then have fl: "flags (ClearWordState h4) = flags h"
      using assms(5) by (simp add: ClearWordState_facts(7)) (simp add: flags_def)
    have sc: "screen sh cl h4 d = screen sh cl h2 d" by (simp add: h4_def)
    have cs: "commitState h4 = (if \<not> HasActiveQuickConsonant (engine h) \<and> inputHistory (commitState h) \<noteq> []
       then pushOf T (PeekRaw (engine h)) ?ws ((commitState h)\<lparr>pushedToStack := False\<rparr>)
       else (commitState h)\<lparr>pushedToStack := False\<rparr>)"
      using r by (simp add: h4_def)
    show "case CommitComposition env verbatim h of (restored, h') \<Rightarrow>
    screen sh cl h' d = pre @ encoded (currentTable env) T \<and>
    (currentTable env = Unicode \<or> ?ws = encodedWidths (currentTable env) T) \<and>
    previous h' = [] \<and> previousWidths h' = [] \<and> Peek (engine h') = [] \<and> Count (engine h') = 0 \<and> flags h' = flags h \<and>
    commitState h' = ClearHistory
      (if \<not> HasActiveQuickConsonant (engine h) \<and> inputHistory (commitState h) \<noteq> []
       then pushOf T (PeekRaw (engine h)) ?ws ((commitState h)\<lparr>pushedToStack := False\<rparr>)
       else (commitState h)\<lparr>pushedToStack := False\<rparr>)"
      unfolding run prod.case ClearWordState_facts(1-6) sc cs fl using doc by blast
  qed
qed

section \<open>The return into a committed word\<close>

lemma restore_decomposed:
  assumes "list_all (\<lambda>ch. DecomposeVietChar ch \<noteq> None) t" "RestoreCommittedText e t replay pref = (e', res)"
  shows "res \<noteq> Failed" "Peek e' = t"
proof -
  have seed: "snd (seedVisible t x)" "Peek (fst (seedVisible t x)) = t" for x
    using seedVisible_eq[of t x] assms(1) by simp_all
  show "res \<noteq> Failed" "Peek e' = t"
    using assms(2) seed by (cases pref; auto simp: RestoreCommittedText_def Let_def case_prod_beta split: if_splits)+
qed

lemma ReplayCommittedChars_facts:
  assumes "stack (commitState h) \<noteq> []"
    and "list_all (\<lambda>ch. DecomposeVietChar ch \<noteq> None) (entryText (last (stack (commitState h))))"
  shows "\<exists>hist h'. ReplayCommittedChars pv h = (True, h') \<and>
    previous h' = entryText (last (stack (commitState h))) \<and> previousWidths h' = entryWidths (last (stack (commitState h))) \<and>
    Peek (engine h') = previous h' \<and> outputs h' = outputs h \<and> flags h' = flags h \<and>
    commitState h' = SetIdle ((PopStackTop (commitState h))\<lparr>inputHistory := hist,
      leadingTriggersForCurrentWord := extraLeadingTriggers (last (stack (commitState h)))\<rparr>)"
proof -
  let ?e = "last (stack (commitState h))"
  obtain e1 res where R: "RestoreCommittedText (engine h) (entryText ?e) (replayHistory (history ?e))
      (if pv then VisibleText else ReplayHistory) = (e1, res)" by force
  note ok = restore_decomposed[OF assms(2) R]
  show ?thesis
    using assms(1) ok by (auto simp: ReplayCommittedChars_def R Let_def)
qed

end
