(* ===== verification/HookTrack.thy ===== *)
theory HookTrack
  imports HookTyping "HOL-Library.Sublist"
begin

text \<open>
  Letters, spaces and backspaces through the whole handler of a key: the engine, the text the hook believes is
  shown, the stack of committed words and the document before the caret stay in step.
\<close>

section \<open>What the hook believes stands before the caret\<close>

definition spaces :: "8 word \<Rightarrow> wstring" where "spaces n = replicate (unat n) 0x20"

definition entryDoc :: "CodeTable \<Rightarrow> CommitEntry \<Rightarrow> wstring" where
  "entryDoc ct e = encoded ct (entryText e) @ [0x20]"

text \<open>The committed words, each with the space that committed it; the spaces before the oldest one do not count.\<close>

fun stackDoc :: "CodeTable \<Rightarrow> CommitEntry list \<Rightarrow> wstring" where
  "stackDoc ct [] = []"
| "stackDoc ct (e # es) = entryDoc ct e @ concat (map (\<lambda>e. spaces (extraLeadingTriggers e) @ entryDoc ct e) es)"

definition behind :: "CodeTable \<Rightarrow> CommitEntry list \<Rightarrow> 8 word \<Rightarrow> wstring" where
  "behind ct st n = (if st = [] then [] else stackDoc ct st @ spaces n)"

definition tailText :: "CodeTable \<Rightarrow> HookEngine \<Rightarrow> wstring" where
  "tailText ct h =
    (let c = commitState h in
     case fsm c of
       CsIdle \<Rightarrow> behind ct (stack c) (leadingTriggersForCurrentWord c) @ encoded ct (previous h)
     | CsReady \<Rightarrow> stackDoc ct (stack c) @ spaces (pendingTriggerCount c)
     | CsPrimed \<Rightarrow> butlast (stackDoc ct (stack c)))"

definition entryOk :: "CodeTable \<Rightarrow> CommitEntry \<Rightarrow> bool" where
  "entryOk ct e \<longleftrightarrow> ct = Unicode \<or> entryWidths e = encodedWidths ct (entryText e)"

definition inStep :: "CodeTable \<Rightarrow> HookEngine \<Rightarrow> wstring \<Rightarrow> bool" where
  "inStep ct h doc \<longleftrightarrow>
     flags h = (True, False, False, False) \<and> Peek (engine h) = previous h \<and> widthsOk ct h \<and>
     list_all (entryOk ct) (stack (commitState h)) \<and>
     (fsm (commitState h) \<noteq> CsIdle \<longrightarrow> stack (commitState h) \<noteq> [] \<and> Count (engine h) = 0) \<and>
     suffix (tailText ct h) doc"

section \<open>Words on the stack\<close>

lemma spaces_0 [simp]: "spaces 0 = []"
  by (simp add: spaces_def)

lemma spaces_inc: "n < 0xFF \<Longrightarrow> spaces (n + 1) = spaces n @ [0x20]"
  by (simp add: spaces_def unat_word_ariths word_less_nat_alt replicate_append_same[symmetric] unatSuc[of n])

lemma spaces_dec:
  assumes "n > 0"
  shows "spaces n = spaces (n - 1) @ [0x20]"
proof -
  have "unat n < 256" by (rule order.strict_trans2[OF unsigned_less]) simp
  moreover have "unat (n - 1) = unat n - 1" using assms by (simp add: unat_minus_one)
  ultimately have "n - 1 < 0xFF" using assms by (simp add: word_less_nat_alt)
  then show ?thesis using spaces_inc[of "n - 1"] by simp
qed

lemma stackDoc_snoc:
  "stackDoc ct (st @ [e]) = behind ct st (extraLeadingTriggers e) @ encoded ct (entryText e) @ [0x20]"
  by (cases st) (simp_all add: behind_def entryDoc_def)

lemma stackDoc_top:
  assumes "st \<noteq> []"
  shows "butlast (stackDoc ct st) = behind ct (butlast st) (extraLeadingTriggers (last st)) @ encoded ct (entryText (last st))"
    "stackDoc ct st = butlast (stackDoc ct st) @ [0x20]"
proof -
  obtain s0 e where st: "st = s0 @ [e]" using assms by (metis append_butlast_last_id)
  show "butlast (stackDoc ct st) = behind ct (butlast st) (extraLeadingTriggers (last st)) @ encoded ct (entryText (last st))"
    "stackDoc ct st = butlast (stackDoc ct st) @ [0x20]"
    by (simp_all add: st stackDoc_snoc butlast_append)
qed

lemma stackDoc_tl: "suffix (stackDoc ct (tl st)) (stackDoc ct st)"
proof (cases st rule: remdups_adj.cases)
  case (3 e1 e2 es)
  then show ?thesis
    by (auto simp: suffix_def intro!: exI[of _ "entryDoc ct e1 @ spaces (extraLeadingTriggers e2)"])
qed simp_all

lemma behind_tl: "suffix (behind ct (tl st) n) (behind ct st n)"
  using stackDoc_tl[of ct st] by (auto simp: behind_def suffix_def)

lemma stackDoc_push:
  assumes "extraLeadingTriggers e = n"
  shows "suffix (stackDoc ct (stack (PushEntry e c))) (behind ct (stack c) n @ encoded ct (entryText e) @ [0x20])"
  using assms behind_tl[of ct "stack c" n] by (auto simp: PushEntry_def stackDoc_snoc suffix_def)

lemma suffix_butlast: "suffix (s @ [c]) doc \<Longrightarrow> suffix s (butlast doc)"
  by (auto simp: suffix_def butlast_append)

lemma suffix_snoc: "suffix s doc \<Longrightarrow> suffix (s @ [c]) (doc @ [c])"
  by (auto simp: suffix_def)

section \<open>What is kept\<close>

lemma inStep_cong:
  assumes "flags h' = flags h" "engine h' = engine h" "previous h' = previous h" "previousWidths h' = previousWidths h"
    "fsm (commitState h') = fsm (commitState h)" "stack (commitState h') = stack (commitState h)"
    "leadingTriggersForCurrentWord (commitState h') = leadingTriggersForCurrentWord (commitState h)"
    "pendingTriggerCount (commitState h') = pendingTriggerCount (commitState h)"
  shows "inStep ct h' doc = inStep ct h doc"
  using assms by (cases "fsm (commitState h)") (simp_all add: inStep_def widthsOk_def tailText_def Let_def)

lemma inStep_Idle:
  assumes "flags h = (True, False, False, False)" "Peek (engine h) = previous h" "widthsOk ct h"
    "list_all (entryOk ct) (stack (commitState h))" "fsm (commitState h) = CsIdle"
    "suffix (behind ct (stack (commitState h)) (leadingTriggersForCurrentWord (commitState h)) @ encoded ct (previous h)) doc"
  shows "inStep ct h doc"
  using assms by (simp add: inStep_def tailText_def Let_def)

lemma inStep_forget:
  assumes "inStep ct h doc" "flags h' = flags h" "engine h' = engine h" "previous h' = previous h"
    "previousWidths h' = previousWidths h" "fsm (commitState h') = CsIdle" "stack (commitState h') = []"
  shows "inStep ct h' doc"
proof (rule inStep_Idle)
  have "suffix (encoded ct (previous h)) doc"
    using assms(1) Peek_Count_0[of "engine h"]
    by (cases "fsm (commitState h)") (auto simp: inStep_def tailText_def Let_def dest: suffix_appendD)
  then show "suffix (behind ct (stack (commitState h')) (leadingTriggersForCurrentWord (commitState h')) @
      encoded ct (previous h')) doc"
    using assms by (simp add: behind_def)
qed (use assms in \<open>simp_all add: inStep_def widthsOk_def\<close>)

lemma inStep_CancelCommitUndo:
  assumes "inStep ct h doc"
  shows "inStep ct (CancelCommitUndo h) doc" "fsm (commitState (CancelCommitUndo h)) = CsIdle"
    "stack (commitState (CancelCommitUndo h)) = []" "outputs (CancelCommitUndo h) = outputs h"
proof -
  show "inStep ct (CancelCommitUndo h) doc"
    by (rule inStep_forget[OF assms]) (simp_all add: CancelCommitUndo_def Cancel_def)
qed (simp_all add: CancelCommitUndo_def Cancel_def)

text \<open>The three ways in which a key that waits for the injected events, or goes to the edit control, reaches the
  document; \<open>ks\<close> is what the key alone does.\<close>

lemma InjectKey_inStep:
  assumes "inStep ct h (nativeKey sh cl v (screen sh cl h d))" "ucast (ucast v :: 16 word) = v"
  shows "inStep ct (InjectKey env v h) (screen sh cl (InjectKey env v h) d)"
  using assms restD[of "InjectKey env v h" h] inStep_cong[of "InjectKey env v h" h]
  by (simp add: InjectKey_facts)

lemma injectReplace_inStep:
  assumes "takesAll env" "inStep ct h (cutBack n (screen sh cl h d) @ s)"
  shows "inStep ct (snd (injectReplace env n s 0 h)) (screen sh cl (snd (injectReplace env n s 0 h)) d)"
    "fst (injectReplace env n s 0 h)"
  using assms restD[of "emit env (OReplace n s 0 True) h" h] inStep_cong[of "emit env (OReplace n s 0 True) h" h]
  by (simp_all add: injectReplace_ok screen_emit)

section \<open>Operations\<close>

definition lands :: "CodeTable \<Rightarrow> bool \<Rightarrow> bool \<Rightarrow> 32 word \<Rightarrow> wstring \<Rightarrow> KeyOutcome \<times> HookEngine \<Rightarrow> bool" where
  "lands ct sh cl v d r \<longleftrightarrow>
     inStep ct (snd r) (if fst r = KeyEat then screen sh cl (snd r) d else nativeKey sh cl v (screen sh cl (snd r) d))"

lemma lands_simps [simp]:
  "lands ct sh cl v d (KeyEat, h) = inStep ct h (screen sh cl h d)"
  "lands ct sh cl v d (KeyPass, h) = inStep ct h (nativeKey sh cl v (screen sh cl h d))"
  by (simp_all add: lands_def)

lemma lands_pair: "lands ct sh cl v d (r, h) =
    inStep ct h (if r = KeyEat then screen sh cl h d else nativeKey sh cl v (screen sh cl h d))"
  by (cases r) (simp_all add: lands_def)

text \<open>A word being typed, and the text before it.\<close>

lemma inStep_word:
  assumes "inStep ct h doc" "fsm (commitState h) = CsIdle"
  obtains pre where "shows1 ct (pre @ behind ct (stack (commitState h)) (leadingTriggersForCurrentWord (commitState h))) h doc"
    "flags h = (True, False, False, False)" "vnMode h" "Peek (engine h) = previous h"
    "list_all (entryOk ct) (stack (commitState h))" "\<not> digitLedWord h"
  using assms by (auto simp: inStep_def tailText_def Let_def suffix_def shows1_def flags_def)

lemma inStep_ofWord:
  assumes "shows1 ct (pre @ behind ct (stack (commitState h)) (leadingTriggersForCurrentWord (commitState h))) h doc"
    "fsm (commitState h) = CsIdle" "flags h = (True, False, False, False)" "Peek (engine h) = previous h"
    "list_all (entryOk ct) (stack (commitState h))"
  shows "inStep ct h doc"
  using assms by (auto simp: inStep_def tailText_def Let_def suffix_def shows1_def)

lemma HandleAlphaKey_inStep:
  assumes "takesAll env" "currentTable env = ct" "isLetterKey v" "fsm (commitState h) = CsIdle"
    "inStep ct h (screen sh cl h d)"
  shows "lands ct sh cl v d (eatIf (HandleAlphaKey env v sh cl h))"
proof -
  obtain pre where w: "shows1 ct (pre @ behind ct (stack (commitState h)) (leadingTriggersForCurrentWord (commitState h))) h (screen sh cl h d)"
    "flags h = (True, False, False, False)" "vnMode h" "Peek (engine h) = previous h" "list_all (entryOk ct) (stack (commitState h))"
    using inStep_word[OF assms(5,4)] by blast
  obtain eaten h' where run: "HandleAlphaKey env v sh cl h = (eaten, h')" by force
  obtain ch where a: "shows1 ct (pre @ behind ct (stack (commitState h)) (leadingTriggersForCurrentWord (commitState h))) h'
      (if eaten then screen sh cl h' d else nativeKey sh cl v (screen sh cl h' d))"
    "Peek (engine h') = previous h'" "commitState h' = AppendHistory ch (commitState h)" "flags h' = flags h"
    using HandleAlphaKey_facts[OF assms(1,3) w(3,4), of _ sh cl d] w(1) assms(2) unfolding run by auto
  have "inStep ct h' (if eaten then screen sh cl h' d else nativeKey sh cl v (screen sh cl h' d))"
    by (rule inStep_ofWord[where pre = pre]) (use a w assms(4) in \<open>auto simp: AppendHistory_def\<close>)
  then show ?thesis by (auto simp: eatIf_def run lands_def)
qed

lemma HandleBackspace_inStep:
  assumes "takesAll env" "currentTable env = ct" "fsm (commitState h) = CsIdle" "inStep ct h (screen sh cl h d)"
  shows "inStep ct (HandleBackspace env h) (screen sh cl (HandleBackspace env h) d)"
proof -
  let ?h = "HandleBackspace env h" and ?c = "AppendHistory kBackspaceMarker (commitState h)"
  obtain pre where w: "shows1 ct (pre @ behind ct (stack (commitState h)) (leadingTriggersForCurrentWord (commitState h))) h (screen sh cl h d)"
    "flags h = (True, False, False, False)" "vnMode h" "Peek (engine h) = previous h" "list_all (entryOk ct) (stack (commitState h))"
    using inStep_word[OF assms(4,3)] by blast
  have a: "shows1 ct (pre @ behind ct (stack (commitState h)) (leadingTriggersForCurrentWord (commitState h))) ?h (screen sh cl ?h d)"
    "Peek (engine ?h) = previous ?h" "flags ?h = flags h"
    and c: "commitState ?h = (if Count (engine ?h) = 0 \<and> stack ?c \<noteq> [] then
        SetReady (now env) (?c\<lparr>pendingTriggerCount := leadingTriggersForCurrentWord ?c, leadingTriggersForCurrentWord := 0,
          gapEndsInGlyph := False\<rparr>) else ?c)"
    using HandleBackspace_facts[OF assms(1) w(3,4) w(1)[folded assms(2)], unfolded Let_def assms(2)] by blast+
  show ?thesis
  proof (cases "Count (engine ?h) = 0 \<and> stack ?c \<noteq> []")
    case True
    then have "previous ?h = []" using a(2) Peek_Count_0[of "engine ?h"] by simp
    then show ?thesis
      using True a c w
      by (auto simp: inStep_def tailText_def Let_def shows1_def SetReady_def AppendHistory_def behind_def suffix_def)
  next
    case False
    then have "commitState ?h = ?c" using c by auto
    then show ?thesis
      by (intro inStep_ofWord[where pre = pre]) (use a w assms(3) in \<open>auto simp: AppendHistory_def\<close>)
  qed
qed

lemma ReplayCommittedChars_inStep:
  assumes "inStep ct h doc" "fsm (commitState h) = CsPrimed"
    "list_all (\<lambda>ch. DecomposeVietChar ch \<noteq> None) (entryText (last (stack (commitState h))))"
  obtains h' where "ReplayCommittedChars pv h = (True, h')" "inStep ct h' doc" "fsm (commitState h') = CsIdle"
    "outputs h' = outputs h"
proof -
  have i: "flags h = (True, False, False, False)" "list_all (entryOk ct) (stack (commitState h))" "stack (commitState h) \<noteq> []"
    "suffix (butlast (stackDoc ct (stack (commitState h)))) doc"
    using assms(1,2) by (auto simp: inStep_def tailText_def)
  let ?e = "last (stack (commitState h))"
  obtain hist h' where r: "ReplayCommittedChars pv h = (True, h')" "previous h' = entryText ?e"
    "previousWidths h' = entryWidths ?e" "Peek (engine h') = previous h'" "outputs h' = outputs h" "flags h' = flags h"
    "commitState h' = SetIdle ((PopStackTop (commitState h))\<lparr>inputHistory := hist,
      leadingTriggersForCurrentWord := extraLeadingTriggers ?e\<rparr>)"
    using ReplayCommittedChars_facts[OF i(3) assms(3), of pv] by blast
  have ok: "entryOk ct ?e" "list_all (entryOk ct) (butlast (stack (commitState h)))"
    using i(2,3) by (auto simp: list_all_iff dest: in_set_butlastD)
  have "inStep ct h' doc"
    by (rule inStep_Idle) (use r i ok stackDoc_top[OF i(3), of ct] in
        \<open>auto simp: widthsOk_def entryOk_def SetIdle_def PopStackTop_def\<close>)
  then show ?thesis using that r by (simp add: SetIdle_def)
qed

section \<open>The space that commits\<close>

lemma space_facts:
  "\<not> isLetterKey VK_SPACE" "ucast (ucast VK_SPACE :: 16 word) = VK_SPACE" "VK_SPACE \<noteq> VK_BACK"
  "nativeKey sh cl VK_SPACE doc = doc @ [0x20]" "IsCommitTrigger VK_SPACE" "\<not> IsCaretNavigationKey VK_SPACE"
  "DecideCommitUndoArm VK_SPACE = UndoArm"
  by (simp_all add: vk_defs isLetterKey_def nativeKey_def IsCommitTrigger_def IsCaretNavigationKey_def
      DecideCommitUndoArm_def IsReplayContextBoundary_def)

lemma back_facts:
  "\<not> isLetterKey VK_BACK" "ucast (ucast VK_BACK :: 16 word) = VK_BACK" "nativeKey sh cl VK_BACK doc = butlast doc"
  "\<not> IsCommitTrigger VK_BACK" "\<not> IsCaretNavigationKey VK_BACK" "cutBack 1 doc = butlast doc"
  "cutBack (Suc 0) doc = butlast doc"
  by (simp_all add: vk_defs isLetterKey_def nativeKey_def IsCommitTrigger_def IsCaretNavigationKey_def cutBack_def
      butlast_conv_take)

text \<open>A committed word goes on the stack: not when an abbreviated consonant is active or nothing was typed.\<close>

definition pushes :: "HookEngine \<Rightarrow> bool" where
  "pushes h \<longleftrightarrow> \<not> HasActiveQuickConsonant (engine h) \<and> inputHistory (commitState h) \<noteq> []"

lemma armUndo_inStep:
  assumes "pushedToStack (commitState h)" "leadingTriggersForCurrentWord (commitState h) = 0" "stack (commitState h) \<noteq> []"
    and "flags h = (True, False, False, False)" "previous h = []" "previousWidths h = []" "Peek (engine h) = []"
    "Count (engine h) = 0" "list_all (entryOk ct) (stack (commitState h))" "suffix (stackDoc ct (stack (commitState h))) doc"
  shows "inStep ct (armUndo env VK_SPACE h) doc"
proof -
  have "inStep ct (SetCommitUndoReady env h) doc"
    using assms by (simp add: inStep_def SetCommitUndoReady_def SetReady_def tailText_def Let_def widthsOk_def encodedWidths_def)
  then have ready: "inStep ct (onCommit (\<lambda>c. c\<lparr>gapEndsInGlyph := b\<rparr>) (SetCommitUndoReady env h)) doc" for b
    by (subst inStep_cong[of _ "SetCommitUndoReady env h"]) simp_all
  have cancel: "inStep ct (CancelCommitUndo h) doc"
    using assms by (intro inStep_Idle) (simp_all add: CancelCommitUndo_def Cancel_def behind_def widthsOk_def encodedWidths_def)
  have "armUndo env VK_SPACE h = CancelCommitUndo h \<or>
      armUndo env VK_SPACE h = onCommit (\<lambda>c. c\<lparr>gapEndsInGlyph := False\<rparr>) (SetCommitUndoReady env h)"
    by (simp add: armUndo_def assms(1) space_facts Let_def)
  then show ?thesis using cancel ready[of False] by presburger
qed

lemma commitTrigger_inStep:
  assumes "takesAll env" "currentTable env = ct" "fsm (commitState h) = CsIdle" "inStep ct h (screen sh cl h d)"
    "toChar env VK_SPACE = 0x20" "stack (commitState h) \<noteq> [] \<longrightarrow> pushes h"
  shows "lands ct sh cl VK_SPACE d (commitTrigger env VK_SPACE h)"
proof -
  let ?b = "behind ct (stack (commitState h)) (leadingTriggersForCurrentWord (commitState h))" and ?c = "commitState h"
  obtain pre where w: "shows1 ct (pre @ ?b) h (screen sh cl h d)" "flags h = (True, False, False, False)" "vnMode h"
    "Peek (engine h) = previous h" "list_all (entryOk ct) (stack ?c)" "\<not> digitLedWord h"
    using inStep_word[OF assms(4,3)] by blast
  obtain restored h1 where run: "CommitComposition env (IsVerbatimCommitTrigger (toChar env VK_SPACE)) h = (restored, h1)"
    by force
  obtain T ws where c: "screen sh cl h1 d = pre @ ?b @ encoded ct T" "ct = Unicode \<or> ws = encodedWidths ct T"
    "previous h1 = []" "previousWidths h1 = []" "Peek (engine h1) = []" "Count (engine h1) = 0" "flags h1 = flags h"
    "commitState h1 = ClearHistory (if pushes h then pushOf T (PeekRaw (engine h)) ws (?c\<lparr>pushedToStack := False\<rparr>)
       else ?c\<lparr>pushedToStack := False\<rparr>)"
    using CommitComposition_facts[OF assms(1) w(3,4) w(1)[folded assms(2)] w(6),
        of "IsVerbatimCommitTrigger (toChar env VK_SPACE)", unfolded assms(2) run prod.case pushes_def[symmetric] append.assoc]
    by blast
  define saved where "saved = savedMacroBuffer env VK_SPACE h"
  define h3 where "h3 = (if saved \<noteq> [] then h1\<lparr>macroBuffer := saved, crossCommit := True, firstCharAutoCapped := firstCharAutoCapped h\<rparr> else h1)"
  define h4 where "h4 = armUndo env VK_SPACE h3"
  have f3: "screen sh cl h3 d = screen sh cl h1 d" "previous h3 = []" "previousWidths h3 = []" "engine h3 = engine h1"
    "flags h3 = flags h1" "commitState h3 = commitState h1"
    using c by (auto simp: h3_def screen_def)
  have "outputs h4 = outputs h3"
    by (simp add: h4_def armUndo_def Let_def CancelCommitUndo_def SetCommitUndoReady_def split: CommitUndoArm.split)
  then have doc4: "screen sh cl h4 d = pre @ ?b @ encoded ct T" using f3(1) c(1) by (metis screen_same)
  have "inStep ct h4 ((pre @ ?b @ encoded ct T) @ [0x20])"
  proof (cases "pushes h")
    case True
    let ?e = "\<lparr>history = inputHistory ?c, entryText = T, entryRaw = PeekRaw (engine h), entryWidths = ws,
        extraLeadingTriggers = leadingTriggersForCurrentWord ?c\<rparr>"
    have st: "stack (commitState h3) = stack (PushEntry ?e ?c)"
      using True c(8) f3(6) by (simp add: pushOf_def ClearHistory_def PushEntry_def)
    have "suffix (stackDoc ct (stack (commitState h3))) (?b @ encoded ct T @ [0x20])"
      using stackDoc_push[of ?e "leadingTriggersForCurrentWord ?c" ct ?c] st by simp
    then have "suffix (stackDoc ct (stack (commitState h3))) ((pre @ ?b @ encoded ct T) @ [0x20])"
      by (auto simp: suffix_def)
    moreover have "list_all (entryOk ct) (tl (stack ?c))" using w(5) by (cases "stack ?c") auto
    then have "list_all (entryOk ct) (stack (commitState h3))" "stack (commitState h3) \<noteq> []"
      using w(5) c(2) by (simp_all add: st PushEntry_def entryOk_def[of ct ?e])
    ultimately show ?thesis
      unfolding h4_def using True c w f3
      by (intro armUndo_inStep) (auto simp: pushOf_def ClearHistory_def PushEntry_def)
  next
    case False
    then have "stack (commitState h3) = []" "\<not> pushedToStack (commitState h3)" "fsm (commitState h3) = CsIdle"
      using assms(3,6) c(8) f3(6) by (auto simp: ClearHistory_def)
    then show ?thesis using c w f3
      by (intro inStep_Idle) (simp_all add: h4_def armUndo_def behind_def widthsOk_def encodedWidths_def)
  qed
  then have s: "inStep ct h4 (screen sh cl h4 d @ [0x20])" by (simp add: doc4)
  have "commitTrigger env VK_SPACE h =
    (if restored \<or> synthPending h4 > 0 then (KeyEat, InjectKey env VK_SPACE h4)
     else if syncChannel env then
       (case injectReplace env 0 [0x20] 0 h4 of (ok, h5) \<Rightarrow> ((if ok then KeyEat else KeyPass), h5))
     else (KeyPass, h4))"
  proof -
    have nav: "clearContextOnNav VK_SPACE h1 = h1" using space_facts(6) by (simp add: clearContextOnNav_def)
    show ?thesis
      unfolding commitTrigger_def Let_def run prod.case nav saved_def[symmetric] h3_def[symmetric] h4_def[symmetric]
      by (simp add: assms(5))
  qed
  then show ?thesis
    using s InjectKey_inStep[of ct h4 sh cl VK_SPACE d env] injectReplace_inStep[OF assms(1), of ct h4 0 sh cl d "[0x20]"]
    by (auto simp: space_facts split: prod.splits)
qed

section \<open>Before the engine\<close>

lemma noteGlyphs_same:
  "inStep ct (noteGlyphs env v h) doc = inStep ct h doc" "fsm (commitState (noteGlyphs env v h)) = fsm (commitState h)"
  "stack (commitState (noteGlyphs env v h)) = stack (commitState h)" "engine (noteGlyphs env v h) = engine h"
  "pendingTriggerCount (commitState (noteGlyphs env v h)) = pendingTriggerCount (commitState h)"
  "inputHistory (commitState (noteGlyphs env v h)) = inputHistory (commitState h)"
  "outputs (noteGlyphs env v h) = outputs h" "synthPending (noteGlyphs env v h) = synthPending h"
  "lastRealSynthTime (noteGlyphs env v h) = lastRealSynthTime h"
  by (simp_all add: noteGlyphs_def inStep_cong[of "onCommit _ h" h]) (simp add: onCommit_def)

text \<open>Where the stack lies directly before the caret: the situations the proof covers.\<close>

definition wordTracked :: "32 word \<Rightarrow> HookEngine \<Rightarrow> bool" where
  "wordTracked v h \<longleftrightarrow> stack (commitState h) = [] \<or> isLetterKey v \<or>
     Count (engine h) > 0 \<and> (v = VK_SPACE \<longrightarrow> pushes h)"

definition tracked :: "KeyEnv \<Rightarrow> 32 word \<Rightarrow> bool \<Rightarrow> bool \<Rightarrow> HookEngine \<Rightarrow> bool" where
  "tracked env v sh cl h \<longleftrightarrow>
    (case fsm (commitState h) of
       CsIdle \<Rightarrow> wordTracked v h
     | CsReady \<Rightarrow> v = VK_SPACE \<longrightarrow> pendingTriggerCount (commitState h) < 0xFF
     | CsPrimed \<Rightarrow>
         list_all (\<lambda>ch. DecomposeVietChar ch \<noteq> None) (entryText (last (stack (commitState h)))) \<and>
         (if v = VK_SPACE then \<not> isExemptKey env v sh
          else v = VK_BACK \<or> replaysWord env v sh cl h \<or> length (stack (commitState h)) = 1))"

lemma passOrdered_lands:
  assumes "takesAll env" "ucast (ucast v :: 16 word) = v" "inStep ct h (nativeKey sh cl v (screen sh cl h d))"
    "cutBack n (screen sh cl h d) @ s = nativeKey sh cl v (screen sh cl h d)"
  shows "lands ct sh cl v d (passOrdered env v n s h)" "fst (passOrdered env v n s h) \<noteq> KeyFallthrough"
  using assms InjectKey_inStep[of ct h sh cl v d env] injectReplace_inStep[OF assms(1), of ct h n sh cl d s]
  by (auto simp: passOrdered_def split: prod.splits)

lemma readyBackspace_lands:
  assumes "takesAll env" "inStep ct h (screen sh cl h d)" "fsm (commitState h) = CsReady"
  shows "lands ct sh cl VK_BACK d (readyBackspace env h)" "fst (readyBackspace env h) \<noteq> KeyFallthrough"
proof -
  let ?c = "commitState h" and ?doc = "screen sh cl h d"
  have i: "flags h = (True, False, False, False)" "Peek (engine h) = previous h" "widthsOk ct h"
    "list_all (entryOk ct) (stack ?c)" "stack ?c \<noteq> []" "Count (engine h) = 0"
    "suffix (stackDoc ct (stack ?c) @ spaces (pendingTriggerCount ?c)) ?doc"
    using assms(2,3) by (auto simp: inStep_def tailText_def Let_def)
  have "lands ct sh cl VK_BACK d (readyBackspace env h) \<and> fst (readyBackspace env h) \<noteq> KeyFallthrough"
  proof (cases "pendingTriggerCount ?c > 0")
    case True
    have "suffix (stackDoc ct (stack ?c) @ spaces (pendingTriggerCount ?c - 1)) (butlast ?doc)"
      using i(7) True by (intro suffix_butlast[of _ "0x20"]) (simp add: spaces_dec[symmetric])
    then have "inStep ct (onCommit DecrementPendingTriggers h) (butlast ?doc)"
      using i True assms(3) by (simp add: inStep_def DecrementPendingTriggers_def tailText_def Let_def widthsOk_def)
    then show ?thesis using True by (simp add: readyBackspace_def back_facts)
  next
    case False
    let ?h = "ClearMacroBuffer ((onCommit SetPrimed h)\<lparr>crossCommit := False\<rparr>)"
    have pending: "pendingTriggerCount ?c = 0" using False by (simp add: word_gt_0)
    have "suffix (butlast (stackDoc ct (stack ?c))) (butlast ?doc)"
      using i(7) pending stackDoc_top(2)[OF i(5), of ct] by (intro suffix_butlast[of _ "0x20"]) simp
    moreover have same: "screen sh cl ?h d = ?doc" "commitState ?h = SetPrimed ?c" "flags ?h = flags h" "engine ?h = engine h"
      "previous ?h = previous h" "previousWidths ?h = previousWidths h"
      by (simp_all add: ClearMacroBuffer_def)
    ultimately have "inStep ct ?h (nativeKey sh cl VK_BACK (screen sh cl ?h d))"
      using i by (simp add: inStep_def SetPrimed_def tailText_def Let_def widthsOk_def back_facts)
    then show ?thesis
      using False passOrdered_lands[OF assms(1) back_facts(2), of ct ?h sh cl d 1 "[]"]
      by (simp add: readyBackspace_def back_facts)
  qed
  then show "lands ct sh cl VK_BACK d (readyBackspace env h)" "fst (readyBackspace env h) \<noteq> KeyFallthrough" by simp_all
qed

end
