(* ===== verification/HookKey.thy ===== *)
theory HookKey
  imports HookTrack
begin

text \<open>
  The state machine of commit undo and the whole handler of a key (\<open>ProcessKeyDown\<close>): one key keeps the engine,
  the text the hook believes is shown, the stack of committed words and the document in step.
\<close>

section \<open>A key in the state machine of commit undo\<close>

text \<open>What a key that goes on to the engine leaves: a word state, or a space counted behind the last word.\<close>

definition goesOn :: "CodeTable \<Rightarrow> 32 word \<Rightarrow> wstring \<Rightarrow> HookEngine \<Rightarrow> bool" where
  "goesOn ct v d h \<longleftrightarrow> outputs h = [] \<and>
     (fsm (commitState h) = CsIdle \<and> inStep ct h d \<and> wordTracked v h \<or>
      fsm (commitState h) = CsReady \<and> v = VK_SPACE \<and> Count (engine h) = 0 \<and> inStep ct h (d @ [0x20]))"

definition fsmDone :: "CodeTable \<Rightarrow> bool \<Rightarrow> bool \<Rightarrow> 32 word \<Rightarrow> wstring \<Rightarrow> KeyOutcome \<times> HookEngine \<Rightarrow> bool" where
  "fsmDone ct sh cl v d r \<longleftrightarrow>
     (if fst r = KeyFallthrough then goesOn ct v d (snd r) else lands ct sh cl v d r)"

definition typingKey :: "32 word \<Rightarrow> bool" where
  "typingKey v \<longleftrightarrow> isLetterKey v \<or> v = VK_SPACE \<or> v = VK_BACK"

lemma typingKey_facts:
  assumes "typingKey v"
  shows "ucast (ucast v :: 16 word) = v" "v \<noteq> VK_RETURN" "v \<noteq> VK_TAB" "v \<noteq> VK_ESCAPE" "v \<noteq> VK_DELETE"
    "\<not> IsReplayContextBoundary v" "\<not> IsCaretNavigationKey v" "\<not> isModifierVk v" "\<not> isLockKey v"
    "\<not> isDigitKey v" "v \<noteq> VK_OEM_4" "v \<noteq> VK_OEM_6" "\<not> IsOemPunctVk v" "IsCommitTrigger v \<longleftrightarrow> v = VK_SPACE"
    "v < 0x30 \<or> v > 0x39"
proof -
  consider "isLetterKey v" | "v = VK_SPACE" | "v = VK_BACK" using assms by (auto simp: typingKey_def)
  note c = this
  show "ucast (ucast v :: 16 word) = v" using c letter_ucast space_facts back_facts by cases auto
  have "v \<noteq> VK_RETURN \<and> v \<noteq> VK_TAB \<and> v \<noteq> VK_ESCAPE \<and> v \<noteq> VK_DELETE \<and> \<not> IsReplayContextBoundary v \<and>
      \<not> IsCaretNavigationKey v \<and> \<not> isModifierVk v \<and> \<not> isLockKey v \<and> \<not> isDigitKey v \<and> v \<noteq> VK_OEM_4 \<and>
      v \<noteq> VK_OEM_6 \<and> \<not> IsOemPunctVk v \<and> (IsCommitTrigger v \<longleftrightarrow> v = VK_SPACE) \<and> (v < 0x30 \<or> v > 0x39)"
    using c
  proof cases
    case 1
    then have "0x41 \<le> unat v" "unat v \<le> 0x5A" by (auto simp: isLetterKey_def word_le_nat_alt)
    then show ?thesis
      by (simp add: vk_defs IsReplayContextBoundary_def IsCaretNavigationKey_def isModifierVk_def isLockKey_def isDigitKey_def
          IsOemPunctVk_def IsCommitTrigger_def word_le_nat_alt word_less_nat_alt word_unat_eq_iff)
  qed (simp_all add: vk_defs IsReplayContextBoundary_def IsCaretNavigationKey_def isModifierVk_def isLockKey_def isDigitKey_def
      IsOemPunctVk_def IsCommitTrigger_def)
  then show "v \<noteq> VK_RETURN" "v \<noteq> VK_TAB" "v \<noteq> VK_ESCAPE" "v \<noteq> VK_DELETE"
    "\<not> IsReplayContextBoundary v" "\<not> IsCaretNavigationKey v" "\<not> isModifierVk v" "\<not> isLockKey v"
    "\<not> isDigitKey v" "v \<noteq> VK_OEM_4" "v \<noteq> VK_OEM_6" "\<not> IsOemPunctVk v" "IsCommitTrigger v \<longleftrightarrow> v = VK_SPACE"
    "v < 0x30 \<or> v > 0x39"
    by simp_all
qed

lemma readyKey_goesOn:
  assumes "inStep ct h d" "outputs h = []" "fsm (commitState h) = CsReady" "typingKey v" "v \<noteq> VK_BACK"
    "v = VK_SPACE \<longrightarrow> pendingTriggerCount (commitState h) < 0xFF" "toChar env VK_SPACE = 0x20"
  shows "goesOn ct v d (readyKey env v h)"
proof -
  note t = typingKey_facts[OF assms(4)]
  have i: "flags h = (True, False, False, False)" "Peek (engine h) = previous h" "widthsOk ct h"
    "list_all (entryOk ct) (stack (commitState h))" "stack (commitState h) \<noteq> []" "Count (engine h) = 0"
    "suffix (stackDoc ct (stack (commitState h)) @ spaces (pendingTriggerCount (commitState h))) d"
    using assms(1,3) by (auto simp: inStep_def tailText_def Let_def)
  show ?thesis
  proof (cases "v = VK_SPACE")
    case True
    have "suffix (stackDoc ct (stack (commitState h)) @ spaces (pendingTriggerCount (commitState h) + 1)) (d @ [0x20])"
      using suffix_snoc[OF i(7), of "0x20"] assms(6) True by (simp add: spaces_inc)
    then have "inStep ct (onCommit IncrementPendingTriggers h) (d @ [0x20])"
      using i assms(3,6) True by (simp add: inStep_def IncrementPendingTriggers_def tailText_def Let_def widthsOk_def)
    then show ?thesis
      using True assms i t space_facts
      by (simp add: goesOn_def readyKey_def DecideReadyGapKey_def IncrementPendingTriggers_def Let_def)
  next
    case False
    have letter: "isLetterKey v" using False assms(4,5) by (simp add: typingKey_def)
    have "previous h = []" using i Peek_Count_0 by simp
    then have start: "inStep ct (onCommit startWord h) d"
      using i by (simp add: inStep_def startWord_def SetIdle_def tailText_def Let_def widthsOk_def behind_def)
    have "readyKey env v h = onCommit startWord h \<or> readyKey env v h = CancelCommitUndo h"
      using assms(3) t False by (simp add: readyKey_def DecideReadyGapKey_def Let_def)
    then show ?thesis
      using start inStep_CancelCommitUndo[OF assms(1)] assms(2) letter
      by (auto simp: goesOn_def wordTracked_def startWord_def SetIdle_def)
  qed
qed

lemma goesOn_forgotten:
  assumes "inStep ct h d" "outputs h = []" "fsm (commitState h) = CsIdle" "stack (commitState h) = []"
  shows "goesOn ct v d h"
  using assms by (simp add: goesOn_def wordTracked_def)

lemma primedKey_done:
  assumes "takesAll env" "currentTable env = ct" "inStep ct h d" "outputs h = []" "fsm (commitState h) = CsPrimed"
    "typingKey v" "tracked env v sh cl h" "toChar env VK_SPACE = 0x20"
    and run: "primedKey env v sh cl h = (o1, h')"
  shows "case o1 of Some r \<Rightarrow> fsmDone ct sh cl v d (r, h') | None \<Rightarrow> goesOn ct v d h' \<and> fsm (commitState h') = CsIdle"
proof -
  note t = typingKey_facts[OF assms(6)]
  have doc: "screen sh cl h d = d" using assms(4) by (simp add: screen_def)
  have i: "flags h = (True, False, False, False)" "Peek (engine h) = previous h" "widthsOk ct h"
    "list_all (entryOk ct) (stack (commitState h))" "stack (commitState h) \<noteq> []" "Count (engine h) = 0"
    "suffix (butlast (stackDoc ct (stack (commitState h)))) d"
    using assms(3,5) by (auto simp: inStep_def tailText_def Let_def)
  have decomposed: "list_all (\<lambda>ch. DecomposeVietChar ch \<noteq> None) (entryText (last (stack (commitState h))))"
    and key: "if v = VK_SPACE then \<not> isExemptKey env v sh
      else v = VK_BACK \<or> replaysWord env v sh cl h \<or> length (stack (commitState h)) = 1"
    using assms(7) unfolding tracked_def assms(5) CommitFsm.case by blast+
  have forget: "goesOn ct v d (CancelCommitUndo h)" "fsm (commitState (CancelCommitUndo h)) = CsIdle"
    using inStep_CancelCommitUndo[OF assms(3)] assms(4) by (auto intro: goesOn_forgotten)
  show ?thesis
  proof (cases "synthPending h > 0 \<and> now env - lastRealSynthTime h < settleMs env \<and> \<not> replaysWord env v sh cl h")
    case True
    then have "o1 = None" "h' = CancelCommitUndo h" using run by (auto simp: primedKey_def Let_def)
    then show ?thesis using forget by simp
  next
    case settled: False
    consider (letter) "isLetterKey v" "replaysWord env v sh cl h" | (other) "isLetterKey v" "\<not> replaysWord env v sh cl h"
      | (erase) "v = VK_BACK" | (space) "v = VK_SPACE"
      using assms(6) by (auto simp: typingKey_def)
    then show ?thesis
    proof cases
      case letter
      obtain h1 where r: "ReplayCommittedChars False h = (True, h1)" "inStep ct h1 d" "fsm (commitState h1) = CsIdle"
        "outputs h1 = outputs h" by (rule ReplayCommittedChars_inStep[OF assms(3,5) decomposed])
      then have "screen sh cl h1 d = d" using doc by (simp add: screen_def)
      then have "lands ct sh cl v d (eatIf (HandleAlphaKey env v sh cl h1))"
        using HandleAlphaKey_inStep[OF assms(1,2) letter(1) r(3)] r(2) by simp
      moreover have "o1 = Some (fst (eatIf (HandleAlphaKey env v sh cl h1)))" "h' = snd (eatIf (HandleAlphaKey env v sh cl h1))"
        using run letter settled r(1) by (auto simp: primedKey_def Let_def apfst_def map_prod_def split: prod.splits)
      ultimately show ?thesis by (auto simp: fsmDone_def eatIf_def)
    next
      case other
      have o: "o1 = Some KeyFallthrough" "h' = onCommit (SetIdle \<circ> PopStackTop) h"
        using run other settled by (auto simp: primedKey_def Let_def)
      have "v \<noteq> VK_SPACE" "v \<noteq> VK_BACK" using other(1) space_facts(1) back_facts(1) by metis+
      then have "length (stack (commitState h)) = 1" using key other(2) by simp
      then have "stack (commitState h') = []" by (cases "stack (commitState h)") (simp_all add: o PopStackTop_def SetIdle_def)
      moreover from this have "inStep ct h' d"
        by (intro inStep_forget[OF assms(3)]) (simp_all add: o SetIdle_def)
      ultimately have "goesOn ct v d h'" using assms(4) by (intro goesOn_forgotten) (simp_all add: o SetIdle_def)
      then show ?thesis by (simp add: o fsmDone_def)
    next
      case erase
      obtain h1 where r: "ReplayCommittedChars True h = (True, h1)" "inStep ct h1 d" "fsm (commitState h1) = CsIdle"
        "outputs h1 = outputs h" by (rule ReplayCommittedChars_inStep[OF assms(3,5) decomposed])
      then have "screen sh cl h1 d = d" using doc by (simp add: screen_def)
      then have "inStep ct (HandleBackspace env h1) (screen sh cl (HandleBackspace env h1) d)"
        using HandleBackspace_inStep[OF assms(1,2) r(3)] r(2) by simp
      moreover have "o1 = Some KeyEat" "h' = HandleBackspace env h1"
        using run erase settled r(1) back_facts t by (auto simp: primedKey_def Let_def)
      ultimately show ?thesis by (simp add: fsmDone_def)
    next
      case space
      let ?h = "onCommit (\<lambda>c. SetReady (now env) (c\<lparr>pendingTriggerCount := 0, gapEndsInGlyph := False\<rparr>)) h"
      have "\<not> isExemptKey env v sh" using key space by simp
      then have o: "o1 = Some (fst (passOrdered env VK_SPACE 0 [0x20] ?h))" "h' = snd (passOrdered env VK_SPACE 0 [0x20] ?h)"
        using run space settled space_facts t assms(8)
        by (auto simp: primedKey_def Let_def DecidePrimedTriggerAction_def apfst_def map_prod_def split: prod.splits)
      have "suffix (stackDoc ct (stack (commitState h))) (d @ [0x20])"
        using suffix_snoc[OF i(7), of "0x20"] stackDoc_top(2)[OF i(5), of ct] by simp
      then have "inStep ct ?h (nativeKey sh cl VK_SPACE (screen sh cl ?h d))"
        using i doc by (simp add: inStep_def SetReady_def tailText_def Let_def widthsOk_def space_facts)
      from passOrdered_lands[OF assms(1) space_facts(2) this, of 0 "[0x20]"]
      have "lands ct sh cl VK_SPACE d (passOrdered env VK_SPACE 0 [0x20] ?h)" "fst (passOrdered env VK_SPACE 0 [0x20] ?h) \<noteq> KeyFallthrough"
        by (simp_all add: space_facts)
      then show ?thesis by (simp add: o space fsmDone_def)
    qed
  qed
qed

lemma HandleCommitUndoFsm_done:
  assumes "takesAll env" "currentTable env = ct" "inStep ct h d" "outputs h = []"
    "typingKey v" "tracked env v sh cl h" "toChar env VK_SPACE = 0x20"
  shows "fsmDone ct sh cl v d (HandleCommitUndoFsm env v True sh cl False h)"
proof -
  note t = typingKey_facts[OF assms(5)]
  define g where "g = noteGlyphs env v h"
  have "tracked env v sh cl g = tracked env v sh cl h"
    by (cases "fsm (commitState h)")
      (simp_all add: g_def noteGlyphs_same tracked_def wordTracked_def pushes_def replaysWord_def)
  then have g: "inStep ct g d" "outputs g = []" "tracked env v sh cl g" "screen sh cl g d = d"
    using assms(3,4,6) by (simp_all add: g_def noteGlyphs_same screen_def)
  have stale: "cancelStale env v False g =
      (if fsm (commitState g) = CsReady \<and> now env - readyTime (commitState g) > kReadyTimeoutMs then CancelCommitUndo g else g)"
    using t by (simp add: cancelStale_def Let_def)
  note run = HandleCommitUndoFsm_def[of env v True sh cl False h, folded g_def, unfolded stale]
  show ?thesis
  proof (cases "fsm (commitState g)")
    case CsIdle
    then have "goesOn ct v d g" using g by (simp add: goesOn_def tracked_def)
    then show ?thesis using CsIdle by (simp add: run fsmDone_def readyKey_def)
  next
    case CsReady
    then show ?thesis
    proof (cases "now env - readyTime (commitState g) > kReadyTimeoutMs")
      case True
      then show ?thesis using CsReady inStep_CancelCommitUndo[OF g(1)] g(2)
        by (simp add: run fsmDone_def readyKey_def goesOn_forgotten)
    next
      case False
      have "Count (engine g) = 0" using g(1) CsReady by (simp add: inStep_def)
      then show ?thesis
        using False CsReady readyBackspace_lands[OF assms(1), of ct g sh cl d] g
          readyKey_goesOn[OF g(1,2) CsReady assms(5) _ _ assms(7)]
        unfolding run fsmDone_def by (cases "v = VK_BACK") (simp_all add: tracked_def)
    qed
  next
    case CsPrimed
    have n: "Count (engine g) = 0" using g(1) CsPrimed by (simp add: inStep_def)
    obtain o1 h2 where p: "primedKey env v sh cl g = (o1, h2)" by force
    show ?thesis
      using primedKey_done[OF assms(1,2) g(1,2) CsPrimed assms(5) g(3) assms(7) p] CsPrimed n
      by (cases o1) (simp_all add: run p fsmDone_def readyKey_def)
  qed
qed

section \<open>The whole key\<close>

text \<open>A key without modifiers that the hook is to handle, with no macros and no hotkey on it.\<close>

definition plainKey :: "KeyEnv \<Rightarrow> 32 word \<Rightarrow> bool \<Rightarrow> bool" where
  "plainKey env v sh \<longleftrightarrow> typingKey v \<and> takesAll env \<and> toChar env VK_SPACE = 0x20 \<and>
     \<not> effectiveTsf env \<and> \<not> browserEnglish env \<and> \<not> excludedHere env \<and> \<not> macroOn env \<and>
     list_all (\<lambda>i. \<not> registryMatches env i v (ComputeModMask False sh False False))
       [CancelComposition, ToggleEnabled, ToggleGameMode]"

lemma preEngine_chain:
  "preEngine env v sh cl ct al wi h =
    (case preEngineChain (hookExecutors env)
       \<lparr>kVk = ucast v, kKeyChar = 0, kShift = sh, kCapsLock = cl, kCtrl = ct, kAlt = al, kWin = wi,
        previousRendered = previous h, engineRendered = Peek (engine h), sessionRawInput = PeekRaw (engine h),
        reinjectVk = 0\<rparr> h of
       (h', verdict, _) \<Rightarrow> (case verdict of None \<Rightarrow> None | Some i \<Rightarrow> batchVerdict [i], h'))"
  unfolding preEngine_def HandleKeyAtStage_def hookCoordinator_buckets fst_conv runBucket_preEngine
  by (simp add: emitVerdict_def Emit_def newOutputChannel_def DrainBatch_def Let_def case_prod_beta split: option.split)

lemma preEngine_eq:
  assumes "plainKey env v sh" "vnMode h" "HandleCommitUndoFsm env v True sh cl False h = (r, h1)"
    "flags h1 = (True, False, False, False)"
  shows "preEngine env v sh cl False False False h =
    (case r of KeyEat \<Rightarrow> (Some True, h1) | KeyPass \<Rightarrow> (Some False, h1) | KeyFallthrough \<Rightarrow> (None, h1))"
proof -
  have p: "ucast (ucast v :: 16 word) = v" "\<not> macroOn env" "\<not> registryMatches env CancelComposition v (ComputeModMask False sh False False)"
    using assms(1) typingKey_facts(1) by (simp_all add: plainKey_def)
  have f: "vnMode h1" "\<not> undoActive (macroUndoState h1)" using assms(4) by (auto simp: flags_def)
  have m: "HookHandleMacro env v sh cl False False False h1 = (h1, MFallthrough)"
    using p f by (simp add: HookHandleMacro_def Let_def)
  have e: "HookTryEscRestore env v sh False False False h1 = (h1, EscFallthrough)"
    using p by (simp add: HookTryEscRestore_def Let_def)
  show ?thesis
    unfolding preEngine_chain using p(1) assms(2,3) m e
    by (cases r) (simp_all add: preEngineChain_def hookExecutors_def HookHandleCommitUndo_def)
qed

lemma DispatchKeyAction_lands:
  assumes "plainKey env v sh" "currentTable env = ct" "goesOn ct v d h"
  shows "lands ct sh cl v d (DispatchKeyAction env v sh cl False h)"
proof -
  have p: "typingKey v" "takesAll env" "toChar env VK_SPACE = 0x20" using assms(1) by (simp_all add: plainKey_def)
  note t = typingKey_facts[OF p(1)]
  have doc: "screen sh cl h d = d" using assms(3) by (simp add: goesOn_def screen_def)
  have fl: "flags h = (True, False, False, False)" using assms(3) by (auto simp: goesOn_def inStep_def)
  have led: "DecideDigitLed \<lparr>dlVkCode = v, dlShift = sh, engineEmpty = (Count (engine h) = 0),
      dlMethod = currentMethod env, currentlyArmed = digitLedWord h\<rparr> = DlContinue"
    using fl t(15) by (auto simp: DecideDigitLed_def flags_def)
  have run: "DispatchKeyAction env v sh cl False h =
    (if isLetterKey v then eatIf (HandleAlphaKey env v sh cl h)
     else if v = VK_BACK \<and> Count (engine h) \<noteq> 0 then (KeyEat, HandleBackspace env h)
     else if v = VK_SPACE \<and> Count (engine h) \<noteq> 0 then commitTrigger env VK_SPACE h
     else if v = VK_BACK \<and> synthPending h > 0 then (KeyEat, InjectKey env VK_BACK h)
     else (KeyPass, h))"
  proof -
    have nav: "clearContextOnNav v h = h" using t(7) by (simp add: clearContextOnNav_def)
    have on: "tempEngineOff h = False" using fl by (simp add: flags_def)
    have same: "h\<lparr>digitLedWord := b\<rparr> = h" if "digitLedWord h = b" for b using that by simp
    have "v = VK_BACK \<or> v = VK_SPACE \<or> isLetterKey v" using p(1) by (auto simp: typingKey_def)
    then show ?thesis
      unfolding DispatchKeyAction_def led Let_def on
      using t space_facts(1,3) back_facts(1) nav by (elim disjE) (simp_all add: eatIf_def)
  qed
  consider (letter) "isLetterKey v" | (typed) "\<not> isLetterKey v" "Count (engine h) \<noteq> 0"
    | (none) "\<not> isLetterKey v" "Count (engine h) = 0" by blast
  then show ?thesis
  proof cases
    case letter
    then have "fsm (commitState h) = CsIdle" "inStep ct h d" using assms(3) space_facts(1) by (auto simp: goesOn_def)
    then show ?thesis using letter HandleAlphaKey_inStep[OF p(2) assms(2) letter] doc by (simp add: run)
  next
    case typed
    then have i: "fsm (commitState h) = CsIdle" "inStep ct h d" "wordTracked v h" using assms(3) by (auto simp: goesOn_def)
    have "v = VK_BACK \<or> v = VK_SPACE" using p(1) typed by (auto simp: typingKey_def)
    then show ?thesis
      using typed i doc HandleBackspace_inStep[OF p(2) assms(2) i(1)] commitTrigger_inStep[OF p(2) assms(2) i(1) _ p(3)]
        space_facts(3) back_facts(1) space_facts(1)
      by (auto simp: run wordTracked_def)
  next
    case none
    have kept: "inStep ct h (nativeKey sh cl v d)"
    proof (cases "fsm (commitState h) = CsIdle")
      case True
      then have i: "inStep ct h d" "stack (commitState h) = []"
        using assms(3) none by (auto simp: goesOn_def wordTracked_def)
      moreover have "previous h = []" using i none Peek_Count_0[of "engine h"] by (simp add: inStep_def)
      ultimately show ?thesis using True by (simp add: inStep_def tailText_def Let_def behind_def)
    next
      case False
      then show ?thesis using assms(3) by (auto simp: goesOn_def space_facts)
    qed
    have "v = VK_BACK \<or> v = VK_SPACE" using p(1) none by (auto simp: typingKey_def)
    then show ?thesis
      using none kept doc InjectKey_inStep[of ct h sh cl VK_BACK d env] back_facts space_facts by (auto simp: run)
  qed
qed

text \<open>One key, from the event to the document; the outputs of earlier keys have reached it.\<close>

definition typeKey :: "KeyEnv \<Rightarrow> 32 word \<Rightarrow> bool \<Rightarrow> bool \<Rightarrow> HookEngine \<times> wstring \<Rightarrow> HookEngine \<times> wstring" where
  "typeKey env v sh cl s =
    (case ProcessKeyDown env v sh cl False False False ((fst s)\<lparr>outputs := []\<rparr>) of
       (eaten, h) \<Rightarrow> (h, if eaten then screen sh cl h (snd s) else nativeKey sh cl v (screen sh cl h (snd s))))"

lemma typeKey_inStep:
  assumes "plainKey env v sh" "inStep (currentTable env) h doc" "tracked env v sh cl (watchdog env h)"
  shows "inStep (currentTable env) (fst (typeKey env v sh cl (h, doc))) (snd (typeKey env v sh cl (h, doc)))"
proof -
  let ?ct = "currentTable env"
  have p: "typingKey v" "takesAll env" "toChar env VK_SPACE = 0x20" "RunTopGuards env v = KeyFallthrough"
    using assms(1) typingKey_facts by (simp_all add: plainKey_def RunTopGuards_def)
  note t = typingKey_facts[OF p(1)]
  define g where "g = watchdog env (h\<lparr>outputs := []\<rparr>)"
  have "inStep ?ct g doc = inStep ?ct h doc" by (rule inStep_cong) (simp_all add: g_def watchdog_def)
  then have g: "inStep ?ct g doc" "outputs g = []" using assms(2) by (simp_all add: g_def watchdog_def)
  have fl: "flags h = (True, False, False, False)" "flags g = (True, False, False, False)"
    using assms(2) g(1) by (simp_all add: inStep_def)
  have tr: "tracked env v sh cl g"
    using assms(3) by (auto simp: g_def watchdog_def tracked_def wordTracked_def pushes_def replaysWord_def cong: CommitFsm.case_cong)
  obtain r h1 where c: "HandleCommitUndoFsm env v True sh cl False g = (r, h1)" by force
  have done1: "fsmDone ?ct sh cl v doc (r, h1)"
    using HandleCommitUndoFsm_done[OF p(2) refl g p(1) tr p(3)] by (simp add: c)
  then have fl1: "flags h1 = (True, False, False, False)"
    by (auto simp: fsmDone_def goesOn_def inStep_def lands_def split: if_splits)
  have pre: "preEngine env v sh cl False False False g =
    (case r of KeyEat \<Rightarrow> (Some True, h1) | KeyPass \<Rightarrow> (Some False, h1) | KeyFallthrough \<Rightarrow> (None, h1))"
    using preEngine_eq[OF assms(1) _ c fl1] fl(2) by (simp add: flags_def)
  have start: "ProcessKeyDown env v sh cl False False False (h\<lparr>outputs := []\<rparr>) =
    (case preEngine env v sh cl False False False g of
       (Some eaten, h5) \<Rightarrow> (eaten, h5)
     | (None, h5) \<Rightarrow>
         (case HandlePreDispatch env v True sh False False False h5 of
            (KeyEat, h6) \<Rightarrow> (True, h6)
          | (KeyPass, h6) \<Rightarrow> (False, h6)
          | (KeyFallthrough, h6) \<Rightarrow>
              (case DispatchKeyAction env v sh cl False h6 of (r, h7) \<Rightarrow> (r = KeyEat, h7))))"
  proof -
    have u: "dropMacroUndo env v False (h\<lparr>outputs := []\<rparr>) = h\<lparr>outputs := []\<rparr>" "vnMode g = True"
      using fl by (simp_all add: dropMacroUndo_def Let_def flags_def)
    have tab: "IsReplayContextBoundary v = False" "(v = VK_TAB) = False" using t(3,6) by simp_all
    show ?thesis
      unfolding ProcessKeyDown_def Let_def u(1) tab if_False g_def[symmetric] u(2) p(4) simp_thms by simp
  qed
  show ?thesis
  proof (cases "r = KeyFallthrough")
    case False
    then show ?thesis using done1 by (cases r) (simp_all add: fsmDone_def typeKey_def start pre)
  next
    case True
    have goes: "goesOn ?ct v doc h1" using done1 True by (simp add: fsmDone_def)
    obtain h2 where d: "HandlePreDispatch env v True sh False False False h1 = (KeyFallthrough, h2)"
      "h2 = h1 \<or> (\<exists>a. h2 = h1\<lparr>autoCapState := a\<rparr>)"
      using assms(1) by (cases "autoCapsOn env") (auto simp: HandlePreDispatch_def Let_def plainKey_def)
    have "inStep ?ct (h1\<lparr>autoCapState := a\<rparr>) x = inStep ?ct h1 x" for a x by (rule inStep_cong) simp_all
    then have "goesOn ?ct v doc h2"
      using goes d(2) by (auto simp: goesOn_def wordTracked_def pushes_def)
    from DispatchKeyAction_lands[OF assms(1) refl this, of cl] have l: "lands ?ct sh cl v doc (DispatchKeyAction env v sh cl False h2)" .
    obtain r2 h3 where e: "DispatchKeyAction env v sh cl False h2 = (r2, h3)" by force
    show ?thesis
      using l by (cases "r2 = KeyEat") (simp_all add: typeKey_def start pre True d(1) e lands_pair)
  qed
qed

end
