(* ===== verification/HookProps.thy ===== *)
theory HookProps
  imports HookKey EngineEval
begin

text \<open>
  Sequences of keys through the hook: what stands before the caret is what the engine holds.  The examples are
  executed by the simplifier.
\<close>

section \<open>Runs of keys\<close>

text \<open>A run of keys, each with its environment.\<close>

type_synonym keyEvent = "KeyEnv \<times> 32 word \<times> bool \<times> bool"

fun typeEvents :: "keyEvent list \<Rightarrow> HookEngine \<times> wstring \<Rightarrow> HookEngine \<times> wstring" where
  "typeEvents [] s = s"
| "typeEvents ((env, v, sh, cl) # ks) s = typeEvents ks (typeKey env v sh cl s)"

fun coveredRun :: "CodeTable \<Rightarrow> keyEvent list \<Rightarrow> HookEngine \<times> wstring \<Rightarrow> bool" where
  "coveredRun ct [] s = True"
| "coveredRun ct ((env, v, sh, cl) # ks) s \<longleftrightarrow>
     currentTable env = ct \<and> plainKey env v sh \<and> tracked env v sh cl (watchdog env (fst s)) \<and>
     coveredRun ct ks (typeKey env v sh cl s)"

lemma typeEvents_inStep:
  assumes "inStep ct (fst s) (snd s)" "coveredRun ct ks s"
  shows "inStep ct (fst (typeEvents ks s)) (snd (typeEvents ks s))"
  using assms
proof (induction ks arbitrary: s)
  case (Cons k ks)
  obtain env v sh cl where k: "k = (env, v, sh, cl)" by (metis prod_cases4)
  have c: "currentTable env = ct" "plainKey env v sh" "tracked env v sh cl (watchdog env (fst s))"
    "coveredRun ct ks (typeKey env v sh cl s)" using Cons.prems(2) by (simp_all add: k)
  have "inStep ct (fst (typeKey env v sh cl s)) (snd (typeKey env v sh cl s))"
    using typeKey_inStep[OF c(2) _ c(3), of "snd s"] Cons.prems(1) c(1) by simp
  from Cons.IH[OF this c(4)] show ?case by (simp add: k)
qed simp

lemma newHookEngine_inStep: "inStep ct (newHookEngine cfg) doc"
  by (simp add: inStep_def flags_def newHookEngine_def engine_def newCommitState_def tailText_def Let_def behind_def
      widthsOk_def encodedWidths_def newTypingEngine_def Peek_def ComposeAll_def)

lemma inStep_shown:
  assumes "inStep ct h doc"
  shows "Peek (engine h) = previous h" "suffix (tailText ct h) doc" "suffix (encoded ct (previous h)) doc"
proof -
  show "Peek (engine h) = previous h" "suffix (tailText ct h) doc" using assms by (simp_all add: inStep_def)
  show "suffix (encoded ct (previous h)) doc"
    using assms Peek_Count_0[of "engine h"]
    by (cases "fsm (commitState h)") (auto simp: inStep_def tailText_def Let_def dest: suffix_appendD)
qed

lemma typeEvents_append: "typeEvents (ks @ ks') s = typeEvents ks' (typeEvents ks s)"
  by (induction ks s rule: typeEvents.induct) simp_all

lemma coveredRun_append: "coveredRun ct (ks @ ks') s \<longleftrightarrow> coveredRun ct ks s \<and> coveredRun ct ks' (typeEvents ks s)"
  by (induction ct ks s rule: coveredRun.induct) auto

section \<open>Examples\<close>

text \<open>An ordinary host: Telex, the Unicode table, no macros and no hotkeys, and everything sent arrives.\<close>

definition exampleEnv :: KeyEnv where
  "exampleEnv =
    \<lparr>now = 0, currentMethod = Telex, currentTable = Unicode, typingConfig = defaultTypingConfig, macroOn = False,
     macroInEn = False, autoCapsOn = False, snapshot = None, registry = None,
     toChar = (\<lambda>v. if v = VK_SPACE then 0x20 else 0), caseUp = (\<lambda>s. s), caseLow = (\<lambda>s. s),
     isSpaceChar = (\<lambda>_. False), isPunctChar = (\<lambda>_. False), hasTarget = True, anchorCaps = None,
     passwordFocused = False, effectiveTsf = False, browserEnglish = False, excludedHere = False, lockstep = False,
     baitPrefix = False, settleMs = 0, syncChannel = False, skipEmptyChar = False, gameReinject = False,
     clipboardHost = False, editCompatible = False, editPasteOk = False, delivers = (\<lambda>_. True),
     retryLate = (\<lambda>_. False), eventCount = (\<lambda>_. 0)\<rparr>"

definition exampleKey :: "32 word \<Rightarrow> keyEvent" where "exampleKey v = (exampleEnv, v, False, False)"

text \<open>The word \<open>a\<close> on the stack, and a hook that holds such words behind the caret.\<close>

definition wordA :: CommitEntry where
  "wordA = \<lparr>history = [L_a], entryText = [L_a], entryRaw = [L_a], entryWidths = [], extraLeadingTriggers = 0\<rparr>"

definition committed :: "CommitFsm \<Rightarrow> CommitEntry list \<Rightarrow> wstring \<Rightarrow> HookEngine" where
  "committed st es hist = (newHookEngine defaultTypingConfig)\<lparr>commitState :=
     newCommitState\<lparr>fsm := st, pushedToStack := True, stack := es, inputHistory := hist\<rparr>\<rparr>"

text \<open>The keys \<open>a\<close>, space, backspace, \<open>s\<close>; and \<open>a\<close>, space, \<open>a\<close>, space, backspace, \<open>b\<close>, backspace, backspace.\<close>

definition reopenKeys :: "keyEvent list" where
  "reopenKeys = map exampleKey [0x41, VK_SPACE] @ map exampleKey [VK_BACK] @ map exampleKey [0x53]"


abbreviation newHook :: "HookEngine \<times> wstring" where "newHook \<equiv> (newHookEngine defaultTypingConfig, [])"

lemmas hook_eval = exampleEnv_def exampleKey_def typeKey_def ProcessKeyDown_def dropMacroUndo_def watchdog_def RunTopGuards_def
  preEngine_chain preEngineChain_def hookExecutors_def HookHandleCommitUndo_def HookHandleMacro_def noSnapshot_def
  HookTryEscRestore_def HandlePreDispatch_def registryMatches_def DispatchKeyAction_def HandleAlphaKey_def
  DispatchCoordinator_eq ReplaceComposition_def commitTrigger_def CommitComposition_def HandleCommitUndoFsm_def
  noteGlyphs_def cancelStale_def readyBackspace_def passOrdered_def primedKey_def replaysWord_def isExemptKey_def
  takesDigits_def readyKey_def ReplayCommittedChars_def armUndo_def savedMacroBuffer_def autoCapitalize_def letterOf_def
  isSimpleAppend_def pushAndShow_def HandleBackspace_def screen_def nativeKey_def ReplaceUnicode_def injectReplace_def
  emit_def noteSynthInWord_def RecordSynthDispatch_def ClearWordState_def ClearMacroBuffer_def SetCommitUndoReady_def
  isModifierVk_def isLockKey_def clearContextOnNav_def eatIf_def replayHistory_def onCommit_def setEngine_def engine_def
  SetIdle_def SetReady_def SetPrimed_def PushEntry_def PopStackTop_def AppendHistory_def ClearHistory_def kMaxStack_def
  LastCommitWasCorrected_def newHookEngine_def newCommitState_def tracked_def wordTracked_def pushes_def plainKey_def
  typingKey_def takesAll_def isLetterKey_def vk_defs IsReplayContextBoundary_def IsCaretNavigationKey_def isDigitKey_def
  IsCommitTrigger_def IsModifierKey_def kVkControl_def kVkMenu_def kVkShift_def kVkLwin_def kVkRwin_def CanonicalModifierVk_def ComputeModMask_def DecideDigitLed_def RestoreCommittedText_def
  cutBack_def IsCommitUndoExemptKey_def DecideCommitUndoArm_def kBackspaceMarker_def seedVisible_def CancelCommitUndo_def
  Cancel_def startWord_def DecideReadyGapKey_def DecidePrimedTriggerAction_def IncrementPendingTriggers_def
  DecrementPendingTriggers_def SendBackspaces_def ReplaceRaw_def shownWidth_def InjectKey_def IsHostReplacedWord_def
  ShouldReplayCommittedKey_def comp_def committed_def wordA_def

lemma type_a_space:
  "typeEvents (map exampleKey [0x41, VK_SPACE]) newHook = (committed CsReady [wordA] [], [L_a, 0x20])"
  by (simp add: hook_eval engine_eval cong: eval_cong split del: if_split)

lemma type_back_space:
  "typeEvents (map exampleKey [VK_BACK]) (committed CsReady [wordA] [], [L_a, 0x20]) = (committed CsPrimed [wordA] [], [L_a])"
  by (simp add: hook_eval engine_eval cong: eval_cong split del: if_split)

lemma type_tone:
  "case typeEvents (map exampleKey [0x53]) (committed CsPrimed [wordA] hist, doc @ [x]) of (h, doc') \<Rightarrow>
     previous h = [0xE1] \<and> doc' = doc @ [0xE1]"
  by (simp add: hook_eval engine_eval cong: eval_cong split del: if_split)



lemma Decompose_a: "DecomposeVietChar L_a \<noteq> None"
  by (simp add: DecomposeVietChar_def ToLowerVietnamese_def towlower_def decomposeToneBase_def kTonedVowel_def kToneBase_def)

lemma plain_example: "plainKey exampleEnv v False \<longleftrightarrow> typingKey v"
  by (simp add: plainKey_def takesAll_def exampleEnv_def registryMatches_def)

lemma covered_a_space: "coveredRun Unicode (map exampleKey [0x41, VK_SPACE]) newHook"
proof -
  have "typingKey 0x41" "isLetterKey 0x41" "typingKey VK_SPACE" by (simp_all add: typingKey_def isLetterKey_def)
  moreover have "stack (commitState (fst (typeKey exampleEnv 0x41 False False newHook))) = []"
    "fsm (commitState (fst (typeKey exampleEnv 0x41 False False newHook))) = CsIdle"
    by (simp_all add: hook_eval engine_eval cong: eval_cong split del: if_split)
  ultimately show ?thesis
    by (simp add: exampleKey_def plain_example) (simp add: tracked_def wordTracked_def watchdog_def exampleEnv_def
        newHookEngine_def newCommitState_def)
qed

lemma covered_tone:
  "coveredRun Unicode (map exampleKey [VK_BACK]) (committed CsReady [wordA] [], [L_a, 0x20])"
  "coveredRun Unicode (map exampleKey [0x53]) (committed CsPrimed [wordA] [], [L_a])"
proof -
  have t: "typingKey VK_BACK" "typingKey 0x53" by (simp_all add: typingKey_def isLetterKey_def)
  have "tracked exampleEnv VK_BACK False False (watchdog exampleEnv (committed CsReady [wordA] []))"
    by (simp add: tracked_def watchdog_def committed_def newHookEngine_def newCommitState_def vk_defs)
  moreover have "tracked exampleEnv 0x53 False False (watchdog exampleEnv (committed CsPrimed [wordA] []))"
    using Decompose_a by (simp add: tracked_def watchdog_def committed_def newHookEngine_def newCommitState_def wordA_def
        replaysWord_def isExemptKey_def IsCommitUndoExemptKey_def exampleEnv_def VK_SPACE_def Let_def)
  ultimately show "coveredRun Unicode (map exampleKey [VK_BACK]) (committed CsReady [wordA] [], [L_a, 0x20])"
    "coveredRun Unicode (map exampleKey [0x53]) (committed CsPrimed [wordA] [], [L_a])"
    using t by (simp_all add: exampleKey_def plain_example) (simp_all add: exampleEnv_def)
qed

section \<open>Properties\<close>

text \<open>C3. Letters, spaces and backspaces, with commits and returns into committed words among them and in every
  code table: after any covered run of keys the hook believes that exactly the text of the engine is shown,
  this text encoded in the code table stands at the end of the document, and so do the committed words with
  the spaces between them that the stack of commit undo records.\<close>

theorem document_follows_engine:
  assumes "coveredRun ct ks (newHookEngine cfg, doc)"
  shows "case typeEvents ks (newHookEngine cfg, doc) of (h, doc') \<Rightarrow>
    Peek (engine h) = previous h \<and> suffix (encoded ct (Peek (engine h))) doc' \<and> suffix (tailText ct h) doc'"
  using inStep_shown[OF typeEvents_inStep[OF _ assms]] newHookEngine_inStep[of ct cfg doc]
  by (simp add: case_prod_beta)

theorem document_follows_engine_witness:
  "case typeEvents reopenKeys newHook of (h, doc') \<Rightarrow> previous h = [0xE1] \<and> doc' = [0xE1] \<and> suffix (encoded Unicode (Peek (engine h))) doc'"
proof -
  have "coveredRun Unicode reopenKeys newHook"
    unfolding reopenKeys_def coveredRun_append type_a_space type_back_space
    using covered_a_space covered_tone by blast
  note covered = document_follows_engine[OF this]
  have run: "typeEvents reopenKeys newHook = typeEvents (map exampleKey [0x53]) (committed CsPrimed [wordA] [], [L_a])"
    unfolding reopenKeys_def typeEvents_append type_a_space type_back_space by (rule refl)
  have tone: "case typeEvents (map exampleKey [0x53]) (committed CsPrimed [wordA] [], [L_a]) of (h, doc') \<Rightarrow>
      previous h = [0xE1] \<and> doc' = [0xE1]"
    using type_tone[of "[]" "[]" L_a] unfolding append_Nil .
  show ?thesis
    using covered tone unfolding run case_prod_beta by blast
qed


end
