(* ===== verification/HookUndoProps.thy ===== *)
theory HookUndoProps
  imports HookProps
begin

text \<open>
  Taking back what the hook wrote: a macro expansion (\<open>HookEngine::HandleMacro\<close>), sent in batches of bounded
  size, and the raw keys in the place of the composed word (\<open>HookEngine::TryEscRestoreRaw\<close>).
\<close>

definition smallBatch :: "Output \<Rightarrow> bool" where
  "smallBatch o1 = (case o1 of OReplace n s v ok \<Rightarrow> n \<le> 60 \<and> length s \<le> 60 | _ \<Rightarrow> True)"

lemma ReplaceRaw_small:
  assumes "n \<le> 60" "length s \<le> 60"
  shows "\<exists>new. outputs (snd (ReplaceRaw env n s h)) = outputs h @ new \<and> list_all smallBatch new"
  using assms by (auto simp: ReplaceRaw_def injectReplace_def emit_def smallBatch_def Let_def RecordSynthDispatch_def)

lemma ReplaceRaw_ok: "takesAll env \<Longrightarrow> fst (ReplaceRaw env n s h)"
  by (simp add: ReplaceRaw_def injectReplace_ok)

lemma eraseChunks_small:
  "\<exists>new. outputs (snd (eraseChunks env n h)) = outputs h @ new \<and> list_all smallBatch new"
proof (induction env n h rule: eraseChunks.induct)
  case (1 env n h)
  show ?case
  proof (cases "n = 0")
    case True
    then show ?thesis by (subst eraseChunks.simps) simp
  next
    case False
    obtain ok h1 where r: "ReplaceRaw env (min n 60) [] h = (ok, h1)" by force
    obtain new where new: "outputs h1 = outputs h @ new" "list_all smallBatch new"
      using ReplaceRaw_small[of "min n 60" "[]" env h] unfolding r by auto
    show ?thesis
      using 1[OF False r[symmetric]] new False by (subst eraseChunks.simps) (force simp: r)
  qed
qed

lemma sendChunks_small:
  "\<exists>new. outputs (snd (sendChunks env s h)) = outputs h @ new \<and> list_all smallBatch new"
proof (induction env s h rule: sendChunks.induct)
  case (1 env s h)
  show ?case
  proof (cases "s = []")
    case True
    then show ?thesis by (subst sendChunks.simps) simp
  next
    case False
    obtain ok h1 where r: "ReplaceRaw env 0 (take 60 s) h = (ok, h1)" by force
    obtain new where new: "outputs h1 = outputs h @ new" "list_all smallBatch new"
      using ReplaceRaw_small[of 0 "take 60 s" env h] unfolding r by auto
    show ?thesis
      using 1[OF False r[symmetric]] new False by (subst sendChunks.simps) (force simp: r)
  qed
qed

lemma cutBack_cutBack: "cutBack m (cutBack n d) = cutBack (n + m) d"
proof -
  have "min (length (take (length d - n) d) - m) (length d - n) = length d - (n + m)" by auto
  then show ?thesis by (simp add: cutBack_def del: length_take)
qed

lemma ReplaceRaw_rest: "rest (snd (ReplaceRaw env n s h)) = rest h"
  by (simp add: ReplaceRaw_def injectReplace_def Let_def)

lemma eraseChunks_rest: "rest (snd (eraseChunks env n h)) = rest h"
proof (induction env n h rule: eraseChunks.induct)
  case (1 env n h)
  then show ?case
    using ReplaceRaw_rest[of env "min n 60" "[]" h] by (subst eraseChunks.simps) (auto split: prod.splits)
qed

lemma sendChunks_rest: "rest (snd (sendChunks env s h)) = rest h"
proof (induction env s h rule: sendChunks.induct)
  case (1 env s h)
  then show ?case
    using ReplaceRaw_rest[of env 0 "take 60 s" h] by (subst sendChunks.simps) (auto split: prod.splits)
qed

lemma rest_macroUndo: "rest h' = rest h \<Longrightarrow> macroUndoState h' = macroUndoState h"
  by (drule arg_cong[where f = macroUndoState]) (simp add: rest_def)

lemma eraseChunks_doc:
  assumes "takesAll env"
  shows "fst (eraseChunks env n h) \<and> screen sh cl (snd (eraseChunks env n h)) d = cutBack n (screen sh cl h d)"
  using assms
proof (induction env n h rule: eraseChunks.induct)
  case (1 env n h)
  show ?case
  proof (cases "n = 0")
    case True
    then show ?thesis by (subst (1 2) eraseChunks.simps) simp
  next
    case False
    obtain ok h1 where r: "ReplaceRaw env (min n 60) [] h = (ok, h1)" by force
    have "ok" "screen sh cl h1 d = cutBack (min n 60) (screen sh cl h d)"
      using ReplaceRaw_facts(1)[OF 1(2), of sh cl "min n 60" "[]" h d] ReplaceRaw_ok[OF 1(2), of "min n 60" "[]" h]
      by (simp_all add: r)
    then show ?thesis
      using 1(1)[OF False r[symmetric] _ 1(2)] False
      by (subst (1 2) eraseChunks.simps) (simp add: r cutBack_cutBack)
  qed
qed

lemma sendChunks_doc:
  assumes "takesAll env"
  shows "fst (sendChunks env s h) \<and> screen sh cl (snd (sendChunks env s h)) d = screen sh cl h d @ s"
  using assms
proof (induction env s h rule: sendChunks.induct)
  case (1 env s h)
  show ?case
  proof (cases "s = []")
    case True
    then show ?thesis by (subst (1 2) sendChunks.simps) simp
  next
    case False
    obtain ok h1 where r: "ReplaceRaw env 0 (take 60 s) h = (ok, h1)" by force
    have "ok" "screen sh cl h1 d = screen sh cl h d @ take 60 s"
      using ReplaceRaw_facts(1)[OF 1(2), of sh cl 0 "take 60 s" h d] ReplaceRaw_ok[OF 1(2), of 0 "take 60 s" h]
      by (simp_all add: r)
    then show ?thesis
      using 1(1)[OF False r[symmetric] _ 1(2)] False
      by (subst (1 2) sendChunks.simps) (simp add: r)
  qed
qed

lemma ResetComposition_outputs: "outputs (ResetComposition h) = outputs h"
  by (simp add: ResetComposition_def ClearMacroUndo_def CancelCommitUndo_def ClearWordState_def ClearMacroBuffer_def)

text \<open>C25. Taking back a macro expansion sends batches of at most 60 backspaces and 60 units, whatever the injector
  makes of them.  When it takes them, exactly the expansion and the trigger behind it are deleted, the
  shortcut stands in their place, and the hook holds it as a buffer that will not expand again.\<close>

theorem macro_taken_back:
  "(\<exists>new. outputs (undoMacro env h) = outputs h @ new \<and> list_all smallBatch new) \<and>
   \<not> undoActive (macroUndoState (undoMacro env h)) \<and>
   (takesAll env \<longrightarrow>
      screen sh cl (undoMacro env h) d =
        cutBack (expansionLength (macroUndoState h) + (if hasTrailingTrigger (macroUndoState h) then 1 else 0))
          (screen sh cl h d) @ undoShortcut (macroUndoState h) \<and>
      macroBuffer (undoMacro env h) = undoShortcut (macroUndoState h) \<and> tempMacroOff (undoMacro env h))"
proof -
  let ?u = "macroUndoState h" and ?h0 = "ClearMacroUndo h"
  let ?n = "expansionLength ?u + (if hasTrailingTrigger ?u then 1 else 0)"
  obtain ok h1 where e: "eraseChunks env ?n ?h0 = (ok, h1)" by force
  obtain ok2 h2 where s: "sendChunks env (undoShortcut ?u) h1 = (ok2, h2)" by force
  define done1 where "done1 = h2\<lparr>macroBuffer := undoShortcut ?u, crossCommit := True, tempMacroOff := True\<rparr>"
  have run: "undoMacro env h = (if \<not> ok then ResetComposition h1 else if \<not> ok2 then ResetComposition h2 else done1)"
    by (simp add: undoMacro_def e s Let_def done1_def)
  have o0: "outputs ?h0 = outputs h" by (simp add: ClearMacroUndo_def)
  obtain new where new: "outputs h1 = outputs h @ new" "list_all smallBatch new"
    using eraseChunks_small[of env ?n ?h0, unfolded e snd_conv o0] by blast
  obtain new' where new': "outputs h2 = outputs h1 @ new'" "list_all smallBatch new'"
    using sendChunks_small[of env "undoShortcut ?u" h1, unfolded s snd_conv] by blast
  have "rest h1 = rest ?h0" "rest h2 = rest h1"
    using eraseChunks_rest[of env ?n ?h0] sendChunks_rest[of env "undoShortcut ?u" h1] by (simp_all add: e s)
  then have "\<not> undoActive (macroUndoState h2)"
    by (simp add: rest_macroUndo[of h2 h1] rest_macroUndo[of h1 ?h0]) (simp add: ClearMacroUndo_def noMacroUndo_def)
  moreover have "\<not> undoActive (macroUndoState (ResetComposition x))" for x
    by (simp add: ResetComposition_def ClearMacroUndo_def noMacroUndo_def)
  ultimately have inactive: "\<not> undoActive (macroUndoState (undoMacro env h))" by (simp add: run done1_def)
  have "\<exists>new. outputs (undoMacro env h) = outputs h @ new \<and> list_all smallBatch new"
    using new new' by (simp add: run done1_def ResetComposition_outputs)
  moreover have "screen sh cl (undoMacro env h) d = cutBack ?n (screen sh cl h d) @ undoShortcut ?u \<and>
      macroBuffer (undoMacro env h) = undoShortcut ?u \<and> tempMacroOff (undoMacro env h)" if t: "takesAll env"
  proof -
    have "ok" "screen sh cl h1 d = cutBack ?n (screen sh cl ?h0 d)"
      using eraseChunks_doc[OF t, of ?n ?h0 sh cl d] by (simp_all add: e)
    moreover have "ok2" "screen sh cl h2 d = screen sh cl h1 d @ undoShortcut ?u"
      using sendChunks_doc[OF t, of "undoShortcut ?u" h1 sh cl d] by (simp_all add: s)
    moreover have "screen sh cl ?h0 d = screen sh cl h d" by (simp add: screen_def ClearMacroUndo_def)
    ultimately show ?thesis by (simp add: run done1_def screen_def)
  qed
  ultimately show ?thesis using inactive by blast
qed

text \<open>The expansion of \<open>vn\<close> into five letters and the space behind it, taken back.\<close>

theorem macro_taken_back_witness:
  "screen False False
     (undoMacro exampleEnv ((newHookEngine defaultTypingConfig)\<lparr>macroUndoState :=
        \<lparr>undoShortcut = [L_v, L_n], expansionLength = 5, hasTrailingTrigger = True, undoTimestamp = 0, undoActive = True\<rparr>\<rparr>))
     [L_a, 0x20, 0x56, 0x69, 0x1EC7, 0x74, 0x20, 0x20] = [L_a, 0x20, L_v, L_n]"
proof -
  let ?h = "(newHookEngine defaultTypingConfig)\<lparr>macroUndoState :=
      \<lparr>undoShortcut = [L_v, L_n], expansionLength = 5, hasTrailingTrigger = True, undoTimestamp = 0, undoActive = True\<rparr>\<rparr>"
  have "takesAll exampleEnv" by (simp add: takesAll_def exampleEnv_def)
  then show ?thesis
    using macro_taken_back[of exampleEnv ?h False False "[L_a, 0x20, 0x56, 0x69, 0x1EC7, 0x74, 0x20, 0x20]"]
    by (simp add: screen_def newHookEngine_def cutBack_def)
qed

section \<open>Raw keys\<close>

lemma encoded_long: "length s \<le> length (encoded ct s)"
proof -
  have "length s \<le> length (encodedText ct s)"
    by (induction s) (simp_all add: encodedText_def encUnits_def)
  then show ?thesis by (simp add: encoded_def)
qed

text \<open>C24. Restoring the raw keys of the word being typed deletes one unit per character of the word.  In a code table
  with one unit per character the raw keys stand exactly in the place of the word; in the others
  the first units of the encoded word remain before them.\<close>

theorem raw_restore_document:
  assumes "takesAll env" "Count (engine h) > 0" "PeekRaw (engine h) \<noteq> []" "Count (engine h) = length (previous h)"
    and "screen sh cl h d = pre @ encoded (currentTable env) (previous h)"
  shows "case TryEscRestoreRaw env h of (r, h') \<Rightarrow>
    r = KeyEat \<and> Count (engine h') = 0 \<and> commitState h' = commitState h \<and>
    screen sh cl h' d = pre @ cutBack (length (previous h)) (encoded (currentTable env) (previous h)) @ PeekRaw (engine h)"
proof -
  let ?n = "Count (engine h)" and ?raw = "PeekRaw (engine h)" and ?t = "encoded (currentTable env) (previous h)"
  define h1 where "h1 = emit env (OReplace ?n ?raw 0 True) h"
  have run: "TryEscRestoreRaw env h = (KeyEat, (ClearMacroBuffer (setEngine (Reset (engine h1)) h1))\<lparr>tempMacroOff := False\<rparr>)"
    using assms(2,3) by (simp add: TryEscRestoreRaw_def Let_def injectReplace_ok[OF assms(1)] h1_def)
  have long: "length (previous h) \<le> length ?t" by (rule encoded_long)
  have "screen sh cl h1 d = cutBack ?n (pre @ ?t) @ ?raw"
    by (simp add: h1_def screen_emit assms(5))
  also have "cutBack ?n (pre @ ?t) = pre @ cutBack (length (previous h)) ?t"
    using long assms(4) by (simp add: cutBack_def)
  finally have doc: "screen sh cl h1 d = pre @ cutBack (length (previous h)) ?t @ ?raw" by simp
  have cs: "commitState h1 = commitState h" by (simp add: h1_def emit_def)
  show ?thesis
    using doc cs by (simp add: run ClearMacroBuffer_def screen_def engine_def setEngine_def Count_def Reset_def)
qed

text \<open>The word typed with \<open>a\<close> and \<open>s\<close> in the VNI table: one of its two units stays.\<close>

theorem raw_restore_document_witness:
  "let h = (newHookEngine defaultTypingConfig)\<lparr>previous := [0xE1],
       hostEngine := Some (typeKeys [L_a, L_s] (newTypingEngine defaultTypingConfig))\<rparr> in
   encoded VNIWindows [0xE1] = [0x61, 0xF9] \<and>
   screen False False (snd (TryEscRestoreRaw (exampleEnv\<lparr>currentTable := VNIWindows\<rparr>) h)) [0x61, 0xF9] = [0x61, L_a, L_s]"
proof -
  let ?e = "typeKeys [L_a, L_s] (newTypingEngine defaultTypingConfig)"
  let ?h = "(newHookEngine defaultTypingConfig)\<lparr>previous := [0xE1], hostEngine := Some ?e\<rparr>"
  let ?env = "exampleEnv\<lparr>currentTable := VNIWindows\<rparr>"
  have table: "encoded VNIWindows [0xE1] = [0x61, 0xF9]"
    by (simp add: encoded_def encodedText_def encUnits_def ConvertChar_def kVniMap_def DecodeLoHi_def)
  have typed: "Count ?e = 1" "PeekRaw ?e = [L_a, L_s]"
    by (simp_all add: engine_eval cong: eval_cong split del: if_split)
  have "engine ?h = ?e" "screen False False ?h [0x61, 0xF9] = [0x61, 0xF9]"
    by (simp_all add: engine_def screen_def newHookEngine_def)
  moreover have "takesAll ?env" "currentTable ?env = VNIWindows" by (simp_all add: takesAll_def exampleEnv_def)
  ultimately show ?thesis
    using raw_restore_document[of ?env ?h False False "[0x61, 0xF9]" "[]"] typed table
    by (simp add: Let_def case_prod_beta cutBack_def)
qed

end
