(* ===== verification/Spec2Isabelle.thy ===== *)
theory Spec2Isabelle
  imports EngineExamples Syllables Pipeline LexiconPublish Decisions Supervision CodeTableProofs TextProps
    MacroProps MacroPrefix SmartSwitch CommittedText LexiconTextProps LexiconTxnProps
    Hotkeys Mailbox NativeMessagingProps HookUndoProps
begin

text \<open>
  VKey, a Vietnamese keyboard for Windows (\<open>src/src/core\<close>): a verification library of its core.

  \<^bold>\<open>The program.\<close> A key pressed by the user reaches the hook (\<open>app/system/HookEngine.cpp\<close>), which sends
  it through a coordinator of features (\<open>core/pipeline\<close>): commit undo, macros, raw restore and the
  backward edit.  The last one asks the typing engine (\<open>core/engine\<close>), which keeps the word being
  typed as a list of character states, applies tone and modifier keys to it, and validates the
  syllable.  Settings and the user's words reach the other processes through shared memory
  (\<open>core/ipc\<close>); pure decision functions (\<open>core/*Decision.h\<close>) and small policies decide about
  capitalization, focus, undo and supervision.

  \<^bold>\<open>The theories.\<close>
  \<^item> \<open>Prelude\<close>: characters as 16-bit units (\<open>wchar\<close>, a natural number), the C locale, scans by index.
  \<^item> Data: \<open>VietTables\<close> (\<open>VietnameseTables.h\<close>), \<open>TypingAction\<close>, \<open>TypingConfig\<close>, \<open>CharState\<close>
    (\<open>TypingEngine.h\<close>).
  \<^item> Language: \<open>Phonology\<close> (\<open>PhonotacticsValidator.cpp\<close>), \<open>TonePlacement\<close> (\<open>Phonotactics.cpp\<close>),
    \<open>EnglishProtection\<close>, \<open>EngineHelpers\<close>; \<open>Syllables\<close> proves what the validator accepts.
  \<^item> Engine (\<open>TypingEngine.cpp\<close>): \<open>EngineCore\<close>, \<open>EngineModifiers\<close>, \<open>EngineTone\<close>, \<open>Dispatch\<close> (the rule
    registry), \<open>EngineApi\<close> (\<open>PushKey\<close>, \<open>Backspace\<close>, \<open>Commit\<close>, \<open>Reset\<close>, \<open>SeedFromText\<close>).  \<open>EngineInv\<close>,
    \<open>EngineFrame\<close>, \<open>EngineSeed\<close>, \<open>EngineEval\<close>, \<open>EngineSession\<close> and \<open>EngineExamples\<close> hold the invariant,
    the frame lemmas, the decomposition of characters and the evaluation of concrete sessions.
  \<^item> \<open>Pipeline\<close>: the coordinator, its features, gates and output channel, and the hook's registrations.
  \<^item> Lexicon image (\<open>LexiconWireFormat.cpp\<close>): \<open>Crc32\<close>, \<open>Utf16\<close>, \<open>WireMemory\<close>, \<open>LexiconWire\<close> and its proofs;
    \<open>Seqlock\<close> is the publish and read protocol, \<open>LexiconPublish\<close> puts the image into it.
  \<^item> \<open>SharedState\<close> (\<open>SharedState.h\<close>, \<open>AutoCapDecision.h\<close>), \<open>Decisions\<close> (the decision headers),
    \<open>Supervision\<close> (restart throttle, hook reclaim).
  \<^item> \<open>CodeTable\<close>, \<open>CodeTableProofs\<close>, \<open>TextCase\<close>, \<open>TextProps\<close> (\<open>CodeTableConverter.cpp\<close>): legacy encodings,
    removal of diacritics, sentence and title case.
  \<^item> \<open>Macro\<close>, \<open>MacroProps\<close> (\<open>MacroCase.cpp\<close>, \<open>MacroContextMatch.h\<close>), \<open>MacroPrefix\<close> (\<open>MacroPrefix.h\<close>):
    macro lookup, casing and expansion, and the index of their prefixes.
  \<^item> \<open>SmartSwitch\<close> (\<open>SmartSwitchManager.cpp\<close>): the shared table of program modes, write by write;
    \<open>CommittedText\<close> (\<open>CommittedTextRestore.h\<close>): restoring the engine behind committed text.
  \<^item> Text side of the lexicon: \<open>Utf8\<close>, \<open>LexiconText\<close> (\<open>SpellExclusionCanonicalizer.cpp\<close>,
    \<open>LexiconValidation.cpp\<close>), with the proofs in \<open>LexiconTextProofs\<close> and \<open>LexiconTextProps\<close>.
  \<^item> \<open>LexiconJournal\<close>, \<open>LexiconTxn\<close> (\<open>LexiconTransaction.cpp\<close>): the journalled replacement of the configuration
    and the dictionary in a world of files whose calls fail or end the process; \<open>LexiconTxnProofs\<close> has the
    weakest preconditions of the operations under crashes, \<open>LexiconTxnLive\<close> their undisturbed runs.
  \<^item> Keyboard hook (\<open>app/system\<close>): \<open>HookState\<close> (\<open>CommitState.h\<close>, the word state of \<open>HookEngine.h\<close>,
    \<open>OutputDispatcher.cpp\<close>), \<open>HookWord\<close> (letters, backspaces, commits, replay), \<open>HookKeys\<close>
    (\<open>HookEngineCommitUndo.cpp\<close>, macros, the restore of raw keys), \<open>HookDispatch\<close> (\<open>ProcessKeyDown\<close>, which runs the
    coordinator of \<open>Pipeline\<close> with the hook's own executors).  \<open>HookDoc\<close> says what the outputs do to the text
    before the caret; \<open>HookTyping\<close>, \<open>HookTrack\<close> and \<open>HookKey\<close> prove that one operation, one branch and one key keep
    engine, screen and stack in step; \<open>HookProps\<close> and \<open>HookUndoProps\<close> hold the properties.
  \<^item> Beside the hook: \<open>HotkeyRegistry\<close> (\<open>HotkeyRegistry.cpp\<close>), \<open>Hotkeys\<close> (\<open>HotkeyManager.cpp\<close>), \<open>Mailbox\<close>
    (\<open>HookCommandMailbox.cpp\<close>, its drain in \<open>HookEngine.cpp\<close>).
  \<^item> Browser: \<open>BrowserContext\<close> (\<open>BrowserContextState.h\<close>, \<open>BrowserContextManager.cpp\<close>), \<open>NativeMessaging\<close>
    (\<open>browser_host\<close>) and its proofs in \<open>NativeMessagingProofs\<close> and \<open>NativeMessagingProps\<close>.

  \<^bold>\<open>How the code is represented.\<close>  A class is a record and a method a function from the record to the
  updated record (and its result).  An \<open>int\<close> index that may be \<open>-1\<close> is an option; \<open>SIZE_MAX\<close> is \<open>None\<close>.
  Fixed-width integers whose overflow matters are words.  The engine record has a ghost field
  \<open>oobWrite\<close>, set when the code would store past the end of a vector, so that a theorem can speak of
  it.  The bytes of an image are a function from offsets, with the size passed beside it: the reader
  is shown never to depend on a byte past the size.  The sequence lock is a step relation that
  interleaves the writer and the readers under sequential consistency, with its 32-bit counter.
  The hook reads the system and the published settings through an environment per key (\<open>KeyEnv\<close>), which also says
  which outputs the application received; the outputs are a list, and a document of the model is the
  text before the caret that they and the native keys produce.  The mailbox is a step relation with
  one step per atomic access.  Callbacks of the hook, the system's Unicode library (normalization, case mapping), the C runtime's
  \<open>iswspace\<close> and the order in which a hash table is enumerated are arguments.  Loops are structural recursions or carry a measure; no fuel is used.

  \<^bold>\<open>What is proved.\<close>  The engine's invariant and its observable behaviour (preview, raw keys, commit, backspace,
  seeding); the shape of the accepted syllables; the order and the verdicts of the pipeline; the
  image of the lexicon (round trip, bounds, corruption, exact domain of the serializer) and its
  publication; the transaction over the files (atomicity under crashes, durability, completion); the text files of the lexicon and their agreement with the image; the shared settings;
  the decision functions; the supervision policies; macros and their prefix index; the mode table;
  the code tables and text operations; the hook's bookkeeping of the screen, the mailbox, the latch of the
  hotkeys, the macro undo, and the host of the browser extension.  The theorem on the document
  (\<open>document_follows_engine\<close>) is about runs of letters, spaces and backspaces that the predicate \<open>coveredRun\<close>
  describes: the outputs arrive (\<open>takesAll\<close>), the code table stays the same, no macro, hotkey or foreign
  mode takes the key, and the stack of committed words is in one of the situations that \<open>tracked\<close> lists, which
  exclude the one of \<open>older_word_reopened_wrongly\<close>.  The properties of the engine and the pipeline are in this theory and in
  \<open>Pipeline\<close>, the others at the end of the theory of their component.  Several theorems state defects of
  the code as it is (\<open>oob_write_reachable\<close>, \<open>decompose_composed\<close>, \<open>unvalidated_exclusions\<close>,
  \<open>newline_row_rejected\<close>, \<open>two_writers_torn\<close>, \<open>compound_base_truncated\<close>, \<open>context_longest_missed\<close>,
  \<open>load_from_map_torn\<close>, \<open>hash_word_lost\<close>, \<open>canonical_exceeds_wire\<close>,
  \<open>rollback_keeps_new_dictionary\<close>, \<open>older_word_reopened_wrongly\<close>, \<open>raw_restore_document\<close>,
  \<open>focus_bit_without_snapshot\<close>).

  \<^bold>\<open>Not modelled.\<close>  Focus tracking, the life cycle and the injection of the hook and the user interface (\<open>app\<close>), the text
  service (\<open>tsf\<close>) and the watchdog, which are calls of Win32 and COM; hotkey labels and the quick conversion; the
  configuration files and their TOML parser (\<open>ConfigManager.cpp\<close>), the mapping of shared memory, signature and trust checks
  through the operating system, logging, the external engine library, and the vendored code.
\<close>

section \<open>The typing engine\<close>

text \<open>C1. In every engine reachable from a new one by keys, backspaces, commits, resets and seeds,
  each character state is well formed (a lower-case non-zero base, a modifier that the base can
  carry, a tone only on a vowel), the configuration is the one the engine was built with, and the
  preview has exactly one character per state.\<close>

theorem engine_invariant:
  assumes "reachable cfg ops e"
  shows "wf_engine e \<and> config e = cfg \<and> length (Peek e) = Count e"
  using reachable_wf[OF assms] length_Peek_wf by blast

theorem engine_invariant_witness:
  "length (Peek (PushKey L_a False (newTypingEngine defaultTypingConfig))) =
   Count (PushKey L_a False (newTypingEngine defaultTypingConfig))"
  using engine_invariant[OF reachable_key[of L_a defaultTypingConfig False]] by simp



text \<open>C22. With a backspace the bound is lost: after the keys a, n, s, backspace, n, s in the default
  configuration, \<open>RestoreConsumedKeyInPlace\<close> has stored past the end of \<open>rawInput_\<close>.\<close>

theorem oob_write_reachable: "\<exists>ops e. reachable defaultTypingConfig ops e \<and> oobWrite e"
  by (rule reachable_oob)

text \<open>Every key is appended to the keystroke history, whatever the tone, modifier, escape and quick
  consonant rules do with it: after a reset, \<open>PeekRaw\<close> returns the keys typed.\<close>

theorem typed_history: "PeekRaw (typeKeys cs (Reset e)) = cs"
  by (simp add: PeekRaw_def typeKeys_history)

text \<open>C4. Seeding succeeds on exactly the texts all of whose characters decompose; the seeded engine
  is well formed and shows the text again, and a refused seed leaves the engine reset.\<close>

theorem seed_round_trip:
  "(if list_all (\<lambda>ch. DecomposeVietChar ch \<noteq> None) t
    then snd (SeedFromText t e) \<and> Peek (fst (SeedFromText t e)) = t \<and> wf_engine (fst (SeedFromText t e))
    else SeedFromText t e = (Reset e, False))"
proof (cases "snd (SeedFromText t e)")
  case True
  then have "SeedFromText t e = (fst (SeedFromText t e), True)" by (metis prod.collapse)
  from SeedFromText_wf_Peek[OF this] show ?thesis using True SeedFromText_accepts by simp
next
  case False
  then have "SeedFromText t e = (Reset e, False)"
    by (auto simp: SeedFromText_def Let_def split: option.splits)
  then show ?thesis using False SeedFromText_accepts[of t e] by simp
qed



text \<open>C14. A composed letter decomposes into its base, modifier, tone and case, except the upper-case
  tilde letters of i and u (U+0128 and U+0168): \<open>ToUpperVietnamese\<close> produces them and
  \<open>ToLowerVietnamese\<close> does not lower them, so \<open>DecomposeVietChar\<close> refuses them.\<close>

theorem decompose_composed:
  assumes "letter_cs s"
  shows "DecomposeVietChar (Compose s) =
    (if upperTilde s then None else Some (base s, modIndexOf (modifier s), ToneIndex (tone s), isUpper s))"
  by (rule DecomposeVietChar_Compose[OF assms])

theorem decompose_composed_witness:
  "DecomposeVietChar (Compose (initCharState\<lparr>base := L_i, tone := Tilde, isUpper := True\<rparr>)) = None"
proof -
  have "letter_cs (initCharState\<lparr>base := L_i, tone := Tilde, isUpper := True\<rparr>)"
    "upperTilde (initCharState\<lparr>base := L_i, tone := Tilde, isUpper := True\<rparr>)" by code_simp+
  then show ?thesis using decompose_composed by simp
qed

text \<open>C21. Without an active quick consonant or quick start key, a backspace removes exactly the last
  character of the preview.\<close>

theorem backspace_removes_last:
  assumes "wf_engine e" "quickStartKey e = 0" "resultIndex (qc e) = None"
  shows "Peek (Backspace e) = butlast (Peek e)"
  by (rule Backspace_plain_Peek[OF assms])

theorem backspace_removes_last_witness:
  "Peek (Backspace (fst (SeedFromText [L_a, L_n] (newTypingEngine defaultTypingConfig)))) = [L_a]"
proof -
  let ?e = "fst (SeedFromText [L_a, L_n] (newTypingEngine defaultTypingConfig))"
  have "Peek ?e = [L_a, L_n]" "quickStartKey ?e = 0" "resultIndex (qc ?e) = None"
    by (simp_all add: engine_eval cong: eval_cong split del: if_split)
  with backspace_removes_last[of ?e] show ?thesis by (simp add: wf_SeedFromText)
qed

text \<open>A commit empties the engine and returns the composed word or the raw keys, the latter
  possibly with the first one in upper case; with spell check or auto restore off and no quick
  consonant pending it returns the composed word.\<close>

theorem commit_output:
  "\<exists>e'. e' = fst (RevertProvisionalOoTone 0x20 e) \<and> fst (Commit e) = Reset e' \<and>
     snd (Commit e) \<in> {ComposeAll e', rawInput e', (rawInput e')[0 := towupper (rawInput e' ! 0)]} \<and>
     (if \<not> (spellCheckEnabled (config e) \<and> autoRestoreEnabled (config e)) \<and>
         quickStartKey e' = 0 \<and> \<not> onlyQC (qc e')
      then snd (Commit e) = ComposeAll e' else True)"
  using commitRestore_Some[of "fst (RevertProvisionalOoTone 0x20 e)"]
    commitRestore_off[of "fst (RevertProvisionalOoTone 0x20 e)"]
  by (auto simp: Commit_def Let_def Commit_Reset RevertProvisionalOoTone_frame split: option.splits)

text \<open>Three words typed on a new engine with the default configuration: tieengs gives
  U+0074 U+0069 U+1EBF U+006E U+0067, dduowcj gives U+0111 U+01B0 U+1EE3 U+0063, and committing text
  returns text.\<close>

theorem typing_examples:
  "Peek (typeKeys [L_t, L_i, L_e, L_e, L_n, L_g, L_s] (newTypingEngine defaultTypingConfig))
     = [L_t, L_i, 0x1EBF, L_n, L_g] \<and>
   Peek (typeKeys [L_d, L_d, L_u, L_o, L_w, L_c, L_j] (newTypingEngine defaultTypingConfig))
     = [0x111, 0x1B0, 0x1EE3, L_c] \<and>
   snd (Commit (typeKeys [L_t, L_e, L_x, L_t] (newTypingEngine defaultTypingConfig)))
     = [L_t, L_e, L_x, L_t]"
  by (intro conjI type_tieengs type_dduowcj commit_text)

end
